(* ===== verification/State_Codes.thy ===== *)
theory State_Codes
  imports Main
begin

text \<open>
  The status codes of \<^verbatim>\<open>core/aiot_state_api.h\<close>, one abbreviation per macro with the value
  the macro has (the header writes them as negated hexadecimal constants). Every
  \<^verbatim>\<open>int32_t\<close> status of the SDK is an \<open>int\<close> of the model; a negative value is an error
  or a piece of information, zero is success.
\<close>

abbreviation (input) STATE_SUCCESS :: int where "STATE_SUCCESS \<equiv> 0"
abbreviation (input) STATE_USER_INPUT_BASE :: int where "STATE_USER_INPUT_BASE \<equiv> - 256"
abbreviation (input) STATE_USER_INPUT_NULL_POINTER :: int where "STATE_USER_INPUT_NULL_POINTER \<equiv> - 257"
abbreviation (input) STATE_USER_INPUT_OUT_RANGE :: int where "STATE_USER_INPUT_OUT_RANGE \<equiv> - 258"
abbreviation (input) STATE_USER_INPUT_UNKNOWN_OPTION :: int where "STATE_USER_INPUT_UNKNOWN_OPTION \<equiv> - 259"
abbreviation (input) STATE_USER_INPUT_MISSING_PRODUCT_KEY :: int where "STATE_USER_INPUT_MISSING_PRODUCT_KEY \<equiv> - 260"
abbreviation (input) STATE_USER_INPUT_MISSING_DEVICE_NAME :: int where "STATE_USER_INPUT_MISSING_DEVICE_NAME \<equiv> - 261"
abbreviation (input) STATE_USER_INPUT_MISSING_DEVICE_SECRET :: int where "STATE_USER_INPUT_MISSING_DEVICE_SECRET \<equiv> - 262"
abbreviation (input) STATE_USER_INPUT_MISSING_PRODUCT_SECRET :: int where "STATE_USER_INPUT_MISSING_PRODUCT_SECRET \<equiv> - 263"
abbreviation (input) STATE_USER_INPUT_MISSING_HOST :: int where "STATE_USER_INPUT_MISSING_HOST \<equiv> - 264"
abbreviation (input) STATE_USER_INPUT_EXEC_DISABLED :: int where "STATE_USER_INPUT_EXEC_DISABLED \<equiv> - 265"
abbreviation (input) STATE_USER_INPUT_JSON_PARSE_FAILED :: int where "STATE_USER_INPUT_JSON_PARSE_FAILED \<equiv> - 266"
abbreviation (input) STATE_SYS_DEPEND_BASE :: int where "STATE_SYS_DEPEND_BASE \<equiv> - 512"
abbreviation (input) STATE_SYS_DEPEND_MALLOC_FAILED :: int where "STATE_SYS_DEPEND_MALLOC_FAILED \<equiv> - 513"
abbreviation (input) STATE_SYS_DEPEND_NWK_INVALID_OPTION :: int where "STATE_SYS_DEPEND_NWK_INVALID_OPTION \<equiv> - 514"
abbreviation (input) STATE_SYS_DEPEND_NWK_EST_FAILED :: int where "STATE_SYS_DEPEND_NWK_EST_FAILED \<equiv> - 515"
abbreviation (input) STATE_SYS_DEPEND_NWK_CLOSED :: int where "STATE_SYS_DEPEND_NWK_CLOSED \<equiv> - 516"
abbreviation (input) STATE_SYS_DEPEND_NWK_READ_LESSDATA :: int where "STATE_SYS_DEPEND_NWK_READ_LESSDATA \<equiv> - 517"
abbreviation (input) STATE_SYS_DEPEND_NWK_WRITE_LESSDATA :: int where "STATE_SYS_DEPEND_NWK_WRITE_LESSDATA \<equiv> - 518"
abbreviation (input) STATE_SYS_DEPEND_NWK_READ_OVERTIME :: int where "STATE_SYS_DEPEND_NWK_READ_OVERTIME \<equiv> - 519"
abbreviation (input) STATE_SYS_DEPEND_NWK_INVALID_CRED :: int where "STATE_SYS_DEPEND_NWK_INVALID_CRED \<equiv> - 520"
abbreviation (input) STATE_SYS_DEPEND_NWK_SEND_ERR :: int where "STATE_SYS_DEPEND_NWK_SEND_ERR \<equiv> - 521"
abbreviation (input) STATE_SYS_DEPEND_NWK_RECV_ERR :: int where "STATE_SYS_DEPEND_NWK_RECV_ERR \<equiv> - 522"
abbreviation (input) STATE_MQTT_BASE :: int where "STATE_MQTT_BASE \<equiv> - 768"
abbreviation (input) STATE_MQTT_CONNACK_FMT_ERROR :: int where "STATE_MQTT_CONNACK_FMT_ERROR \<equiv> - 769"
abbreviation (input) STATE_MQTT_CONNACK_RCODE_UNACCEPTABLE_PROTOCOL_VERSION :: int where "STATE_MQTT_CONNACK_RCODE_UNACCEPTABLE_PROTOCOL_VERSION \<equiv> - 770"
abbreviation (input) STATE_MQTT_CONNACK_RCODE_SERVER_UNAVAILABLE :: int where "STATE_MQTT_CONNACK_RCODE_SERVER_UNAVAILABLE \<equiv> - 771"
abbreviation (input) STATE_MQTT_CONNACK_RCODE_BAD_USERNAME_PASSWORD :: int where "STATE_MQTT_CONNACK_RCODE_BAD_USERNAME_PASSWORD \<equiv> - 772"
abbreviation (input) STATE_MQTT_CONNACK_RCODE_NOT_AUTHORIZED :: int where "STATE_MQTT_CONNACK_RCODE_NOT_AUTHORIZED \<equiv> - 773"
abbreviation (input) STATE_MQTT_CONNACK_RCODE_UNKNOWN :: int where "STATE_MQTT_CONNACK_RCODE_UNKNOWN \<equiv> - 774"
abbreviation (input) STATE_MQTT_PUBLIST_PACKET_ID_ROLL :: int where "STATE_MQTT_PUBLIST_PACKET_ID_ROLL \<equiv> - 775"
abbreviation (input) STATE_MQTT_TOPIC_INVALID :: int where "STATE_MQTT_TOPIC_INVALID \<equiv> - 776"
abbreviation (input) STATE_MQTT_LOG_TOPIC :: int where "STATE_MQTT_LOG_TOPIC \<equiv> - 777"
abbreviation (input) STATE_MQTT_LOG_HEXDUMP :: int where "STATE_MQTT_LOG_HEXDUMP \<equiv> - 778"
abbreviation (input) STATE_MQTT_CONNECT_SUCCESS :: int where "STATE_MQTT_CONNECT_SUCCESS \<equiv> - 779"
abbreviation (input) STATE_MQTT_MALFORMED_REMAINING_LEN :: int where "STATE_MQTT_MALFORMED_REMAINING_LEN \<equiv> - 780"
abbreviation (input) STATE_MQTT_MALFORMED_REMAINING_BYTES :: int where "STATE_MQTT_MALFORMED_REMAINING_BYTES \<equiv> - 781"
abbreviation (input) STATE_MQTT_PACKET_TYPE_UNKNOWN :: int where "STATE_MQTT_PACKET_TYPE_UNKNOWN \<equiv> - 782"
abbreviation (input) STATE_MQTT_SUBACK_RCODE_FAILURE :: int where "STATE_MQTT_SUBACK_RCODE_FAILURE \<equiv> - 783"
abbreviation (input) STATE_MQTT_SUBACK_RCODE_UNKNOWN :: int where "STATE_MQTT_SUBACK_RCODE_UNKNOWN \<equiv> - 784"
abbreviation (input) STATE_MQTT_TOPIC_COMPARE_FAILED :: int where "STATE_MQTT_TOPIC_COMPARE_FAILED \<equiv> - 785"
abbreviation (input) STATE_MQTT_DEINIT_TIMEOUT :: int where "STATE_MQTT_DEINIT_TIMEOUT \<equiv> - 786"
abbreviation (input) STATE_MQTT_LOG_CONNECT :: int where "STATE_MQTT_LOG_CONNECT \<equiv> - 787"
abbreviation (input) STATE_MQTT_LOG_RECONNECTING :: int where "STATE_MQTT_LOG_RECONNECTING \<equiv> - 788"
abbreviation (input) STATE_MQTT_LOG_CONNECT_TIMEOUT :: int where "STATE_MQTT_LOG_CONNECT_TIMEOUT \<equiv> - 789"
abbreviation (input) STATE_MQTT_LOG_DISCONNECT :: int where "STATE_MQTT_LOG_DISCONNECT \<equiv> - 790"
abbreviation (input) STATE_MQTT_LOG_USERNAME :: int where "STATE_MQTT_LOG_USERNAME \<equiv> - 791"
abbreviation (input) STATE_MQTT_LOG_PASSWORD :: int where "STATE_MQTT_LOG_PASSWORD \<equiv> - 792"
abbreviation (input) STATE_MQTT_LOG_CLIENTID :: int where "STATE_MQTT_LOG_CLIENTID \<equiv> - 793"
abbreviation (input) STATE_MQTT_LOG_TLS_PSK :: int where "STATE_MQTT_LOG_TLS_PSK \<equiv> - 794"
abbreviation (input) STATE_MQTT_TOPIC_TOO_LONG :: int where "STATE_MQTT_TOPIC_TOO_LONG \<equiv> - 795"
abbreviation (input) STATE_MQTT_PUB_PAYLOAD_TOO_LONG :: int where "STATE_MQTT_PUB_PAYLOAD_TOO_LONG \<equiv> - 796"
abbreviation (input) STATE_MQTT_LOG_BACKUP_IP :: int where "STATE_MQTT_LOG_BACKUP_IP \<equiv> - 797"
abbreviation (input) STATE_MQTT_RECV_INVALID_PINRESP_PACKET :: int where "STATE_MQTT_RECV_INVALID_PINRESP_PACKET \<equiv> - 798"
abbreviation (input) STATE_MQTT_RECV_INVALID_PUBLISH_PACKET :: int where "STATE_MQTT_RECV_INVALID_PUBLISH_PACKET \<equiv> - 799"
abbreviation (input) STATE_MQTT_RECV_INVALID_PUBACK_PACKET :: int where "STATE_MQTT_RECV_INVALID_PUBACK_PACKET \<equiv> - 800"
abbreviation (input) STATE_MQTT_UNKNOWN_PROPERTY_OPTION :: int where "STATE_MQTT_UNKNOWN_PROPERTY_OPTION \<equiv> - 801"
abbreviation (input) STATE_MQTT_INVALID_PROTOCOL_VERSION :: int where "STATE_MQTT_INVALID_PROTOCOL_VERSION \<equiv> - 802"
abbreviation (input) STATE_MQTT_RECV_INVALID_SERVER_DISCONNECT_PACKET :: int where "STATE_MQTT_RECV_INVALID_SERVER_DISCONNECT_PACKET \<equiv> - 803"
abbreviation (input) STATE_MQTT_INVALID_USER_PERPERTY_DATA :: int where "STATE_MQTT_INVALID_USER_PERPERTY_DATA \<equiv> - 804"
abbreviation (input) STATE_MQTT_INVALID_USER_PERPERTY_LEN :: int where "STATE_MQTT_INVALID_USER_PERPERTY_LEN \<equiv> - 805"
abbreviation (input) STATE_MQTT_INVALID_TX_PACK_SIZE :: int where "STATE_MQTT_INVALID_TX_PACK_SIZE \<equiv> - 806"
abbreviation (input) STATE_MQTT_RECEIVE_MAX_EXCEEDED :: int where "STATE_MQTT_RECEIVE_MAX_EXCEEDED \<equiv> - 807"
abbreviation (input) STATE_MQTT_INVALID_SUBSCRIPTION_IDENTIFIER :: int where "STATE_MQTT_INVALID_SUBSCRIPTION_IDENTIFIER \<equiv> - 808"
abbreviation (input) STATE_MQTT_INVALID_PROPERTY_LEN :: int where "STATE_MQTT_INVALID_PROPERTY_LEN \<equiv> - 809"
abbreviation (input) STATE_HTTP_BASE :: int where "STATE_HTTP_BASE \<equiv> - 1024"
abbreviation (input) STATE_HTTP_STATUS_LINE_INVALID :: int where "STATE_HTTP_STATUS_LINE_INVALID \<equiv> - 1025"
abbreviation (input) STATE_HTTP_READ_BODY_FINISHED :: int where "STATE_HTTP_READ_BODY_FINISHED \<equiv> - 1026"
abbreviation (input) STATE_HTTP_DEINIT_TIMEOUT :: int where "STATE_HTTP_DEINIT_TIMEOUT \<equiv> - 1027"
abbreviation (input) STATE_HTTP_AUTH_CODE_FAILED :: int where "STATE_HTTP_AUTH_CODE_FAILED \<equiv> - 1028"
abbreviation (input) STATE_HTTP_AUTH_NOT_FINISHED :: int where "STATE_HTTP_AUTH_NOT_FINISHED \<equiv> - 1029"
abbreviation (input) STATE_HTTP_AUTH_TOKEN_FAILED :: int where "STATE_HTTP_AUTH_TOKEN_FAILED \<equiv> - 1030"
abbreviation (input) STATE_HTTP_NEED_AUTH :: int where "STATE_HTTP_NEED_AUTH \<equiv> - 1031"
abbreviation (input) STATE_HTTP_RECV_NOT_FINISHED :: int where "STATE_HTTP_RECV_NOT_FINISHED \<equiv> - 1032"
abbreviation (input) STATE_HTTP_HEADER_BUFFER_TOO_SHORT :: int where "STATE_HTTP_HEADER_BUFFER_TOO_SHORT \<equiv> - 1033"
abbreviation (input) STATE_HTTP_HEADER_INVALID :: int where "STATE_HTTP_HEADER_INVALID \<equiv> - 1034"
abbreviation (input) STATE_HTTP_LOG_SEND_HEADER :: int where "STATE_HTTP_LOG_SEND_HEADER \<equiv> - 1035"
abbreviation (input) STATE_HTTP_LOG_SEND_CONTENT :: int where "STATE_HTTP_LOG_SEND_CONTENT \<equiv> - 1036"
abbreviation (input) STATE_HTTP_LOG_RECV_HEADER :: int where "STATE_HTTP_LOG_RECV_HEADER \<equiv> - 1037"
abbreviation (input) STATE_HTTP_LOG_RECV_CONTENT :: int where "STATE_HTTP_LOG_RECV_CONTENT \<equiv> - 1038"
abbreviation (input) STATE_HTTP_LOG_DISCONNECT :: int where "STATE_HTTP_LOG_DISCONNECT \<equiv> - 1039"
abbreviation (input) STATE_HTTP_LOG_AUTH :: int where "STATE_HTTP_LOG_AUTH \<equiv> - 1040"
abbreviation (input) STATE_HTTP_AUTH_NOT_EXPECTED :: int where "STATE_HTTP_AUTH_NOT_EXPECTED \<equiv> - 1041"
abbreviation (input) STATE_HTTP_READ_BODY_EMPTY :: int where "STATE_HTTP_READ_BODY_EMPTY \<equiv> - 1042"
abbreviation (input) STATE_PORT_BASE :: int where "STATE_PORT_BASE \<equiv> - 3840"
abbreviation (input) STATE_PORT_INPUT_NULL_POINTER :: int where "STATE_PORT_INPUT_NULL_POINTER \<equiv> - 3841"
abbreviation (input) STATE_PORT_INPUT_OUT_RANGE :: int where "STATE_PORT_INPUT_OUT_RANGE \<equiv> - 3842"
abbreviation (input) STATE_PORT_MALLOC_FAILED :: int where "STATE_PORT_MALLOC_FAILED \<equiv> - 3843"
abbreviation (input) STATE_PORT_MISSING_HOST :: int where "STATE_PORT_MISSING_HOST \<equiv> - 3844"
abbreviation (input) STATE_PORT_TCP_CLIENT_NOT_IMPLEMENT :: int where "STATE_PORT_TCP_CLIENT_NOT_IMPLEMENT \<equiv> - 3845"
abbreviation (input) STATE_PORT_TCP_SERVER_NOT_IMPLEMENT :: int where "STATE_PORT_TCP_SERVER_NOT_IMPLEMENT \<equiv> - 3846"
abbreviation (input) STATE_PORT_UDP_CLIENT_NOT_IMPLEMENT :: int where "STATE_PORT_UDP_CLIENT_NOT_IMPLEMENT \<equiv> - 3847"
abbreviation (input) STATE_PORT_UDP_SERVER_NOT_IMPLEMENT :: int where "STATE_PORT_UDP_SERVER_NOT_IMPLEMENT \<equiv> - 3848"
abbreviation (input) STATE_PORT_NETWORK_UNKNOWN_OPTION :: int where "STATE_PORT_NETWORK_UNKNOWN_OPTION \<equiv> - 3849"
abbreviation (input) STATE_PORT_NETWORK_UNKNOWN_SOCKET_TYPE :: int where "STATE_PORT_NETWORK_UNKNOWN_SOCKET_TYPE \<equiv> - 3850"
abbreviation (input) STATE_PORT_NETWORK_DNS_FAILED :: int where "STATE_PORT_NETWORK_DNS_FAILED \<equiv> - 3851"
abbreviation (input) STATE_PORT_NETWORK_SOCKET_CREATE_FAILED :: int where "STATE_PORT_NETWORK_SOCKET_CREATE_FAILED \<equiv> - 3852"
abbreviation (input) STATE_PORT_NETWORK_SOCKET_CONFIG_FAILED :: int where "STATE_PORT_NETWORK_SOCKET_CONFIG_FAILED \<equiv> - 3853"
abbreviation (input) STATE_PORT_NETWORK_SOCKET_BIND_FAILED :: int where "STATE_PORT_NETWORK_SOCKET_BIND_FAILED \<equiv> - 3854"
abbreviation (input) STATE_PORT_NETWORK_CONNECT_TIMEOUT :: int where "STATE_PORT_NETWORK_CONNECT_TIMEOUT \<equiv> - 3855"
abbreviation (input) STATE_PORT_NETWORK_CONNECT_FAILED :: int where "STATE_PORT_NETWORK_CONNECT_FAILED \<equiv> - 3856"
abbreviation (input) STATE_PORT_NETWORK_SELECT_FAILED :: int where "STATE_PORT_NETWORK_SELECT_FAILED \<equiv> - 3857"
abbreviation (input) STATE_PORT_NETWORK_SEND_FAILED :: int where "STATE_PORT_NETWORK_SEND_FAILED \<equiv> - 3858"
abbreviation (input) STATE_PORT_NETWORK_RECV_FAILED :: int where "STATE_PORT_NETWORK_RECV_FAILED \<equiv> - 3859"
abbreviation (input) STATE_PORT_NETWORK_SEND_CONNECTION_CLOSED :: int where "STATE_PORT_NETWORK_SEND_CONNECTION_CLOSED \<equiv> - 3860"
abbreviation (input) STATE_PORT_NETWORK_RECV_CONNECTION_CLOSED :: int where "STATE_PORT_NETWORK_RECV_CONNECTION_CLOSED \<equiv> - 3861"
abbreviation (input) STATE_PORT_TLS_INVALID_CRED_OPTION :: int where "STATE_PORT_TLS_INVALID_CRED_OPTION \<equiv> - 3862"
abbreviation (input) STATE_PORT_TLS_INVALID_MAX_FRAGMENT :: int where "STATE_PORT_TLS_INVALID_MAX_FRAGMENT \<equiv> - 3863"
abbreviation (input) STATE_PORT_TLS_INVALID_SERVER_CERT :: int where "STATE_PORT_TLS_INVALID_SERVER_CERT \<equiv> - 3864"
abbreviation (input) STATE_PORT_TLS_INVALID_CLIENT_CERT :: int where "STATE_PORT_TLS_INVALID_CLIENT_CERT \<equiv> - 3865"
abbreviation (input) STATE_PORT_TLS_INVALID_CLIENT_KEY :: int where "STATE_PORT_TLS_INVALID_CLIENT_KEY \<equiv> - 3866"
abbreviation (input) STATE_PORT_TLS_SOCKET_CREATE_FAILED :: int where "STATE_PORT_TLS_SOCKET_CREATE_FAILED \<equiv> - 3867"
abbreviation (input) STATE_PORT_TLS_SOCKET_CONNECT_FAILED :: int where "STATE_PORT_TLS_SOCKET_CONNECT_FAILED \<equiv> - 3868"
abbreviation (input) STATE_PORT_TLS_INVALID_RECORD :: int where "STATE_PORT_TLS_INVALID_RECORD \<equiv> - 3869"
abbreviation (input) STATE_PORT_TLS_RECV_FAILED :: int where "STATE_PORT_TLS_RECV_FAILED \<equiv> - 3870"
abbreviation (input) STATE_PORT_TLS_SEND_FAILED :: int where "STATE_PORT_TLS_SEND_FAILED \<equiv> - 3871"
abbreviation (input) STATE_PORT_TLS_RECV_CONNECTION_CLOSED :: int where "STATE_PORT_TLS_RECV_CONNECTION_CLOSED \<equiv> - 3872"
abbreviation (input) STATE_PORT_TLS_SEND_CONNECTION_CLOSED :: int where "STATE_PORT_TLS_SEND_CONNECTION_CLOSED \<equiv> - 3873"
abbreviation (input) STATE_PORT_TLS_CONFIG_PSK_FAILED :: int where "STATE_PORT_TLS_CONFIG_PSK_FAILED \<equiv> - 3874"
abbreviation (input) STATE_PORT_TLS_INVALID_HANDSHAKE :: int where "STATE_PORT_TLS_INVALID_HANDSHAKE \<equiv> - 3875"
abbreviation (input) STATE_PORT_DTLS_CONFIG_PSK_FAILED :: int where "STATE_PORT_DTLS_CONFIG_PSK_FAILED \<equiv> - 3876"
abbreviation (input) STATE_PORT_DTLS_HANDSHAKE_FAILED :: int where "STATE_PORT_DTLS_HANDSHAKE_FAILED \<equiv> - 3877"
abbreviation (input) STATE_PORT_NETWORK_DTLS_CONNECT_FAILED :: int where "STATE_PORT_NETWORK_DTLS_CONNECT_FAILED \<equiv> - 3878"
abbreviation (input) STATE_PORT_DTLS_HANDSHAKE_IN_PROGRESS :: int where "STATE_PORT_DTLS_HANDSHAKE_IN_PROGRESS \<equiv> - 3879"
abbreviation (input) STATE_ADAPTER_COMMON :: int where "STATE_ADAPTER_COMMON \<equiv> - 4096"

end
