(* ===== verification/Prelude.thy ===== *)
theory Prelude
  imports Main "HOL-Library.Word" "HOL-Library.State_Monad" "HOL-Library.Monad_Syntax"
    State_Codes
begin

text \<open>
  What the components share: bytes and C strings, the outcome of a C routine that may touch
  memory it does not own, the collections of facts the proofs draw on, big-endian fields, and
  the small calculus for the state monad in which the stateful routines are written.
\<close>

unbundle bit_operations_syntax

section \<open>Bytes and C strings\<close>

type_synonym byte = "8 word"

text \<open>The bytes of a string literal, without the terminating NUL.\<close>

definition str :: "string \<Rightarrow> byte list" where
  "str s = map of_char s"

lemma str_simps [simp]:
  "str [] = []" "str (c # cs) = of_char c # str cs" "length (str s) = length s"
  by (simp_all add: str_def)

text \<open>A byte list that a C string can hold: no NUL inside.\<close>

definition cstr :: "byte list \<Rightarrow> bool" where
  "cstr bs \<longleftrightarrow> 0 \<notin> set bs"

lemma cstr_simps [simp]:
  "cstr []" "cstr (b # bs) \<longleftrightarrow> b \<noteq> 0 \<and> cstr bs" "cstr (as @ bs) \<longleftrightarrow> cstr as \<and> cstr bs"
  by (auto simp: cstr_def)

abbreviation is_digit :: "byte \<Rightarrow> bool" where
  "is_digit b \<equiv> 48 \<le> b \<and> b \<le> 57"

section \<open>Outcomes\<close>

text \<open>
  A routine that reads and writes C memory has three kinds of outcome: \<open>Ret v\<close> is the
  status \<open>STATE_SUCCESS\<close> with the values it writes through its output pointers,
  \<open>Fail c\<close> the status \<open>c\<close> with nothing written, \<open>Fault\<close> an access outside the
  buffers the routine was given (undefined behaviour in C).
\<close>

datatype 'a outcome = Fault | Fail int | Ret 'a

fun obind :: "'a outcome \<Rightarrow> ('a \<Rightarrow> 'b outcome) \<Rightarrow> 'b outcome" where
  "obind Fault f = Fault"
| "obind (Fail c) f = Fail c"
| "obind (Ret v) f = f v"

lemma obind_eq_Ret: "obind m f = Ret v \<longleftrightarrow> (\<exists>u. m = Ret u \<and> f u = Ret v)"
  by (cases m) auto

lemma obind_eq_Fail:
  "obind m f = Fail c \<longleftrightarrow> m = Fail c \<or> (\<exists>u. m = Ret u \<and> f u = Fail c)"
  by (cases m) auto

lemma obind_eq_Fault:
  "obind m f = Fault \<longleftrightarrow> m = Fault \<or> (\<exists>u. m = Ret u \<and> f u = Fault)"
  by (cases m) auto

text \<open>A read of one byte at an index, with the bounds of the buffer checked.\<close>

definition rd :: "byte list \<Rightarrow> nat \<Rightarrow> byte outcome" where
  "rd bs i = (if i < length bs then Ret (bs ! i) else Fault)"

text \<open>A block read, what \<^verbatim>\<open>memcpy\<close> and \<^verbatim>\<open>memcmp\<close> read from a source.\<close>

definition rd_block :: "byte list \<Rightarrow> nat \<Rightarrow> nat \<Rightarrow> byte list outcome" where
  "rd_block bs i n = (if i + n \<le> length bs then Ret (take n (drop i bs)) else Fault)"

lemma rd_in [simp]: "i < length bs \<Longrightarrow> rd bs i = Ret (bs ! i)"
  by (simp add: rd_def)

lemma rd_append_left [simp]: "i < length as \<Longrightarrow> rd (as @ bs) i = rd as i"
  by (simp add: rd_def nth_append)

lemma rd_block_append_right [simp]:
  "rd_block (as @ bs) (length as + i) n = rd_block bs i n"
  by (simp add: rd_block_def)

lemma rd_append_right [simp]: "rd (as @ bs) (length as + i) = rd bs i"
  by (simp add: rd_def nth_append)

section \<open>Decimal digits\<close>

text \<open>The number a list of ASCII digits denotes, most significant digit first.\<close>

definition dec_val :: "byte list \<Rightarrow> nat" where
  "dec_val bs = foldl (\<lambda>a b. 10 * a + (unat b - 48)) 0 bs"

lemma dec_val_snoc [simp]: "dec_val (bs @ [b]) = 10 * dec_val bs + (unat b - 48)"
  by (simp add: dec_val_def)

lemma dec_val_Nil [simp]: "dec_val [] = 0"
  by (simp add: dec_val_def)

section \<open>Fixed-width fields, most significant byte first\<close>

definition put_be16 :: "nat \<Rightarrow> byte list" where
  "put_be16 n = [of_nat (n div 256), of_nat n]"

definition get_be16 :: "byte \<Rightarrow> byte \<Rightarrow> nat" where
  "get_be16 h l = unat h * 256 + unat l"

lemma length_put_be16 [simp]: "length (put_be16 n) = 2"
  by (simp add: put_be16_def)

lemma get_put_be16:
  assumes "n < 65536"
  shows "get_be16 (of_nat (n div 256)) (of_nat n) = n"
  using assms by (simp add: get_be16_def unat_of_nat)

lemma get_be16_less: "get_be16 h l < 65536"
  using unsigned_less [of h, where 'a = nat] unsigned_less [of l, where 'a = nat]
  by (simp add: get_be16_def)

definition put_be32 :: "32 word \<Rightarrow> byte list" where
  "put_be32 n = [ucast (drop_bit 24 n), ucast (drop_bit 16 n), ucast (drop_bit 8 n), ucast n]"

definition get_be32 :: "byte \<Rightarrow> byte \<Rightarrow> byte \<Rightarrow> byte \<Rightarrow> 32 word" where
  "get_be32 a b c d = push_bit 24 (ucast a) OR push_bit 16 (ucast b) OR push_bit 8 (ucast c) OR ucast d"

lemma length_put_be32 [simp]: "length (put_be32 n) = 4"
  by (simp add: put_be32_def)

lemma get_put_be32:
  "get_be32 (ucast (drop_bit 24 n)) (ucast (drop_bit 16 n)) (ucast (drop_bit 8 n)) (ucast n) = n"
proof (rule bit_word_eqI)
  fix i assume "i < LENGTH(32)"
  moreover have "i < 8 \<or> 8 \<le> i \<and> i < 16 \<or> 16 \<le> i \<and> i < 24 \<or> 24 \<le> i" by linarith
  ultimately show "bit (get_be32 (ucast (drop_bit 24 n)) (ucast (drop_bit 16 n))
      (ucast (drop_bit 8 n)) (ucast n)) i = bit n i"
    by (auto simp: get_be32_def bit_simps)
qed

section \<open>Rotation by two shifts\<close>

lemma rotl_shifts: "push_bit (y mod 32) x OR drop_bit (32 - y mod 32) x = word_rotl y (x :: 32 word)"
proof (rule bit_word_eqI)
  fix i assume "i < LENGTH(32)"
  then have i: "i < 32" by simp
  define r where "r = y mod 32"
  have r: "r < 32" by (simp add: r_def)
  have rotl: "bit (word_rotl y x) i = bit x ((i + (32 - r)) mod 32)"
    using i by (simp only: bit_word_rotl_iff r_def) simp
  have rotl': "bit (push_bit r x OR drop_bit (32 - r) x) i \<longleftrightarrow> r \<le> i \<and> bit x (i - r) \<or> bit x (32 - r + i)"
    using i by (simp only: bit_or_iff bit_push_bit_iff bit_drop_bit_eq o_def) simp
  have "bit (push_bit r x OR drop_bit (32 - r) x) i = bit (word_rotl y x) i"
  proof (cases "r \<le> i")
    case True
    then have "(i + (32 - r)) mod 32 = i - r" using i r by (simp add: mod_if)
    moreover have "\<not> bit x (32 - r + i)"
      using True r bit_imp_le_length [of x "32 - r + i"] by auto
    ultimately show ?thesis using True rotl rotl' by simp
  next
    case False
    then have "(i + (32 - r)) mod 32 = 32 - r + i" using r by simp
    then show ?thesis using False rotl rotl' by simp
  qed
  then show "bit (push_bit (y mod 32) x OR drop_bit (32 - y mod 32) x) i = bit (word_rotl y x) i"
    by (simp only: r_def)
qed

section \<open>The calculus for the state monad\<close>

text \<open>
  \<open>wp m Q s\<close>: running \<open>m\<close> from \<open>s\<close> gives a result and a state that satisfy
  \<open>Q\<close>. The equations turn a routine, one call after the other, into the condition on its
  start state. \<open>keeps f m\<close>: \<open>m\<close> leaves the part \<open>f\<close> of the state as it was.
  \<open>preserves I m\<close>: \<open>m\<close> keeps the invariant \<open>I\<close>.
\<close>

named_theorems keeps_rules \<open>rules that show a routine leaves a part of the state alone\<close>
named_theorems pres_rules \<open>rules that show a routine keeps an invariant\<close>
named_theorems run_simps \<open>equations that run the routines\<close>

definition wp :: "('s, 'a) state \<Rightarrow> ('a \<Rightarrow> 's \<Rightarrow> bool) \<Rightarrow> 's \<Rightarrow> bool" where
  "wp m Q s = (case run_state m s of (r, s') \<Rightarrow> Q r s')"

lemma wp_bind [simp]: "wp (m \<bind> f) Q s = wp m (\<lambda>r. wp (f r) Q) s"
  by (simp add: wp_def split: prod.split)

lemma wp_return [simp]: "wp (State_Monad.return x) Q s = Q x s"
  by (simp add: wp_def)

lemma wp_get [simp]: "wp State_Monad.get Q s = Q s s"
  by (simp add: wp_def)

lemma wp_set [simp]: "wp (State_Monad.set t) Q s = Q () t"
  by (simp add: wp_def)

lemma wp_if: "wp (if b then m else n) Q s = (if b then wp m Q s else wp n Q s)"
  by simp

definition modify :: "('s \<Rightarrow> 's) \<Rightarrow> ('s, unit) state" where
  "modify f = State_Monad.get \<bind> (\<lambda>s. State_Monad.set (f s))"

abbreviation ret :: "'a \<Rightarrow> ('s, 'a) state" where
  "ret \<equiv> State_Monad.return"

text \<open>A statement that is run only when a condition holds.\<close>

abbreviation on :: "bool \<Rightarrow> ('s, unit) state \<Rightarrow> ('s, unit) state" where
  "on b m \<equiv> (if b then m else State_Monad.return ())"

definition gets :: "('s \<Rightarrow> 'a) \<Rightarrow> ('s, 'a) state" where
  "gets f = State_Monad.get \<bind> (\<lambda>s. State_Monad.return (f s))"

lemma run_modify [simp, run_simps]: "run_state (modify f) s = ((), f s)"
  by (simp add: modify_def)

lemma run_gets [simp, run_simps]: "run_state (gets f) s = (f s, s)"
  by (simp add: gets_def)

lemma wp_modify [simp]: "wp (modify f) Q s = Q () (f s)"
  by (simp add: wp_def)

lemma wp_gets [simp]: "wp (gets f) Q s = Q (f s) s"
  by (simp add: wp_def)

lemma wp_mono: "wp m Q s \<Longrightarrow> (\<And>r t. Q r t \<Longrightarrow> R r t) \<Longrightarrow> wp m R s"
  by (simp add: wp_def split: prod.splits)

lemma wp_run: "wp m Q s \<Longrightarrow> run_state m s = (r, t) \<Longrightarrow> Q r t"
  by (simp add: wp_def)

lemma wp_conj: "wp m Q s \<Longrightarrow> wp m R s \<Longrightarrow> wp m (\<lambda>r t. Q r t \<and> R r t) s"
  by (simp add: wp_def split: prod.splits)

definition preserves :: "('s \<Rightarrow> bool) \<Rightarrow> ('s, 'a) state \<Rightarrow> bool" where
  "preserves I m \<longleftrightarrow> (\<forall>s. I s \<longrightarrow> I (snd (run_state m s)))"

lemma preservesI: "(\<And>s. I s \<Longrightarrow> wp m (\<lambda>_. I) s) \<Longrightarrow> preserves I m"
  by (simp add: preserves_def wp_def split_beta)

lemma preservesD: "preserves I m \<Longrightarrow> I s \<Longrightarrow> I (snd (run_state m s))"
  by (simp add: preserves_def)

lemma pres_bind [pres_rules]:
  "preserves I m \<Longrightarrow> (\<And>x. preserves I (f x)) \<Longrightarrow> preserves I (m \<bind> f)"
  by (simp add: preserves_def split_beta)

lemma pres_return [pres_rules]: "preserves I (State_Monad.return x)"
  by (simp add: preserves_def)

lemma pres_get [pres_rules]: "preserves I State_Monad.get"
  by (simp add: preserves_def)

lemma pres_gets [pres_rules]: "preserves I (gets f)"
  by (simp add: preserves_def)

lemma pres_if [pres_rules]:
  "(b \<Longrightarrow> preserves I m) \<Longrightarrow> (\<not> b \<Longrightarrow> preserves I n) \<Longrightarrow> preserves I (if b then m else n)"
  by simp

lemma pres_case_option [pres_rules]:
  "(x = None \<Longrightarrow> preserves I m) \<Longrightarrow> (\<And>y. x = Some y \<Longrightarrow> preserves I (f y)) \<Longrightarrow>
   preserves I (case x of None \<Rightarrow> m | Some y \<Rightarrow> f y)"
  by (cases x) auto

lemma pres_case_prod [pres_rules]:
  "(\<And>a b. x = (a, b) \<Longrightarrow> preserves I (f a b)) \<Longrightarrow> preserves I (case x of (a, b) \<Rightarrow> f a b)"
  by (cases x) auto

lemma pres_case_outcome [pres_rules]:
  "(x = Fault \<Longrightarrow> preserves I m) \<Longrightarrow> (\<And>c. x = Fail c \<Longrightarrow> preserves I (f c)) \<Longrightarrow>
   (\<And>v. x = Ret v \<Longrightarrow> preserves I (g v)) \<Longrightarrow>
   preserves I (case x of Fault \<Rightarrow> m | Fail c \<Rightarrow> f c | Ret v \<Rightarrow> g v)"
  by (cases x) auto

lemma pres_modify: "(\<And>s. I s \<Longrightarrow> I (f s)) \<Longrightarrow> preserves I (modify f)"
  by (simp add: preserves_def)

text \<open>A routine that keeps a part of the state keeps every invariant of that part.\<close>

definition keeps :: "('s \<Rightarrow> 'b) \<Rightarrow> ('s, 'a) state \<Rightarrow> bool" where
  "keeps f m \<longleftrightarrow> (\<forall>v. preserves (\<lambda>s. f s = v) m)"

lemma keepsD: "keeps f m \<Longrightarrow> f (snd (run_state m s)) = f s"
  by (simp add: keeps_def preserves_def)

lemma keepsI: "(\<And>s. f (snd (run_state m s)) = f s) \<Longrightarrow> keeps f m"
  by (simp add: keeps_def preserves_def)

lemma keeps_bind [keeps_rules]:
  "keeps f m \<Longrightarrow> (\<And>x. keeps f (g x)) \<Longrightarrow> keeps f (m \<bind> g)"
  by (simp add: keeps_def pres_bind)

lemma keeps_return [keeps_rules]: "keeps f (State_Monad.return x)"
  by (simp add: keeps_def pres_return)

lemma keeps_get [keeps_rules]: "keeps f State_Monad.get"
  by (simp add: keeps_def pres_get)

lemma keeps_gets [keeps_rules]: "keeps f (gets g)"
  by (simp add: keeps_def pres_gets)

lemma keeps_if [keeps_rules]:
  "(b \<Longrightarrow> keeps f m) \<Longrightarrow> (\<not> b \<Longrightarrow> keeps f n) \<Longrightarrow> keeps f (if b then m else n)"
  by simp

lemma keeps_case_option [keeps_rules]:
  "(x = None \<Longrightarrow> keeps f m) \<Longrightarrow> (\<And>y. x = Some y \<Longrightarrow> keeps f (g y)) \<Longrightarrow>
   keeps f (case x of None \<Rightarrow> m | Some y \<Rightarrow> g y)"
  by (cases x) auto

lemma keeps_case_prod [keeps_rules]:
  "(\<And>a b. x = (a, b) \<Longrightarrow> keeps f (g a b)) \<Longrightarrow> keeps f (case x of (a, b) \<Rightarrow> g a b)"
  by (cases x) auto

lemma keeps_case_outcome [keeps_rules]:
  "(x = Fault \<Longrightarrow> keeps f m) \<Longrightarrow> (\<And>c. x = Fail c \<Longrightarrow> keeps f (h c)) \<Longrightarrow>
   (\<And>v. x = Ret v \<Longrightarrow> keeps f (g v)) \<Longrightarrow>
   keeps f (case x of Fault \<Rightarrow> m | Fail c \<Rightarrow> h c | Ret v \<Rightarrow> g v)"
  by (cases x) auto

lemma keeps_modify: "(\<And>s. f (g s) = f s) \<Longrightarrow> keeps f (modify g)"
  by (simp add: keeps_def pres_modify)

end
