(* ===== verification/Core_Number.thy ===== *)
theory Core_Number
  imports Prelude
begin

text \<open>
  The number conversions of \<^verbatim>\<open>core/utils/core_string.c\<close>: decimal text to
  \<^verbatim>\<open>uint32_t\<close> and \<^verbatim>\<open>uint64_t\<close>, the printers in the other direction, the
  signed and the hexadecimal printer, and the conversions between bytes and hexadecimal text.
  The printers write their digits into a stack buffer of fixed size first; a digit outside it is a
  \<open>Fault\<close> of the model.
\<close>

section \<open>Decimal text to unsigned integers\<close>

text \<open>
  The loop of \<^verbatim>\<open>core_str2uint\<close> and \<^verbatim>\<open>core_str2uint64\<close>; \<open>n\<close> counts the
  bytes still to be read, \<open>t\<close> is \<^verbatim>\<open>temp\<close> at the width of the output.
\<close>

fun str2uint_loop :: "byte list \<Rightarrow> nat \<Rightarrow> 'w::len word \<Rightarrow> 'w word outcome" where
  "str2uint_loop bs 0 t = Ret t"
| "str2uint_loop [] (Suc n) t = Fault"
| "str2uint_loop (b # bs) (Suc n) t =
     (if b < 48 \<or> b > 57 then Fail STATE_USER_INPUT_OUT_RANGE
      else str2uint_loop bs n (t * 10 + ucast b - 48))"

definition core_str2uint :: "byte list \<Rightarrow> 8 word \<Rightarrow> 32 word outcome" where
  "core_str2uint input input_len = str2uint_loop input (unat input_len) 0"

definition core_str2uint64 :: "byte list \<Rightarrow> 8 word \<Rightarrow> 64 word outcome" where
  "core_str2uint64 input input_len = str2uint_loop input (unat input_len) 0"

section \<open>Unsigned integers to decimal text\<close>

text \<open>
  The first loop writes the digits of the number into \<^verbatim>\<open>temp\<close>, least significant first;
  the second copies them back to front into the output.
\<close>

lemma unat_ten_not_one: "unat (10 :: 'w::len word) \<noteq> 1"
proof
  assume "unat (10 :: 'w word) = 1"
  then have "even (take_bit LENGTH('w) (10 :: nat)) \<longleftrightarrow> even (1 :: nat)"
    by (simp flip: unsigned_numeral)
  then show False by (simp add: even_take_bit_eq)
qed

function uint_digits :: "'w::len word \<Rightarrow> byte list" where
  "uint_digits n = (ucast (n mod 10) + 48) #
     (if n div 10 > 0 then uint_digits (n div 10) else [])"
  by pat_completeness auto
termination
proof (relation "measure unat", goal_cases)
  case (2 n)
  have "unat (n div 10) = unat n div unat (10 :: 'a word)" by (simp add: unat_div_distrib)
  moreover have "unat (10 :: 'a word) \<noteq> 1" by (rule unat_ten_not_one)
  moreover have "unat (n div 10) > 0" using 2 by (simp add: word_less_nat_alt)
  ultimately have "unat (n div 10) < unat n"
    by (metis div_by_0 div_less_dividend div_0 gr0I nat_neq_iff less_one)
  then show ?case by simp
qed simp

declare uint_digits.simps [simp del]

definition core_uint2str :: "32 word \<Rightarrow> byte list outcome" where
  "core_uint2str input =
     (let temp = uint_digits input
      in if length temp > 10 then Fault else Ret (rev temp))"

definition core_uint642str :: "64 word \<Rightarrow> byte list outcome" where
  "core_uint642str input =
     (let temp = uint_digits input
      in if length temp > 20 then Fault else Ret (rev temp))"

section \<open>Signed integers to decimal and hexadecimal text\<close>

text \<open>
  The printers of signed numbers work on the absolute value, in \<^verbatim>\<open>int64_t\<close> for the
  decimal one and in \<^verbatim>\<open>int32_t\<close> for the hexadecimal one, where the negation of the least
  \<^verbatim>\<open>int32_t\<close> is undefined.
\<close>

function base_digits :: "nat \<Rightarrow> (nat \<Rightarrow> byte) \<Rightarrow> nat \<Rightarrow> byte list" where
  "base_digits base enc n = enc (n mod base) #
     (if n div base > 0 \<and> base > 1 then base_digits base enc (n div base) else [])"
  by pat_completeness auto
termination
proof (relation "measure (\<lambda>(base, enc, n). n)", goal_cases)
  case (2 base enc n)
  then show ?case by (cases "n = 0") auto
qed simp

declare base_digits.simps [simp del]

definition dec_char :: "nat \<Rightarrow> byte" where
  "dec_char d = of_nat d + 48"

definition hex_lower :: "nat \<Rightarrow> byte" where
  "hex_lower d = str ''0123456789abcdef'' ! d"

definition hex_upper :: "nat \<Rightarrow> byte" where
  "hex_upper d = str ''0123456789ABCDEF'' ! d"

definition core_int2str :: "32 word \<Rightarrow> byte list outcome" where
  "core_int2str input =
     (let minus = (if sint input < 0 then 1 else 0);
          digits = base_digits 10 dec_char (nat \<bar>sint input\<bar>)
      in if minus + length digits > 11 then Fault
         else Ret ((if minus = 1 then str ''-'' else []) @ rev digits))"

definition core_int2hexstr :: "32 word \<Rightarrow> byte list outcome" where
  "core_int2hexstr input =
     (if sint input = - (2 ^ 31) then Fault
      else let digits = base_digits 16 hex_lower (nat \<bar>sint input\<bar>) @ str ''x0''
                  @ (if sint input < 0 then str ''-'' else [])
           in if length digits > 12 then Fault else Ret (rev digits))"

section \<open>Bytes to hexadecimal text and back\<close>

fun core_hex2str :: "byte list \<Rightarrow> bool \<Rightarrow> byte list" where
  "core_hex2str [] lowercase = []"
| "core_hex2str (b # bs) lowercase =
     (let encode = (if lowercase then hex_lower else hex_upper)
      in encode (unat (drop_bit 4 b AND 15)) # encode (unat (b AND 15)) # core_hex2str bs lowercase)"

text \<open>The value of one hexadecimal digit; \<open>None\<close> where no branch of the code applies.\<close>

definition hex_digit :: "byte \<Rightarrow> byte option" where
  "hex_digit c =
     (if 48 \<le> c \<and> c \<le> 57 then Some (c - 48)
      else if 65 \<le> c \<and> c \<le> 70 then Some (c - 65 + 10)
      else if 97 \<le> c \<and> c \<le> 102 then Some (c - 97 + 10)
      else None)"

text \<open>
  The loop works on the output buffer as it was: a byte whose high digit is not hexadecimal keeps
  its old contents, which the low digit is then or-ed into.
\<close>

fun str2hex_loop :: "byte list \<Rightarrow> byte list \<Rightarrow> byte list outcome" where
  "str2hex_loop (h # l # cs) (b # out) =
     (let b1 = (case hex_digit h of Some v \<Rightarrow> push_bit 4 v | None \<Rightarrow> b);
          b2 = (case hex_digit l of Some v \<Rightarrow> b1 OR v | None \<Rightarrow> b1)
      in obind (str2hex_loop cs out) (\<lambda>r. Ret (b2 # r)))"
| "str2hex_loop (h # l # cs) [] = Fault"
| "str2hex_loop cs out = Ret out"

definition core_str2hex :: "byte list \<Rightarrow> byte list \<Rightarrow> byte list outcome" where
  "core_str2hex input output =
     (if length input mod 2 \<noteq> 0 then Fail STATE_USER_INPUT_OUT_RANGE
      else str2hex_loop input output)"

section \<open>Digits and the numbers they denote\<close>

lemma word_digit_nat:
  assumes ten: "take_bit LENGTH('w::len) (10 :: nat) = 10"
  shows "unat ((ucast (n mod 10 :: 'w word) :: byte) + 48) = unat n mod 10 + 48"
proof -
  have m: "unat (n mod 10) = unat n mod 10" by (simp add: unat_mod_distrib ten)
  have small: "unat n mod 10 < 10" by simp
  have "unat (ucast (n mod 10) :: byte) = unat n mod 10"
    using small by (simp add: unsigned_ucast_eq take_bit_nat_eq_self m)
  then show ?thesis using small by (simp add: unat_word_ariths)
qed

lemma dec_val_uint_digits:
  fixes n :: "'w::len word"
  assumes ten: "take_bit LENGTH('w) (10 :: nat) = 10"
  shows "dec_val (rev (uint_digits n)) = unat n"
proof (induction n rule: uint_digits.induct)
  case (1 n)
  have q: "unat (n div 10) = unat n div 10" by (simp add: unat_div_distrib ten)
  show ?case
  proof (cases "n div 10 > 0")
    case True
    with 1 have "dec_val (rev (uint_digits (n div 10))) = unat n div 10" by (simp add: q)
    with True show ?thesis
      by (subst uint_digits.simps) (simp add: word_digit_nat [OF ten])
  next
    case False
    then have "unat (n div 10) = 0" by (simp add: word_less_nat_alt)
    then have "unat n div 10 = 0" by (simp only: q)
    then show ?thesis using False
      by (subst uint_digits.simps) (simp add: word_digit_nat [OF ten] dec_val_def)
  qed
qed

lemma uint_digits_shape:
  fixes n :: "'w::len word"
  assumes ten: "take_bit LENGTH('w) (10 :: nat) = 10"
  shows "uint_digits n \<noteq> [] \<and> (\<forall>b \<in> set (uint_digits n). is_digit b)"
proof (induction n rule: uint_digits.induct)
  case (1 n)
  have "is_digit ((ucast (n mod 10) :: byte) + 48)"
  proof -
    have "unat n mod 10 < 10" by simp
    with word_digit_nat [OF ten, of n] show ?thesis
      unfolding word_le_nat_alt by (simp only:) simp
  qed
  with 1 show ?case by (subst (1 2) uint_digits.simps) auto
qed

lemma length_uint_digits:
  fixes n :: "'w::len word"
  assumes ten: "take_bit LENGTH('w) (10 :: nat) = 10" and "unat n < 10 ^ k" "0 < k"
  shows "length (uint_digits n) \<le> k"
  using assms(2,3)
proof (induction k arbitrary: n)
  case (Suc k)
  have q: "unat (n div 10) = unat n div 10" by (simp add: unat_div_distrib ten)
  show ?case
  proof (cases "n div 10 > 0")
    case True
    then have pos: "0 < unat n div 10" by (simp add: word_less_nat_alt q)
    have "unat n div 10 < 10 ^ k" using Suc.prems(1) by (simp add: less_mult_imp_div_less mult.commute)
    moreover have "0 < k" using pos calculation by (cases k) auto
    ultimately have "length (uint_digits (n div 10)) \<le> k" by (simp add: Suc.IH q)
    with True show ?thesis by (subst uint_digits.simps) simp
  next
    case False
    then show ?thesis by (subst uint_digits.simps) simp
  qed
qed simp

lemma word_of_digit:
  assumes "is_digit b"
  shows "(ucast b :: 'w::len word) - 48 = of_nat (unat b - 48)"
proof -
  have le: "48 \<le> unat b" using assms by (simp add: word_le_nat_alt)
  have "(ucast b :: 'w word) = of_nat (unat b)" by simp
  then show ?thesis using le by (simp add: of_nat_diff)
qed

lemma str2uint_loop_digits:
  "n \<le> length bs \<Longrightarrow> \<forall>b \<in> set (take n bs). is_digit b \<Longrightarrow>
   str2uint_loop bs n t = Ret (t * 10 ^ n + of_nat (dec_val (take n bs)))"
proof (induction bs n t rule: str2uint_loop.induct)
  case (3 b bs n t)
  have val: "dec_val (b # take n bs) = (unat b - 48) * 10 ^ n + dec_val (take n bs)" if "n \<le> length bs"
    using that
  proof (induction n)
    case 0 show ?case by (simp add: dec_val_def)
  next
    case (Suc n)
    then show ?case
      by (simp add: take_Suc_conv_app_nth algebra_simps flip: append_Cons)
  qed
  show ?case
  proof (cases "is_digit b")
    case True
    then have step: "t * 10 + ucast b - 48 = t * 10 + of_nat (unat b - 48)"
      by (simp flip: word_of_digit add: diff_add_eq)
    have "str2uint_loop bs n (t * 10 + ucast b - 48) =
        Ret ((t * 10 + ucast b - 48) * 10 ^ n + of_nat (dec_val (take n bs)))"
      using 3 True by (simp add: not_less)
    then have "str2uint_loop (b # bs) (Suc n) t =
        Ret ((t * 10 + of_nat (unat b - 48)) * 10 ^ n + of_nat (dec_val (take n bs)))"
      using True by (simp add: not_less step)
    moreover have "dec_val (take (Suc n) (b # bs)) = (unat b - 48) * 10 ^ n + dec_val (take n bs)"
      using 3 by (simp add: val)
    ultimately show ?thesis
      by (simp only: of_nat_add of_nat_mult of_nat_power of_nat_numeral power_Suc
          distrib_right mult.assoc add.assoc)
  next
    case False
    with 3 show ?thesis by auto
  qed
qed auto

lemma str2uint_loop_rejects:
  "n \<le> length bs \<Longrightarrow> \<exists>b \<in> set (take n bs). \<not> is_digit b \<Longrightarrow>
   str2uint_loop bs n t = Fail STATE_USER_INPUT_OUT_RANGE"
  by (induction bs n t rule: str2uint_loop.induct) (auto simp: not_le)

section \<open>The contract of a decimal codec\<close>

text \<open>
  What the clients of the conversions (the HTTP header fields, the request identifiers of the
  MQTT client, the log) rely on: a printer that always succeeds with a short non-empty text of
  digits, and a parser that reads it back whatever follows in the buffer.
\<close>

locale decimal_codec =
  fixes print :: "'w::len word \<Rightarrow> byte list outcome"
    and parse :: "byte list \<Rightarrow> 8 word \<Rightarrow> 'w word outcome"
    and maxlen :: nat
  assumes print_total: "\<exists>s. print n = Ret s"
    and print_digits: "print n = Ret s \<Longrightarrow> \<forall>b \<in> set s. is_digit b"
    and print_length: "print n = Ret s \<Longrightarrow> 0 < length s \<and> length s \<le> maxlen"
    and parse_print: "print n = Ret s \<Longrightarrow> parse (s @ rest) (of_nat (length s)) = Ret n"
begin

lemma print_inj: "print n = print m \<Longrightarrow> n = m"
proof -
  assume eq: "print n = print m"
  obtain s where s: "print n = Ret s" using print_total by blast
  from parse_print [OF s, of "[]"] parse_print [of m s "[]"] eq s show "n = m" by simp
qed

lemma print_not_fault: "print n \<noteq> Fault"
  using print_total [of n] by auto

lemma print_cstr: "print n = Ret s \<Longrightarrow> cstr s"
  using print_digits [of n s] by (auto simp: cstr_def)

lemma print_no_byte: "print n = Ret s \<Longrightarrow> \<not> is_digit b \<Longrightarrow> b \<notin> set s"
  using print_digits [of n s] by auto

lemma parse_exact: "print n = Ret s \<Longrightarrow> parse s (of_nat (length s)) = Ret n"
  using parse_print [of n s "[]"] by simp

end

lemma str2uint_uint_digits:
  fixes n :: "'w::len word"
  assumes ten: "take_bit LENGTH('w) (10 :: nat) = 10" and len: "length (uint_digits n) < 256"
  shows "str2uint_loop (rev (uint_digits n) @ rest)
    (unat (of_nat (length (uint_digits n)) :: 8 word)) 0 = Ret n"
proof -
  have "unat (of_nat (length (uint_digits n)) :: 8 word) = length (uint_digits n)"
    using len by (simp add: unat_of_nat)
  then show ?thesis
    using uint_digits_shape [OF ten, of n]
    by (simp add: str2uint_loop_digits dec_val_uint_digits [OF ten])
qed

lemma core_uint2str_eq: "core_uint2str n = Ret (rev (uint_digits n))"
proof -
  have "unat n < 10 ^ 10" using unsigned_less [of n, where 'a = nat] by simp
  then have "length (uint_digits n) \<le> 10" by (intro length_uint_digits) simp_all
  then show ?thesis by (simp add: core_uint2str_def Let_def)
qed

lemma core_uint642str_eq: "core_uint642str n = Ret (rev (uint_digits n))"
proof -
  have "unat n < 10 ^ 20" using unsigned_less [of n, where 'a = nat] by simp
  then have "length (uint_digits n) \<le> 20" by (intro length_uint_digits) simp_all
  then show ?thesis by (simp add: core_uint642str_def Let_def)
qed

lemma length_uint32_digits: "length (uint_digits (n :: 32 word)) \<le> 10"
  using core_uint2str_eq [of n] by (simp add: core_uint2str_def Let_def split: if_splits)

lemma length_uint64_digits: "length (uint_digits (n :: 64 word)) \<le> 20"
  using core_uint642str_eq [of n] by (simp add: core_uint642str_def Let_def split: if_splits)

interpretation dec32: decimal_codec core_uint2str core_str2uint 10
proof (unfold_locales, goal_cases)
  case (1 n) show ?case by (simp add: core_uint2str_eq)
next
  case (2 n s)
  then show ?case using uint_digits_shape [of n] by (auto simp: core_uint2str_eq)
next
  case (3 n s)
  then show ?case using uint_digits_shape [of n] length_uint32_digits [of n]
    by (auto simp: core_uint2str_eq)
next
  case (4 n s rest)
  then show ?case using length_uint32_digits [of n] str2uint_uint_digits [of n rest]
    by (auto simp: core_uint2str_eq core_str2uint_def)
qed

interpretation dec64: decimal_codec core_uint642str core_str2uint64 20
proof (unfold_locales, goal_cases)
  case (1 n) show ?case by (simp add: core_uint642str_eq)
next
  case (2 n s)
  then show ?case using uint_digits_shape [of n] by (auto simp: core_uint642str_eq)
next
  case (3 n s)
  then show ?case using uint_digits_shape [of n] length_uint64_digits [of n]
    by (auto simp: core_uint642str_eq)
next
  case (4 n s rest)
  then show ?case using length_uint64_digits [of n] str2uint_uint_digits [of n rest]
    by (auto simp: core_uint642str_eq core_str2uint64_def)
qed

section \<open>The signed printers\<close>

lemma length_base_digits:
  "n < base ^ k \<Longrightarrow> 0 < k \<Longrightarrow> 1 < base \<Longrightarrow> length (base_digits base enc n) \<le> k"
proof (induction k arbitrary: n)
  case (Suc k)
  show ?case
  proof (cases "n div base > 0")
    case True
    have "n div base < base ^ k" using Suc.prems by (simp add: less_mult_imp_div_less mult.commute)
    moreover have "0 < k" using True calculation by (cases k) auto
    ultimately have "length (base_digits base enc (n div base)) \<le> k" using Suc by simp
    with True Suc.prems show ?thesis by (subst base_digits.simps) simp
  next
    case False
    then show ?thesis by (subst base_digits.simps) simp
  qed
qed simp

lemma base_digits_dec:
  "dec_val (rev (base_digits 10 dec_char n)) = n \<and> base_digits 10 dec_char n \<noteq> []
    \<and> (\<forall>b \<in> set (base_digits 10 dec_char n). is_digit b)"
proof (induction n rule: less_induct)
  case (less n)
  have d: "unat (dec_char (n mod 10)) = n mod 10 + 48"
  proof -
    have "n mod 10 < 10" by simp
    then show ?thesis by (simp add: dec_char_def unat_word_ariths unat_of_nat)
  qed
  have ok: "is_digit (dec_char (n mod 10))"
  proof -
    have "n mod 10 < 10" by simp
    with d show ?thesis unfolding word_le_nat_alt by (simp only:) simp
  qed
  show ?case
  proof (cases "n div 10 > 0")
    case True
    with less [of "n div 10"] ok d show ?thesis by (subst (1 2 3) base_digits.simps) auto
  next
    case False
    with ok d show ?thesis by (subst (1 2 3) base_digits.simps) (auto simp: dec_val_def)
  qed
qed

lemma sint32_bounds: "- (2 ^ 31) \<le> sint (n :: 32 word)" "sint (n :: 32 word) < 2 ^ 31"
  using sint_greater_eq [of n] sint_less [of n] by simp_all

lemma core_int2str_eq:
  "core_int2str n = Ret ((if sint n < 0 then str ''-'' else [])
      @ rev (base_digits 10 dec_char (nat \<bar>sint n\<bar>)))"
proof -
  have "nat \<bar>sint n\<bar> < 10 ^ 10" using sint32_bounds [of n] by simp
  then have "length (base_digits 10 dec_char (nat \<bar>sint n\<bar>)) \<le> 10"
    by (rule length_base_digits) simp_all
  then show ?thesis by (cases "sint n < 0") (simp_all add: core_int2str_def Let_def)
qed

lemma core_int2hexstr_eq:
  assumes "sint n \<noteq> - (2 ^ 31)"
  shows "core_int2hexstr n = Ret ((if sint n < 0 then str ''-'' else []) @ str ''0x''
      @ rev (base_digits 16 hex_lower (nat \<bar>sint n\<bar>)))"
proof -
  have "nat \<bar>sint n\<bar> < 16 ^ 8" using sint32_bounds [of n] by simp
  then have "length (base_digits 16 hex_lower (nat \<bar>sint n\<bar>)) \<le> 8"
    by (rule length_base_digits) simp_all
  then show ?thesis using assms
    by (cases "sint n < 0") (simp_all add: core_int2hexstr_def Let_def)
qed

section \<open>Hexadecimal text\<close>

lemma hex_digit_hex:
  assumes "v < 16"
  shows "hex_digit (hex_lower v) = Some (of_nat v)" "hex_digit (hex_upper v) = Some (of_nat v)"
proof -
  have "\<forall>v \<in> set [0..<16]. hex_digit (hex_lower v) = Some (of_nat v)" by code_simp
  moreover have "\<forall>v \<in> set [0..<16]. hex_digit (hex_upper v) = Some (of_nat v)" by code_simp
  ultimately show "hex_digit (hex_lower v) = Some (of_nat v)" "hex_digit (hex_upper v) = Some (of_nat v)"
    using assms by simp_all
qed

lemma unat_nibble: "unat (b AND 15 :: byte) < 16"
proof -
  have "b AND 15 \<le> 15" by (rule word_and_le1)
  then show ?thesis by (simp add: word_le_nat_alt)
qed

lemma and_15_take_bit: "b AND 15 = take_bit 4 (b :: byte)"
  by (simp add: take_bit_eq_mask mask_eq_exp_minus_1)

lemma nibbles_byte: "push_bit 4 (drop_bit 4 b AND 15) OR (b AND 15) = (b :: byte)"
  unfolding and_15_take_bit by (rule bit_word_eqI) (auto simp: bit_simps)

lemma length_core_hex2str [simp]: "length (core_hex2str bs lowercase) = 2 * length bs"
  by (induction bs) (simp_all add: Let_def)

lemma str2hex_loop_hex2str:
  "length bs \<le> length out \<Longrightarrow>
   str2hex_loop (core_hex2str bs lowercase) out = Ret (bs @ drop (length bs) out)"
proof (induction bs arbitrary: out)
  case (Cons b bs)
  then obtain o1 out' where out: "out = o1 # out'" "length bs \<le> length out'"
    by (cases out) auto
  have "hex_digit ((if lowercase then hex_lower else hex_upper) (unat (v AND 15 :: byte)))
      = Some (v AND 15)" for v
    using unat_nibble by (simp add: hex_digit_hex)
  then show ?case using Cons.IH [OF out(2)]
    by (simp only: out core_hex2str.simps str2hex_loop.simps Let_def option.case obind.simps
        nibbles_byte append_Cons list.size drop_Suc_Cons add_Suc_right add_0_right)
qed simp

lemma hex_char_is_hex:
  assumes "v < 16"
  shows "hex_upper v \<noteq> 0" "hex_lower v \<noteq> 0"
  using hex_digit_hex [OF assms] by (auto simp: hex_digit_def)

lemma cstr_core_hex2str [simp]: "cstr (core_hex2str bs lowercase)"
  by (induction bs) (auto simp: Let_def hex_char_is_hex unat_nibble)

section \<open>Properties\<close>

text \<open>
  The decimal printer of 32-bit numbers never overruns its ten-byte buffer, writes one to
  ten digits whose value is the number, and the parser reads the number back whatever follows
  in the buffer.
\<close>

theorem uint32_text_roundtrip:
  "\<exists>s. core_uint2str n = Ret s \<and> 0 < length s \<and> length s \<le> 10 \<and> list_all is_digit s
     \<and> dec_val s = unat n \<and> core_str2uint (s @ rest) (of_nat (length s)) = Ret n"
  using dec32.print_total [of n] dec32.print_length [of n] dec32.print_digits [of n]
    dec32.parse_print [of n _ rest]
  by (auto simp: list_all_iff core_uint2str_eq dec_val_uint_digits)

text \<open>
  The same for the 64-bit printer, its twenty-byte buffer and its parser.
\<close>

theorem uint64_text_roundtrip:
  "\<exists>s. core_uint642str n = Ret s \<and> 0 < length s \<and> length s \<le> 20 \<and> list_all is_digit s
     \<and> dec_val s = unat n \<and> core_str2uint64 (s @ rest) (of_nat (length s)) = Ret n"
  using dec64.print_total [of n] dec64.print_length [of n] dec64.print_digits [of n]
    dec64.parse_print [of n _ rest]
  by (auto simp: list_all_iff core_uint642str_eq dec_val_uint_digits)

text \<open>
  The signed decimal printer stays inside its eleven-byte buffer for every
  \<^verbatim>\<open>int32_t\<close>, the least one included, and writes the sign and the digits of the
  absolute value.
\<close>

theorem core_int2str_signed:
  "\<exists>s. core_int2str n = Ret ((if sint n < 0 then str ''-'' else []) @ s)
     \<and> list_all is_digit s \<and> s \<noteq> [] \<and> dec_val s = nat \<bar>sint n\<bar>"
  using base_digits_dec [of "nat \<bar>sint n\<bar>"] by (simp add: core_int2str_eq list_all_iff)

text \<open>
  Bytes printed in hexadecimal, in either case, are read back exactly: the output buffer
  holds the bytes, and what lies behind them is untouched.
\<close>

theorem hex_text_roundtrip:
  assumes "length bs \<le> length out"
  shows "core_str2hex (core_hex2str bs lowercase) out = Ret (bs @ drop (length bs) out)"
  using str2hex_loop_hex2str [OF assms] by (simp add: core_str2hex_def)

theorem hex_text_roundtrip_witness:
  "core_str2hex (core_hex2str [0xAB, 0x07] True) [1, 2, 3] = Ret [0xAB, 0x07, 3]"
  using hex_text_roundtrip [of "[0xAB, 0x07]" "[1, 2, 3]" True] by simp

end
