(* ===== verification/Core_String.thy ===== *)
theory Core_String
  imports Core_Number
begin

text \<open>
  The text routines of \<^verbatim>\<open>core/utils/core_string.c\<close> that work on buffers alone: the
  substitution of \<^verbatim>\<open>core_sprintf\<close>, the search of \<^verbatim>\<open>core_json_value\<close> and the
  calendar of \<^verbatim>\<open>core_utc2date\<close>. Lengths and indices are natural numbers; the code's
  \<^verbatim>\<open>uint32_t\<close> holds them, buffers being shorter than four gigabytes.
\<close>

section \<open>core_sprintf\<close>

text \<open>
  The arguments are C strings or NULL; NULL prints as the empty string. The first pass adds up
  the length of the buffer, in \<^verbatim>\<open>uint32_t\<close>.
\<close>

definition sprintf_value :: "byte list option \<Rightarrow> byte list" where
  "sprintf_value a = (case a of None \<Rightarrow> [] | Some v \<Rightarrow> v)"

definition sprintf_len :: "byte list \<Rightarrow> byte list option list \<Rightarrow> nat" where
  "sprintf_len fmt src =
     nat ((int (length fmt) - 2 * int (length src)
       + int (sum_list (map (\<lambda>a. length (sprintf_value a)) src))) mod 2 ^ 32)"

text \<open>
  The second pass appends to the end of the text so far (\<^verbatim>\<open>buffer + strlen(buffer)\<close>); a
  \<^verbatim>\<open>%s\<close> beyond the last argument reads outside the argument array.
\<close>

fun sprintf_loop :: "byte list \<Rightarrow> byte list option list \<Rightarrow> byte list \<Rightarrow> byte list outcome" where
  "sprintf_loop [] src buffer = Ret buffer"
| "sprintf_loop [c] src buffer = Ret (buffer @ [c])"
| "sprintf_loop (c # d # fmt) src buffer =
     (if c = 37 \<and> d = 115
      then (case src of [] \<Rightarrow> Fault | a # as \<Rightarrow> sprintf_loop fmt as (buffer @ sprintf_value a))
      else sprintf_loop (d # fmt) src (buffer @ [c]))"

text \<open>
  The text must fit the buffer of \<open>sprintf_len\<close> bytes and its terminator. The index into the
  format is a \<^verbatim>\<open>uint8_t\<close>: a format of more than 255 bytes is started again and
  again, and overruns the buffer.
\<close>

definition core_sprintf_text :: "byte list \<Rightarrow> byte list option list \<Rightarrow> byte list outcome" where
  "core_sprintf_text fmt src =
     obind (if length fmt > 255 then Fault else sprintf_loop fmt src [])
       (\<lambda>text. if length text \<le> sprintf_len fmt src then Ret text else Fault)"

section \<open>core_json_value\<close>

text \<open>The first position from \<open>idx\<close> on, below \<open>len\<close>, whose byte satisfies \<open>p\<close>.\<close>

fun scan_for :: "(byte \<Rightarrow> bool) \<Rightarrow> byte list \<Rightarrow> nat \<Rightarrow> nat option" where
  "scan_for p [] idx = None"
| "scan_for p (b # bs) idx = (if p b then Some idx else scan_for p bs (Suc idx))"

text \<open>The search for the bracket that closes a value; the depth is a \<^verbatim>\<open>uint8_t\<close>.\<close>

fun scan_close :: "byte \<Rightarrow> byte \<Rightarrow> byte list \<Rightarrow> nat \<Rightarrow> 8 word \<Rightarrow> nat option" where
  "scan_close opn cls [] idx count = None"
| "scan_close opn cls (b # bs) idx count =
     (if b = opn then scan_close opn cls bs (Suc idx) (count + 1)
      else if b = cls then
        (if count - 1 = 0 then Some idx else scan_close opn cls bs (Suc idx) (count - 1))
      else scan_close opn cls bs (Suc idx) count)"

text \<open>
  The value that starts at \<open>idx\<close>: its first byte and its length. Where the inner loop runs off
  the end, the index has passed the end of the outer loop too, and the code reports failure.
\<close>

definition json_value_at :: "byte list \<Rightarrow> nat \<Rightarrow> (nat \<times> nat) outcome" where
  "json_value_at input idx =
     (let c = input ! idx in
      if c = 34 then
        (case scan_for (\<lambda>b. b = 34) (drop (idx + 1) input) (idx + 1) of
           Some j \<Rightarrow> Ret (idx + 1, j - (idx + 1))
         | None \<Rightarrow> Fail STATE_USER_INPUT_JSON_PARSE_FAILED)
      else if c = 123 \<or> c = 91 then
        (case scan_close c (if c = 123 then 125 else 93) (drop idx input) idx 0 of
           Some j \<Rightarrow> Ret (idx, j - idx + 1)
         | None \<Rightarrow> Fail STATE_USER_INPUT_JSON_PARSE_FAILED)
      else
        (case scan_for (\<lambda>b. b = 44 \<or> b = 93 \<or> b = 125) (drop idx input) idx of
           Some j \<Rightarrow> Ret (idx, j - idx)
         | None \<Rightarrow> Fail STATE_USER_INPUT_JSON_PARSE_FAILED))"

text \<open>
  The outer loop: the first position at which the key stands between quotes decides. Every read
  of the input lies behind the check of its index, so that \<open>!\<close> is only used in range.
\<close>

function json_loop :: "byte list \<Rightarrow> byte list \<Rightarrow> nat \<Rightarrow> (nat \<times> nat) outcome" where
  "json_loop input key idx =
     (if idx < length input then
        if idx + length key \<ge> length input then Fail STATE_USER_INPUT_JSON_PARSE_FAILED
        else if take (length key) (drop idx input) = key \<and> idx > 0 \<and> input ! (idx - 1) = 34
                \<and> input ! (idx + length key) = 34 then
          (let idx' = idx + length key in
           if idx' + 2 \<ge> length input \<or> input ! (idx' + 1) \<noteq> 58
           then Fail STATE_USER_INPUT_JSON_PARSE_FAILED
           else json_value_at input (idx' + 2))
        else json_loop input key (idx + 1)
      else Fail STATE_USER_INPUT_JSON_PARSE_FAILED)"
  by pat_completeness auto
termination by (relation "measure (\<lambda>(input, key, idx). length input - idx)") auto

declare json_loop.simps [simp del]

definition core_json_value :: "byte list \<Rightarrow> byte list \<Rightarrow> (nat \<times> nat) outcome" where
  "core_json_value input key = json_loop input key 0"

section \<open>core_utc2date\<close>

record core_date =
  year :: nat
  mon :: nat
  day :: nat
  hour :: nat
  minute :: nat
  sec :: nat
  msec :: nat

definition is_leap_year :: "nat \<Rightarrow> bool" where
  "is_leap_year y \<longleftrightarrow> y mod 400 = 0 \<or> (y mod 100 \<noteq> 0 \<and> y mod 4 = 0)"

definition days_in_year :: "nat \<Rightarrow> nat" where
  "days_in_year y = (if is_leap_year y then 366 else 365)"

text \<open>The month of the macro is zero-based.\<close>

definition days_in_month :: "bool \<Rightarrow> nat \<Rightarrow> nat" where
  "days_in_month lpyr m =
     (if m = 1 then 28 + (if lpyr then 1 else 0)
      else if m > 6 then (if (m - 1) mod 2 = 1 then 30 else 31)
      else (if m mod 2 = 1 then 30 else 31))"

function year_loop :: "nat \<Rightarrow> nat \<Rightarrow> nat \<times> nat" where
  "year_loop day_num y =
     (if day_num \<ge> days_in_year y then year_loop (day_num - days_in_year y) (y + 1)
      else (day_num, y))"
  by pat_completeness auto
termination by (relation "measure fst") (auto simp: days_in_year_def split: if_splits)

function month_loop :: "bool \<Rightarrow> nat \<Rightarrow> nat \<Rightarrow> nat \<times> nat" where
  "month_loop lpyr day_num m =
     (if day_num \<ge> days_in_month lpyr m then month_loop lpyr (day_num - days_in_month lpyr m) (m + 1)
      else (day_num, m))"
  by pat_completeness auto
termination
  by (relation "measure (\<lambda>(l, d, m). d)") (auto simp: days_in_month_def split: if_splits)

declare year_loop.simps [simp del] month_loop.simps [simp del]

text \<open>
  The time zone is an \<^verbatim>\<open>int8_t\<close> number of hours; its product with 3600 is an
  \<^verbatim>\<open>int\<close> that is added to the seconds in \<^verbatim>\<open>uint64_t\<close>. The number of days is cut
  to \<^verbatim>\<open>uint32_t\<close>.
\<close>

definition utc_zone_s :: "64 word \<Rightarrow> 8 word \<Rightarrow> 64 word" where
  "utc_zone_s utc zone = utc div 1000 + of_int (sint zone * 60 * 60)"

definition core_utc2date :: "64 word \<Rightarrow> 8 word \<Rightarrow> core_date" where
  "core_utc2date utc zone =
     (let day_sec = unat (utc_zone_s utc zone) mod 86400;
          day_num = (unat (utc_zone_s utc zone) div 86400) mod 2 ^ 32;
          (rest, y) = year_loop day_num 1970;
          (d, m) = month_loop (is_leap_year y) rest 0
      in \<lparr>year = y, mon = m + 1, day = d + 1, hour = day_sec div 3600,
          minute = (day_sec mod 3600) div 60, sec = day_sec mod 60,
          msec = unat (utc mod 1000)\<rparr>)"

section \<open>The text of core_sprintf\<close>

text \<open>
  A format is read as its literal pieces, one more than there are arguments, with
  \<^verbatim>\<open>%s\<close> between them; the specification weaves the arguments in.
\<close>

fun fmt_of :: "byte list list \<Rightarrow> byte list" where
  "fmt_of [] = []"
| "fmt_of [l] = l"
| "fmt_of (l # ls) = l @ [37, 115] @ fmt_of ls"

fun weave :: "byte list list \<Rightarrow> byte list option list \<Rightarrow> byte list" where
  "weave (l # ls) (a # as) = l @ sprintf_value a @ weave ls as"
| "weave (l # ls) [] = l"
| "weave [] as = []"

lemma sprintf_loop_lit:
  "37 \<notin> set l \<Longrightarrow>
   sprintf_loop (l @ 37 # 115 # fmt) (a # as) buf = sprintf_loop fmt as (buf @ l @ sprintf_value a)"
proof (induction l arbitrary: buf)
  case (Cons c l)
  show ?case
  proof (cases l)
    case Nil
    then show ?thesis using Cons.prems by simp
  next
    case (Cons d l')
    then show ?thesis using Cons.IH [of "buf @ [c]"] Cons.prems by simp
  qed
qed simp

lemma sprintf_loop_last: "37 \<notin> set l \<Longrightarrow> sprintf_loop l src buf = Ret (buf @ l)"
proof (induction l arbitrary: buf)
  case (Cons c l)
  then show ?case by (cases l) auto
qed simp

lemma sprintf_loop_fmt:
  "length ls = Suc (length src) \<Longrightarrow> \<forall>l \<in> set ls. 37 \<notin> set l \<Longrightarrow>
   sprintf_loop (fmt_of ls) src buf = Ret (buf @ weave ls src)"
proof (induction ls src arbitrary: buf rule: weave.induct)
  case (1 l ls a as)
  then show ?case by (cases ls) (auto simp: sprintf_loop_lit)
qed (auto simp: sprintf_loop_last)

lemma length_weave:
  "length ls = Suc (length src) \<Longrightarrow>
   length (weave ls src) + 2 * length src
     = length (fmt_of ls) + sum_list (map (\<lambda>a. length (sprintf_value a)) src)"
proof (induction ls src rule: weave.induct)
  case (1 l ls a as)
  then show ?case by (cases ls) auto
qed auto

lemma core_sprintf_text_weave:
  assumes "length ls = Suc (length src)" "\<forall>l \<in> set ls. 37 \<notin> set l"
    and "length (weave ls src) < 2 ^ 32" "length (fmt_of ls) < 256"
  shows "core_sprintf_text (fmt_of ls) src = Ret (weave ls src)"
    and "sprintf_len (fmt_of ls) src = length (weave ls src)"
proof -
  have "int (length (fmt_of ls)) - 2 * int (length src)
      + int (sum_list (map (\<lambda>a. length (sprintf_value a)) src)) = int (length (weave ls src))"
    using length_weave [OF assms(1)] by linarith
  then show len: "sprintf_len (fmt_of ls) src = length (weave ls src)"
    using assms(3) by (simp add: sprintf_len_def)
  show "core_sprintf_text (fmt_of ls) src = Ret (weave ls src)"
    by (simp add: core_sprintf_text_def sprintf_loop_fmt [OF assms(1,2)] len not_less
        less_Suc_eq_le [symmetric] assms(4))
qed

section \<open>Where core_json_value finds a value\<close>

text \<open>The key stands between quotes at position \<open>i\<close>.\<close>

definition key_at :: "byte list \<Rightarrow> byte list \<Rightarrow> nat \<Rightarrow> bool" where
  "key_at input key i \<longleftrightarrow> 0 < i \<and> i + length key < length input
     \<and> input ! (i - 1) = 34 \<and> take (length key) (drop i input) = key
     \<and> input ! (i + length key) = 34"

lemma scan_for_Some:
  "scan_for p bs i = Some j \<Longrightarrow> i \<le> j \<and> j < i + length bs \<and> p (bs ! (j - i))
     \<and> (\<forall>k < j - i. \<not> p (bs ! k))"
proof (induction p bs i rule: scan_for.induct)
  case (2 p b bs i)
  show ?case
  proof (cases "p b")
    case True
    with 2 show ?thesis by auto
  next
    case False
    with 2 have IH: "Suc i \<le> j \<and> j < Suc i + length bs \<and> p (bs ! (j - Suc i))
        \<and> (\<forall>k < j - Suc i. \<not> p (bs ! k))" by simp
    then obtain d where d: "j = Suc i + d" using le_Suc_ex by blast
    from IH False show ?thesis by (auto simp: d nth_Cons split: nat.splits)
  qed
qed simp

lemma scan_for_append:
  "\<forall>b \<in> set as. \<not> p b \<Longrightarrow> p b \<Longrightarrow> scan_for p (as @ b # bs) i = Some (i + length as)"
  by (induction as arbitrary: i) auto

lemma scan_close_Some:
  "scan_close opn cls bs i c = Some j \<Longrightarrow> i \<le> j \<and> j < i + length bs \<and> bs ! (j - i) = cls"
proof (induction opn cls bs i c rule: scan_close.induct)
  case (2 opn cls b bs i c)
  have "(Suc i \<le> j \<and> j < Suc i + length bs \<and> bs ! (j - Suc i) = cls) \<or> (j = i \<and> b = cls)"
    using 2 by (auto split: if_splits)
  then show ?case
  proof
    assume a: "Suc i \<le> j \<and> j < Suc i + length bs \<and> bs ! (j - Suc i) = cls"
    then obtain d where "j = Suc i + d" using le_Suc_ex by blast
    with a show ?thesis by simp
  qed auto
qed simp

lemma json_value_at_bounds:
  assumes "json_value_at input idx = Ret (s, n)" "idx < length input"
  shows "idx \<le> s \<and> s + n \<le> length input"
  using assms
  by (auto simp: json_value_at_def Let_def split: if_splits option.splits
      dest!: scan_for_Some scan_close_Some)

lemma json_loop_bounds:
  "json_loop input key idx = Ret (s, n) \<Longrightarrow> s + n \<le> length input \<and> length key + 3 \<le> s"
proof (induction input key idx rule: json_loop.induct)
  case (1 input key idx)
  show ?case
  proof (cases "take (length key) (drop idx input) = key \<and> idx > 0 \<and> input ! (idx - 1) = 34
                \<and> input ! (idx + length key) = 34")
    case True
    with 1(2) have "json_value_at input (idx + length key + 2) = Ret (s, n)"
        "idx + length key + 2 < length input"
      by (auto simp: json_loop.simps [of input key idx] Let_def split: if_splits)
    from json_value_at_bounds [OF this] True show ?thesis by auto
  next
    case False
    with 1(2) have "idx < length input" "\<not> length input \<le> idx + length key"
        "json_loop input key (idx + 1) = Ret (s, n)"
      by (auto simp: json_loop.simps [of input key idx] split: if_splits)
    with 1(1) False show ?thesis by blast
  qed
qed

lemma json_loop_skip:
  assumes "key_at input key i" "\<forall>j < i. \<not> key_at input key j" "k \<le> i"
  shows "json_loop input key k = json_loop input key i"
  using assms(3)
proof (induction "i - k" arbitrary: k)
  case (Suc d)
  then have k: "k < i" by simp
  from assms(1) have "i + length key < length input" by (simp add: key_at_def)
  with k have "\<not> length input \<le> k + length key" "k < length input" by auto
  moreover have "\<not> key_at input key k" using assms(2) k by blast
  ultimately have "json_loop input key k = json_loop input key (k + 1)"
    by (auto simp: json_loop.simps [of input key k] key_at_def)
  with Suc k show ?case by simp
qed simp

lemma core_json_value_first:
  assumes "key_at input key i" "\<forall>j < i. \<not> key_at input key j"
  shows "core_json_value input key =
    (let v = i + length key + 2 in
     if v \<ge> length input \<or> input ! (v - 1) \<noteq> 58 then Fail STATE_USER_INPUT_JSON_PARSE_FAILED
     else json_value_at input v)"
proof -
  have "core_json_value input key = json_loop input key i"
    unfolding core_json_value_def using assms by (rule json_loop_skip) simp
  with assms(1) show ?thesis
    by (auto simp: json_loop.simps [of input key i] key_at_def Let_def add.commute)
qed

section \<open>The calendar\<close>

text \<open>
  The reference is the usual counting of days: the leap years before a year, the lengths of the
  months before a month.
\<close>

definition leaps_before :: "nat \<Rightarrow> nat" where
  "leaps_before y = (y - 1) div 4 - (y - 1) div 100 + (y - 1) div 400"

definition month_lengths :: "nat \<Rightarrow> nat list" where
  "month_lengths y = [31, if is_leap_year y then 29 else 28, 31, 30, 31, 30, 31, 31, 30, 31, 30, 31]"

definition days_from_epoch :: "nat \<Rightarrow> nat \<Rightarrow> nat \<Rightarrow> nat" where
  "days_from_epoch y m d =
     365 * (y - 1970) + (leaps_before y - leaps_before 1970) + sum_list (take (m - 1) (month_lengths y)) + (d - 1)"

definition valid_date :: "core_date \<Rightarrow> bool" where
  "valid_date dt \<longleftrightarrow> 1970 \<le> year dt \<and> 1 \<le> mon dt \<and> mon dt \<le> 12 \<and> 1 \<le> day dt
     \<and> day dt \<le> month_lengths (year dt) ! (mon dt - 1)
     \<and> hour dt < 24 \<and> minute dt < 60 \<and> sec dt < 60 \<and> msec dt < 1000"

lemma days_in_month_table:
  "m < 12 \<Longrightarrow> days_in_month (is_leap_year y) m = month_lengths y ! m"
proof -
  assume "m < 12"
  then have "m \<in> set [0..<12]" by simp
  moreover have "\<forall>m \<in> set [0..<12]. days_in_month (is_leap_year y) m = month_lengths y ! m"
    by (simp add: days_in_month_def month_lengths_def upt_rec)
  ultimately show ?thesis by blast
qed

lemma leaps_before_Suc:
  assumes "0 < y"
  shows "leaps_before (Suc y) = leaps_before y + (if is_leap_year y then 1 else 0)"
proof -
  obtain k where y: "y = Suc k" using assms by (cases y) auto
  have step: "Suc k div n = k div n + (if Suc k mod n = 0 then 1 else 0)" for n
    by (simp add: div_Suc mod_Suc)
  have le: "k div 100 \<le> k div 4" by (rule div_le_mono2) simp_all
  have nest: "Suc k mod 100 = 0 \<Longrightarrow> Suc k mod 4 = 0" "Suc k mod 400 = 0 \<Longrightarrow> Suc k mod 100 = 0"
    by (auto simp: mod_eq_0_iff_dvd intro: dvd_trans [rotated])
  show ?thesis
    using le nest
    by (simp add: y leaps_before_def is_leap_year_def step del: div_Suc mod_Suc)
qed

lemma leaps_before_mono: "1970 \<le> y \<Longrightarrow> leaps_before 1970 \<le> leaps_before y"
proof (induction y rule: nat_induct_at_least)
  case (Suc y)
  then show ?case by (simp add: leaps_before_Suc)
qed simp

lemma year_loop_correct:
  "1970 \<le> y \<Longrightarrow> year_loop n y = (r, z) \<Longrightarrow>
   y \<le> z \<and> r < days_in_year z
   \<and> n + 365 * (y - 1970) + (leaps_before y - leaps_before 1970)
      = r + 365 * (z - 1970) + (leaps_before z - leaps_before 1970)"
proof (induction n y rule: year_loop.induct)
  case (1 n y)
  show ?case
  proof (cases "days_in_year y \<le> n")
    case True
    with 1(3) have "year_loop (n - days_in_year y) (y + 1) = (r, z)"
      by (simp add: year_loop.simps [of n y])
    with 1(1) [OF True] 1(2) have IH: "y + 1 \<le> z \<and> r < days_in_year z
        \<and> n - days_in_year y + 365 * (y + 1 - 1970) + (leaps_before (y + 1) - leaps_before 1970)
          = r + 365 * (z - 1970) + (leaps_before z - leaps_before 1970)" by simp
    have "leaps_before 1970 \<le> leaps_before y" using 1(2) by (rule leaps_before_mono)
    with IH True 1(2) leaps_before_Suc [of y] show ?thesis
      by (auto simp: days_in_year_def split: if_splits)
  next
    case False
    with 1 show ?thesis by (simp add: year_loop.simps [of n y])
  qed
qed

lemma month_loop_correct:
  "m < 12 \<Longrightarrow> n < sum_list (drop m (month_lengths y)) \<Longrightarrow>
   month_loop (is_leap_year y) n m = (d, k) \<Longrightarrow>
   k < 12 \<and> d < month_lengths y ! k
   \<and> n + sum_list (take m (month_lengths y)) = d + sum_list (take k (month_lengths y))"
proof (induction "is_leap_year y" n m rule: month_loop.induct)
  case (1 n m)
  have len: "length (month_lengths y) = 12" by (simp add: month_lengths_def)
  have split: "sum_list (drop m (month_lengths y))
      = month_lengths y ! m + sum_list (drop (Suc m) (month_lengths y))"
      "sum_list (take (Suc m) (month_lengths y)) = sum_list (take m (month_lengths y)) + month_lengths y ! m"
    using 1(2) len by (simp_all add: Cons_nth_drop_Suc [symmetric] take_Suc_conv_app_nth)
  show ?case
  proof (cases "days_in_month (is_leap_year y) m \<le> n")
    case True
    then have ge: "month_lengths y ! m \<le> n" using days_in_month_table [OF 1(2)] by simp
    with 1(3) split(1) have rest: "n - month_lengths y ! m < sum_list (drop (Suc m) (month_lengths y))"
      by linarith
    then have "Suc m < 12" using len by (cases "Suc m < 12") auto
    with 1(1) [OF True] rest 1(4) True days_in_month_table [OF 1(2)] ge split(2) show ?thesis
      by (simp add: month_loop.simps [of _ n m])
  next
    case False
    with 1 days_in_month_table [OF 1(2)] show ?thesis by (simp add: month_loop.simps [of _ n m])
  qed
qed

lemma sum_month_lengths: "sum_list (month_lengths y) = days_in_year y"
  by (simp add: month_lengths_def days_in_year_def)

lemma core_utc2date_correct:
  assumes "unat (utc_zone_s utc zone) div 86400 < 2 ^ 32"
  defines "dt \<equiv> core_utc2date utc zone"
  shows "valid_date dt"
    and "days_from_epoch (year dt) (mon dt) (day dt) * 86400 + hour dt * 3600 + minute dt * 60 + sec dt
      = unat (utc_zone_s utc zone)"
proof -
  define n where "n = unat (utc_zone_s utc zone) div 86400"
  define t where "t = unat (utc_zone_s utc zone) mod 86400"
  obtain r y where y: "year_loop n 1970 = (r, y)" by fastforce
  obtain d m where m: "month_loop (is_leap_year y) r 0 = (d, m)" by fastforce
  have Y: "1970 \<le> y" "r < days_in_year y"
      "n = r + 365 * (y - 1970) + (leaps_before y - leaps_before 1970)"
    using year_loop_correct [OF _ y] by auto
  have M: "m < 12" "d < month_lengths y ! m" "r = d + sum_list (take m (month_lengths y))"
    using month_loop_correct [OF _ _ m] Y(2) by (simp_all add: sum_month_lengths)
  have msec: "unat (utc mod 1000) < 1000" by (simp add: unat_mod_distrib)
  have time: "t < 86400" by (simp add: t_def)
  have dt: "dt = \<lparr>year = y, mon = m + 1, day = d + 1, hour = t div 3600,
      minute = (t mod 3600) div 60, sec = t mod 60, msec = unat (utc mod 1000)\<rparr>"
    using assms(1) y m by (simp add: dt_def core_utc2date_def n_def t_def Let_def)
  show "valid_date dt"
    using Y M msec time by (simp add: dt valid_date_def less_mult_imp_div_less)
  have "days_from_epoch y (m + 1) (d + 1) = n"
    using Y(3) M(3) by (simp add: days_from_epoch_def)
  moreover have "t div 3600 * 3600 + (t mod 3600) div 60 * 60 + t mod 60 = t"
  proof -
    have "t mod 60 = (t mod 3600) mod 60" by (simp add: mod_mod_cancel)
    then have "(t mod 3600) div 60 * 60 + t mod 60 = t mod 3600" by simp
    then show ?thesis using div_mult_mod_eq [of t 3600] by linarith
  qed
  moreover have "n * 86400 + t = unat (utc_zone_s utc zone)" by (simp add: n_def t_def)
  ultimately show "days_from_epoch (year dt) (mon dt) (day dt) * 86400 + hour dt * 3600
      + minute dt * 60 + sec dt = unat (utc_zone_s utc zone)"
    unfolding dt by simp
qed

lemma utc_zone_s_int:
  assumes "0 \<le> int (unat utc div 1000) + sint zone * 3600"
    and "int (unat utc div 1000) + sint zone * 3600 < 2 ^ 64"
  shows "int (unat (utc_zone_s utc zone)) = int (unat utc div 1000) + sint zone * 3600"
proof -
  have "utc div 1000 = of_nat (unat utc div 1000)" by (simp add: word_arith_nat_div)
  then have "utc_zone_s utc zone = of_int (int (unat utc div 1000) + sint zone * 3600)"
    by (simp add: utc_zone_s_def mult.assoc)
  then have "uint (utc_zone_s utc zone) = int (unat utc div 1000) + sint zone * 3600"
    using assms by (simp only: uint_word_of_int) simp
  then show ?thesis by simp
qed

section \<open>Properties\<close>

text \<open>
  When the format is made of literal pieces with one %s per argument between them,
  \<^verbatim>\<open>core_sprintf\<close> writes exactly the pieces with the arguments woven in (NULL as the empty
  text), and the buffer it computes in its first pass has exactly that length: the text fits.
\<close>

theorem core_sprintf_exact:
  assumes "length ls = Suc (length src)" "list_all (\<lambda>l. 37 \<notin> set l) ls"
    and "length (weave ls src) < 2 ^ 32" "length (fmt_of ls) < 256"
  shows "core_sprintf_text (fmt_of ls) src = Ret (weave ls src)
    \<and> sprintf_len (fmt_of ls) src = length (weave ls src)"
  using core_sprintf_text_weave [of ls src] assms by (simp add: list_all_iff)

theorem core_sprintf_exact_witness:
  "core_sprintf_text (fmt_of [str ''GET '', str '' HTTP'', []]) [Some (str ''/a''), None]
     = Ret (str ''GET /a HTTP'')"
  using core_sprintf_exact [of "[str ''GET '', str '' HTTP'', []]" "[Some (str ''/a''), None]"]
  by (simp add: sprintf_value_def)

text \<open>
  C31: \<^verbatim>\<open>core_json_value\<close> answers with the value behind the first quoted occurrence of the
  key: it never looks at a later one, fails when that one is not followed by a colon, and the
  value it returns lies inside the input, behind the key, its quote and the colon.
\<close>

theorem core_json_value_first_key:
  assumes "key_at input key i" "\<forall>j < i. \<not> key_at input key j"
  shows "core_json_value input key =
      (let v = i + length key + 2 in
       if v \<ge> length input \<or> input ! (v - 1) \<noteq> 58 then Fail STATE_USER_INPUT_JSON_PARSE_FAILED
       else json_value_at input v)
    \<and> (\<forall>s n. core_json_value input key = Ret (s, n) \<longrightarrow>
         s + n \<le> length input \<and> length key + 3 \<le> s)"
  using core_json_value_first [OF assms] json_loop_bounds [of input key 0]
  by (auto simp: core_json_value_def)

theorem core_json_value_first_key_witness:
  "core_json_value (str ''{\"a\":{\"b\":1}}'') (str ''a'') = Ret (5, 7)"
proof -
  let ?i = "str ''{\"a\":{\"b\":1}}''"
  have "key_at ?i (str ''a'') 2" by (simp add: key_at_def)
  moreover have "\<forall>j < 2. \<not> key_at ?i (str ''a'') j"
    by (auto simp: key_at_def less_2_cases_iff)
  ultimately show ?thesis
    using core_json_value_first_key [of ?i "str ''a''" 2]
    by (simp add: json_value_at_def Let_def)
qed

text \<open>
  C32: \<^verbatim>\<open>core_utc2date\<close> computes the civil date: for a local time that is not before the
  epoch and whose day number fits 32 bits, the fields are a date of the Gregorian calendar and a
  time of day, they count back to the local time in seconds, and the milliseconds are those of
  the argument.
\<close>

theorem core_utc2date_calendar:
  assumes "0 \<le> int (unat utc div 1000) + sint zone * 3600"
    and "int (unat utc div 1000) + sint zone * 3600 < 2 ^ 32 * 86400"
  defines "dt \<equiv> core_utc2date utc zone"
  shows "valid_date dt \<and> msec dt = unat utc mod 1000
    \<and> int (days_from_epoch (year dt) (mon dt) (day dt) * 86400 + hour dt * 3600 + minute dt * 60 + sec dt)
      = int (unat utc div 1000) + sint zone * 3600"
proof -
  have z: "int (unat (utc_zone_s utc zone)) = int (unat utc div 1000) + sint zone * 3600"
    using assms(1,2) by (intro utc_zone_s_int) simp_all
  with assms(2) have "int (unat (utc_zone_s utc zone)) < int (2 ^ 32 * 86400)" by simp
  then have "unat (utc_zone_s utc zone) < 2 ^ 32 * 86400" by (simp only: of_nat_less_iff)
  then have "unat (utc_zone_s utc zone) div 86400 < 2 ^ 32" by (simp add: less_mult_imp_div_less)
  from core_utc2date_correct [OF this] z show ?thesis
    by (simp add: dt_def core_utc2date_def Let_def unat_mod_distrib split: prod.split)
qed

theorem core_utc2date_calendar_witness:
  "valid_date (core_utc2date 1700000000123 8) \<and> msec (core_utc2date 1700000000123 8) = 123"
  using core_utc2date_calendar [of 1700000000123 8] by simp

end
