(* ===== verification/MD_Hash.thy ===== *)
theory MD_Hash
  imports Prelude
begin

text \<open>
  The contract of the streaming hash functions of the repository (SHA-256 of the link SDK, two
  programs for SM3, MD5): the digest of a message is the compression function folded over the
  blocks of the
  padded message. The locale \<open>streaming_hash\<close> states what an implementation that
  receives the message in pieces promises, and proves once that the cutting into pieces does not
  matter.
\<close>

section \<open>Folding a compression function over the blocks of a message\<close>

function absorb :: "('h \<Rightarrow> byte list \<Rightarrow> 'h) \<Rightarrow> 'h \<Rightarrow> byte list \<Rightarrow> 'h" where
  "absorb f h m = (if length m < 64 then h else absorb f (f h (take 64 m)) (drop 64 m))"
  by pat_completeness auto
termination by (relation "measure (\<lambda>(f, h, m). length m)") auto

declare absorb.simps [simp del]

definition tail64 :: "byte list \<Rightarrow> byte list" where
  "tail64 m = drop (64 * (length m div 64)) m"

lemma absorb_short: "length m < 64 \<Longrightarrow> absorb f h m = h"
  by (simp add: absorb.simps)

lemma absorb_block: "length b = 64 \<Longrightarrow> absorb f h (b @ m) = absorb f (f h b) m"
  by (simp add: absorb.simps [of f h "b @ m"])

lemma tail64_short: "length m < 64 \<Longrightarrow> tail64 m = m"
  by (simp add: tail64_def)

lemma tail64_block: "length b = 64 \<Longrightarrow> tail64 (b @ m) = tail64 m"
proof -
  assume "length b = 64"
  moreover have "64 * ((64 + length m) div 64) = 64 + 64 * (length m div 64)"
    by (simp only: div_add_self1) simp
  ultimately show ?thesis by (simp add: tail64_def)
qed

lemma length_tail64: "length (tail64 m) = length m mod 64"
  by (simp add: tail64_def minus_mult_div_eq_mod)

lemma length_tail64_less [simp]: "length (tail64 m) < 64"
  by (simp add: length_tail64)

lemma length_tail64_le [simp]: "length (tail64 m) \<le> 64"
  by (rule less_imp_le) simp

lemma absorb_append: "absorb f h (m @ d) = absorb f (absorb f h m) (tail64 m @ d)"
proof (induction f h m rule: absorb.induct)
  case (1 f h m)
  show ?case
  proof (cases "length m < 64")
    case True
    then show ?thesis by (simp add: absorb_short tail64_short)
  next
    case False
    have eq: "m @ d = take 64 m @ (drop 64 m @ d)" "m = take 64 m @ drop 64 m" by simp_all
    from False have len: "length (take 64 m) = 64" by simp
    have "absorb f h (m @ d) = absorb f (f h (take 64 m)) (drop 64 m @ d)"
      by (subst eq(1)) (rule absorb_block [OF len])
    also have "\<dots> = absorb f (absorb f (f h (take 64 m)) (drop 64 m)) (tail64 (drop 64 m) @ d)"
      using 1 [OF False] .
    also have "absorb f (f h (take 64 m)) (drop 64 m) = absorb f h m"
      using False by (simp add: absorb.simps [of f h m])
    also have "tail64 (drop 64 m) = tail64 m"
      using tail64_block [OF len, of "drop 64 m"] by simp
    finally show ?thesis .
  qed
qed

lemma tail64_append: "tail64 (m @ d) = tail64 (tail64 m @ d)"
proof -
  have m: "m = take (64 * (length m div 64)) m @ tail64 m" by (simp add: tail64_def)
  have len: "length (take (64 * (length m div 64)) m) = 64 * (length m div 64)" by simp
  have "tail64 (b @ x) = tail64 x" if "length b = 64 * k" for b x k
    using that by (simp add: tail64_def)
  from this [OF len, of "tail64 m @ d"] show ?thesis
    using m by (metis append.assoc)
qed

text \<open>The blocks taken by their index, as a counting loop over the input does.\<close>

lemma absorb_blocks_upt:
  "k * 64 \<le> length m \<Longrightarrow>
   foldl (\<lambda>h i. f h (take 64 (drop (i * 64) m))) h [0..<k] = absorb f h (take (k * 64) m)"
proof (induction k)
  case (Suc k)
  let ?b = "take 64 (drop (k * 64) m)"
  have split: "take (Suc k * 64) m = take (k * 64) m @ ?b"
  proof -
    have "Suc k * 64 = k * 64 + 64" by simp
    then show ?thesis by (simp only: take_add)
  qed
  have "tail64 (take (k * 64) m) = []"
    using Suc.prems by (simp add: tail64_def)
  moreover have "length ?b = 64" using Suc.prems by simp
  ultimately have "absorb f h (take (Suc k * 64) m) = f (absorb f h (take (k * 64) m)) ?b"
    unfolding split absorb_append [of f h "take (k * 64) m"]
    using absorb_block [of ?b f "absorb f h (take (k * 64) m)" "[]"] by (simp add: absorb_short)
  then show ?case using Suc by simp
qed (simp add: absorb_short)

lemma absorb_take_blocks: "absorb f h (take (length m div 64 * 64) m) = absorb f h m"
proof -
  have m: "m = take (length m div 64 * 64) m @ tail64 m" by (simp add: tail64_def mult.commute)
  have "tail64 (take (length m div 64 * 64) m) = []"
    by (simp add: tail64_def)
  then have "absorb f h (take (length m div 64 * 64) m @ tail64 m)
      = absorb f h (take (length m div 64 * 64) m)"
    by (subst absorb_append) (simp add: absorb_short)
  with m show ?thesis by simp
qed

lemma absorb_fold:
  "foldl (\<lambda>h i. f h (take 64 (drop (i * 64) m))) h [0..<length m div 64] = absorb f h m"
  by (subst absorb_blocks_upt) (simp_all add: absorb_take_blocks)

text \<open>What an update does with the bytes it holds back, in terms of the message.\<close>

lemma absorb_held:
  assumes "length t + length d < 64"
  shows "absorb f h (t @ d) = h" "tail64 (t @ d) = t @ d"
  using assms by (simp_all add: absorb_short tail64_short)

lemma absorb_filled:
  assumes "length t < 64" "64 \<le> length t + length d"
  shows "absorb f h (t @ d) = absorb f (f h (t @ take (64 - length t) d)) (drop (64 - length t) d)"
    and "tail64 (t @ d) = tail64 (drop (64 - length t) d)"
proof -
  let ?k = "64 - length t"
  have d: "t @ d = (t @ take ?k d) @ drop ?k d" by simp
  have len: "length (t @ take ?k d) = 64" using assms by simp
  show "absorb f h (t @ d) = absorb f (f h (t @ take ?k d)) (drop ?k d)"
    by (subst d) (rule absorb_block [OF len])
  show "tail64 (t @ d) = tail64 (drop ?k d)"
    by (subst d) (rule tail64_block [OF len])
qed

section \<open>Padding and the digest\<close>

text \<open>The bit \<open>1\<close>, zeros up to eight bytes before a block's end, the length of the message.\<close>

definition pad64 :: "(nat \<Rightarrow> byte list) \<Rightarrow> byte list \<Rightarrow> byte list" where
  "pad64 enc m = m @ [0x80] @ replicate ((119 - length m mod 64) mod 64) 0 @ enc (length m)"

definition md_digest ::
  "('h \<Rightarrow> byte list \<Rightarrow> 'h) \<Rightarrow> 'h \<Rightarrow> (nat \<Rightarrow> byte list) \<Rightarrow> ('h \<Rightarrow> byte list) \<Rightarrow> byte list \<Rightarrow> byte list"
where
  "md_digest f iv enc out m = out (absorb f iv (pad64 enc m))"

text \<open>The length of the message in bits, modulo two to the 64, in either byte order.\<close>

definition enc_be64 :: "nat \<Rightarrow> byte list" where
  "enc_be64 n = put_be32 (of_nat (8 * n div 2 ^ 32)) @ put_be32 (of_nat (8 * n))"

lemma length_enc_be64 [simp]: "length (enc_be64 n) = 8"
  by (simp add: enc_be64_def)

lemma pad_zeros: "r < 64 \<Longrightarrow> (119 - r) mod 64 = (if r < 56 then 55 - r else 119 - r)" for r :: nat
proof (cases "r < 56")
  case True
  then have "119 - r = 64 + (55 - r)" by simp
  then show ?thesis using True by (simp only: mod_add_self1) simp
qed simp

lemma pad64_whole_blocks:
  assumes "length (enc (length m)) = 8"
  shows "64 dvd length (pad64 enc m)"
proof -
  define q r where "q = length m div 64" and "r = length m mod 64"
  then have m: "length m = 64 * q + r" and r: "r < 64" by simp_all
  have "length (pad64 enc m) = 64 * q + (r + 9 + (119 - r) mod 64)"
    using assms m r by (simp add: pad64_def)
  moreover have "r + 9 + (119 - r) mod 64 = (if r \<le> 55 then 64 else 128)"
    using r by (simp add: pad_zeros)
  ultimately show ?thesis by (simp split: if_splits)
qed

section \<open>Arrays of eight words\<close>

lemma length8E:
  assumes "length A = 8"
  obtains a b c d e f g h where "A = [a, b, c, d, e, f, g, h]"
  using assms by (auto simp: eval_nat_numeral length_Suc_conv)

lemma numeral_nth8:
  "[a, b, c, d, e, f, g, h] ! 0 = a" "[a, b, c, d, e, f, g, h] ! 1 = b"
  "[a, b, c, d, e, f, g, h] ! 2 = c" "[a, b, c, d, e, f, g, h] ! 3 = d"
  "[a, b, c, d, e, f, g, h] ! 4 = e" "[a, b, c, d, e, f, g, h] ! 5 = f"
  "[a, b, c, d, e, f, g, h] ! 6 = g" "[a, b, c, d, e, f, g, h] ! 7 = h"
  by (simp_all add: eval_nat_numeral)

lemma length_absorb: "(\<And>h b. length h = n \<Longrightarrow> length (f h b) = n) \<Longrightarrow> length H = n \<Longrightarrow> length (absorb f H m) = n"
proof (induction f H m rule: absorb.induct)
  case (1 f h m)
  then show ?case by (simp add: absorb.simps [of f h m])
qed

section \<open>Writing into a buffer\<close>

definition write_at :: "'a list \<Rightarrow> nat \<Rightarrow> 'a list \<Rightarrow> 'a list" where
  "write_at xs i ys = take i xs @ ys @ drop (i + length ys) xs"

lemma length_write_at [simp]: "i + length ys \<le> length xs \<Longrightarrow> length (write_at xs i ys) = length xs"
  by (simp add: write_at_def)

lemma take_write_at:
  "i \<le> length xs \<Longrightarrow> take (i + length ys) (write_at xs i ys) = take i xs @ ys"
  by (simp add: write_at_def)

lemma take_write_at_more:
  "i \<le> length xs \<Longrightarrow> k = i + length ys \<Longrightarrow> take k (write_at xs i ys) = take i xs @ ys"
  by (simp add: take_write_at)

section \<open>The length of the message as the contexts keep it\<close>

lemma and_ones32 [simp]: "x AND 0xFFFFFFFF = (x :: 32 word)"
proof -
  have "(0xFFFFFFFF :: 32 word) = mask 32" by (simp add: mask_eq_exp_minus_1)
  then have "x AND 0xFFFFFFFF = take_bit 32 x" by (simp only: take_bit_eq_mask)
  also have "\<dots> = x" by (rule bit_word_eqI) (simp add: bit_simps)
  finally show ?thesis .
qed

lemma unat_and_63: "unat (of_nat n AND 0x3F :: 'w::len word) = n mod 64" if "6 \<le> LENGTH('w)"
proof -
  have "(0x3F :: 'w word) = mask 6" by (simp add: mask_eq_exp_minus_1)
  then have "of_nat n AND 0x3F = take_bit 6 (of_nat n :: 'w word)" by (simp only: take_bit_eq_mask)
  then have "unat (of_nat n AND 0x3F :: 'w word) = take_bit 6 (take_bit LENGTH('w) n)"
    by (simp add: unsigned_take_bit_eq unsigned_of_nat)
  also have "\<dots> = n mod 64" using that by (simp add: take_bit_take_bit min_def) (simp add: take_bit_eq_mod)
  finally show ?thesis .
qed

lemma count_carry:
  assumes "l < 2 ^ 32"
  shows "(of_nat n + of_nat l < (of_nat l :: 32 word)) \<longleftrightarrow> (n + l) div 2 ^ 32 = Suc (n div 2 ^ 32)"
    and "\<not> (of_nat n + of_nat l < (of_nat l :: 32 word)) \<longleftrightarrow> (n + l) div 2 ^ 32 = n div 2 ^ 32"
proof -
  define q r where "q = n div 2 ^ 32" and "r = n mod 2 ^ 32"
  have n: "n = 2 ^ 32 * q + r" and r: "r < 2 ^ 32" by (simp_all add: q_def r_def)
  have eq: "of_nat n + of_nat l = (of_nat (r + l) :: 32 word)"
    by (simp add: word_of_nat_eq_iff take_bit_eq_mod n add.assoc flip: of_nat_add)
  have "(of_nat n + of_nat l < (of_nat l :: 32 word)) \<longleftrightarrow> (r + l) mod 2 ^ 32 < l"
    unfolding eq using assms
    by (simp add: word_less_nat_alt unsigned_of_nat take_bit_eq_mod del: of_nat_add)
  also have "\<dots> \<longleftrightarrow> 2 ^ 32 \<le> r + l"
    using r assms by (cases "2 ^ 32 \<le> r + l") (auto simp: le_mod_geq mod_less)
  finally have carry: "(of_nat n + of_nat l < (of_nat l :: 32 word)) \<longleftrightarrow> 2 ^ 32 \<le> r + l" .
  have "(n + l) div 2 ^ 32 = q + (if 2 ^ 32 \<le> r + l then 1 else 0)"
  proof -
    have "(n + l) div 2 ^ 32 = q + (r + l) div 2 ^ 32" by (simp add: n)
    then show ?thesis using r assms by (auto simp: le_div_geq)
  qed
  with carry show "(of_nat n + of_nat l < (of_nat l :: 32 word)) \<longleftrightarrow> (n + l) div 2 ^ 32 = Suc (n div 2 ^ 32)"
    and "\<not> (of_nat n + of_nat l < (of_nat l :: 32 word)) \<longleftrightarrow> (n + l) div 2 ^ 32 = n div 2 ^ 32"
    by (auto simp: q_def)
qed

lemma enc_be64_words:
  "put_be32 (drop_bit 29 (of_nat n) OR push_bit 3 (of_nat (n div 2 ^ 32))) @ put_be32 (push_bit 3 (of_nat n))
     = enc_be64 n"
proof -
  have "8 * n div 2 ^ 32 = drop_bit 29 n" by (simp add: drop_bit_eq_div)
  moreover have "drop_bit 29 (of_nat n) OR push_bit 3 (of_nat (n div 2 ^ 32)) = (of_nat (drop_bit 29 n) :: 32 word)"
  proof (rule bit_word_eqI)
    fix i assume i: "i < LENGTH(32)"
    have "n div 2 ^ 32 = drop_bit 32 n" by (simp add: drop_bit_eq_div)
    moreover have "3 \<le> i \<Longrightarrow> 32 + (i - 3) = 29 + i" by simp
    ultimately show "bit (drop_bit 29 (of_nat n) OR push_bit 3 (of_nat (n div 2 ^ 32)) :: 32 word) i
        = bit (of_nat (drop_bit 29 n) :: 32 word) i"
      using i by (auto simp: bit_simps not_less)
  qed
  moreover have "push_bit 3 (of_nat n) = (of_nat (8 * n) :: 32 word)"
    by (simp add: push_bit_eq_mult)
  ultimately show ?thesis by (simp add: enc_be64_def)
qed

section \<open>The contract\<close>

text \<open>
  \<open>rep c m\<close>: the context \<open>c\<close> has received the message \<open>m\<close>. The pieces are
  shorter than \<open>limit\<close>, the range of the length parameter of the C function.
\<close>

locale streaming_hash =
  fixes digest :: "byte list \<Rightarrow> byte list"
    and init :: 'c
    and update :: "'c \<Rightarrow> byte list \<Rightarrow> 'c"
    and final :: "'c \<Rightarrow> byte list"
    and rep :: "'c \<Rightarrow> byte list \<Rightarrow> bool"
    and limit :: nat
  assumes rep_init: "rep init []"
    and rep_update: "rep c m \<Longrightarrow> length d < limit \<Longrightarrow> rep (update c d) (m @ d)"
    and final_rep: "rep c m \<Longrightarrow> final c = digest m"
begin

lemma rep_fold: "rep c m \<Longrightarrow> \<forall>d \<in> set ds. length d < limit \<Longrightarrow> rep (foldl update c ds) (m @ concat ds)"
proof (induction ds arbitrary: c m)
  case (Cons d ds)
  then have "rep (update c d) (m @ d)" by (simp add: rep_update)
  with Cons.IH [of "update c d" "m @ d"] Cons.prems(2) show ?case by simp
qed simp

lemma digest_of_pieces:
  "\<forall>d \<in> set ds. length d < limit \<Longrightarrow> final (foldl update init ds) = digest (concat ds)"
  using rep_fold [OF rep_init, of ds] by (simp add: final_rep)

lemma pieces_irrelevant:
  "\<forall>d \<in> set ds. length d < limit \<Longrightarrow> \<forall>d \<in> set es. length d < limit \<Longrightarrow> concat ds = concat es \<Longrightarrow>
   final (foldl update init ds) = final (foldl update init es)"
  by (simp add: digest_of_pieces)

lemma digest_one: "length d < limit \<Longrightarrow> final (update init d) = digest d"
  using digest_of_pieces [of "[d]"] by simp

lemma digest_two:
  "length d < limit \<Longrightarrow> length e < limit \<Longrightarrow> final (update (update init d) e) = digest (d @ e)"
  using digest_of_pieces [of "[d, e]"] by simp

end

end
