(* ===== verification/Fips_Constants.thy ===== *)
theory Fips_Constants
  imports Complex_Main "HOL-Library.Word"
begin

text \<open>
  The constants of SHA-256 as FIPS 180-4 defines them: the first 32 bits of the fractional parts of
  the cube roots of the first 64 primes, and of the square roots of the first eight. They are real
  numbers here, and their bits follow from bounds on integers.
\<close>

definition fips_primes :: "nat list" where
  "fips_primes =
    [2, 3, 5, 7, 11, 13, 17, 19, 23, 29, 31, 37, 41, 43, 47, 53, 59, 61, 67, 71, 73, 79, 83, 89, 97, 101,
     103, 107, 109, 113, 127, 131, 137, 139, 149, 151, 157, 163, 167, 173, 179, 181, 191, 193, 197, 199,
     211, 223, 227, 229, 233, 239, 241, 251, 257, 263, 269, 271, 277, 281, 283, 293, 307, 311]"

text \<open>The list is complete: every number below its end that is not on it has a divisor.\<close>

lemma fips_primes_first:
  "fips_primes = filter (\<lambda>p. list_all (\<lambda>d. d < p \<longrightarrow> p mod d \<noteq> 0) [2, 3, 5, 7, 11, 13, 17]) [2..<312]"
  by (simp add: fips_primes_def upt_conv_Cons)

text \<open>The first 32 bits of the fractional part.\<close>

definition frac32 :: "real \<Rightarrow> 32 word" where
  "frac32 x = of_int \<lfloor>frac x * 2 ^ 32\<rfloor>"

definition fips_K :: "32 word list" where
  "fips_K = map (\<lambda>p. frac32 (root 3 (real p))) fips_primes"

definition fips_H0 :: "32 word list" where
  "fips_H0 = map (\<lambda>p. frac32 (sqrt (real p))) (take 8 fips_primes)"

section \<open>Their values\<close>

lemma frac32_floor: "frac32 x = of_int \<lfloor>x * 2 ^ 32\<rfloor>"
proof -
  have "frac x * 2 ^ 32 = x * 2 ^ 32 - of_int (\<lfloor>x\<rfloor> * 2 ^ 32)"
    by (simp add: frac_def algebra_simps)
  then have "\<lfloor>frac x * 2 ^ 32\<rfloor> = \<lfloor>x * 2 ^ 32\<rfloor> - \<lfloor>x\<rfloor> * 2 ^ 32"
    by (simp only: floor_diff_of_int)
  moreover have "(of_int (\<lfloor>x\<rfloor> * 2 ^ 32) :: 32 word) = 0"
    using word_of_int_eq_iff [where 'a = 32, of "\<lfloor>x\<rfloor> * 2 ^ 32" 0] by (simp add: take_bit_eq_mod)
  ultimately show ?thesis
    by (simp only: frac32_def of_int_diff) simp
qed

lemma root_frac32:
  assumes "0 < k" "a ^ k \<le> p * 2 ^ (32 * k)" "p * 2 ^ (32 * k) < (a + 1) ^ k"
  shows "frac32 (root k (real p)) = of_nat a"
proof -
  let ?x = "root k (real p) * 2 ^ 32"
  have "?x ^ k = real (p * 2 ^ (32 * k))"
    using assms(1) by (simp add: power_mult_distrib power_mult)
  then have "real a ^ k \<le> ?x ^ k" "?x ^ k < real (a + 1) ^ k"
    using assms(2,3) by (simp_all only: of_nat_le_iff of_nat_less_iff flip: of_nat_power)
  then have "real a \<le> ?x" "?x < real (a + 1)"
    using assms(1) power_mono_iff [of "real a" ?x k] power_less_imp_less_base [of ?x k "real (a + 1)"] by simp_all
  then have "\<lfloor>?x\<rfloor> = int a" by (simp add: floor_eq_iff)
  then show ?thesis by (simp add: frac32_floor)
qed

lemma roots_frac32:
  "list_all2 (\<lambda>p a. a ^ k \<le> p * 2 ^ (32 * k) \<and> p * 2 ^ (32 * k) < (a + 1) ^ k) ps rs \<Longrightarrow> 0 < k \<Longrightarrow>
   map (\<lambda>p. frac32 (root k (real p))) ps = map of_nat rs"
  by (induction rule: list_all2_induct) (simp_all add: root_frac32)

text \<open>The roots times two to the 32.\<close>

definition cube_roots :: "nat list" where
  "cube_roots =
    [5411319704, 6194414737, 7344290767, 8215976869, 9551921755, 10098905585, 11043570340, 11460697813,
     12214315672, 13195500289, 13492127166, 14311783875, 14809980276, 15046980094, 15499789991,
     16133124468, 16720292289, 16907126662, 17444216262, 17784676812, 17950125167, 18429019306,
     18734950876, 19175934170, 19734090066, 20001703533, 20132865992, 20390182855, 20516441075,
     20764397895, 21588763473, 21813078375, 22141143685, 22248366392, 22769593852, 22871018771,
     23170020180, 23461497531, 23651862830, 23931792517, 24205322401, 24295138891, 24734567280,
     24820601251, 24990902297, 25075189284, 25569408389, 26045227120, 26200031510, 26276752392,
     26428864332, 26653801653, 26727943347, 27092625994, 27306805839, 27517677555, 27725365998,
     27793908591, 27997534228, 28131656200, 28198240250, 28526537963, 28973835255, 29099129074]"

definition square_roots :: "nat list" where
  "square_roots = [6074000999, 7439101573, 9603838834, 11363415354, 14244795007, 15485724812, 17708603819, 18721328409]"

lemma fips_K_roots: "fips_K = map of_nat cube_roots"
  unfolding fips_K_def
  by (rule roots_frac32) (simp_all add: fips_primes_def cube_roots_def)

lemma fips_H0_roots: "fips_H0 = map of_nat square_roots"
  unfolding fips_H0_def sqrt_def
  by (rule roots_frac32) (simp_all add: fips_primes_def square_roots_def)

end
