(* ===== verification/Core_Sha256.thy ===== *)
theory Core_Sha256
  imports MD_Hash Fips_Constants
begin

text \<open>
  \<^verbatim>\<open>core/utils/core_sha256.c\<close>: the context of SHA-256, its update and finish, and the
  HMAC built on them. The compression is compared with the functions and the constants of the standard, the
  streaming interface with the digest of the whole message.
\<close>

section \<open>The context and the compression function\<close>

record sha256_context =
  total0 :: "32 word"
  total1 :: "32 word"
  sha_state :: "32 word list"
  sha_buffer :: "byte list"
  is224 :: byte

definition core_sha256_init :: sha256_context where
  "core_sha256_init = \<lparr>total0 = 0, total1 = 0, sha_state = replicate 8 0,
     sha_buffer = replicate 64 0, is224 = 0\<rparr>"

definition sha256_iv :: "32 word list" where
  "sha256_iv = [0x6A09E667, 0xBB67AE85, 0x3C6EF372, 0xA54FF53A,
    0x510E527F, 0x9B05688C, 0x1F83D9AB, 0x5BE0CD19]"

definition core_sha256_starts :: "sha256_context \<Rightarrow> sha256_context" where
  "core_sha256_starts ctx = ctx\<lparr>total0 := 0, total1 := 0, sha_state := sha256_iv, is224 := 0\<rparr>"

definition sha256_K :: "32 word list" where
  "sha256_K = [
    0x428A2F98, 0x71374491, 0xB5C0FBCF, 0xE9B5DBA5,
    0x3956C25B, 0x59F111F1, 0x923F82A4, 0xAB1C5ED5,
    0xD807AA98, 0x12835B01, 0x243185BE, 0x550C7DC3,
    0x72BE5D74, 0x80DEB1FE, 0x9BDC06A7, 0xC19BF174,
    0xE49B69C1, 0xEFBE4786, 0x0FC19DC6, 0x240CA1CC,
    0x2DE92C6F, 0x4A7484AA, 0x5CB0A9DC, 0x76F988DA,
    0x983E5152, 0xA831C66D, 0xB00327C8, 0xBF597FC7,
    0xC6E00BF3, 0xD5A79147, 0x06CA6351, 0x14292967,
    0x27B70A85, 0x2E1B2138, 0x4D2C6DFC, 0x53380D13,
    0x650A7354, 0x766A0ABB, 0x81C2C92E, 0x92722C85,
    0xA2BFE8A1, 0xA81A664B, 0xC24B8B70, 0xC76C51A3,
    0xD192E819, 0xD6990624, 0xF40E3585, 0x106AA070,
    0x19A4C116, 0x1E376C08, 0x2748774C, 0x34B0BCB5,
    0x391C0CB3, 0x4ED8AA4A, 0x5B9CCA4F, 0x682E6FF3,
    0x748F82EE, 0x78A5636F, 0x84C87814, 0x8CC70208,
    0x90BEFFFA, 0xA4506CEB, 0xBEF9A3F7, 0xC67178F2]"

definition SHR :: "32 word \<Rightarrow> nat \<Rightarrow> 32 word" where
  "SHR x n = drop_bit n (x AND 0xFFFFFFFF)"

definition ROTR :: "32 word \<Rightarrow> nat \<Rightarrow> 32 word" where
  "ROTR x n = SHR x n OR push_bit (32 - n) x"

definition sha_S0 :: "32 word \<Rightarrow> 32 word" where
  "sha_S0 x = ROTR x 7 XOR ROTR x 18 XOR SHR x 3"

definition sha_S1 :: "32 word \<Rightarrow> 32 word" where
  "sha_S1 x = ROTR x 17 XOR ROTR x 19 XOR SHR x 10"

definition sha_S2 :: "32 word \<Rightarrow> 32 word" where
  "sha_S2 x = ROTR x 2 XOR ROTR x 13 XOR ROTR x 22"

definition sha_S3 :: "32 word \<Rightarrow> 32 word" where
  "sha_S3 x = ROTR x 6 XOR ROTR x 11 XOR ROTR x 25"

definition sha_F0 :: "32 word \<Rightarrow> 32 word \<Rightarrow> 32 word \<Rightarrow> 32 word" where
  "sha_F0 x y z = (x AND y) OR (z AND (x OR y))"

definition sha_F1 :: "32 word \<Rightarrow> 32 word \<Rightarrow> 32 word \<Rightarrow> 32 word" where
  "sha_F1 x y z = z XOR (x AND (y XOR z))"

text \<open>The big-endian word at byte \<open>i\<close> of a block.\<close>

definition be32_at :: "byte list \<Rightarrow> nat \<Rightarrow> 32 word" where
  "be32_at d i = get_be32 (d ! i) (d ! (i + 1)) (d ! (i + 2)) (d ! (i + 3))"

text \<open>
  One turn of the loop: the next word of the schedule (\<open>W\<close> is the array filled so far), the
  macro \<open>P\<close> on the eight working variables, their rotation by one place.
\<close>

definition sha_round ::
  "byte list \<Rightarrow> 32 word list \<times> 32 word list \<Rightarrow> nat \<Rightarrow> 32 word list \<times> 32 word list"
where
  "sha_round data AW i =
     (let A = fst AW; W = snd AW;
          w = (if i < 16 then be32_at data (4 * i)
               else sha_S1 (W ! (i - 2)) + W ! (i - 7) + sha_S0 (W ! (i - 15)) + W ! (i - 16));
          temp1 = A ! 7 + sha_S3 (A ! 4) + sha_F1 (A ! 4) (A ! 5) (A ! 6) + sha256_K ! i + w;
          temp2 = sha_S2 (A ! 0) + sha_F0 (A ! 0) (A ! 1) (A ! 2);
          B = A[3 := A ! 3 + temp1, 7 := temp1 + temp2]
      in ([B ! 7, B ! 0, B ! 1, B ! 2, B ! 3, B ! 4, B ! 5, B ! 6], W @ [w]))"

definition sha_compress :: "32 word list \<Rightarrow> byte list \<Rightarrow> 32 word list" where
  "sha_compress st data = map2 (+) st (fst (foldl (sha_round data) (st, []) [0..<64]))"

definition core_sha256_process :: "sha256_context \<Rightarrow> byte list \<Rightarrow> sha256_context" where
  "core_sha256_process ctx data = ctx\<lparr>sha_state := sha_compress (sha_state ctx) data\<rparr>"

section \<open>Update and finish\<close>

text \<open>The loop over the whole blocks of the input; what is left is returned beside the context.\<close>

function sha_blocks :: "sha256_context \<Rightarrow> byte list \<Rightarrow> sha256_context \<times> byte list" where
  "sha_blocks ctx input =
     (if length input \<ge> 64
      then sha_blocks (core_sha256_process ctx (take 64 input)) (drop 64 input)
      else (ctx, input))"
  by pat_completeness auto
termination by (relation "measure (\<lambda>(c, i). length i)") auto

declare sha_blocks.simps [simp del]

definition core_sha256_update :: "sha256_context \<Rightarrow> byte list \<Rightarrow> sha256_context" where
  "core_sha256_update ctx input =
     (if length input = 0 then ctx
      else
        let ilen = of_nat (length input) :: 32 word;
            left = unat (total0 ctx AND 0x3F);
            fill = 64 - left;
            ctx = ctx\<lparr>total0 := total0 ctx + ilen AND 0xFFFFFFFF\<rparr>;
            ctx = (if total0 ctx < ilen then ctx\<lparr>total1 := total1 ctx + 1\<rparr> else ctx);
            (ctx, input, left) =
              (if left \<noteq> 0 \<and> length input \<ge> fill
               then let ctx = ctx\<lparr>sha_buffer := write_at (sha_buffer ctx) left (take fill input)\<rparr>
                    in (core_sha256_process ctx (sha_buffer ctx), drop fill input, 0)
               else (ctx, input, left));
            (ctx, input) = sha_blocks ctx input
        in if length input > 0
           then ctx\<lparr>sha_buffer := write_at (sha_buffer ctx) left input\<rparr> else ctx)"

definition sha256_padding :: "byte list" where
  "sha256_padding = 0x80 # replicate 63 0"

definition sha_output :: "32 word list \<Rightarrow> byte list" where
  "sha_output st = concat (map put_be32 st)"

definition core_sha256_finish :: "sha256_context \<Rightarrow> sha256_context \<times> byte list" where
  "core_sha256_finish ctx =
     (let high = drop_bit 29 (total0 ctx) OR push_bit 3 (total1 ctx);
          low = push_bit 3 (total0 ctx);
          msglen = put_be32 high @ put_be32 low;
          last = unat (total0 ctx AND 0x3F);
          padn = (if last < 56 then 56 - last else 120 - last);
          ctx = core_sha256_update ctx (take padn sha256_padding);
          ctx = core_sha256_update ctx msglen
      in (ctx, sha_output (take 7 (sha_state ctx))
           @ (if is224 ctx = 0 then put_be32 (sha_state ctx ! 7) else [])))"

definition core_sha256 :: "byte list \<Rightarrow> byte list" where
  "core_sha256 input =
     snd (core_sha256_finish (core_sha256_update (core_sha256_starts core_sha256_init) input))"

text \<open>
  The HMAC writes into the caller's buffer \<open>output\<close>; a key longer than a block makes it return
  at once.
\<close>

definition core_hmac_sha256 :: "byte list \<Rightarrow> byte list \<Rightarrow> byte list \<Rightarrow> byte list" where
  "core_hmac_sha256 msg key output =
     (if length key > 64 then output
      else
        let k_ipad = map (\<lambda>b. b XOR 0x36) (write_at (replicate 64 0) 0 key);
            k_opad = map (\<lambda>b. b XOR 0x5c) (write_at (replicate 64 0) 0 key);
            context = core_sha256_starts core_sha256_init;
            context = core_sha256_update context k_ipad;
            context = core_sha256_update context msg;
            output = snd (core_sha256_finish context);
            context = core_sha256_starts core_sha256_init;
            context = core_sha256_update context k_opad;
            context = core_sha256_update context output
        in snd (core_sha256_finish context))"

section \<open>The functions of the standard\<close>

definition fips_Ch :: "32 word \<Rightarrow> 32 word \<Rightarrow> 32 word \<Rightarrow> 32 word" where
  "fips_Ch x y z = (x AND y) XOR (NOT x AND z)"

definition fips_Maj :: "32 word \<Rightarrow> 32 word \<Rightarrow> 32 word \<Rightarrow> 32 word" where
  "fips_Maj x y z = (x AND y) XOR (x AND z) XOR (y AND z)"

definition fips_Sigma0 :: "32 word \<Rightarrow> 32 word" where
  "fips_Sigma0 x = word_rotr 2 x XOR word_rotr 13 x XOR word_rotr 22 x"

definition fips_Sigma1 :: "32 word \<Rightarrow> 32 word" where
  "fips_Sigma1 x = word_rotr 6 x XOR word_rotr 11 x XOR word_rotr 25 x"

definition fips_sigma0 :: "32 word \<Rightarrow> 32 word" where
  "fips_sigma0 x = word_rotr 7 x XOR word_rotr 18 x XOR drop_bit 3 x"

definition fips_sigma1 :: "32 word \<Rightarrow> 32 word" where
  "fips_sigma1 x = word_rotr 17 x XOR word_rotr 19 x XOR drop_bit 10 x"

fun fips_schedule :: "byte list \<Rightarrow> nat \<Rightarrow> 32 word" where
  "fips_schedule M t =
     (if t < 16 then be32_at M (4 * t)
      else fips_sigma1 (fips_schedule M (t - 2)) + fips_schedule M (t - 7)
         + fips_sigma0 (fips_schedule M (t - 15)) + fips_schedule M (t - 16))"

declare fips_schedule.simps [simp del]

text \<open>The working variables \<open>a\<close> to \<open>h\<close> after \<open>t\<close> rounds.\<close>

fun fips_rounds :: "byte list \<Rightarrow> 32 word list \<Rightarrow> nat \<Rightarrow> 32 word list" where
  "fips_rounds M H 0 = H"
| "fips_rounds M H (Suc t) =
     (case fips_rounds M H t of
        [a, b, c, d, e, f, g, h] \<Rightarrow>
          let T1 = h + fips_Sigma1 e + fips_Ch e f g + fips_K ! t + fips_schedule M t;
              T2 = fips_Sigma0 a + fips_Maj a b c
          in [T1 + T2, a, b, c, d + T1, e, f, g]
      | _ \<Rightarrow> [])"

definition fips_compress :: "32 word list \<Rightarrow> byte list \<Rightarrow> 32 word list" where
  "fips_compress H M = map2 (+) H (fips_rounds M H 64)"

definition fips_sha256 :: "byte list \<Rightarrow> byte list" where
  "fips_sha256 m = md_digest fips_compress fips_H0 enc_be64 (\<lambda>H. concat (map put_be32 H)) m"

text \<open>The tables of the code are the constants of the standard.\<close>

lemma sha256_K_fips: "sha256_K = fips_K"
  by (simp add: sha256_K_def fips_K_roots cube_roots_def)

lemma sha256_iv_fips: "fips_H0 = sha256_iv"
  by (simp add: sha256_iv_def fips_H0_roots square_roots_def)

lemma ROTR_rotr: "0 < n \<Longrightarrow> n < 32 \<Longrightarrow> ROTR x n = word_rotr n x"
proof (rule bit_word_eqI)
  fix i assume n: "0 < n" "n < 32" and i: "i < LENGTH(32)"
  show "bit (ROTR x n) i = bit (word_rotr n x) i"
  proof (cases "i + n < 32")
    case True
    then show ?thesis using n i by (auto simp: ROTR_def SHR_def bit_simps ac_simps dest: bit_imp_le_length)
  next
    case False
    then have "(i + n) mod 32 = i - (32 - n)" using n i by (simp add: mod_if)
    then show ?thesis using False n i
      by (auto simp: ROTR_def SHR_def bit_simps ac_simps dest: bit_imp_le_length)
  qed
qed

lemma sha_functions:
  "sha_S0 = fips_sigma0" "sha_S1 = fips_sigma1" "sha_S2 = fips_Sigma0" "sha_S3 = fips_Sigma1"
  "sha_F0 = fips_Maj" "sha_F1 = fips_Ch"
proof -
  show "sha_S0 = fips_sigma0" by (rule ext) (simp add: sha_S0_def fips_sigma0_def ROTR_rotr SHR_def)
  show "sha_S1 = fips_sigma1" by (rule ext) (simp add: sha_S1_def fips_sigma1_def ROTR_rotr SHR_def)
  show "sha_S2 = fips_Sigma0" by (rule ext) (simp add: sha_S2_def fips_Sigma0_def ROTR_rotr)
  show "sha_S3 = fips_Sigma1" by (rule ext) (simp add: sha_S3_def fips_Sigma1_def ROTR_rotr)
  show "sha_F0 = fips_Maj" "sha_F1 = fips_Ch"
    by (intro ext bit_word_eqI, auto simp: sha_F0_def fips_Maj_def sha_F1_def fips_Ch_def bit_simps)+
qed

lemma list_update8:
  "[a, b, c, d, e, f, g, h][3 := x, 7 := y] = [a, b, c, x, e, f, g, y]"
  by (simp add: eval_nat_numeral)

lemma fips_rounds_8: "length H = 8 \<Longrightarrow> length (fips_rounds M H t) = 8"
proof (induction t)
  case (Suc t)
  then obtain a b c d e f g h where "fips_rounds M H t = [a, b, c, d, e, f, g, h]"
    by (auto elim: length8E)
  then show ?case by (simp add: Let_def)
qed simp

lemma sha_round_list:
  "sha_round M ([a, b, c, d, e, f, g, h], W) t =
     (let w = (if t < 16 then be32_at M (4 * t)
               else sha_S1 (W ! (t - 2)) + W ! (t - 7) + sha_S0 (W ! (t - 15)) + W ! (t - 16));
          T1 = h + sha_S3 e + sha_F1 e f g + sha256_K ! t + w;
          T2 = sha_S2 a + sha_F0 a b c
      in ([T1 + T2, a, b, c, d + T1, e, f, g], W @ [w]))"
  unfolding sha_round_def Let_def fst_conv snd_conv
  by (simp only: numeral_nth8 list_update8)

lemma sha_rounds_fips:
  "length H = 8 \<Longrightarrow> foldl (sha_round M) (H, []) [0..<t] = (fips_rounds M H t, map (fips_schedule M) [0..<t])"
proof (induction t)
  case (Suc t)
  from fips_rounds_8 [OF Suc.prems, of M t] obtain a b c d e f g h where
    A: "fips_rounds M H t = [a, b, c, d, e, f, g, h]" by (auto elim: length8E)
  have w: "(if t < 16 then be32_at M (4 * t)
       else fips_sigma1 (map (fips_schedule M) [0..<t] ! (t - 2)) + map (fips_schedule M) [0..<t] ! (t - 7)
         + fips_sigma0 (map (fips_schedule M) [0..<t] ! (t - 15)) + map (fips_schedule M) [0..<t] ! (t - 16))
      = fips_schedule M t"
    by (subst fips_schedule.simps [of M t]) simp
  show ?case
    using Suc A by (simp add: sha_round_list Let_def sha_functions w sha256_K_fips del: fips_rounds.simps)
      (simp add: A Let_def fips_schedule.simps [of M t])
qed simp

lemma sha_compress_fips: "length H = 8 \<Longrightarrow> sha_compress H M = fips_compress H M"
  by (simp add: sha_compress_def fips_compress_def sha_rounds_fips)

lemma length_fips_compress: "length H = 8 \<Longrightarrow> length (fips_compress H M) = 8"
  by (simp add: fips_compress_def fips_rounds_8)

lemma absorb_cong8: "length H = 8 \<Longrightarrow> absorb sha_compress H m = absorb fips_compress H m"
proof (induction sha_compress H m rule: absorb.induct)
  case (1 h m)
  then show ?case
    by (simp add: absorb.simps [of _ h m] sha_compress_fips length_fips_compress)
qed

lemma length_sha256_iv [simp]: "length sha256_iv = 8"
  by (simp add: sha256_iv_def)

section \<open>The streaming interface\<close>

definition sha_rep :: "sha256_context \<Rightarrow> byte list \<Rightarrow> bool" where
  "sha_rep c m \<longleftrightarrow> total0 c = of_nat (length m) \<and> total1 c = of_nat (length m div 2 ^ 32)
     \<and> sha_state c = absorb fips_compress sha256_iv m \<and> length (sha_buffer c) = 64
     \<and> take (length m mod 64) (sha_buffer c) = tail64 m \<and> is224 c = 0"

lemma sha_rep_state_length: "sha_rep c m \<Longrightarrow> length (sha_state c) = 8"
  by (simp add: sha_rep_def length_absorb length_fips_compress)

lemma sha_blocks_absorb:
  "length (sha_state ctx) = 8 \<Longrightarrow>
   sha_blocks ctx input
     = (ctx\<lparr>sha_state := absorb fips_compress (sha_state ctx) input\<rparr>, tail64 input)"
proof (induction ctx input rule: sha_blocks.induct)
  case (1 ctx input)
  show ?case
  proof (cases "64 \<le> length input")
    case True
    have "tail64 (drop 64 input) = tail64 input"
      using True tail64_block [of "take 64 input" "drop 64 input"] by simp
    moreover have "absorb fips_compress (sha_state ctx) input
        = absorb fips_compress (fips_compress (sha_state ctx) (take 64 input)) (drop 64 input)"
      using True by (simp add: absorb.simps [of _ _ input])
    ultimately show ?thesis
      using 1 True by (simp add: sha_blocks.simps [of ctx input] core_sha256_process_def
          sha_compress_fips length_fips_compress)
  next
    case False
    then show ?thesis
      by (simp add: sha_blocks.simps [of ctx input] absorb_short tail64_short)
  qed
qed

lemma sha_rep_starts: "sha_rep (core_sha256_starts core_sha256_init) []"
  by (simp add: sha_rep_def core_sha256_starts_def core_sha256_init_def absorb_short tail64_short)

lemma sha_count:
  assumes "sha_rep c m" "length d < 2 ^ 32"
  defines "ilen \<equiv> of_nat (length d) :: 32 word"
  shows "total0 c + ilen = of_nat (length (m @ d))"
    and "(if total0 c + ilen < ilen then total1 c + 1 else total1 c) = of_nat (length (m @ d) div 2 ^ 32)"
proof -
  show "total0 c + ilen = of_nat (length (m @ d))"
    using assms by (simp add: sha_rep_def)
  show "(if total0 c + ilen < ilen then total1 c + 1 else total1 c) = of_nat (length (m @ d) div 2 ^ 32)"
    using assms(1) count_carry [OF assms(2), of "length m"]
    by (auto simp: sha_rep_def ilen_def)
qed

lemma sha_rep_update:
  assumes rep: "sha_rep c m" and len: "length d < 2 ^ 32"
  shows "sha_rep (core_sha256_update c d) (m @ d)"
proof (cases "d = []")
  case True
  with rep show ?thesis by (simp add: core_sha256_update_def)
next
  case False
  define t where "t = tail64 m"
  define H where "H = absorb fips_compress sha256_iv m"
  define c1 where "c1 = c\<lparr>total0 := of_nat (length (m @ d)), total1 := of_nat (length (m @ d) div 2 ^ 32)\<rparr>"
  have left: "unat (total0 c AND 0x3F) = length t"
    using rep by (simp add: sha_rep_def t_def length_tail64 unat_and_63)
  have c: "sha_state c = H" "length (sha_buffer c) = 64" "take (length t) (sha_buffer c) = t" "is224 c = 0"
    using rep by (simp_all add: sha_rep_def H_def t_def length_tail64)
  have t64: "length t < 64" by (simp add: t_def)
  have H8: "length H = 8" using sha_rep_state_length [OF rep] c by simp
  have counts: "(let ctx = c\<lparr>total0 := total0 c + of_nat (length d) AND 0xFFFFFFFF\<rparr>
      in if total0 ctx < of_nat (length d) then ctx\<lparr>total1 := total1 ctx + 1\<rparr> else ctx) = c1"
    using sha_count [OF rep len] by (auto simp: c1_def Let_def)
  have upd: "core_sha256_update c d =
     (let (ctx, input, left) =
           (if length t \<noteq> 0 \<and> length d \<ge> 64 - length t
            then let ctx = c1\<lparr>sha_buffer := write_at (sha_buffer c1) (length t) (take (64 - length t) d)\<rparr>
                 in (core_sha256_process ctx (sha_buffer ctx), drop (64 - length t) d, 0)
            else (c1, d, length t));
          (ctx, input) = sha_blocks ctx input
      in if length input > 0
         then ctx\<lparr>sha_buffer := write_at (sha_buffer ctx) left input\<rparr> else ctx)"
    unfolding core_sha256_update_def counts [symmetric] left using False
    by (cases "t = []") (simp_all add: Let_def)
  have goal: "sha_rep (core_sha256_update c d) (m @ d) \<longleftrightarrow>
     (let u = core_sha256_update c d in
      total0 u = total0 c1 \<and> total1 u = total1 c1 \<and> sha_state u = absorb fips_compress H (t @ d)
      \<and> length (sha_buffer u) = 64 \<and> take (length (tail64 (t @ d))) (sha_buffer u) = tail64 (t @ d)
      \<and> is224 u = 0)"
    by (simp add: sha_rep_def c1_def Let_def H_def t_def absorb_append [of _ _ m d]
        tail64_append [of m d] length_tail64 [symmetric] flip: length_append)
  show ?thesis
  proof (cases "64 \<le> length t + length d")
    case False
    then show ?thesis
      unfolding goal unfolding upd using t64 c H8
      by (auto simp: c1_def Let_def sha_blocks_absorb absorb_held absorb_short tail64_short
          take_write_at_more)
  next
    case True
    note f = absorb_filled(1) [OF t64 True, of fips_compress H] absorb_filled(2) [OF t64 True]
    show ?thesis
    proof (cases "length t = 0")
      case True
      then show ?thesis
        unfolding goal unfolding upd using t64 c H8
        by (auto simp: c1_def Let_def sha_blocks_absorb take_write_at_more write_at_def)
    next
      case nz: False
      have buf: "write_at (sha_buffer c) (length t) (take (64 - length t) d) = t @ take (64 - length t) d"
        using c True t64 by (simp add: write_at_def)
      show ?thesis
        unfolding goal unfolding upd using t64 c H8 True nz f
        by (auto simp: c1_def Let_def sha_blocks_absorb core_sha256_process_def sha_compress_fips
            length_fips_compress buf take_write_at_more)
    qed
  qed
qed

lemma sha_pad_bytes:
  "r < 64 \<Longrightarrow> take (if r < 56 then 56 - r else 120 - r) sha256_padding
     = [0x80] @ replicate ((119 - r) mod 64) 0"
proof -
  assume r: "r < 64"
  have "(if r < 56 then 56 - r else 120 - r) = Suc ((119 - r) mod 64)"
    using r by (auto simp: pad_zeros)
  moreover have "(119 - r) mod 64 \<le> 63" by (simp add: less_Suc_eq_le [symmetric])
  ultimately show ?thesis by (simp add: sha256_padding_def)
qed

lemma sha_finish_rep:
  assumes rep: "sha_rep c m"
  shows "snd (core_sha256_finish c) = fips_sha256 m"
proof -
  define p where "p = [0x80] @ replicate ((119 - length m mod 64) mod 64) (0 :: byte)"
  define u where "u = core_sha256_update (core_sha256_update c p) (enc_be64 (length m))"
  have t: "total0 c = of_nat (length m)" "total1 c = of_nat (length m div 2 ^ 32)"
    using rep by (simp_all add: sha_rep_def)
  have lenp: "length p < 2 ^ 32"
  proof -
    have "(119 - length m mod 64) mod 64 < 64" by simp
    then show ?thesis by (simp add: p_def)
  qed
  have padn: "take (if length m mod 64 < 56 then 56 - length m mod 64 else 120 - length m mod 64) sha256_padding = p"
    by (simp only: p_def sha_pad_bytes mod_less_divisor zero_less_numeral)
  have count: "unat (of_nat (length m) AND 0x3F :: 32 word) = length m mod 64"
    by (simp add: unat_and_63)
  have fin: "snd (core_sha256_finish c) = sha_output (take 7 (sha_state u))
      @ (if is224 u = 0 then put_be32 (sha_state u ! 7) else [])"
    by (simp only: core_sha256_finish_def Let_def enc_be64_words u_def count padn snd_conv t)
  have "sha_rep u ((m @ p) @ enc_be64 (length m))"
    unfolding u_def by (intro sha_rep_update rep lenp) simp
  then have ru: "sha_rep u (pad64 enc_be64 m)" by (simp add: pad64_def p_def)
  from sha_rep_state_length [OF ru] obtain a b x d e f g h where
    st: "sha_state u = [a, b, x, d, e, f, g, h]" by (auto elim: length8E)
  have "is224 u = 0" using ru by (simp add: sha_rep_def)
  then have "snd (core_sha256_finish c) = sha_output (sha_state u)"
    by (simp add: fin st sha_output_def)
  with ru show ?thesis by (simp add: fips_sha256_def sha256_iv_fips md_digest_def sha_rep_def sha_output_def)
qed

interpretation sha256: streaming_hash fips_sha256 "core_sha256_starts core_sha256_init"
  core_sha256_update "\<lambda>c. snd (core_sha256_finish c)" sha_rep "2 ^ 32"
  by unfold_locales (fact sha_rep_starts sha_rep_update sha_finish_rep)+

lemma length_fips_sha256: "length (fips_sha256 m) = 32"
proof -
  have "length (absorb fips_compress sha256_iv (pad64 enc_be64 m)) = 8"
    by (rule length_absorb) (simp_all add: length_fips_compress)
  then obtain a b c d e f g h where
    "absorb fips_compress sha256_iv (pad64 enc_be64 m) = [a, b, c, d, e, f, g, h]"
    by (rule length8E)
  then show ?thesis by (simp add: fips_sha256_def sha256_iv_fips md_digest_def sha_output_def)
qed

text \<open>The HMAC of RFC 2104 for a key that fits a block.\<close>

definition rfc_hmac :: "byte list \<Rightarrow> byte list \<Rightarrow> byte list" where
  "rfc_hmac key m =
     (let K0 = key @ replicate (64 - length key) 0
      in fips_sha256 (map (\<lambda>b. b XOR 0x5c) K0 @ fips_sha256 (map (\<lambda>b. b XOR 0x36) K0 @ m)))"

lemma core_hmac_sha256_rfc:
  assumes "length key \<le> 64" "length msg < 2 ^ 32"
  shows "core_hmac_sha256 msg key output = rfc_hmac key msg"
proof -
  have K0: "write_at (replicate 64 0) 0 key = key @ replicate (64 - length key) (0 :: byte)"
    by (simp add: write_at_def)
  have len: "length (map f (key @ replicate (64 - length key) (0 :: byte))) < 2 ^ 32" for f :: "byte \<Rightarrow> byte"
    using assms(1) by simp
  have inner: "length (fips_sha256 m) < 2 ^ 32" for m
    by (simp add: length_fips_sha256)
  show ?thesis
    unfolding core_hmac_sha256_def rfc_hmac_def Let_def K0
      sha256.digest_two [OF len assms(2)] sha256.digest_two [OF len inner]
    using assms(1) by simp
qed

section \<open>Properties\<close>

text \<open>
  The compression function of the code, with its rotated array of working variables and its
  shortened boolean functions, is the compression function of FIPS 180-4.
\<close>

theorem sha256_process_fips:
  assumes "length (sha_state ctx) = 8"
  shows "core_sha256_process ctx data = ctx\<lparr>sha_state := fips_compress (sha_state ctx) data\<rparr>"
  using sha_compress_fips [OF assms] by (simp add: core_sha256_process_def)

theorem sha256_process_fips_witness:
  "core_sha256_process (core_sha256_starts core_sha256_init) (replicate 64 0)
     = (core_sha256_starts core_sha256_init)
         \<lparr>sha_state := fips_compress sha256_iv (replicate 64 0)\<rparr>"
proof -
  have "sha_state (core_sha256_starts core_sha256_init) = sha256_iv"
    by (simp add: core_sha256_starts_def)
  then show ?thesis
    using sha256_process_fips [of "core_sha256_starts core_sha256_init" "replicate 64 0"] by simp
qed

text \<open>
  C21: however a message is cut into pieces for \<^verbatim>\<open>core_sha256_update\<close>, each shorter than
  four gigabytes, the digest is the SHA-256 of the whole message: the buffering, the two-word
  byte counter and the padding are right for every length.
\<close>

theorem sha256_streaming:
  assumes "list_all (\<lambda>d. length d < 2 ^ 32) ds"
  shows "snd (core_sha256_finish (foldl core_sha256_update (core_sha256_starts core_sha256_init) ds))
    = fips_sha256 (concat ds)"
  using assms by (intro sha256.digest_of_pieces) (simp add: list_all_iff)

theorem sha256_streaming_witness:
  "snd (core_sha256_finish (foldl core_sha256_update (core_sha256_starts core_sha256_init)
      [str ''a'', [], str ''bc'']))
    = snd (core_sha256_finish (foldl core_sha256_update (core_sha256_starts core_sha256_init)
      [str ''abc'']))"
  using sha256_streaming [of "[str ''a'', [], str ''bc'']"] sha256_streaming [of "[str ''abc'']"]
  by simp

text \<open>
  C28: \<^verbatim>\<open>core_hmac_sha256\<close> is the HMAC of RFC 2104 for keys of at most 64 bytes; for a
  longer key it leaves the output buffer as the caller passed it.
\<close>

theorem hmac_sha256_correct:
  assumes "length msg < 2 ^ 32"
  shows "core_hmac_sha256 msg key output = (if length key \<le> 64 then rfc_hmac key msg else output)"
  using core_hmac_sha256_rfc [OF _ assms] by (simp add: core_hmac_sha256_def)

theorem hmac_sha256_correct_witness:
  "core_hmac_sha256 (str ''m'') (replicate 65 1) [7] = [7]
   \<and> core_hmac_sha256 (str ''m'') (str ''key'') [7] = rfc_hmac (str ''key'') (str ''m'')"
  using hmac_sha256_correct [of "str ''m''" "replicate 65 1" "[7]"]
    hmac_sha256_correct [of "str ''m''" "str ''key''" "[7]"] by simp

end
