(* ===== verification/Sm3.thy ===== *)
theory Sm3
  imports MD_Hash
begin

text \<open>
  \<^verbatim>\<open>Demo/agreement/sm3.c\<close>: message expansion and compression of SM3, the streaming
  interface and the one-shot \<^verbatim>\<open>sm3\<close>, which pads on its own. Both are compared with the
  digest of the whole message, the compression with the functions of the standard.
\<close>

section \<open>Message expansion and compression\<close>

text \<open>
  The macro shifts by \<open>32 - 0\<close> where the count is a multiple of 32. \<open>drop_bit\<close> gives
  zero there; machines that reduce the count give the operand again: the or of the two is the
  operand in both cases.
\<close>

definition SM3_ROTL :: "32 word \<Rightarrow> nat \<Rightarrow> 32 word" where
  "SM3_ROTL x y = push_bit (y mod 32) x OR drop_bit (32 - y mod 32) x"

definition sm3_expand :: "32 word list \<Rightarrow> nat \<Rightarrow> 32 word list" where
  "sm3_expand pW j =
     (let x = pW ! (j - 16) XOR pW ! (j - 9) XOR SM3_ROTL (pW ! (j - 3)) 15;
          x = x XOR (SM3_ROTL x 15 XOR SM3_ROTL x 23);
          x = x XOR (SM3_ROTL (pW ! (j - 13)) 7 XOR pW ! (j - 6))
      in pW @ [x])"

definition sm3_ms :: "32 word list \<Rightarrow> 32 word list" where
  "sm3_ms pMsg =
     (let pW = foldl sm3_expand (take 16 pMsg) [16..<68]
      in pW @ map (\<lambda>j. pW ! j XOR pW ! (j + 4)) [0..<64])"

type_synonym sm3_regs =
  "32 word \<times> 32 word \<times> 32 word \<times> 32 word \<times> 32 word \<times> 32 word \<times> 32 word \<times> 32 word"

text \<open>The bodies of the two loops: rounds 0 to 15 and rounds 16 to 63.\<close>

definition sm3_round_a :: "32 word list \<Rightarrow> sm3_regs \<Rightarrow> nat \<Rightarrow> sm3_regs" where
  "sm3_round_a w = (\<lambda>(A, B, C, D, E, F, G, H) j.
     let SS1 = SM3_ROTL (SM3_ROTL A 12 + E + SM3_ROTL 0x79CC4519 j) 7;
         SS2 = SS1 XOR SM3_ROTL A 12;
         TT1 = (A XOR B XOR C) + D + SS2 + w ! (j + 68);
         TT2 = (E XOR F XOR G) + H + SS1 + w ! j
     in (TT1, A, SM3_ROTL B 9, C, TT2 XOR SM3_ROTL TT2 9 XOR SM3_ROTL TT2 17, E, SM3_ROTL F 19, G))"

definition sm3_round_b :: "32 word list \<Rightarrow> sm3_regs \<Rightarrow> nat \<Rightarrow> sm3_regs" where
  "sm3_round_b w = (\<lambda>(A, B, C, D, E, F, G, H) j.
     let SS1 = SM3_ROTL (SM3_ROTL A 12 + E + SM3_ROTL 0x7A879D8A j) 7;
         SS2 = SS1 XOR SM3_ROTL A 12;
         TT1 = ((A AND B) OR (A AND C) OR (B AND C)) + D + SS2 + w ! (j + 68);
         TT2 = ((E AND F) OR (NOT E AND G)) + H + SS1 + w ! j
     in (TT1, A, SM3_ROTL B 9, C, TT2 XOR SM3_ROTL TT2 9 XOR SM3_ROTL TT2 17, E, SM3_ROTL F 19, G))"

definition sm3_words :: "byte list \<Rightarrow> 32 word list" where
  "sm3_words pMsg =
     map (\<lambda>j. get_be32 (pMsg ! (4 * j)) (pMsg ! (4 * j + 1)) (pMsg ! (4 * j + 2)) (pMsg ! (4 * j + 3))) [0..<16]"

fun sm3_regs_of :: "32 word list \<Rightarrow> sm3_regs" where
  "sm3_regs_of pH = (pH ! 0, pH ! 1, pH ! 2, pH ! 3, pH ! 4, pH ! 5, pH ! 6, pH ! 7)"

definition sm3_cf :: "32 word list \<Rightarrow> byte list \<Rightarrow> 32 word list" where
  "sm3_cf pH pMsg =
     (let w = sm3_ms (sm3_words pMsg);
          r = foldl (sm3_round_a w) (sm3_regs_of pH) [0..<16];
          (A, B, C, D, E, F, G, H) = foldl (sm3_round_b w) r [16..<64]
      in [pH ! 0 XOR A, pH ! 1 XOR B, pH ! 2 XOR C, pH ! 3 XOR D,
          pH ! 4 XOR E, pH ! 5 XOR F, pH ! 6 XOR G, pH ! 7 XOR H])"

section \<open>The streaming interface\<close>

record sm3_ctx =
  sm3_h :: "32 word list"
  sm3_bb :: "byte list"
  sm3_len :: "64 word"

definition sm3_iv :: "32 word list" where
  "sm3_iv = [0x7380166F, 0x4914B2B9, 0x172442D7, 0xDA8A0600,
     0xA96F30BC, 0x163138AA, 0xE38DEE4D, 0xB0FB0E4E]"

definition sm3_init :: "sm3_ctx \<Rightarrow> sm3_ctx" where
  "sm3_init ctx = ctx\<lparr>sm3_h := sm3_iv, sm3_len := 0\<rparr>"

text \<open>The loop over the whole blocks of the input.\<close>

definition sm3_blocks :: "32 word list \<Rightarrow> byte list \<Rightarrow> 32 word list" where
  "sm3_blocks h inp = foldl (\<lambda>h i. sm3_cf h (take 64 (drop (i * 64) inp))) h [0..<length inp div 64]"

definition sm3_update :: "sm3_ctx \<Rightarrow> byte list \<Rightarrow> sm3_ctx" where
  "sm3_update ctx inp =
     (let iCurPos = unat (sm3_len ctx mod 64);
          iMin = (if 64 - iCurPos < length inp then 64 - iCurPos else length inp);
          ctx = ctx\<lparr>sm3_bb := write_at (sm3_bb ctx) iCurPos (take iMin inp),
                    sm3_len := sm3_len ctx + of_nat (length inp)\<rparr>
      in if length inp \<ge> 64 - iCurPos then
           let h = sm3_cf (sm3_h ctx) (sm3_bb ctx);
               inp = drop (64 - iCurPos) inp;
               h = sm3_blocks h inp
           in ctx\<lparr>sm3_h := h,
                  sm3_bb := write_at (sm3_bb ctx) 0 (drop (64 * (length inp div 64)) inp)\<rparr>
         else ctx)"

text \<open>A word reversed by masks and shifts, then stored by a little-endian machine.\<close>

definition sm3_swap :: "32 word \<Rightarrow> 32 word" where
  "sm3_swap x = drop_bit 24 x OR drop_bit 8 (x AND 0x00ff0000) OR push_bit 8 (x AND 0x0000ff00)
     OR push_bit 24 x"

definition store_le32 :: "32 word \<Rightarrow> byte list" where
  "store_le32 n = [ucast n, ucast (drop_bit 8 n), ucast (drop_bit 16 n), ucast (drop_bit 24 n)]"

text \<open>The last one or two blocks, which both the streaming and the one-shot form build.\<close>

definition sm3_last_blocks :: "32 word list \<Rightarrow> byte list \<Rightarrow> 32 word \<Rightarrow> 32 word \<Rightarrow> 32 word list" where
  "sm3_last_blocks h rest high low =
     (let bb = write_at (replicate 128 0) 0 rest;
          bb = bb[length rest := 0x80]
      in if length rest < 56 then
           let bb = write_at (write_at bb 56 (store_le32 (sm3_swap high))) 60 (store_le32 (sm3_swap low))
           in sm3_cf h (take 64 bb)
         else
           let h = sm3_cf h (take 64 bb);
               bb = write_at (write_at bb 120 (store_le32 (sm3_swap high))) 124 (store_le32 (sm3_swap low))
           in sm3_cf h (drop 64 bb))"

definition sm3_output :: "32 word list \<Rightarrow> byte list" where
  "sm3_output h = concat (map put_be32 h)"

definition sm3_final :: "sm3_ctx \<Rightarrow> sm3_ctx \<times> byte list" where
  "sm3_final ctx =
     (let rest = take (unat (sm3_len ctx AND 63)) (sm3_bb ctx);
          high = ucast (drop_bit 29 (sm3_len ctx));
          low = ucast (push_bit 3 (sm3_len ctx));
          h = sm3_last_blocks (sm3_h ctx) rest high low
      in (ctx\<lparr>sm3_h := h\<rparr>, sm3_output h))"

definition sm3 :: "byte list \<Rightarrow> byte list" where
  "sm3 inp =
     (let inlen = of_nat (length inp) :: 32 word;
          H = sm3_blocks sm3_iv inp;
          rest = drop (64 * (length inp div 64)) inp
      in sm3_output (sm3_last_blocks H rest (drop_bit 29 inlen) (push_bit 3 inlen)))"

section \<open>The functions of the standard\<close>

definition std_P0 :: "32 word \<Rightarrow> 32 word" where
  "std_P0 x = x XOR word_rotl 9 x XOR word_rotl 17 x"

definition std_P1 :: "32 word \<Rightarrow> 32 word" where
  "std_P1 x = x XOR word_rotl 15 x XOR word_rotl 23 x"

definition std_FF :: "nat \<Rightarrow> 32 word \<Rightarrow> 32 word \<Rightarrow> 32 word \<Rightarrow> 32 word" where
  "std_FF j x y z = (if j < 16 then x XOR y XOR z else (x AND y) OR (x AND z) OR (y AND z))"

definition std_GG :: "nat \<Rightarrow> 32 word \<Rightarrow> 32 word \<Rightarrow> 32 word \<Rightarrow> 32 word" where
  "std_GG j x y z = (if j < 16 then x XOR y XOR z else (x AND y) OR (NOT x AND z))"

definition std_T :: "nat \<Rightarrow> 32 word" where
  "std_T j = (if j < 16 then 0x79CC4519 else 0x7A879D8A)"

fun std_W :: "byte list \<Rightarrow> nat \<Rightarrow> 32 word" where
  "std_W M j =
     (if j < 16 then get_be32 (M ! (4 * j)) (M ! (4 * j + 1)) (M ! (4 * j + 2)) (M ! (4 * j + 3))
      else std_P1 (std_W M (j - 16) XOR std_W M (j - 9) XOR word_rotl 15 (std_W M (j - 3)))
        XOR word_rotl 7 (std_W M (j - 13)) XOR std_W M (j - 6))"

declare std_W.simps [simp del]

definition std_W' :: "byte list \<Rightarrow> nat \<Rightarrow> 32 word" where
  "std_W' M j = std_W M j XOR std_W M (j + 4)"

definition std_round :: "byte list \<Rightarrow> sm3_regs \<Rightarrow> nat \<Rightarrow> sm3_regs" where
  "std_round M = (\<lambda>(A, B, C, D, E, F, G, H) j.
     let SS1 = word_rotl 7 (word_rotl 12 A + E + word_rotl j (std_T j));
         SS2 = SS1 XOR word_rotl 12 A;
         TT1 = std_FF j A B C + D + SS2 + std_W' M j;
         TT2 = std_GG j E F G + H + SS1 + std_W M j
     in (TT1, A, word_rotl 9 B, C, std_P0 TT2, E, word_rotl 19 F, G))"

definition std_compress :: "32 word list \<Rightarrow> byte list \<Rightarrow> 32 word list" where
  "std_compress V M =
     (let (A, B, C, D, E, F, G, H) = foldl (std_round M) (sm3_regs_of V) [0..<64]
      in map2 (XOR) V [A, B, C, D, E, F, G, H])"

definition std_sm3 :: "byte list \<Rightarrow> byte list" where
  "std_sm3 m = md_digest std_compress sm3_iv enc_be64 sm3_output m"

lemma SM3_ROTL_rotl: "SM3_ROTL x y = word_rotl y x"
  by (simp only: SM3_ROTL_def rotl_shifts)

lemma sm3_expand_std:
  "foldl sm3_expand (map (std_W M) [0..<16]) [16..<16 + k] = map (std_W M) [0..<16 + k]"
proof (induction k)
  case (Suc k)
  have "[0..<16 + Suc k] = [0..<16 + k] @ [16 + k]" "[16..<16 + Suc k] = [16..<16 + k] @ [16 + k]"
    by (simp_all only: add_Suc_right upt_Suc_append le_add1 zero_le)
  then show ?case
    using Suc by (simp add: sm3_expand_def Let_def std_W.simps [of M "16 + k"] std_P1_def
        SM3_ROTL_rotl xor.assoc del: upt_Suc)
qed simp

lemma sm3_ms_std:
  "sm3_ms (sm3_words M) = map (std_W M) [0..<68] @ map (std_W' M) [0..<64]"
proof -
  have w: "sm3_words M = map (std_W M) [0..<16]"
    by (simp add: sm3_words_def std_W.simps)
  have "foldl sm3_expand (map (std_W M) [0..<16]) [16..<68] = map (std_W M) [0..<68]"
    using sm3_expand_std [of M 52] by simp
  then show ?thesis by (simp add: sm3_ms_def w Let_def std_W'_def del: upt_Suc)
qed

lemma foldl_agree: "(\<And>a x. x \<in> set xs \<Longrightarrow> f a x = g a x) \<Longrightarrow> foldl f a xs = foldl g a xs"
  by (induction xs arbitrary: a) auto

lemma sm3_round_std:
  "j < 16 \<Longrightarrow> sm3_round_a (sm3_ms (sm3_words M)) r j = std_round M r j"
  "16 \<le> j \<Longrightarrow> j < 64 \<Longrightarrow> sm3_round_b (sm3_ms (sm3_words M)) r j = std_round M r j"
  by (simp_all add: sm3_round_a_def sm3_round_b_def std_round_def sm3_ms_std Let_def SM3_ROTL_rotl
      std_FF_def std_GG_def std_T_def std_P0_def nth_append add.commute [of j 68] del: upt_Suc
      split: prod.split)

lemma sm3_cf_std: "length h = 8 \<Longrightarrow> sm3_cf h M = std_compress h M"
proof -
  assume len: "length h = 8"
  let ?w = "sm3_ms (sm3_words M)"
  have "foldl (sm3_round_a ?w) r [0..<16] = foldl (std_round M) r [0..<16]" for r
    by (rule foldl_agree, rule sm3_round_std, simp only: set_upt atLeastLessThan_iff)
  moreover have "foldl (sm3_round_b ?w) r [16..<64] = foldl (std_round M) r [16..<64]" for r
    by (rule foldl_agree, rule sm3_round_std, simp_all only: set_upt atLeastLessThan_iff)
  moreover have "[0..<64] = [0..<16] @ [16..<64]"
    using upt_add_eq_append [of 0 16 48] by (simp del: upt_Suc)
  ultimately have loops: "foldl (sm3_round_b ?w) (foldl (sm3_round_a ?w) r [0..<16]) [16..<64]
      = foldl (std_round M) r [0..<64]" for r
    by (simp only: foldl_append)
  obtain a b c d e f g i where h: "h = [a, b, c, d, e, f, g, i]"
    using len by (rule length8E)
  show ?thesis
    unfolding sm3_cf_def std_compress_def Let_def loops
    by (simp only: h numeral_nth8 list.map zip_Cons_Cons zip_Nil split: prod.split) simp
qed

lemma length_sm3_iv [simp]: "length sm3_iv = 8"
  by (simp add: sm3_iv_def)

lemma length_std_compress: "length h = 8 \<Longrightarrow> length (std_compress h M) = 8"
  by (simp add: std_compress_def split: prod.split)

section \<open>Padding\<close>

lemma store_swap: "store_le32 (sm3_swap x) = put_be32 x"
proof -
  have b: "bit (sm3_swap x) n \<longleftrightarrow>
      (n < 8 \<and> bit x (n + 24) \<or> 8 \<le> n \<and> n < 16 \<and> bit x (n + 8)
       \<or> 16 \<le> n \<and> n < 24 \<and> bit x (n - 8) \<or> 24 \<le> n \<and> n < 32 \<and> bit x (n - 24))" for n
  proof -
    have m1: "(0x00ff0000 :: 32 word) = push_bit 16 (mask 8)" by (simp add: mask_eq_exp_minus_1 push_bit_eq_mult)
    have m2: "(0x0000ff00 :: 32 word) = push_bit 8 (mask 8)" by (simp add: mask_eq_exp_minus_1 push_bit_eq_mult)
    show ?thesis
      unfolding sm3_swap_def m1 m2
      using bit_imp_le_length [of x "n + 24"] bit_imp_le_length [of x "n + 8"]
      by (auto simp: bit_simps ac_simps)
  qed
  have "ucast (sm3_swap x) = (ucast (drop_bit 24 x) :: byte)"
    "ucast (drop_bit 8 (sm3_swap x)) = (ucast (drop_bit 16 x) :: byte)"
    "ucast (drop_bit 16 (sm3_swap x)) = (ucast (drop_bit 8 x) :: byte)"
    "ucast (drop_bit 24 (sm3_swap x)) = (ucast x :: byte)"
    by (rule bit_word_eqI, auto simp: bit_simps b ac_simps)+
  then show ?thesis by (simp add: store_le32_def put_be32_def)
qed

lemma sm3_last_blocks_pad:
  assumes h: "h = absorb sm3_cf sm3_iv m"
    and enc: "store_le32 (sm3_swap high) @ store_le32 (sm3_swap low) = enc_be64 (length m)"
  shows "sm3_last_blocks h (tail64 m) high low = absorb sm3_cf sm3_iv (pad64 enc_be64 m)"
proof -
  define t where "t = tail64 m"
  define e where "e = enc_be64 (length m)"
  have t: "length t < 64" "length m mod 64 = length t" by (simp_all add: t_def length_tail64)
  have e: "length e = 8" by (simp add: e_def)
  have w2: "write_at (write_at bb i (store_le32 (sm3_swap high))) (i + 4) (store_le32 (sm3_swap low))
      = write_at bb i e" if "i + 8 \<le> length bb" for bb i
  proof -
    have "length (store_le32 x) = 4" for x by (simp add: store_le32_def)
    with that show ?thesis by (simp add: write_at_def e_def add.commute flip: enc)
  qed
  have w2': "write_at (write_at bb 56 (store_le32 (sm3_swap high))) 60 (store_le32 (sm3_swap low)) = write_at bb 56 e"
      "write_at (write_at bb 120 (store_le32 (sm3_swap high))) 124 (store_le32 (sm3_swap low)) = write_at bb 120 e"
    if "length bb = 128" for bb
    using w2 [of 56 bb] w2 [of 120 bb] that by simp_all
  have bb: "(write_at (replicate 128 0) 0 t)[length t := 0x80] = t @ 0x80 # replicate (127 - length t) (0 :: byte)"
  proof -
    have "128 - length t = Suc (127 - length t)" using t by simp
    then show ?thesis by (simp add: write_at_def list_update_append)
  qed
  have abs: "absorb sm3_cf sm3_iv (m @ p) = absorb sm3_cf h (t @ p)" for p
    by (simp add: h t_def absorb_append [of _ _ m p])
  show ?thesis
  proof (cases "length t < 56")
    case True
    have "take 64 (write_at (t @ 0x80 # replicate (127 - length t) 0) 56 e)
        = t @ [0x80] @ replicate (55 - length t) 0 @ e"
      using True t e by (simp add: write_at_def take_Cons')
    moreover have "absorb sm3_cf h (t @ [0x80] @ replicate (55 - length t) 0 @ e)
        = sm3_cf h (t @ [0x80] @ replicate (55 - length t) 0 @ e)"
      using absorb_block [of "t @ [0x80] @ replicate (55 - length t) 0 @ e" sm3_cf h "[]"] True e
      by (simp add: absorb_short)
    ultimately show ?thesis
      unfolding sm3_last_blocks_def Let_def t_def [symmetric] bb pad64_def abs e_def [symmetric]
      using True t by (simp add: w2' pad_zeros)
  next
    case False
    define b1 where "b1 = t @ [0x80] @ replicate (63 - length t) (0 :: byte)"
    define b2 where "b2 = replicate 56 (0 :: byte) @ e"
    have len: "length b1 = 64" "length b2 = 64" using t e by (simp_all add: b1_def b2_def)
    have "127 - length t = (63 - length t) + 64" using t by simp
    then have all: "t @ 0x80 # replicate (127 - length t) 0 = b1 @ replicate 64 (0 :: byte)"
      unfolding b1_def by (simp only: replicate_add append.simps append.assoc)
    have "119 - length t = (63 - length t) + 56" using t by simp
    then have pad: "t @ [0x80] @ replicate (119 - length t) 0 @ e = b1 @ b2"
      unfolding b1_def b2_def by (simp only: replicate_add append.simps append.assoc)
    have "drop 64 (write_at (b1 @ replicate 64 0) 120 e) = b2"
      using len e by (simp add: write_at_def b2_def)
    moreover have "absorb sm3_cf h (b1 @ b2) = sm3_cf (sm3_cf h b1) b2"
      using absorb_block [OF len(1), of sm3_cf h b2] absorb_block [OF len(2), of sm3_cf "sm3_cf h b1" "[]"]
      by (simp add: absorb_short)
    moreover have "take 64 (b1 @ replicate 64 0) = b1" using len by simp
    moreover have "length (b1 @ replicate 64 0) = 128" using len by simp
    ultimately show ?thesis
      unfolding sm3_last_blocks_def Let_def t_def [symmetric] bb pad64_def abs e_def [symmetric] all
      using False t by (simp only: w2' pad_zeros if_False pad)
  qed
qed

section \<open>The streaming and the one-shot form\<close>

definition sm3_rep :: "sm3_ctx \<Rightarrow> byte list \<Rightarrow> bool" where
  "sm3_rep c m \<longleftrightarrow> sm3_h c = absorb sm3_cf sm3_iv m \<and> sm3_len c = of_nat (length m)
     \<and> length (sm3_bb c) = 64 \<and> take (length m mod 64) (sm3_bb c) = tail64 m"

definition sm3_digest :: "byte list \<Rightarrow> byte list" where
  "sm3_digest m = md_digest sm3_cf sm3_iv enc_be64 sm3_output m"

lemma absorb_sm3_std: "length h = 8 \<Longrightarrow> absorb sm3_cf h m = absorb std_compress h m"
proof (induction sm3_cf h m rule: absorb.induct)
  case (1 h m)
  then show ?case by (simp add: absorb.simps [of _ h m] sm3_cf_std length_std_compress)
qed

lemma sm3_digest_std: "sm3_digest m = std_sm3 m"
  by (simp add: sm3_digest_def std_sm3_def md_digest_def absorb_sm3_std)

lemma sm3_len_mod:
  "unat (of_nat n mod 64 :: 64 word) = n mod 64" "unat (of_nat n AND 63 :: 64 word) = n mod 64"
proof -
  have "unat (of_nat n mod 64 :: 64 word) = n mod 2 ^ 64 mod 64"
    by (simp add: unat_mod_distrib unsigned_of_nat take_bit_eq_mod)
  also have "\<dots> = n mod 64" by (rule mod_mod_cancel) simp
  finally show "unat (of_nat n mod 64 :: 64 word) = n mod 64" .
  show "unat (of_nat n AND 63 :: 64 word) = n mod 64" by (rule unat_and_63) simp
qed

lemma sm3_rep_init: "length (sm3_bb c) = 64 \<Longrightarrow> sm3_rep (sm3_init c) []"
  by (simp add: sm3_rep_def sm3_init_def absorb_short tail64_short)

lemma sm3_rep_update:
  assumes rep: "sm3_rep c m"
  shows "sm3_rep (sm3_update c d) (m @ d)"
proof -
  define t where "t = tail64 m"
  have c: "length (sm3_bb c) = 64" "take (length t) (sm3_bb c) = t" "unat (sm3_len c mod 64) = length t"
      "sm3_h c = absorb sm3_cf sm3_iv m"
    using rep by (simp_all add: sm3_rep_def t_def length_tail64 sm3_len_mod)
  have t: "length t < 64" by (simp add: t_def)
  have len: "sm3_len c + of_nat (length d) = of_nat (length (m @ d))"
    using rep by (simp add: sm3_rep_def)
  have tl: "(length m + length d) mod 64 = length (tail64 (t @ d))"
    by (simp add: length_tail64 t_def mod_simps)
  show ?thesis
  proof (cases "64 \<le> length t + length d")
    case False
    then have "\<not> 64 - length t \<le> length d" by simp
    with False t c len show ?thesis
      using absorb_held(1) [of t d sm3_cf "sm3_h c"] absorb_held(2) [of t d]
      by (simp add: sm3_rep_def sm3_update_def Let_def tl absorb_append [of _ _ m d]
          tail64_append [of m d] take_write_at_more flip: t_def)
  next
    case True
    have buf: "write_at (sm3_bb c) (length t) (take (64 - length t) d) = t @ take (64 - length t) d"
      using c True t by (simp add: write_at_def)
    have iMin: "(if 64 - length t < length d then 64 - length t else length d) = 64 - length t"
      using True by auto
    note f = absorb_filled(1) [OF t True, of sm3_cf "sm3_h c"] absorb_filled(2) [OF t True]
    have "64 - length t \<le> length d" using True by simp
    then show ?thesis
      using True t c len f
      by (simp add: sm3_rep_def sm3_update_def Let_def tl absorb_append [of _ _ m d]
          tail64_append [of m d] iMin buf sm3_blocks_def absorb_fold take_write_at_more
          tail64_def [symmetric] t_def [symmetric])
  qed
qed

lemma sm3_final_rep:
  assumes rep: "sm3_rep c m"
  shows "snd (sm3_final c) = sm3_digest m"
proof -
  have c: "sm3_len c = of_nat (length m)" "take (length m mod 64) (sm3_bb c) = tail64 m"
      "sm3_h c = absorb sm3_cf sm3_iv m"
    using rep by (simp_all add: sm3_rep_def)
  have hi: "(ucast (drop_bit 29 (of_nat n :: 64 word)) :: 32 word)
      = drop_bit 29 (of_nat n) OR push_bit 3 (of_nat (n div 2 ^ 32))" for n
  proof (rule bit_word_eqI)
    fix i assume i: "i < LENGTH(32)"
    have "n div 2 ^ 32 = drop_bit 32 n" by (simp add: drop_bit_eq_div)
    moreover have "3 \<le> i \<Longrightarrow> 32 + (i - 3) = 29 + i" by simp
    ultimately show "bit (ucast (drop_bit 29 (of_nat n :: 64 word)) :: 32 word) i
        = bit (drop_bit 29 (of_nat n) OR push_bit 3 (of_nat (n div 2 ^ 32)) :: 32 word) i"
      using i by (auto simp: bit_simps not_less)
  qed
  have lo: "(ucast (push_bit 3 (of_nat n :: 64 word)) :: 32 word) = push_bit 3 (of_nat n)" for n
    by (rule bit_word_eqI) (auto simp: bit_simps)
  show ?thesis
    unfolding sm3_final_def Let_def c(1) sm3_len_mod c(2) hi lo sm3_digest_def md_digest_def
    by (simp only: snd_conv sm3_last_blocks_pad [OF c(3)] store_swap enc_be64_words)
qed

lemma sm3_one_shot:
  assumes "length m < 2 ^ 32"
  shows "sm3 m = sm3_digest m"
proof -
  have "length m div 2 ^ 32 = 0" using assms by simp
  then have enc: "put_be32 (drop_bit 29 (of_nat (length m))) @ put_be32 (push_bit 3 (of_nat (length m)))
      = enc_be64 (length m)"
    using enc_be64_words [of "length m"] by simp
  have "sm3_last_blocks (absorb sm3_cf sm3_iv m) (tail64 m) (drop_bit 29 (of_nat (length m)))
      (push_bit 3 (of_nat (length m))) = absorb sm3_cf sm3_iv (pad64 enc_be64 m)"
    by (rule sm3_last_blocks_pad [OF refl]) (simp only: store_swap enc)
  then show ?thesis
    by (simp add: sm3_def Let_def sm3_blocks_def absorb_fold tail64_def [symmetric] sm3_digest_def
        md_digest_def)
qed

definition sm3_blank :: sm3_ctx where
  "sm3_blank = \<lparr>sm3_h = replicate 8 0, sm3_bb = replicate 64 0, sm3_len = 0\<rparr>"

interpretation sm3: streaming_hash std_sm3 "sm3_init sm3_blank" sm3_update
  "\<lambda>c. snd (sm3_final c)" sm3_rep "2 ^ 32"
  by unfold_locales (simp_all add: sm3_rep_init sm3_blank_def sm3_rep_update sm3_final_rep sm3_digest_std)

section \<open>Properties\<close>

text \<open>
  The message expansion and the two loops of \<^verbatim>\<open>sm3_cf\<close> compute the compression
  function of the SM3 standard.
\<close>

theorem sm3_cf_standard:
  assumes "length pH = 8"
  shows "sm3_cf pH pMsg = std_compress pH pMsg"
  using assms by (rule sm3_cf_std)

theorem sm3_cf_standard_witness:
  "sm3_cf sm3_iv (replicate 64 0) = std_compress sm3_iv (replicate 64 0)"
  by (rule sm3_cf_standard) simp

text \<open>
  C22: the streaming interface of SM3, fed with any sequence of pieces, and the one-shot function,
  which has its own padding code, give the same digest: the SM3 of the whole message, whatever the
  context held before \<^verbatim>\<open>sm3_init\<close>.
\<close>

theorem sm3_streaming_one_shot:
  assumes "length (sm3_bb ctx) = 64" "list_all (\<lambda>d. length d < 2 ^ 32) ds"
    and "length (concat ds) < 2 ^ 32"
  shows "snd (sm3_final (foldl sm3_update (sm3_init ctx) ds)) = std_sm3 (concat ds)
    \<and> sm3 (concat ds) = std_sm3 (concat ds)"
  using sm3.rep_fold [OF sm3_rep_init [OF assms(1)], of ds] assms(2) sm3_one_shot [OF assms(3)]
  by (simp add: sm3.final_rep sm3_digest_std list_all_iff)

theorem sm3_streaming_one_shot_witness:
  "snd (sm3_final (foldl sm3_update (sm3_init sm3_blank) [str ''a'', str ''bc''])) = sm3 (str ''abc'')"
  using sm3_streaming_one_shot [of sm3_blank "[str ''a'', str ''bc'']"] by (simp add: sm3_blank_def)

end
