(* ===== verification/Sm4_Sbox.thy ===== *)
theory Sm4_Sbox
  imports Prelude
begin

text \<open>
  The S-box of the SM4 standard from its algebra, for comparison with the table of the code: an
  affine map, the inverse in the field of 256 elements modulo
  \<open>x\<^sup>8 + x\<^sup>7 + x\<^sup>6 + x\<^sup>5 + x\<^sup>4 + x\<^sup>2 + 1\<close>, and the same affine map again. Bytes are
  natural numbers here.
\<close>

unbundle bit_operations_syntax

section \<open>The field\<close>

text \<open>Multiplication by \<open>x\<close>, and Horner's rule over the bits of the second factor.\<close>

definition gf_double :: "nat \<Rightarrow> nat" where
  "gf_double a = (2 * a) XOR (if bit a 7 then 0x1F5 else 0)"

definition gf_mul :: "nat \<Rightarrow> nat \<Rightarrow> nat" where
  "gf_mul a b = foldl (\<lambda>r i. gf_double r XOR (if bit b i then a else 0)) 0 [7, 6, 5, 4, 3, 2, 1, 0]"

text \<open>The inverse is the power 254; the inverse of zero is zero.\<close>

definition gf_inv :: "nat \<Rightarrow> nat" where
  "gf_inv x =
     (let step = (\<lambda>y. gf_mul x (gf_mul y y));
          y = step (step (step (step (step (step x)))))
      in gf_mul y y)"

definition rotl8 :: "nat \<Rightarrow> nat \<Rightarrow> nat" where
  "rotl8 k x = x * 2 ^ k mod 256 + x div 2 ^ (8 - k)"

definition sbox_affine :: "nat \<Rightarrow> nat" where
  "sbox_affine x = x XOR rotl8 1 x XOR rotl8 3 x XOR rotl8 6 x XOR rotl8 7 x XOR 0xD3"

definition std_sbox :: "nat \<Rightarrow> nat" where
  "std_sbox x = sbox_affine (gf_inv (sbox_affine x))"

section \<open>Powers of \<open>x\<close>\<close>

definition gf_exp :: "nat \<Rightarrow> nat" where
  "gf_exp k = (gf_double ^^ k) 1"

lemma gf_double_xor: "gf_double (a XOR b) = gf_double a XOR gf_double b"
  by (rule bit_eqI) (auto simp: gf_double_def bit_simps bit_double_iff)

lemma gf_mul_double: "gf_mul (gf_double a) b = gf_double (gf_mul a b)"
proof -
  have zero: "gf_double 0 = 0" by (simp add: gf_double_def)
  have step: "gf_double r XOR (if c then gf_double a else 0) = gf_double (r XOR (if c then a else 0))" for r c
    using zero by (simp add: gf_double_xor)
  show ?thesis
    unfolding gf_mul_def foldl.simps step zero by (simp add: gf_double_xor zero if_distrib)
qed

lemma gf_mul_one: "b < 256 \<Longrightarrow> gf_mul 1 b = b"
proof -
  assume b: "b < 256"
  have high: "\<not> bit b n" if "8 \<le> n" for n
  proof -
    have "b < 2 ^ n" using b power_increasing [OF that, of "2 :: nat"] by simp
    then show ?thesis by (simp add: bit_iff_odd)
  qed
  have step: "gf_double (drop_bit j b) XOR (if bit b i then 1 else 0) = drop_bit i b" if "j = Suc i" for i j
  proof (rule bit_eqI)
    fix n
    have "\<not> bit b (8 + i)" by (rule high) simp
    then show "bit (gf_double (drop_bit j b) XOR (if bit b i then 1 else 0)) n = bit (drop_bit i b) n"
      using that by (cases n) (auto simp: gf_double_def bit_simps bit_double_iff add.commute)
  qed
  have start: "0 = drop_bit 8 b" using b by (simp add: drop_bit_eq_div)
  have steps: "gf_double (drop_bit 8 b) XOR (if bit b 7 then 1 else 0) = drop_bit 7 b"
    "gf_double (drop_bit 7 b) XOR (if bit b 6 then 1 else 0) = drop_bit 6 b"
    "gf_double (drop_bit 6 b) XOR (if bit b 5 then 1 else 0) = drop_bit 5 b"
    "gf_double (drop_bit 5 b) XOR (if bit b 4 then 1 else 0) = drop_bit 4 b"
    "gf_double (drop_bit 4 b) XOR (if bit b 3 then 1 else 0) = drop_bit 3 b"
    "gf_double (drop_bit 3 b) XOR (if bit b 2 then 1 else 0) = drop_bit 2 b"
    "gf_double (drop_bit 2 b) XOR (if bit b 1 then 1 else 0) = drop_bit 1 b"
    "gf_double (drop_bit 1 b) XOR (if bit b 0 then 1 else 0) = drop_bit 0 b"
    by (rule step, simp)+
  have "gf_mul 1 b = foldl (\<lambda>r i. gf_double r XOR (if bit b i then 1 else 0)) (drop_bit 8 b) [7, 6, 5, 4, 3, 2, 1, 0]"
    unfolding gf_mul_def start [symmetric] ..
  also have "\<dots> = b" unfolding foldl.simps steps by simp
  finally show ?thesis .
qed

lemma gf_exp_0: "gf_exp 0 = 1"
  by (simp add: gf_exp_def)

lemma gf_exp_Suc: "gf_exp (Suc k) = gf_double (gf_exp k)"
  by (simp add: gf_exp_def)

lemma gf_double_less: "a < 256 \<Longrightarrow> gf_double a < 256"
proof -
  assume a: "a < 256"
  have high: "\<not> bit a n" if "8 \<le> n" for n
  proof -
    have "a < 2 ^ n" using a power_increasing [OF that, of "2 :: nat"] by simp
    then show ?thesis by (simp add: bit_iff_odd)
  qed
  have "take_bit 8 (gf_double a) = gf_double a"
  proof (rule bit_eqI)
    fix n
    have "n < 8 \<or> n = 8 \<or> (\<exists>m. n = Suc m \<and> 8 \<le> m)" by (cases n) auto
    moreover have "bit (0x1F5 :: nat) 8" by (simp add: bit_0)
    moreover have "\<not> bit (0x1F5 :: nat) (Suc m)" if "8 \<le> m" for m
    proof -
      have "take_bit 9 (0x1F5 :: nat) = 0x1F5" by simp
      then have "bit (0x1F5 :: nat) (Suc m) \<Longrightarrow> Suc m < 9" by (metis bit_take_bit_iff)
      then show ?thesis using that by auto
    qed
    ultimately show "bit (take_bit 8 (gf_double a)) n = bit (gf_double a) n"
      using high by (auto simp: gf_double_def bit_simps bit_double_iff)
  qed
  moreover have "take_bit 8 x < 2 ^ 8" for x :: nat by (rule take_bit_nat_less_exp)
  from this [of "gf_double a"] calculation show ?thesis by simp
qed

lemma gf_exp_less: "gf_exp k < 256"
  by (induction k) (simp_all add: gf_exp_0 gf_exp_Suc gf_double_less)

lemma gf_mul_exp: "gf_mul (gf_exp i) (gf_exp j) = gf_exp (i + j)"
proof (induction i)
  case 0
  show ?case by (simp add: gf_exp_0 gf_mul_one gf_exp_less del: One_nat_def)
next
  case (Suc i)
  then show ?case by (simp add: gf_exp_Suc gf_mul_double)
qed

lemma gf_inv_exp_254: "gf_inv (gf_exp k) = gf_exp (254 * k)"
proof -
  have step: "gf_mul (gf_exp k) (gf_mul (gf_exp j) (gf_exp j)) = gf_exp (k + 2 * j)" for j
    by (simp add: gf_mul_exp mult_2)
  show ?thesis
    unfolding gf_inv_def Let_def step gf_mul_exp by (rule arg_cong [where f = gf_exp]) linarith
qed

primrec gf_powers :: "nat \<Rightarrow> nat \<Rightarrow> nat list" where
  "gf_powers 0 a = []"
| "gf_powers (Suc n) a = a # gf_powers n (gf_double a)"

lemma gf_powers_exp: "gf_powers n (gf_exp i) = map gf_exp [i..<i + n]"
proof (induction n arbitrary: i)
  case (Suc n)
  have "[i..<i + Suc n] = i # [Suc i..<Suc i + n]" by (simp add: upt_conv_Cons)
  with Suc [of "Suc i"] show ?case by (simp add: gf_exp_Suc del: upt_Suc)
qed simp

lemma gf_powers_numeral: "gf_powers (numeral k) a = a # gf_powers (pred_numeral k) (gf_double a)"
  by (simp add: numeral_eq_Suc)

text \<open>The 256 powers, from the power 0 to the power 255, which is 1 again.\<close>

lemma gf_exp_values:
  "map gf_exp [0..<256] =
    [1, 2, 4, 8, 16, 32, 64, 128, 245, 31, 62, 124, 248, 5, 10, 20, 40, 80, 160, 181, 159, 203, 99, 198,
     121, 242, 17, 34, 68, 136, 229, 63, 126, 252, 13, 26, 52, 104, 208, 85, 170, 161, 183, 155, 195,
     115, 230, 57, 114, 228, 61, 122, 244, 29, 58, 116, 232, 37, 74, 148, 221, 79, 158, 201, 103, 206,
     105, 210, 81, 162, 177, 151, 219, 67, 134, 249, 7, 14, 28, 56, 112, 224, 53, 106, 212, 93, 186, 129,
     247, 27, 54, 108, 216, 69, 138, 225, 55, 110, 220, 77, 154, 193, 119, 238, 41, 82, 164, 189, 143,
     235, 35, 70, 140, 237, 47, 94, 188, 141, 239, 43, 86, 172, 173, 175, 171, 163, 179, 147, 211, 83,
     166, 185, 135, 251, 3, 6, 12, 24, 48, 96, 192, 117, 234, 33, 66, 132, 253, 15, 30, 60, 120, 240, 21,
     42, 84, 168, 165, 191, 139, 227, 51, 102, 204, 109, 218, 65, 130, 241, 23, 46, 92, 184, 133, 255,
     11, 22, 44, 88, 176, 149, 223, 75, 150, 217, 71, 142, 233, 39, 78, 156, 205, 111, 222, 73, 146, 209,
     87, 174, 169, 167, 187, 131, 243, 19, 38, 76, 152, 197, 127, 254, 9, 18, 36, 72, 144, 213, 95, 190,
     137, 231, 59, 118, 236, 45, 90, 180, 157, 207, 107, 214, 89, 178, 145, 215, 91, 182, 153, 199, 123,
     246, 25, 50, 100, 200, 101, 202, 97, 194, 113, 226, 49, 98, 196, 125, 250, 1]"
proof -
  have "map gf_exp [0..<256] = gf_powers 256 1"
    using gf_powers_exp [of 256 0] by (simp add: gf_exp_0)
  then show ?thesis
    by (simp only:) (simp add: gf_powers_numeral gf_double_def bit_iff_odd)
qed

lemma gf_exp_255: "gf_exp 255 = 1"
  using arg_cong [OF gf_exp_values, of last] by (simp add: last_map del: upt_Suc)

lemma gf_inv_exp: "1 \<le> k \<Longrightarrow> k \<le> 255 \<Longrightarrow> gf_inv (gf_exp k) = gf_exp (255 - k)"
proof -
  have round: "gf_exp (255 * n + m) = gf_exp m" for n m
  proof (induction n)
    case (Suc n)
    have "gf_exp (255 * Suc n + m) = gf_mul (gf_exp 255) (gf_exp (255 * n + m))"
      by (simp add: gf_mul_exp add.commute add.left_commute)
    with Suc show ?case by (simp add: gf_exp_255 gf_mul_one gf_exp_less del: One_nat_def)
  qed simp
  assume k: "1 \<le> k" "k \<le> 255"
  then have "254 * k = 255 * (k - 1) + (255 - k)" by (simp add: algebra_simps)
  then show ?thesis by (simp only: gf_inv_exp_254 round)
qed

text \<open>The table of inverses.\<close>

lemma gf_inverses: "list_all2 (\<lambda>y z. gf_inv y = z) (tl (map gf_exp [0..<256])) (tl (rev (map gf_exp [0..<256])))"
proof -
  have "tl (map gf_exp [0..<256]) = map gf_exp [1..<256]" by (simp add: map_tl [symmetric] tl_upt del: upt_Suc)
  moreover have "tl (rev (map gf_exp [0..<256])) = map (\<lambda>k. gf_exp (255 - k)) [1..<256]"
    by (rule nth_equalityI) (simp_all add: nth_tl rev_nth del: upt_Suc)
  ultimately show ?thesis
    by (simp add: list_all2_conv_all_nth gf_inv_exp del: upt_Suc)
qed

lemma gf_inv_0: "gf_inv 0 = 0"
  by (simp add: gf_inv_def gf_mul_def gf_double_def Let_def)

lemma gf_inv_1: "gf_inv 1 = 1"
  using gf_inv_exp [of 255] by (simp add: gf_exp_255 gf_exp_0)

lemmas gf_inv_values = gf_inverses [unfolded gf_exp_values, simplified] gf_inv_0

text \<open>The S-box as a table of numbers.\<close>

lemma std_sbox_values:
  "map std_sbox [0..<256] =
    [214, 144, 233, 254, 204, 225, 61, 183, 22, 182, 20, 194, 40, 251, 44, 5, 43, 103, 154, 118, 42, 190,
     4, 195, 170, 68, 19, 38, 73, 134, 6, 153, 156, 66, 80, 244, 145, 239, 152, 122, 51, 84, 11, 67, 237,
     207, 172, 98, 228, 179, 28, 169, 201, 8, 232, 149, 128, 223, 148, 250, 117, 143, 63, 166, 71, 7,
     167, 252, 243, 115, 23, 186, 131, 89, 60, 25, 230, 133, 79, 168, 104, 107, 129, 178, 113, 100, 218,
     139, 248, 235, 15, 75, 112, 86, 157, 53, 30, 36, 14, 94, 99, 88, 209, 162, 37, 34, 124, 59, 1, 33,
     120, 135, 212, 0, 70, 87, 159, 211, 39, 82, 76, 54, 2, 231, 160, 196, 200, 158, 234, 191, 138, 210,
     64, 199, 56, 181, 163, 247, 242, 206, 249, 97, 21, 161, 224, 174, 93, 164, 155, 52, 26, 85, 173,
     147, 50, 48, 245, 140, 177, 227, 29, 246, 226, 46, 130, 102, 202, 96, 192, 41, 35, 171, 13, 83, 78,
     111, 213, 219, 55, 69, 222, 253, 142, 47, 3, 255, 106, 114, 109, 108, 91, 81, 141, 27, 175, 146,
     187, 221, 188, 127, 17, 217, 92, 65, 31, 16, 90, 216, 10, 193, 49, 136, 165, 205, 123, 189, 45, 116,
     208, 18, 184, 229, 180, 176, 137, 105, 151, 74, 12, 150, 119, 126, 101, 185, 241, 9, 197, 110, 198,
     132, 24, 240, 125, 236, 58, 220, 77, 32, 121, 238, 95, 62, 215, 203, 57, 72]"
proof -
  have all: "[0..<256] = [0, 1, 2, 3, 4, 5, 6, 7, 8, 9, 10, 11, 12, 13, 14, 15, 16, 17, 18, 19, 20, 21, 22, 23, 24, 25, 26,
      27, 28, 29, 30, 31, 32, 33, 34, 35, 36, 37, 38, 39, 40, 41, 42, 43, 44, 45, 46, 47, 48, 49, 50, 51,
      52, 53, 54, 55, 56, 57, 58, 59, 60, 61, 62, 63, 64, 65, 66, 67, 68, 69, 70, 71, 72, 73, 74, 75, 76,
      77, 78, 79, 80, 81, 82, 83, 84, 85, 86, 87, 88, 89, 90, 91, 92, 93, 94, 95, 96, 97, 98, 99, 100,
      101, 102, 103, 104, 105, 106, 107, 108, 109, 110, 111, 112, 113, 114, 115, 116, 117, 118, 119, 120,
      121, 122, 123, 124, 125, 126, 127, 128, 129, 130, 131, 132, 133, 134, 135, 136, 137, 138, 139, 140,
      141, 142, 143, 144, 145, 146, 147, 148, 149, 150, 151, 152, 153, 154, 155, 156, 157, 158, 159, 160,
      161, 162, 163, 164, 165, 166, 167, 168, 169, 170, 171, 172, 173, 174, 175, 176, 177, 178, 179, 180,
      181, 182, 183, 184, 185, 186, 187, 188, 189, 190, 191, 192, 193, 194, 195, 196, 197, 198, 199, 200,
      201, 202, 203, 204, 205, 206, 207, 208, 209, 210, 211, 212, 213, 214, 215, 216, 217, 218, 219, 220,
      221, 222, 223, 224, 225, 226, 227, 228, 229, 230, 231, 232, 233, 234, 235, 236, 237, 238, 239, 240,
      241, 242, 243, 244, 245, 246, 247, 248, 249, 250, 251, 252, 253, 254, 255]"
    by (simp add: upt_conv_Cons)
  show ?thesis
    unfolding all list.map
    by (simp add: std_sbox_def sbox_affine_def rotl8_def gf_inv_values gf_inv_1 numeral_2_eq_2 [symmetric]
        numeral_3_eq_3 [symmetric] del: One_nat_def)
qed

end
