(* ===== verification/Sm4.thy ===== *)
theory Sm4
  imports Prelude "HOL-Library.Word" Sm4_Sbox
begin

text \<open>
  The SM4 block cipher of \<^verbatim>\<open>agreement/sm4.c\<close>: the tables and macros, the key schedule,
  encryption and decryption of a block, and the modes ECB, CBC, CBC-MAC, CFB and OFB. The unrolled
  rounds of the code are folds over the round keys. A pointer is the list of the bytes behind it,
  \<^verbatim>\<open>NULL\<close> is \<open>None\<close>; a read or a write outside a buffer is a \<open>Fault\<close>. The buffers
  \<^verbatim>\<open>in\<close> and \<^verbatim>\<open>out\<close> are the same one or do not overlap; only the decryption in CBC mode
  distinguishes the two cases. Shown are the agreement with the standard (written with its indices),
  and that decryption takes back encryption in each mode.
\<close>

unbundle bit_operations_syntax

section \<open>Tables and macros\<close>

definition SBOX :: "32 word list" where
  "SBOX =
    [0xD6, 0x90, 0xE9, 0xFE, 0xCC, 0xE1, 0x3D, 0xB7, 0x16, 0xB6, 0x14, 0xC2, 0x28, 0xFB, 0x2C, 0x05,
     0x2B, 0x67, 0x9A, 0x76, 0x2A, 0xBE, 0x04, 0xC3, 0xAA, 0x44, 0x13, 0x26, 0x49, 0x86, 0x06, 0x99,
     0x9C, 0x42, 0x50, 0xF4, 0x91, 0xEF, 0x98, 0x7A, 0x33, 0x54, 0x0B, 0x43, 0xED, 0xCF, 0xAC, 0x62,
     0xE4, 0xB3, 0x1C, 0xA9, 0xC9, 0x08, 0xE8, 0x95, 0x80, 0xDF, 0x94, 0xFA, 0x75, 0x8F, 0x3F, 0xA6,
     0x47, 0x07, 0xA7, 0xFC, 0xF3, 0x73, 0x17, 0xBA, 0x83, 0x59, 0x3C, 0x19, 0xE6, 0x85, 0x4F, 0xA8,
     0x68, 0x6B, 0x81, 0xB2, 0x71, 0x64, 0xDA, 0x8B, 0xF8, 0xEB, 0x0F, 0x4B, 0x70, 0x56, 0x9D, 0x35,
     0x1E, 0x24, 0x0E, 0x5E, 0x63, 0x58, 0xD1, 0xA2, 0x25, 0x22, 0x7C, 0x3B, 0x01, 0x21, 0x78, 0x87,
     0xD4, 0x00, 0x46, 0x57, 0x9F, 0xD3, 0x27, 0x52, 0x4C, 0x36, 0x02, 0xE7, 0xA0, 0xC4, 0xC8, 0x9E,
     0xEA, 0xBF, 0x8A, 0xD2, 0x40, 0xC7, 0x38, 0xB5, 0xA3, 0xF7, 0xF2, 0xCE, 0xF9, 0x61, 0x15, 0xA1,
     0xE0, 0xAE, 0x5D, 0xA4, 0x9B, 0x34, 0x1A, 0x55, 0xAD, 0x93, 0x32, 0x30, 0xF5, 0x8C, 0xB1, 0xE3,
     0x1D, 0xF6, 0xE2, 0x2E, 0x82, 0x66, 0xCA, 0x60, 0xC0, 0x29, 0x23, 0xAB, 0x0D, 0x53, 0x4E, 0x6F,
     0xD5, 0xDB, 0x37, 0x45, 0xDE, 0xFD, 0x8E, 0x2F, 0x03, 0xFF, 0x6A, 0x72, 0x6D, 0x6C, 0x5B, 0x51,
     0x8D, 0x1B, 0xAF, 0x92, 0xBB, 0xDD, 0xBC, 0x7F, 0x11, 0xD9, 0x5C, 0x41, 0x1F, 0x10, 0x5A, 0xD8,
     0x0A, 0xC1, 0x31, 0x88, 0xA5, 0xCD, 0x7B, 0xBD, 0x2D, 0x74, 0xD0, 0x12, 0xB8, 0xE5, 0xB4, 0xB0,
     0x89, 0x69, 0x97, 0x4A, 0x0C, 0x96, 0x77, 0x7E, 0x65, 0xB9, 0xF1, 0x09, 0xC5, 0x6E, 0xC6, 0x84,
     0x18, 0xF0, 0x7D, 0xEC, 0x3A, 0xDC, 0x4D, 0x20, 0x79, 0xEE, 0x5F, 0x3E, 0xD7, 0xCB, 0x39, 0x48]"

definition CK :: "32 word list" where
  "CK =
    [0x00070E15, 0x1C232A31, 0x383F464D, 0x545B6269, 0x70777E85, 0x8C939AA1,
     0xA8AFB6BD, 0xC4CBD2D9, 0xE0E7EEF5, 0xFC030A11, 0x181F262D, 0x343B4249,
     0x50575E65, 0x6C737A81, 0x888F969D, 0xA4ABB2B9, 0xC0C7CED5, 0xDCE3EAF1,
     0xF8FF060D, 0x141B2229, 0x30373E45, 0x4C535A61, 0x686F767D, 0x848B9299,
     0xA0A7AEB5, 0xBCC3CAD1, 0xD8DFE6ED, 0xF4FB0209, 0x10171E25, 0x2C333A41,
     0x484F565D, 0x646B7279]"

definition FK :: "32 word list" where
  "FK = [0xA3B1BAC6, 0x56AA3350, 0x677D9197, 0xB27022DC]"

definition MAKE_DWORD :: "byte \<Rightarrow> byte \<Rightarrow> byte \<Rightarrow> byte \<Rightarrow> 32 word" where
  "MAKE_DWORD a b c d = push_bit 24 (ucast a) OR push_bit 16 (ucast b) OR push_bit 8 (ucast c) OR ucast d"

definition ROTATE_LEFT :: "32 word \<Rightarrow> nat \<Rightarrow> 32 word" where
  "ROTATE_LEFT x n = push_bit n x OR drop_bit (32 - n) x"

definition NONLINEAR_CHANGE :: "32 word \<Rightarrow> 32 word" where
  "NONLINEAR_CHANGE a =
     push_bit 24 (SBOX ! unat (drop_bit 24 a))
     OR push_bit 16 (SBOX ! unat (drop_bit 16 a AND 0xFF))
     OR push_bit 8 (SBOX ! unat (drop_bit 8 a AND 0xFF))
     OR SBOX ! unat (a AND 0xFF)"

definition LINE_CHANGE_L :: "32 word \<Rightarrow> 32 word" where
  "LINE_CHANGE_L a = a XOR ROTATE_LEFT a 2 XOR ROTATE_LEFT a 10 XOR ROTATE_LEFT a 18 XOR ROTATE_LEFT a 24"

definition LINE_CHANGE_L1 :: "32 word \<Rightarrow> 32 word" where
  "LINE_CHANGE_L1 a = a XOR ROTATE_LEFT a 13 XOR ROTATE_LEFT a 23"

definition sm4_T :: "32 word \<Rightarrow> 32 word \<Rightarrow> 32 word \<Rightarrow> 32 word \<Rightarrow> 32 word \<Rightarrow> 32 word" where
  "sm4_T x0 x1 x2 x3 rk = x0 XOR LINE_CHANGE_L (NONLINEAR_CHANGE (x1 XOR x2 XOR x3 XOR rk))"

section \<open>Key schedule and block cipher\<close>

text \<open>The four words that the next round needs.\<close>

type_synonym sm4_window = "32 word \<times> 32 word \<times> 32 word \<times> 32 word"

fun sm4_window_of :: "byte list \<Rightarrow> sm4_window" where
  "sm4_window_of [a0, a1, a2, a3, b0, b1, b2, b3, c0, c1, c2, c3, d0, d1, d2, d3] =
     (MAKE_DWORD a0 a1 a2 a3, MAKE_DWORD b0 b1 b2 b3, MAKE_DWORD c0 c1 c2 c3, MAKE_DWORD d0 d1 d2 d3)"
| "sm4_window_of _ = (0, 0, 0, 0)"

fun sm4_key_rounds :: "sm4_window \<Rightarrow> 32 word list \<Rightarrow> 32 word list" where
  "sm4_key_rounds _ [] = []"
| "sm4_key_rounds (k0, k1, k2, k3) (ck # cks) =
     (let rk = k0 XOR LINE_CHANGE_L1 (NONLINEAR_CHANGE (k1 XOR k2 XOR k3 XOR ck))
      in rk # sm4_key_rounds (k1, k2, k3, rk) cks)"

definition sm4_set_key :: "byte list \<Rightarrow> 32 word list outcome" where
  "sm4_set_key userkey = obind (rd_block userkey 0 16) (\<lambda>k.
     case sm4_window_of k of (k0, k1, k2, k3) \<Rightarrow>
       Ret (sm4_key_rounds (k0 XOR FK ! 0, k1 XOR FK ! 1, k2 XOR FK ! 2, k3 XOR FK ! 3) CK))"

fun sm4_round :: "sm4_window \<Rightarrow> 32 word \<Rightarrow> sm4_window" where
  "sm4_round (x0, x1, x2, x3) rk = (x1, x2, x3, sm4_T x0 x1 x2 x3 rk)"

fun sm4_store :: "sm4_window \<Rightarrow> byte list" where
  "sm4_store (x32, x33, x34, x35) = put_be32 x35 @ put_be32 x34 @ put_be32 x33 @ put_be32 x32"

definition sm4_encrypt :: "32 word list \<Rightarrow> byte list \<Rightarrow> byte list" where
  "sm4_encrypt round_key b = sm4_store (foldl sm4_round (sm4_window_of b) round_key)"

definition sm4_decrypt :: "32 word list \<Rightarrow> byte list \<Rightarrow> byte list" where
  "sm4_decrypt round_key b = sm4_store (foldl sm4_round (sm4_window_of b) (rev round_key))"

section \<open>Modes of operation\<close>

text \<open>\<open>len\<close> bytes are processed, block by block; the result is what is written to \<^verbatim>\<open>out\<close>.\<close>

abbreviation xors :: "byte list \<Rightarrow> byte list \<Rightarrow> byte list" where
  "xors a b \<equiv> map2 (XOR) a b"

function ecb_loop :: "(byte list \<Rightarrow> byte list) \<Rightarrow> byte list \<Rightarrow> nat \<Rightarrow> byte list outcome" where
  "ecb_loop f inp len =
     (if len \<ge> 16 then
        obind (rd_block inp 0 16) (\<lambda>b.
        obind (ecb_loop f (drop 16 inp) (len - 16)) (\<lambda>r. Ret (f b @ r)))
      else if len \<noteq> 0 then obind (rd_block inp 0 len) (\<lambda>b. Ret (f (b @ replicate (16 - len) 0)))
      else Ret [])"
  by pat_completeness auto
termination by (relation "measure (\<lambda>(f, inp, len). len)") auto

function cbc_encrypt_loop :: "(byte list \<Rightarrow> byte list) \<Rightarrow> byte list \<Rightarrow> byte list \<Rightarrow> nat \<Rightarrow> byte list outcome" where
  "cbc_encrypt_loop f iv inp len =
     (if len \<ge> 16 then
        obind (rd_block iv 0 16) (\<lambda>v.
        obind (rd_block inp 0 16) (\<lambda>b.
          let c = f (xors b v)
          in obind (cbc_encrypt_loop f c (drop 16 inp) (len - 16)) (\<lambda>r. Ret (c @ r))))
      else if len \<noteq> 0 then
        obind (rd_block iv 0 16) (\<lambda>v.
        obind (rd_block inp 0 len) (\<lambda>b. Ret (f (xors b (take len v) @ drop len v))))
      else Ret [])"
  by pat_completeness auto
termination by (relation "measure (\<lambda>(f, iv, inp, len). len)") auto

text \<open>
  Decryption reads a whole block for the rest, too. When \<^verbatim>\<open>in\<close> and \<^verbatim>\<open>out\<close> are the same
  buffer, it puts the bytes of the ciphertext behind the rest back into it.
\<close>

function cbc_decrypt_loop ::
  "(byte list \<Rightarrow> byte list) \<Rightarrow> bool \<Rightarrow> byte list \<Rightarrow> byte list \<Rightarrow> nat \<Rightarrow> byte list outcome" where
  "cbc_decrypt_loop g same iv inp len =
     (if len \<ge> 16 then
        obind (rd_block inp 0 16) (\<lambda>c.
        obind (rd_block iv 0 16) (\<lambda>v.
        obind (cbc_decrypt_loop g same c (drop 16 inp) (len - 16)) (\<lambda>r. Ret (xors (g c) v @ r))))
      else if len \<noteq> 0 then
        obind (rd_block inp 0 16) (\<lambda>c.
        obind (rd_block iv 0 len) (\<lambda>v.
          let p = xors (take len (g c)) v
          in Ret (if same then p @ drop len c else p)))
      else Ret [])"
  by pat_completeness auto
termination by (relation "measure (\<lambda>(g, same, iv, inp, len). len)") auto

function cbc_mac_loop ::
  "(byte list \<Rightarrow> byte list) \<Rightarrow> byte list \<Rightarrow> byte list \<Rightarrow> byte list \<Rightarrow> nat \<Rightarrow> byte list outcome" where
  "cbc_mac_loop f out iv inp len =
     (if len \<ge> 16 then
        obind (rd_block iv 0 16) (\<lambda>v.
        obind (rd_block inp 0 16) (\<lambda>b.
          let c = f (xors b v) in cbc_mac_loop f c c (drop 16 inp) (len - 16)))
      else if len \<noteq> 0 then
        obind (rd_block iv 0 16) (\<lambda>v.
        obind (rd_block inp 0 len) (\<lambda>b. Ret (f (xors b (take len v) @ drop len v))))
      else Ret out)"
  by pat_completeness auto
termination by (relation "measure (\<lambda>(f, out, iv, inp, len). len)") auto

text \<open>The byte-wise modes: \<open>n\<close> is the position in the key stream block \<open>iv\<close>.\<close>

fun cfb_loop ::
  "(byte list \<Rightarrow> byte list) \<Rightarrow> bool \<Rightarrow> nat \<Rightarrow> byte list \<Rightarrow> byte list \<Rightarrow> nat \<Rightarrow> byte list outcome" where
  "cfb_loop f enc n iv inp 0 = Ret []"
| "cfb_loop f enc n iv inp (Suc l) =
     (let iv = (if n = 0 then f iv else iv)
      in obind (rd inp 0) (\<lambda>c.
           let x = c XOR iv ! n;
               iv = iv[n := if enc then x else c]
           in obind (cfb_loop f enc ((n + 1) mod 16) iv (drop 1 inp) l) (\<lambda>r. Ret (x # r))))"

fun ofb_loop :: "(byte list \<Rightarrow> byte list) \<Rightarrow> nat \<Rightarrow> byte list \<Rightarrow> byte list \<Rightarrow> nat \<Rightarrow> byte list outcome" where
  "ofb_loop f n iv inp 0 = Ret []"
| "ofb_loop f n iv inp (Suc l) =
     (let iv = (if n = 0 then f iv else iv)
      in obind (rd inp 0) (\<lambda>c.
         obind (ofb_loop f ((n + 1) mod 16) iv (drop 1 inp) l) (\<lambda>r. Ret ((c XOR iv ! n) # r))))"

text \<open>The bytes written replace the front of the buffer; a call that is refused writes nothing.\<close>

definition sm4_into :: "byte list \<Rightarrow> byte list outcome \<Rightarrow> byte list outcome" where
  "sm4_into out w = obind w (\<lambda>bs. if length bs \<le> length out then Ret (bs @ drop (length bs) out) else Fault)"

definition sm4_ecb_encrypt ::
  "byte list option \<Rightarrow> byte list option \<Rightarrow> nat \<Rightarrow> byte list option \<Rightarrow> nat \<Rightarrow> byte list option outcome" where
  "sm4_ecb_encrypt inp out len key enc = (case (inp, out, key) of
     (Some i, Some m, Some k) \<Rightarrow>
       if enc \<noteq> 1 \<and> enc \<noteq> 0 then Ret out
       else obind (sm4_set_key k) (\<lambda>rk.
         obind (sm4_into m (ecb_loop (if enc = 1 then sm4_encrypt rk else sm4_decrypt rk) i len)) (\<lambda>m. Ret (Some m)))
   | _ \<Rightarrow> Ret out)"

definition sm4_cbc_encrypt ::
  "byte list option \<Rightarrow> byte list option \<Rightarrow> bool \<Rightarrow> nat \<Rightarrow> byte list option \<Rightarrow> byte list option \<Rightarrow> nat
     \<Rightarrow> byte list option outcome" where
  "sm4_cbc_encrypt inp out same len key ivec enc = (case (inp, out, key, ivec) of
     (Some i, Some m, Some k, Some iv) \<Rightarrow>
       if enc \<noteq> 1 \<and> enc \<noteq> 0 then Ret out
       else obind (sm4_set_key k) (\<lambda>rk.
         obind (sm4_into m (if enc = 1 then cbc_encrypt_loop (sm4_encrypt rk) iv i len
                            else cbc_decrypt_loop (sm4_decrypt rk) same iv i len)) (\<lambda>m. Ret (Some m)))
   | _ \<Rightarrow> Ret out)"

definition sm4_cbc_mac ::
  "byte list option \<Rightarrow> byte list option \<Rightarrow> nat \<Rightarrow> byte list option \<Rightarrow> byte list option \<Rightarrow> byte list option outcome" where
  "sm4_cbc_mac inp out len key ivec = (case (inp, out, key, ivec) of
     (Some i, Some m, Some k, Some iv) \<Rightarrow>
       obind (sm4_set_key k) (\<lambda>rk.
         obind (sm4_into m (cbc_mac_loop (sm4_encrypt rk) [] iv i len)) (\<lambda>m. Ret (Some m)))
   | _ \<Rightarrow> Ret out)"

definition sm4_cfb_encrypt ::
  "byte list option \<Rightarrow> byte list option \<Rightarrow> nat \<Rightarrow> byte list option \<Rightarrow> byte list option \<Rightarrow> nat
     \<Rightarrow> byte list option outcome" where
  "sm4_cfb_encrypt inp out len key ivec enc = (case (inp, out, key, ivec) of
     (Some i, Some m, Some k, Some iv) \<Rightarrow>
       if enc \<noteq> 1 \<and> enc \<noteq> 0 then Ret out
       else obind (sm4_set_key k) (\<lambda>rk.
         obind (rd_block iv 0 16) (\<lambda>v.
         obind (sm4_into m (cfb_loop (sm4_encrypt rk) (enc = 1) 0 v i len)) (\<lambda>m. Ret (Some m))))
   | _ \<Rightarrow> Ret out)"

definition sm4_ofb_encrypt ::
  "byte list option \<Rightarrow> byte list option \<Rightarrow> nat \<Rightarrow> byte list option \<Rightarrow> byte list option \<Rightarrow> byte list option outcome" where
  "sm4_ofb_encrypt inp out len key ivec = (case (inp, out, key, ivec) of
     (Some i, Some m, Some k, Some iv) \<Rightarrow>
       obind (sm4_set_key k) (\<lambda>rk.
         obind (rd_block iv 0 16) (\<lambda>v.
         obind (sm4_into m (ofb_loop (sm4_encrypt rk) 0 v i len)) (\<lambda>m. Ret (Some m))))
   | _ \<Rightarrow> Ret out)"

declare ecb_loop.simps [simp del] cbc_encrypt_loop.simps [simp del] cbc_decrypt_loop.simps [simp del]
  cbc_mac_loop.simps [simp del]

section \<open>The block cipher is a permutation\<close>

lemma put_get_be32: "put_be32 (get_be32 a b c d) = [a, b, c, d]"
proof -
  have "i < 8 \<Longrightarrow> bit (ucast (drop_bit 24 (get_be32 a b c d)) :: byte) i = bit a i"
    "i < 8 \<Longrightarrow> bit (ucast (drop_bit 16 (get_be32 a b c d)) :: byte) i = bit b i"
    "i < 8 \<Longrightarrow> bit (ucast (drop_bit 8 (get_be32 a b c d)) :: byte) i = bit c i"
    "i < 8 \<Longrightarrow> bit (ucast (get_be32 a b c d) :: byte) i = bit d i" for i
    by (auto simp: get_be32_def bit_simps dest: bit_imp_le_length)
  then show ?thesis by (auto simp: put_be32_def intro!: bit_word_eqI)
qed

lemma MAKE_DWORD_be: "MAKE_DWORD = get_be32"
  by (intro ext) (simp add: MAKE_DWORD_def get_be32_def)

lemma length_16E:
  assumes "length b = 16"
  obtains a0 a1 a2 a3 b0 b1 b2 b3 c0 c1 c2 c3 d0 d1 d2 d3
  where "b = [a0, a1, a2, a3, b0, b1, b2, b3, c0, c1, c2, c3, d0, d1, d2, d3]"
  using assms by (auto simp: numeral_eq_Suc length_Suc_conv)

fun sm4_flip :: "sm4_window \<Rightarrow> sm4_window" where
  "sm4_flip (a, b, c, d) = (d, c, b, a)"

lemma sm4_round_flip: "sm4_round (sm4_flip (sm4_round w k)) k = sm4_flip w"
proof (cases w)
  case (fields a b c d)
  have "d XOR c XOR b XOR k = b XOR c XOR d XOR k" by (simp add: ac_simps)
  then show ?thesis using fields by (simp add: sm4_T_def xor.assoc)
qed

lemma sm4_rounds_flip: "foldl sm4_round (sm4_flip (foldl sm4_round w ks)) (rev ks) = sm4_flip w"
  by (induction ks arbitrary: w) (simp_all add: sm4_round_flip)

lemma sm4_window_of_store: "sm4_window_of (sm4_store w) = sm4_flip w"
  by (cases w) (simp add: put_be32_def MAKE_DWORD_be get_put_be32)

lemma sm4_store_flip: "length b = 16 \<Longrightarrow> sm4_store (sm4_flip (sm4_window_of b)) = b"
  by (erule length_16E) (simp add: MAKE_DWORD_be put_get_be32)

lemma length_sm4_store [simp]: "length (sm4_store w) = 16"
  by (cases w) simp

lemma sm4_decrypt_encrypt: "length b = 16 \<Longrightarrow> sm4_decrypt rk (sm4_encrypt rk b) = b"
  by (simp add: sm4_decrypt_def sm4_encrypt_def sm4_window_of_store sm4_rounds_flip sm4_store_flip)

section \<open>What the modes promise for every block cipher\<close>

definition blocks16 :: "nat \<Rightarrow> nat" where
  "blocks16 n = (n + 15) div 16 * 16"

lemma blocks16_0 [simp]: "blocks16 0 = 0"
  by (simp add: blocks16_def)

lemma blocks16_rest [simp]: "0 < n \<Longrightarrow> n < 16 \<Longrightarrow> blocks16 n = 16"
  by (simp add: blocks16_def div_nat_eqI)

lemma blocks16_block [simp]: "blocks16 (16 + n) = 16 + blocks16 n"
  unfolding blocks16_def by presburger

lemma blocks16_ge: "n \<le> blocks16 n"
  using mod_less_divisor [of 16 "n + 15"] mult_div_mod_eq [of 16 "n + 15"] by (simp add: blocks16_def)

lemma blocks_induct [case_names Nil rest block]:
  assumes "P []" "\<And>m. m \<noteq> [] \<Longrightarrow> length m < 16 \<Longrightarrow> P m" "\<And>b m. length b = 16 \<Longrightarrow> P m \<Longrightarrow> P (b @ m)"
  shows "P (m :: byte list)"
proof (induction "length m" arbitrary: m rule: less_induct)
  case less
  have "P (take 16 m @ drop 16 m)" if "16 \<le> length m"
    using assms(3) [of "take 16 m" "drop 16 m"] less [of "drop 16 m"] that by (cases m) auto
  with assms(1) assms(2) [of m] show ?case by (cases "16 \<le> length m") auto
qed

locale block_cipher =
  fixes enc dec :: "byte list \<Rightarrow> byte list"
  assumes length_enc: "length b = 16 \<Longrightarrow> length (enc b) = 16"
    and dec_enc: "length b = 16 \<Longrightarrow> dec (enc b) = b"
begin

lemma ecb_loop_inverse:
  "\<exists>c. ecb_loop enc m (length m) = Ret c \<and> length c = blocks16 (length m)
     \<and> ecb_loop dec c (length c) = Ret (m @ replicate (length c - length m) 0)"
proof (induction m rule: blocks_induct)
  case Nil
  show ?case by (simp add: ecb_loop.simps)
next
  case (rest m)
  then have "length (m @ replicate (16 - length m) 0) = 16" by simp
  from length_enc [OF this] dec_enc [OF this] show ?case using rest
    by (simp add: ecb_loop.simps [of _ _ "length m"] ecb_loop.simps [of _ _ 16] ecb_loop.simps [of _ _ 0] rd_block_def)
next
  case (block b m)
  then obtain c where "ecb_loop enc m (length m) = Ret c" "length c = blocks16 (length m)"
    "ecb_loop dec c (length c) = Ret (m @ replicate (length c - length m) 0)" by blast
  with block(1) show ?case
    by (simp add: ecb_loop.simps [of _ _ "16 + _"] rd_block_def length_enc dec_enc)
qed

lemma xors_xors: "length b = length v \<Longrightarrow> xors (xors b v) v = b"
  by (induction b v rule: list_induct2) (simp_all add: xor.assoc)

text \<open>Padding with the bytes of the chaining value is padding with zeros.\<close>

lemma xors_pad:
  assumes "length v = 16" "length m \<le> 16"
  shows "xors m (take (length m) v) @ drop (length m) v = xors (m @ replicate (16 - length m) 0) v"
proof -
  have z: "xors (replicate (length w) 0) w = w" for w :: "byte list" by (induction w) simp_all
  have s: "xors (m @ r) (a @ d) = xors m a @ xors r d" if "length m = length a" for r a d
    using that by simp
  show ?thesis
    using s [of "take (length m) v" "replicate (16 - length m) 0" "drop (length m) v"]
      z [of "drop (length m) v"] assms by simp
qed

lemma cbc_loop_inverse:
  assumes "16 \<le> length v"
  shows "\<exists>c. cbc_encrypt_loop enc v m (length m) = Ret c \<and> length c = blocks16 (length m)
     \<and> (\<forall>same. cbc_decrypt_loop dec same v c (length m) = Ret (m @ (if same then drop (length m) c else [])))"
  using assms
proof (induction m arbitrary: v rule: blocks_induct)
  case Nil
  show ?case by (simp add: cbc_encrypt_loop.simps cbc_decrypt_loop.simps)
next
  case (rest m v)
  let ?x = "xors (m @ replicate (16 - length m) 0) (take 16 v)"
  from rest have x: "length ?x = 16" by simp
  have "xors (take (length m) ?x) (take (length m) v) = m"
    using rest xors_xors [of m "take (length m) v"] by (simp add: take_map take_zip)
  with rest xors_pad [of "take 16 v" m] show ?case
    by (simp add: cbc_encrypt_loop.simps [of _ _ _ "length m"] cbc_decrypt_loop.simps [of _ _ _ _ "length m"]
        rd_block_def length_enc [OF x] dec_enc [OF x] min_def)
next
  case (block b m v)
  have x: "length (xors b (take 16 v)) = 16" using block by simp
  let ?c = "enc (xors b (take 16 v))"
  obtain c where "cbc_encrypt_loop enc ?c m (length m) = Ret c" "length c = blocks16 (length m)"
    "\<forall>same. cbc_decrypt_loop dec same ?c c (length m) = Ret (m @ (if same then drop (length m) c else []))"
    using block.IH [of ?c] length_enc [OF x] by auto
  with block(1, 3) show ?case
    by (simp add: cbc_encrypt_loop.simps [of _ _ _ "16 + _"] cbc_decrypt_loop.simps [of _ _ _ _ "16 + _"]
        rd_block_def length_enc [OF x] dec_enc [OF x] xors_xors)
qed

lemma cbc_mac_loop_last:
  "16 \<le> length v \<Longrightarrow> cbc_encrypt_loop enc v m (length m) = Ret c \<Longrightarrow>
   cbc_mac_loop enc out v m (length m) = Ret (if m = [] then out else drop (length c - 16) c)"
proof (induction m arbitrary: v c out rule: blocks_induct)
  case Nil
  then show ?case by (simp add: cbc_mac_loop.simps)
next
  case (rest m v c out)
  then have "length (xors (m @ replicate (16 - length m) 0) (take 16 v)) = 16" by simp
  from length_enc [OF this] rest xors_pad [of "take 16 v" m] show ?case
    by (auto simp: cbc_encrypt_loop.simps [of _ _ _ "length m"] cbc_mac_loop.simps [of _ _ _ _ "length m"]
        rd_block_def min_def)
next
  case (block b m v c out)
  let ?c = "enc (xors b (take 16 v))"
  have "length (xors b (take 16 v)) = 16" using block by simp
  note len = length_enc [OF this]
  obtain d where d: "cbc_encrypt_loop enc ?c m (length m) = Ret d" "length d = blocks16 (length m)"
    using cbc_loop_inverse [of ?c m] len by auto
  have c: "c = ?c @ d" using block(1, 3, 4) d(1)
    by (simp add: cbc_encrypt_loop.simps [of _ _ _ "16 + _"] rd_block_def)
  have "16 \<le> length d" if "m \<noteq> []"
  proof -
    from that have "0 < length m" by simp
    with d(2) show ?thesis unfolding blocks16_def by presburger
  qed
  then show ?case using block.IH [of ?c d ?c] block(1, 3) d len
    by (auto simp: c cbc_mac_loop.simps [of _ _ _ _ "16 + _"] rd_block_def)
qed

lemma cfb_loop_inverse:
  "n < 16 \<Longrightarrow> length iv = 16 \<Longrightarrow> \<exists>c. cfb_loop enc True n iv m (length m) = Ret c \<and> length c = length m
     \<and> cfb_loop enc False n iv c (length m) = Ret m"
proof (induction m arbitrary: n iv)
  case (Cons x m)
  let ?v = "if n = 0 then enc iv else iv"
  have v: "length ?v = 16" using Cons.prems length_enc by simp
  obtain c where "cfb_loop enc True ((n + 1) mod 16) (?v[n := x XOR ?v ! n]) m (length m) = Ret c" "length c = length m"
    "cfb_loop enc False ((n + 1) mod 16) (?v[n := x XOR ?v ! n]) c (length m) = Ret m"
    using Cons.IH [of "(n + 1) mod 16" "?v[n := x XOR ?v ! n]"] v by auto
  then show ?case by (simp add: Let_def xor.assoc)
qed simp

lemma ofb_loop_inverse:
  "\<exists>c. ofb_loop enc n iv m (length m) = Ret c \<and> length c = length m \<and> ofb_loop enc n iv c (length m) = Ret m"
proof (induction m arbitrary: n iv)
  case (Cons x m)
  let ?v = "if n = 0 then enc iv else iv"
  obtain c where "ofb_loop enc ((n + 1) mod 16) ?v m (length m) = Ret c" "length c = length m"
    "ofb_loop enc ((n + 1) mod 16) ?v c (length m) = Ret m"
    using Cons.IH [of "(n + 1) mod 16" ?v] by auto
  then show ?case by (simp add: Let_def xor.assoc)
qed simp

end

interpretation sm4: block_cipher "sm4_encrypt rk" "sm4_decrypt rk" for rk
  by unfold_locales (simp_all add: sm4_decrypt_encrypt, simp add: sm4_encrypt_def)

section \<open>The standard\<close>

text \<open>
  GB/T 32907 with its indices: the words \<open>X i\<close> and the round keys \<open>rk i = K (i + 4)\<close>. The S-box
  is the algebraic one of \<open>Sm4_Sbox\<close>; the table of the code is compared with it.
\<close>

definition std_tau :: "32 word \<Rightarrow> 32 word" where
  "std_tau x = (let S = (\<lambda>b :: byte. of_nat (std_sbox (unat b)))
     in get_be32 (S (ucast (drop_bit 24 x))) (S (ucast (drop_bit 16 x))) (S (ucast (drop_bit 8 x))) (S (ucast x)))"

definition std_L :: "32 word \<Rightarrow> 32 word" where
  "std_L x = x XOR word_rotl 2 x XOR word_rotl 10 x XOR word_rotl 18 x XOR word_rotl 24 x"

definition std_L' :: "32 word \<Rightarrow> 32 word" where
  "std_L' x = x XOR word_rotl 13 x XOR word_rotl 23 x"

definition std_word :: "byte list \<Rightarrow> nat \<Rightarrow> 32 word" where
  "std_word b i = get_be32 (b ! (4 * i)) (b ! (4 * i + 1)) (b ! (4 * i + 2)) (b ! (4 * i + 3))"

definition std_CK :: "nat \<Rightarrow> 32 word" where
  "std_CK i = (let c = (\<lambda>j. of_nat ((4 * i + j) * 7 mod 256)) in get_be32 (c 0) (c 1) (c 2) (c 3))"

fun std_K :: "byte list \<Rightarrow> nat \<Rightarrow> 32 word" where
  "std_K key i = (if i < 4 then std_word key i XOR [0xA3B1BAC6, 0x56AA3350, 0x677D9197, 0xB27022DC] ! i
     else std_K key (i - 4) XOR std_L' (std_tau
       (std_K key (i - 3) XOR std_K key (i - 2) XOR std_K key (i - 1) XOR std_CK (i - 4))))"

fun std_X :: "byte list \<Rightarrow> byte list \<Rightarrow> nat \<Rightarrow> 32 word" where
  "std_X key b i = (if i < 4 then std_word b i
     else std_X key b (i - 4) XOR std_L (std_tau
       (std_X key b (i - 3) XOR std_X key b (i - 2) XOR std_X key b (i - 1) XOR std_K key i)))"

declare std_K.simps [simp del] std_X.simps [simp del]

definition std_sm4 :: "byte list \<Rightarrow> byte list \<Rightarrow> byte list" where
  "std_sm4 key b = put_be32 (std_X key b 35) @ put_be32 (std_X key b 34)
     @ put_be32 (std_X key b 33) @ put_be32 (std_X key b 32)"

lemma ROTATE_LEFT_rotl: "0 < n \<Longrightarrow> n < 32 \<Longrightarrow> ROTATE_LEFT x n = word_rotl n x"
  using rotl_shifts [of n x] by (simp add: ROTATE_LEFT_def)

lemma SBOX_bytes: "i < 256 \<Longrightarrow> SBOX ! i < 256"
proof -
  assume "i < 256"
  moreover have "list_all (\<lambda>x. x < 256) SBOX" by (simp add: SBOX_def)
  moreover have "length SBOX = 256" by (simp add: SBOX_def)
  ultimately show ?thesis by (simp add: list_all_length)
qed

lemma SBOX_std: "ucast (SBOX ! unat b) = (of_nat (std_sbox (unat b)) :: byte)" for b :: byte
proof -
  have table: "SBOX = map of_nat (map std_sbox [0..<256])"
    unfolding std_sbox_values SBOX_def by simp
  have "unat b < 256" using unsigned_less [of b, where 'a = nat] by simp
  then have "SBOX ! unat b = of_nat (std_sbox (unat b))"
    unfolding table by (simp del: upt_Suc)
  moreover have "ucast (of_nat n :: 32 word) = (of_nat n :: byte)" for n
    by (rule bit_word_eqI) (auto simp: bit_simps)
  ultimately show ?thesis by simp
qed

lemma NONLINEAR_CHANGE_std: "NONLINEAR_CHANGE x = std_tau x"
proof -
  have low: "w AND 0xFF = take_bit 8 w" for w :: "32 word"
    by (simp add: take_bit_eq_mask mask_eq_exp_minus_1)
  have idx: "unat (ucast w :: byte) = unat (w AND 0xFF)" for w :: "32 word"
  proof -
    from low have "w AND 0xFF = take_bit 8 w" .
    then show ?thesis by (simp only: unsigned_ucast_eq unsigned_take_bit_eq) simp
  qed
  have top: "drop_bit 24 x AND 0xFF = drop_bit 24 x"
    unfolding low by (rule bit_word_eqI) (auto simp: bit_simps dest: bit_imp_le_length)
  have byte: "ucast (ucast (SBOX ! unat (b :: byte)) :: byte) = SBOX ! unat b" for b
  proof -
    have "SBOX ! unat b < 2 ^ 8" using SBOX_bytes [of "unat b"] unsigned_less [of b, where 'a = nat] by simp
    moreover have "ucast (ucast x :: byte) = take_bit 8 x" for x :: "32 word"
      by (rule bit_word_eqI) (auto simp: bit_simps)
    ultimately show ?thesis by (simp add: word_less_nat_alt unsigned_take_bit_eq
        take_bit_nat_eq_self word_unat_eq_iff)
  qed
  show ?thesis
    using byte [of "ucast (drop_bit 24 x)"] byte [of "ucast (drop_bit 16 x)"] byte [of "ucast (drop_bit 8 x)"]
      byte [of "ucast x"]
    by (simp add: NONLINEAR_CHANGE_def std_tau_def get_be32_def idx top SBOX_std [symmetric])
qed

lemma CK_std: "CK = map std_CK [0..<32]"
  by (simp add: CK_def std_CK_def get_be32_def upt_conv_Cons)

lemma LINE_CHANGE_std: "LINE_CHANGE_L = std_L" "LINE_CHANGE_L1 = std_L'"
  by (auto simp: LINE_CHANGE_L_def LINE_CHANGE_L1_def std_L_def std_L'_def ROTATE_LEFT_rotl)

lemma sm4_key_rounds_std:
  "i \<le> n \<Longrightarrow> sm4_key_rounds (std_K key i, std_K key (i + 1), std_K key (i + 2), std_K key (i + 3)) (map std_CK [i..<n])
     = map (\<lambda>j. std_K key (j + 4)) [i..<n]"
proof (induction "n - i" arbitrary: i)
  case (Suc k)
  then have "[i..<n] = i # [Suc i..<n]" by (simp add: upt_conv_Cons)
  moreover have "std_K key (i + 4) = std_K key i XOR std_L' (std_tau
      (std_K key (i + 1) XOR std_K key (i + 2) XOR std_K key (i + 3) XOR std_CK i))"
    by (subst std_K.simps) (simp add: numeral_eq_Suc)
  ultimately show ?case using Suc(1) [of "Suc i"] Suc(2, 3)
    by (simp add: Let_def NONLINEAR_CHANGE_std LINE_CHANGE_std numeral_eq_Suc)
qed simp

lemma sm4_rounds_std:
  "foldl sm4_round (std_X key b 0, std_X key b 1, std_X key b 2, std_X key b 3) (map (\<lambda>j. std_K key (j + 4)) [0..<n])
     = (std_X key b n, std_X key b (n + 1), std_X key b (n + 2), std_X key b (n + 3))"
proof (induction n)
  case (Suc n)
  have "std_X key b (n + 4) = std_X key b n XOR std_L (std_tau
      (std_X key b (n + 1) XOR std_X key b (n + 2) XOR std_X key b (n + 3) XOR std_K key (n + 4)))"
    by (subst std_X.simps) (simp add: numeral_eq_Suc)
  with Suc show ?case by (simp add: sm4_T_def NONLINEAR_CHANGE_std LINE_CHANGE_std numeral_eq_Suc)
qed (simp add: numeral_eq_Suc)

lemma sm4_window_std: "length b = 16 \<Longrightarrow> sm4_window_of b = (std_word b 0, std_word b 1, std_word b 2, std_word b 3)"
  by (erule length_16E) (simp add: std_word_def MAKE_DWORD_be)

text \<open>
  C39: the key schedule and the encryption compute the block cipher of the standard, and decryption
  with the same round keys takes it back.
\<close>

theorem sm4_is_standard:
  assumes "length key = 16" "length b = 16"
  shows "\<exists>rk. sm4_set_key key = Ret rk \<and> length rk = 32 \<and> sm4_encrypt rk b = std_sm4 key b
    \<and> sm4_decrypt rk (std_sm4 key b) = b"
proof -
  let ?rk = "map (\<lambda>j. std_K key (j + 4)) [0..<32]"
  have "sm4_set_key key = Ret ?rk"
    using sm4_key_rounds_std [of 0 32 key] assms(1)
    by (simp add: sm4_set_key_def rd_block_def sm4_window_std FK_def std_K.simps CK_std eval_nat_numeral del: upt.simps)
  moreover have "sm4_encrypt ?rk b = std_sm4 key b"
    using sm4_rounds_std [of key b 32] assms(2)
    by (simp add: sm4_encrypt_def std_sm4_def sm4_window_std std_X.simps [of _ _ 0] std_X.simps [of _ _ "Suc 0"]
        std_X.simps [of _ _ 2] std_X.simps [of _ _ 3] del: upt.simps)
  ultimately show ?thesis using sm4_decrypt_encrypt [OF assms(2), of ?rk] by auto
qed

definition sm4_example :: "byte list" where
  "sm4_example = [0x01, 0x23, 0x45, 0x67, 0x89, 0xAB, 0xCD, 0xEF, 0xFE, 0xDC, 0xBA, 0x98, 0x76, 0x54, 0x32, 0x10]"

lemma length_sm4_example [simp]: "length sm4_example = 16"
  by (simp add: sm4_example_def)

theorem sm4_is_standard_witness:
  "\<exists>rk. sm4_set_key sm4_example = Ret rk \<and> length rk = 32
    \<and> sm4_encrypt rk sm4_example = std_sm4 sm4_example sm4_example
    \<and> sm4_decrypt rk (std_sm4 sm4_example sm4_example) = sm4_example"
  by (rule sm4_is_standard) simp_all

text \<open>
  C40: what a mode of operation encrypts, it decrypts with the same key and initial vector: ECB and
  CBC messages of any length, ECB up to the zeros of the padding, CBC into a second buffer or in
  place, CFB and OFB byte by byte; buffers that hold the message (rounded up to whole blocks for ECB
  and CBC) are enough. CBC-MAC is the last block that CBC encryption writes.
\<close>

theorem sm4_modes_invert:
  assumes "16 \<le> length key" "16 \<le> length iv" "blocks16 (length m) \<le> length out" "m \<noteq> []"
  shows "(\<exists>c. sm4_ecb_encrypt (Some m) (Some out) (length m) (Some key) 1 = Ret (Some (c @ drop (length c) out))
      \<and> length c = blocks16 (length m)
      \<and> sm4_ecb_encrypt (Some c) (Some out) (length c) (Some key) 0
          = Ret (Some (m @ replicate (length c - length m) 0 @ drop (length c) out)))
    \<and> (\<exists>c. sm4_cbc_encrypt (Some m) (Some out) same (length m) (Some key) (Some iv) 1
          = Ret (Some (c @ drop (length c) out))
      \<and> length c = blocks16 (length m)
      \<and> sm4_cbc_encrypt (Some c) (Some out) False (length m) (Some key) (Some iv) 0
          = Ret (Some (m @ drop (length m) out))
      \<and> sm4_cbc_encrypt (Some c) (Some c) True (length m) (Some key) (Some iv) 0
          = Ret (Some (m @ drop (length m) c))
      \<and> sm4_cbc_mac (Some m) (Some out) (length m) (Some key) (Some iv)
          = Ret (Some (drop (length c - 16) c @ drop 16 out)))
    \<and> (\<exists>c. sm4_cfb_encrypt (Some m) (Some out) (length m) (Some key) (Some iv) 1
          = Ret (Some (c @ drop (length c) out))
      \<and> length c = length m
      \<and> sm4_cfb_encrypt (Some c) (Some out) (length m) (Some key) (Some iv) 0
          = Ret (Some (m @ drop (length m) out)))
    \<and> (\<exists>c. sm4_ofb_encrypt (Some m) (Some out) (length m) (Some key) (Some iv)
          = Ret (Some (c @ drop (length c) out))
      \<and> length c = length m
      \<and> sm4_ofb_encrypt (Some c) (Some out) (length m) (Some key) (Some iv)
          = Ret (Some (m @ drop (length m) out)))"
proof (intro conjI)
  have "\<exists>rk. sm4_set_key key = Ret rk" using assms(1)
    by (cases "sm4_window_of (take 16 key)") (simp add: sm4_set_key_def rd_block_def)
  then obtain rk where rk: "sm4_set_key key = Ret rk" ..
  have fits: "length m \<le> length out" using assms(3) blocks16_ge [of "length m"] by simp
  have v: "rd_block iv 0 16 = Ret (take 16 iv)" "length (take 16 iv) = 16"
    using assms(2) by (simp_all add: rd_block_def)
  have "0 < length m" using assms(4) by simp
  then have big: "16 \<le> blocks16 (length m)" unfolding blocks16_def by presburger
  note api = rk v(1) sm4_into_def
  show "\<exists>c. sm4_ecb_encrypt (Some m) (Some out) (length m) (Some key) 1 = Ret (Some (c @ drop (length c) out))
      \<and> length c = blocks16 (length m)
      \<and> sm4_ecb_encrypt (Some c) (Some out) (length c) (Some key) 0
          = Ret (Some (m @ replicate (length c - length m) 0 @ drop (length c) out))"
  proof -
    obtain c where "ecb_loop (sm4_encrypt rk) m (length m) = Ret c" "length c = blocks16 (length m)"
      "ecb_loop (sm4_decrypt rk) c (length c) = Ret (m @ replicate (length c - length m) 0)"
      using sm4.ecb_loop_inverse [of rk m] by blast
    with assms(3) blocks16_ge [of "length m"] show ?thesis
      by (intro exI [of _ c]) (simp add: sm4_ecb_encrypt_def api)
  qed
  obtain c where c: "cbc_encrypt_loop (sm4_encrypt rk) iv m (length m) = Ret c" "length c = blocks16 (length m)"
    "\<And>same. cbc_decrypt_loop (sm4_decrypt rk) same iv c (length m) = Ret (m @ (if same then drop (length m) c else []))"
    using sm4.cbc_loop_inverse [OF assms(2), of rk m] by blast
  with sm4.cbc_mac_loop_last [OF assms(2) c(1), of "[]"] assms fits big blocks16_ge [of "length m"]
  show "\<exists>c. sm4_cbc_encrypt (Some m) (Some out) same (length m) (Some key) (Some iv) 1
          = Ret (Some (c @ drop (length c) out))
      \<and> length c = blocks16 (length m)
      \<and> sm4_cbc_encrypt (Some c) (Some out) False (length m) (Some key) (Some iv) 0
          = Ret (Some (m @ drop (length m) out))
      \<and> sm4_cbc_encrypt (Some c) (Some c) True (length m) (Some key) (Some iv) 0
          = Ret (Some (m @ drop (length m) c))
      \<and> sm4_cbc_mac (Some m) (Some out) (length m) (Some key) (Some iv)
          = Ret (Some (drop (length c - 16) c @ drop 16 out))"
    by (intro exI [of _ c]) (simp add: sm4_cbc_encrypt_def sm4_cbc_mac_def api)
  show "\<exists>c. sm4_cfb_encrypt (Some m) (Some out) (length m) (Some key) (Some iv) 1
          = Ret (Some (c @ drop (length c) out))
      \<and> length c = length m
      \<and> sm4_cfb_encrypt (Some c) (Some out) (length m) (Some key) (Some iv) 0
          = Ret (Some (m @ drop (length m) out))"
  proof -
    obtain c where "cfb_loop (sm4_encrypt rk) True 0 (take 16 iv) m (length m) = Ret c" "length c = length m"
      "cfb_loop (sm4_encrypt rk) False 0 (take 16 iv) c (length m) = Ret m"
      using sm4.cfb_loop_inverse [of 0 "take 16 iv" rk m] v(2) by auto
    with fits show ?thesis by (intro exI [of _ c]) (simp add: sm4_cfb_encrypt_def api)
  qed
  show "\<exists>c. sm4_ofb_encrypt (Some m) (Some out) (length m) (Some key) (Some iv)
          = Ret (Some (c @ drop (length c) out))
      \<and> length c = length m
      \<and> sm4_ofb_encrypt (Some c) (Some out) (length m) (Some key) (Some iv)
          = Ret (Some (m @ drop (length m) out))"
  proof -
    obtain c where "ofb_loop (sm4_encrypt rk) 0 (take 16 iv) m (length m) = Ret c" "length c = length m"
      "ofb_loop (sm4_encrypt rk) 0 (take 16 iv) c (length m) = Ret m"
      using sm4.ofb_loop_inverse [of rk 0 "take 16 iv" m] by auto
    with fits show ?thesis by (intro exI [of _ c]) (simp add: sm4_ofb_encrypt_def api)
  qed
qed

theorem sm4_modes_invert_witness:
  "\<exists>c. sm4_cbc_encrypt (Some (sm4_example @ [7])) (Some (replicate 32 0)) False 17 (Some sm4_example) (Some sm4_example) 1
      = Ret (Some c)
    \<and> sm4_cbc_encrypt (Some c) (Some c) True 17 (Some sm4_example) (Some sm4_example) 0
      = Ret (Some (sm4_example @ [7] @ drop 17 c))"
proof -
  have "length (sm4_example @ [7]) = 17" "blocks16 17 = 32" by (simp_all add: blocks16_def)
  then show ?thesis
    using sm4_modes_invert [of sm4_example sm4_example "sm4_example @ [7]" "replicate 32 0" False] by force
qed

end
