(* ===== verification/Mqtt_Topic.thy ===== *)
theory Mqtt_Topic
  imports Prelude
begin

text \<open>
  Topic filters and topic names: the check \<^verbatim>\<open>_core_mqtt_topic_is_valid\<close> and the matcher
  \<^verbatim>\<open>_core_mqtt_topic_compare\<close> of \<^verbatim>\<open>core/aiot_mqtt_api.c\<close>, compared with the
  levels of the MQTT standard. A topic is the bytes of a C string, its length the length of the
  list.
\<close>

section \<open>The code\<close>

abbreviation slash :: byte where "slash \<equiv> 47"
abbreviation plus_sign :: byte where "plus_sign \<equiv> 43"
abbreviation hash_sign :: byte where "hash_sign \<equiv> 35"

text \<open>
  The loop over the filter; \<open>prev\<close> is \<^verbatim>\<open>topic[idx - 1]\<close>, which is only read where the
  byte at \<open>idx\<close> is a wildcard and so not at index zero.
\<close>

fun topic_valid_loop :: "byte \<Rightarrow> byte list \<Rightarrow> int" where
  "topic_valid_loop prev [] = STATE_SUCCESS"
| "topic_valid_loop prev (c # cs) =
     (if c = plus_sign \<and> (prev \<noteq> slash \<or> (cs \<noteq> [] \<and> hd cs \<noteq> slash)) then STATE_MQTT_TOPIC_INVALID
      else if c = hash_sign \<and> (prev \<noteq> slash \<or> cs \<noteq> []) then STATE_MQTT_TOPIC_INVALID
      else topic_valid_loop c cs)"

definition topic_is_valid :: "byte list \<Rightarrow> int" where
  "topic_is_valid topic =
     (if topic = [] \<or> hd topic \<noteq> slash then STATE_MQTT_TOPIC_INVALID
      else topic_valid_loop 0 topic)"

text \<open>The matcher on what is left of the filter and of the name.\<close>

fun topic_compare :: "byte list \<Rightarrow> byte list \<Rightarrow> int" where
  "topic_compare [] cmp = (if cmp \<noteq> [] then STATE_MQTT_TOPIC_COMPARE_FAILED else STATE_SUCCESS)"
| "topic_compare (c # topic) cmp =
     (if cmp = [] then
        (if c # topic = [slash, hash_sign] then STATE_SUCCESS else STATE_MQTT_TOPIC_COMPARE_FAILED)
      else if c = hash_sign then STATE_SUCCESS
      else if c = plus_sign then
        (let rest = dropWhile (\<lambda>b. b \<noteq> slash) cmp in
         if rest \<noteq> [] \<and> topic = [] then STATE_MQTT_TOPIC_COMPARE_FAILED
         else topic_compare topic rest)
      else if c \<noteq> hd cmp then STATE_MQTT_TOPIC_COMPARE_FAILED
      else topic_compare topic (tl cmp))"

section \<open>The standard: levels\<close>

fun levels :: "byte list \<Rightarrow> byte list list" where
  "levels [] = [[]]"
| "levels (c # cs) = (if c = slash then [] # levels cs
     else (c # hd (levels cs)) # tl (levels cs))"

fun wf_levels :: "byte list list \<Rightarrow> bool" where
  "wf_levels [] = True"
| "wf_levels (l # ls) =
     ((if hash_sign \<in> set l then l = [hash_sign] \<and> ls = []
       else plus_sign \<in> set l \<longrightarrow> l = [plus_sign]) \<and> wf_levels ls)"

fun level_match :: "byte list list \<Rightarrow> byte list list \<Rightarrow> bool" where
  "level_match [] ns = (ns = [])"
| "level_match (f # fs) ns =
     (if f = [hash_sign] then True
      else case ns of [] \<Rightarrow> False
           | n # ns' \<Rightarrow> (f = [plus_sign] \<or> f = n) \<and> level_match fs ns')"

definition wf_filter :: "byte list \<Rightarrow> bool" where
  "wf_filter topic \<longleftrightarrow> topic \<noteq> [] \<and> hd topic = slash \<and> wf_levels (levels topic)"

lemma levels_nonempty [simp]: "levels t \<noteq> []"
  by (cases t) auto

lemma levels_cases:
  obtains l ls where "levels t = l # ls"
  using levels_nonempty by (cases "levels t") blast+

lemma levels_single_empty [simp]: "levels t = [[]] \<longleftrightarrow> t = []"
  by (cases t) auto

lemma levels_hd_empty: "hd (levels t) = [] \<longleftrightarrow> t = [] \<or> hd t = slash"
  by (cases t) auto

lemma levels_single: "levels t = [[c]] \<longleftrightarrow> t = [c] \<and> c \<noteq> slash"
proof (cases t)
  case (Cons d t')
  have "levels t' = l # ls \<Longrightarrow> l = [] \<and> ls = [] \<longleftrightarrow> t' = []" for l ls
    using levels_single_empty [of t'] by auto
  with Cons show ?thesis by (cases "levels t'") auto
qed simp

lemma levels_slash_hash: "levels t = [[], [hash_sign]] \<longleftrightarrow> t = [slash, hash_sign]"
proof (cases t)
  case (Cons d t')
  then show ?thesis by (auto simp: levels_single)
qed simp

section \<open>The check of a filter\<close>

lemma topic_valid_loop_levels:
  "topic_valid_loop prev t = STATE_SUCCESS \<longleftrightarrow>
     (if prev = slash then wf_levels (levels t)
      else hash_sign \<notin> set (hd (levels t)) \<and> plus_sign \<notin> set (hd (levels t)) \<and> wf_levels (tl (levels t)))"
proof (induction prev t rule: topic_valid_loop.induct)
  case (2 prev c cs)
  obtain l ls where l: "levels cs = l # ls" by (rule levels_cases)
  have empty: "l = [] \<longleftrightarrow> cs = [] \<or> hd cs = slash" using levels_hd_empty [of cs] l by simp
  have sole: "l = [] \<and> ls = [] \<longleftrightarrow> cs = []" using levels_single_empty [of cs] l by auto
  consider "c = plus_sign" | "c = hash_sign" | "c = slash" | "c \<noteq> plus_sign" "c \<noteq> hash_sign" "c \<noteq> slash"
    by blast
  then show ?case
  proof cases
    case 1 with 2 l empty show ?thesis by auto
  next
    case 2
    with "2.IH" l sole empty show ?thesis by auto
  next
    case 3 with 2 l show ?thesis by auto
  next
    case 4 with 2 l show ?thesis by auto
  qed
qed simp

lemma topic_is_valid_levels: "topic_is_valid t = STATE_SUCCESS \<longleftrightarrow> wf_filter t"
proof (cases t)
  case (Cons c cs)
  show ?thesis
    using topic_valid_loop_levels [of 0 t] Cons by (auto simp: topic_is_valid_def wf_filter_def)
qed (simp add: topic_is_valid_def wf_filter_def)

section \<open>The matcher\<close>

lemma levels_dropWhile:
  "levels c = takeWhile (\<lambda>b. b \<noteq> slash) c
     # (case dropWhile (\<lambda>b. b \<noteq> slash) c of [] \<Rightarrow> [] | d # ds \<Rightarrow> levels ds)"
  by (induction c) auto

lemma dropWhile_slash: "dropWhile (\<lambda>b. b \<noteq> slash) c = d # ds \<Longrightarrow> d = slash"
  using hd_dropWhile [of "\<lambda>b. b \<noteq> slash" c] by auto

lemma wf_after_literal:
  assumes "wf_levels (levels (x # t))" "x \<noteq> slash" "x \<noteq> plus_sign" "x \<noteq> hash_sign"
  shows "hd (levels t) \<noteq> [plus_sign] \<and> hd (levels t) \<noteq> [hash_sign] \<and> wf_levels (levels t)"
  using assms by (cases "levels t") (auto split: if_splits)

lemma wf_after_plus:
  assumes "wf_levels (levels (plus_sign # t))"
  shows "t = [] \<or> (\<exists>t'. t = slash # t' \<and> wf_levels (levels t'))"
  using assms by (cases t) (auto split: if_splits)

lemma wf_hash: "wf_levels (levels (hash_sign # t)) \<Longrightarrow> t = []"
  using levels_single_empty [of t] by (cases "levels t") (auto split: if_splits)

lemma wf_slash: "wf_levels (levels (slash # t)) \<Longrightarrow> wf_levels (levels t)"
  by simp

lemma compare_end:
  "topic_compare t [] = STATE_SUCCESS \<longleftrightarrow> t = [] \<or> t = [slash, hash_sign]"
  by (cases t) auto

lemma match_end_sound: "t = [] \<or> t = [slash, hash_sign] \<Longrightarrow> level_match (levels t) [[]]"
  by auto

lemma match_plus_last:
  "level_match (levels [plus_sign]) (levels c) \<longleftrightarrow> dropWhile (\<lambda>b. b \<noteq> slash) c = []"
  using levels_dropWhile [of c]
  by (cases "dropWhile (\<lambda>b. b \<noteq> slash) c") (auto simp del: dropWhile_eq_Nil_conv)

lemma match_plus:
  "level_match (levels (plus_sign # slash # t)) (levels c) \<longleftrightarrow>
     (case dropWhile (\<lambda>b. b \<noteq> slash) c of
        [] \<Rightarrow> level_match (levels t) []
      | d # ds \<Rightarrow> level_match (levels t) (levels ds))"
  using levels_dropWhile [of c]
  by (cases "dropWhile (\<lambda>b. b \<noteq> slash) c") (auto simp del: dropWhile_eq_Nil_conv)

lemma compare_plus:
  "c \<noteq> [] \<Longrightarrow> topic_compare (plus_sign # slash # t) c =
     (case dropWhile (\<lambda>b. b \<noteq> slash) c of
        [] \<Rightarrow> topic_compare (slash # t) []
      | d # ds \<Rightarrow> topic_compare t ds)"
  using dropWhile_slash [of c] by (cases "dropWhile (\<lambda>b. b \<noteq> slash) c") (auto simp: Let_def simp del: dropWhile_eq_Nil_conv)

lemma compare_plus_last:
  "c \<noteq> [] \<Longrightarrow> topic_compare [plus_sign] c = STATE_SUCCESS \<longleftrightarrow> dropWhile (\<lambda>b. b \<noteq> slash) c = []"
  by (cases "dropWhile (\<lambda>b. b \<noteq> slash) c") (simp_all add: Let_def del: dropWhile_eq_Nil_conv)

lemma match_none: "wf_levels (levels t) \<Longrightarrow> level_match (levels t) [] \<longleftrightarrow> t = [hash_sign]"
proof -
  assume wf: "wf_levels (levels t)"
  obtain l ls where l: "levels t = l # ls" by (rule levels_cases)
  have "level_match (levels t) [] \<longleftrightarrow> levels t = [[hash_sign]]"
    using wf unfolding l by (cases "l = [hash_sign]") simp_all
  then show ?thesis by (simp add: levels_single)
qed

lemma match_literal:
  assumes "x \<noteq> slash" "x \<noteq> plus_sign" "x \<noteq> hash_sign" "hd (levels t) \<noteq> [plus_sign]" "hd (levels t) \<noteq> [hash_sign]"
  shows "level_match (levels (x # t)) (levels (y # c)) \<longleftrightarrow> x = y \<and> level_match (levels t) (levels c)"
  using assms by (cases "levels t"; cases "levels c") auto

lemma match_slash: "level_match (levels (slash # t)) (levels (y # c)) \<longleftrightarrow> y = slash \<and> level_match (levels t) (levels c)"
  by auto

lemma match_end:
  assumes "wf_levels (levels t)" "hd (levels t) \<noteq> [plus_sign]" "hd (levels t) \<noteq> [hash_sign]"
  shows "level_match (levels t) [[]] \<longleftrightarrow> t = [] \<or> t = [slash, hash_sign]"
proof (cases t)
  case (Cons x t')
  show ?thesis
  proof (cases "x = slash")
    case True
    then show ?thesis using assms(1) match_none [of t'] Cons by auto
  next
    case False
    then show ?thesis using assms Cons by (cases "levels t'") (auto split: if_splits)
  qed
qed simp

text \<open>A name the matcher accepts matches in the sense of the standard.\<close>

lemma compare_sound:
  "wf_levels (levels t) \<Longrightarrow> topic_compare t c = STATE_SUCCESS \<Longrightarrow> level_match (levels t) (levels c)"
proof (induction "length t" arbitrary: t c rule: less_induct)
  case less
  show ?case
  proof (cases "c = []")
    case True
    then show ?thesis using less.prems match_end_sound [of t] by (simp add: compare_end)
  next
    case c: False
    show ?thesis
    proof (cases t)
      case Nil then show ?thesis using less.prems c by simp
    next
      case t: (Cons x t')
      obtain y c' where y: "c = y # c'" using c by (cases c) auto
      consider "x = hash_sign" | "x = plus_sign" | "x = slash" | "x \<noteq> hash_sign" "x \<noteq> plus_sign" "x \<noteq> slash"
        by blast
      then show ?thesis
      proof cases
        case 1
        with less.prems(1) t have "t' = []" using wf_hash by blast
        with 1 t show ?thesis by simp
      next
        case 2
        with less.prems(1) t have "t' = [] \<or> (\<exists>u. t' = slash # u \<and> wf_levels (levels u))"
          using wf_after_plus by blast
        then show ?thesis
        proof
          assume "t' = []"
          with 2 t less.prems(2) c show ?thesis
            by (simp only: compare_plus_last match_plus_last simp_thms)
        next
          assume "\<exists>u. t' = slash # u \<and> wf_levels (levels u)"
          then obtain u where u: "t' = slash # u" "wf_levels (levels u)" by blast
          show ?thesis
          proof (cases "dropWhile (\<lambda>b. b \<noteq> slash) c")
            case Nil
            with less.prems(2) 2 t u c have "u = [hash_sign]"
              by (simp only: compare_plus compare_end list.case simp_thms) simp
            with Nil 2 t u show ?thesis by (simp only: match_plus list.case) simp
          next
            case (Cons d ds)
            with less.prems(2) 2 t u c have "topic_compare u ds = STATE_SUCCESS"
              by (simp only: compare_plus list.case simp_thms)
            with less.hyps [of u ds] u t have "level_match (levels u) (levels ds)" by simp
            with Cons 2 t u show ?thesis by (simp only: match_plus list.case)
          qed
        qed
      next
        case 3
        with less.prems t y have "y = slash \<and> topic_compare t' c' = STATE_SUCCESS" by (simp split: if_splits)
        with less.hyps [of t' c'] less.prems(1) 3 t y show ?thesis by simp
      next
        case 4
        with less.prems(2) t y have "y = x \<and> topic_compare t' c' = STATE_SUCCESS" by (simp split: if_splits)
        note step = this
        have wf': "hd (levels t') \<noteq> [plus_sign]" "hd (levels t') \<noteq> [hash_sign]" "wf_levels (levels t')"
          using wf_after_literal [of x t'] less.prems(1) 4 t by blast+
        with less.hyps [of t' c'] step t have "level_match (levels t') (levels c')" by simp
        with match_literal [of x t' y c'] wf' 4 step show ?thesis unfolding t y by blast
      qed
    qed
  qed
qed

text \<open>
  The one case in which the matcher refuses a matching name: its last level is empty and the filter
  has a wildcard at this level.
\<close>

fun wildcard_at_empty_end :: "byte list list \<Rightarrow> byte list list \<Rightarrow> bool" where
  "wildcard_at_empty_end [] ns = False"
| "wildcard_at_empty_end (f # fs) [] = False"
| "wildcard_at_empty_end (f # fs) (n # ns) =
     (if ns = [] then n = [] \<and> (f = [plus_sign] \<or> f = [hash_sign]) else wildcard_at_empty_end fs ns)"

lemma empty_end_slash:
  "wildcard_at_empty_end (levels (slash # t)) (levels (slash # c)) = wildcard_at_empty_end (levels t) (levels c)"
  by simp

lemma empty_end_literal:
  assumes "x \<noteq> slash" "y \<noteq> slash" "hd (levels t) \<noteq> [plus_sign]" "hd (levels t) \<noteq> [hash_sign]"
  shows "wildcard_at_empty_end (levels (x # t)) (levels (y # c)) = wildcard_at_empty_end (levels t) (levels c)"
  using assms by (cases "levels t"; cases "levels c") auto

lemma empty_end_plus:
  assumes "dropWhile (\<lambda>b. b \<noteq> slash) c = d # ds"
  shows "wildcard_at_empty_end (levels (plus_sign # slash # t)) (levels c) = wildcard_at_empty_end (levels t) (levels ds)"
  using assms levels_dropWhile [of c] by simp

lemma empty_end_one_level:
  assumes "c \<noteq> []" "wildcard_at_empty_end fs (levels c)"
  shows "length fs \<noteq> 1 \<and> dropWhile (\<lambda>b. b \<noteq> slash) c \<noteq> []"
proof -
  obtain f fs' where fs: "fs = f # fs'" using assms(2) by (cases fs) auto
  obtain n ns where ns: "levels c = n # ns" by (rule levels_cases)
  have several: "ns \<noteq> []"
    using assms levels_single_empty [of c] unfolding fs ns by auto
  with assms(2) have "fs' \<noteq> []" unfolding fs ns by auto
  moreover have "dropWhile (\<lambda>b. b \<noteq> slash) c \<noteq> []"
    using several ns levels_dropWhile [of c] by (metis list.case(1) list.inject)
  ultimately show ?thesis by (simp add: fs)
qed

text \<open>The cases of a walk along a valid filter and a name.\<close>

lemma walk_cases:
  assumes "wf_levels (levels t)"
  obtains "c = []" | "c \<noteq> []" "t = []" | "c \<noteq> []" "t = [hash_sign]" | "c \<noteq> []" "t = [plus_sign]"
  | u where "c \<noteq> []" "t = plus_sign # slash # u" "wf_levels (levels u)"
  | u y c' where "c = y # c'" "t = slash # u" "wf_levels (levels u)"
  | x u y c' where "c = y # c'" "t = x # u" "wf_levels (levels u)" "x \<noteq> slash" "x \<noteq> plus_sign" "x \<noteq> hash_sign"
      "hd (levels u) \<noteq> [plus_sign]" "hd (levels u) \<noteq> [hash_sign]"
proof (cases c)
  case (Cons y c')
  show thesis
  proof (cases t)
    case t: (Cons x u)
    consider "x = hash_sign" | "x = plus_sign" | "x = slash" | "x \<noteq> hash_sign" "x \<noteq> plus_sign" "x \<noteq> slash"
      by blast
    then show thesis
    proof cases
      case 1
      with assms t wf_hash that(3) Cons show thesis by blast
    next
      case 2
      with assms t wf_after_plus [of u] that(4,5) Cons show thesis by blast
    next
      case 3
      with assms t wf_slash that(6) Cons show thesis by blast
    next
      case 4
      with assms t wf_after_literal [of x u] that(7) Cons show thesis by blast
    qed
  qed (use that(2) Cons in blast)
qed (use that(1) in blast)

text \<open>In every other case a matching name is accepted.\<close>

lemma compare_complete:
  "wf_levels (levels t) \<Longrightarrow> level_match (levels t) (levels c) \<Longrightarrow>
   \<not> wildcard_at_empty_end (levels t) (levels c) \<Longrightarrow> topic_compare t c = STATE_SUCCESS"
proof (induction "length t" arbitrary: t c rule: less_induct)
  case less
  show ?case
  proof (rule walk_cases [OF less.prems(1), of c], goal_cases)
    case 1
    obtain f fs where f: "levels t = f # fs" by (rule levels_cases)
    have "hd (levels t) \<noteq> [plus_sign]" "hd (levels t) \<noteq> [hash_sign]"
      using less.prems(3) unfolding 1 f by auto
    with match_end [OF less.prems(1)] less.prems(2) 1 have "t = [] \<or> t = [slash, hash_sign]" by simp
    with 1 show ?thesis by (simp only: compare_end)
  next
    case 2
    then show ?thesis using less.prems(2) levels_single_empty [of c] by (cases "levels c") auto
  next
    case 3
    then show ?thesis by simp
  next
    case 4
    with less.prems(2) show ?thesis by (simp only: compare_plus_last match_plus_last simp_thms)
  next
    case (5 u)
    show ?thesis
    proof (cases "dropWhile (\<lambda>b. b \<noteq> slash) c")
      case Nil
      with less.prems(2) 5 have "level_match (levels u) []"
        by (simp only: match_plus list.case)
      with 5 have "u = [hash_sign]" by (simp only: match_none)
      with Nil 5 show ?thesis by (simp only: compare_plus list.case simp_thms) simp
    next
      case (Cons d ds)
      from less.prems(2) Cons 5 have "level_match (levels u) (levels ds)"
        by (simp only: match_plus list.case)
      moreover from less.prems(3) 5 have "\<not> wildcard_at_empty_end (levels u) (levels ds)"
        by (simp only: empty_end_plus [OF Cons] simp_thms)
      ultimately have "topic_compare u ds = STATE_SUCCESS"
        using less.hyps [of u ds] 5 by simp
      with Cons 5 show ?thesis by (simp only: compare_plus list.case simp_thms)
    qed
  next
    case (6 u y c')
    with less.prems(2) have m: "y = slash" "level_match (levels u) (levels c')" by (simp_all split: if_splits)
    with less.prems(3) 6 have "\<not> wildcard_at_empty_end (levels u) (levels c')"
      by (simp only: empty_end_slash simp_thms)
    with less.hyps [of u c'] m 6 show ?thesis by simp
  next
    case (7 x u y c')
    with less.prems(2) have m: "x = y" "level_match (levels u) (levels c')"
      by (simp_all only: match_literal simp_thms)
    with less.prems(3) 7 have "\<not> wildcard_at_empty_end (levels u) (levels c')"
      by (simp only: empty_end_literal simp_thms)
    with less.hyps [of u c'] m 7 show ?thesis by simp
  qed
qed

lemma compare_empty_end:
  "wf_levels (levels t) \<Longrightarrow> wildcard_at_empty_end (levels t) (levels c) \<Longrightarrow> topic_compare t c \<noteq> STATE_SUCCESS"
proof (induction "length t" arbitrary: t c rule: less_induct)
  case less
  show ?case
  proof (rule walk_cases [OF less.prems(1), of c], goal_cases)
    case 1
    with less.prems(2) have "t \<noteq> []" "t \<noteq> [slash, hash_sign]" by auto
    with 1 show ?thesis by (simp only: compare_end simp_thms)
  next
    case 2
    then show ?thesis using less.prems(2) empty_end_one_level [of c "levels t"] by simp
  next
    case 3
    then show ?thesis using less.prems(2) empty_end_one_level [of c "levels t"] by simp
  next
    case 4
    then show ?thesis using less.prems(2) empty_end_one_level [of c "levels t"] by simp
  next
    case (5 u)
    then obtain d ds where Cons: "dropWhile (\<lambda>b. b \<noteq> slash) c = d # ds"
      using empty_end_one_level less.prems(2) by (cases "dropWhile (\<lambda>b. b \<noteq> slash) c") blast+
    from less.prems(2) 5 have "wildcard_at_empty_end (levels u) (levels ds)"
      by (simp only: empty_end_plus [OF Cons])
    with less.hyps [of u ds] 5 have "topic_compare u ds \<noteq> STATE_SUCCESS" by simp
    with Cons 5 show ?thesis by (simp only: compare_plus list.case simp_thms)
  next
    case (6 u y c')
    show ?thesis
    proof (cases "y = slash")
      case True
      with less.prems(2) 6 have "wildcard_at_empty_end (levels u) (levels c')"
        by (simp only: empty_end_slash)
      with less.hyps [of u c'] True 6 show ?thesis by simp
    qed (use 6 in simp)
  next
    case (7 x u y c')
    show ?thesis
    proof (cases "x = y")
      case True
      with less.prems(2) 7 have "wildcard_at_empty_end (levels u) (levels c')"
        by (simp only: empty_end_literal simp_thms)
      with less.hyps [of u c'] True 7 show ?thesis by simp
    qed (use 7 in simp)
  qed
qed

section \<open>Properties\<close>

text \<open>
  \<^verbatim>\<open>_core_mqtt_topic_is_valid\<close> accepts exactly the filters that start with a slash
  and in which a wildcard fills a whole level, the many-level wildcard only the last one.
\<close>

theorem topic_is_valid_iff: "topic_is_valid topic = STATE_SUCCESS \<longleftrightarrow> wf_filter topic"
  by (rule topic_is_valid_levels)

text \<open>
  C15: for a valid filter \<^verbatim>\<open>_core_mqtt_topic_compare\<close> accepts exactly the names
  that match level by level as the standard has it, but for one case: a matching name whose last
  level is empty is refused when the filter has a wildcard at this level.
\<close>

theorem topic_compare_levels:
  assumes "topic_is_valid topic = STATE_SUCCESS"
  shows "topic_compare topic name = STATE_SUCCESS \<longleftrightarrow>
    level_match (levels topic) (levels name) \<and> \<not> wildcard_at_empty_end (levels topic) (levels name)"
  using assms topic_is_valid_levels [of topic] compare_sound [of topic name]
    compare_complete [of topic name] compare_empty_end [of topic name] by (auto simp: wf_filter_def)

theorem topic_compare_levels_witness:
  "topic_compare (str ''/a/+/#'') (str ''/a/b'') = STATE_SUCCESS
   \<and> topic_compare (str ''/a/+'') (str ''/a/'') \<noteq> STATE_SUCCESS"
proof -
  have "topic_is_valid (str ''/a/+/#'') = STATE_SUCCESS" "topic_is_valid (str ''/a/+'') = STATE_SUCCESS"
    by (simp_all add: topic_is_valid_def)
  note names = this [THEN topic_compare_levels]
  show ?thesis using names(1) [of "str ''/a/b''"] names(2) [of "str ''/a/''"] by simp
qed

text \<open>
  The exception is real: a filter whose last level is a wildcard does not accept the name
  that has an empty level there, though the standard has both wildcards match it.
\<close>

theorem topic_compare_empty_level:
  "level_match (levels (str ''/a/+'')) (levels (str ''/a/''))
   \<and> level_match (levels (str ''/a/#'')) (levels (str ''/a/''))
   \<and> topic_compare (str ''/a/+'') (str ''/a/'') = STATE_MQTT_TOPIC_COMPARE_FAILED
   \<and> topic_compare (str ''/a/#'') (str ''/a/'') = STATE_MQTT_TOPIC_COMPARE_FAILED"
  by simp

end
