(* ===== verification/Mqtt_Codec.thy ===== *)
theory Mqtt_Codec
  imports Prelude
begin

text \<open>
  The wire formats of \<^verbatim>\<open>core/aiot_mqtt_api.c\<close> that depend on buffers alone: the
  variable-length integer, the length-prefixed string, the properties of MQTT 5.0 with the length
  that is computed for them beforehand, and the reader of one property. Fields of the C structures
  of 8, 16 and 32 bits are natural numbers; where an operation wraps it is written out.
\<close>

section \<open>The variable-length integer\<close>

text \<open>\<^verbatim>\<open>_core_mqtt_remain_len_encode\<close>: the bytes it writes at its output.\<close>

function remain_len_encode :: "nat \<Rightarrow> byte list" where
  "remain_len_encode input =
     (if input div 128 > 0 then (of_nat (input mod 128) OR 128) # remain_len_encode (input div 128)
      else [of_nat (input mod 128)])"
  by pat_completeness auto
termination by (relation "measure id") auto

declare remain_len_encode.simps [simp del]

text \<open>
  \<^verbatim>\<open>_read_variable_byte_interger\<close>: at most four bytes are read; the check of the multiplier
  stands behind the addition, as in the code.
\<close>

fun read_vbi_loop :: "byte list \<Rightarrow> nat \<Rightarrow> nat \<Rightarrow> nat \<Rightarrow> (nat \<times> nat) outcome" where
  "read_vbi_loop [] multiplier remainlen pos = Fault"
| "read_vbi_loop (ch # input) multiplier remainlen pos =
     (let remainlen = remainlen + unat (ch AND 127) * multiplier; pos = pos + 1 in
      if multiplier > 128 * 128 * 128 then Fail STATE_MQTT_MALFORMED_REMAINING_LEN
      else if ch AND 128 \<noteq> 0 \<and> pos < 4 then read_vbi_loop input (multiplier * 128) remainlen pos
      else Ret (remainlen, pos))"

definition read_variable_byte_interger :: "byte list \<Rightarrow> (nat \<times> nat) outcome" where
  "read_variable_byte_interger input = read_vbi_loop input 1 0 0"

section \<open>Length-prefixed strings\<close>

definition set_utf8_encoded_str :: "byte list \<Rightarrow> byte list" where
  "set_utf8_encoded_str input = put_be16 (length input mod 65536) @ take (length input mod 65536) input"

section \<open>Properties to be sent\<close>

text \<open>A length and a pointer; reading \<open>len\<close> bytes behind the pointer may fail.\<close>

record len_value =
  lv_len :: nat
  lv_value :: "byte list option"

definition lv_bytes :: "len_value \<Rightarrow> byte list outcome" where
  "lv_bytes v = (if lv_len v = 0 then Ret []
     else case lv_value v of None \<Rightarrow> Fault | Some bs \<Rightarrow> rd_block bs 0 (lv_len v))"

record user_property =
  up_key :: len_value
  up_value :: len_value

definition USER_PROPERTY_MAX :: nat where
  "USER_PROPERTY_MAX = 20"

record general_property =
  max_qos :: nat
  topic_alias_max :: nat
  assigned_clientid :: "byte list option"
  max_packet_size :: nat
  wildcard_subscription_available :: nat
  subscription_identifier_available :: nat
  shared_subscription_available :: nat
  message_expire_interval :: nat
  topic_alias :: nat
  response_topic :: len_value
  correlation_data :: len_value
  subscription_identifier :: nat
  user_properties :: "user_property option list"
  prop_server_receive_max :: nat
  client_receive_max :: nat
  reason_string :: "len_value option"

definition no_value :: len_value where
  "no_value = \<lparr>lv_len = 0, lv_value = None\<rparr>"

definition general_property_0 :: general_property where
  "general_property_0 = \<lparr>max_qos = 0, topic_alias_max = 0, assigned_clientid = None,
     max_packet_size = 0, wildcard_subscription_available = 0,
     subscription_identifier_available = 0, shared_subscription_available = 0,
     message_expire_interval = 0, topic_alias = 0, response_topic = no_value,
     correlation_data = no_value, subscription_identifier = 0,
     user_properties = replicate USER_PROPERTY_MAX None, prop_server_receive_max = 0,
     client_receive_max = 0, reason_string = None\<rparr>"

fun user_properties_check :: "user_property option list \<Rightarrow> int option" where
  "user_properties_check [] = None"
| "user_properties_check (None # ps) = user_properties_check ps"
| "user_properties_check (Some p # ps) =
     (if lv_len (up_key p) > 128 \<or> lv_len (up_value p) > 128
      then Some STATE_MQTT_INVALID_USER_PERPERTY_LEN
      else if (lv_len (up_key p) > 0 \<and> lv_value (up_key p) = None)
            \<or> (lv_len (up_value p) > 0 \<and> lv_value (up_value p) = None)
      then Some STATE_MQTT_INVALID_USER_PERPERTY_DATA
      else user_properties_check ps)"

definition general_property_is_valid :: "general_property \<Rightarrow> int" where
  "general_property_is_valid p =
     (case user_properties_check (user_properties p) of
        Some e \<Rightarrow> e
      | None \<Rightarrow> if subscription_identifier p > 0xFFFFFFF
                then STATE_MQTT_INVALID_SUBSCRIPTION_IDENTIFIER else STATE_SUCCESS)"

definition user_property_len :: "user_property option \<Rightarrow> nat" where
  "user_property_len u = (case u of None \<Rightarrow> 0
     | Some p \<Rightarrow> 1 + 2 + lv_len (up_key p) + 2 + lv_len (up_value p))"

definition core_get_general_property_len :: "general_property \<Rightarrow> nat" where
  "core_get_general_property_len p =
     (if topic_alias p > 0 then 1 + 2 else 0)
     + (if topic_alias_max p > 0 then 1 + 2 else 0)
     + (if client_receive_max p > 0 then 1 + 2 else 0)
     + sum_list (map user_property_len (user_properties p))
     + (if lv_len (response_topic p) \<noteq> 0 then 1 + 2 + lv_len (response_topic p) else 0)
     + (if lv_len (correlation_data p) \<noteq> 0 then 1 + 2 + lv_len (correlation_data p) else 0)
     + (if subscription_identifier p > 0
        then 1 + length (remain_len_encode (subscription_identifier p)) else 0)
     + (case reason_string p of None \<Rightarrow> 0 | Some r \<Rightarrow> lv_len r + 1 + 2)"

text \<open>
  The writer. For the lengths inside a user property the code stores \<^verbatim>\<open>len << 8\<close> in a
  byte, which is zero whatever the length.
\<close>

definition user_property_bytes :: "user_property option \<Rightarrow> byte list outcome" where
  "user_property_bytes u = (case u of None \<Rightarrow> Ret [] | Some p \<Rightarrow>
     obind (lv_bytes (up_key p)) (\<lambda>k. obind (lv_bytes (up_value p)) (\<lambda>v.
       Ret ([0x26, 0, of_nat (lv_len (up_key p))] @ k @ [0, of_nat (lv_len (up_value p))] @ v))))"

fun user_properties_bytes :: "user_property option list \<Rightarrow> byte list outcome" where
  "user_properties_bytes [] = Ret []"
| "user_properties_bytes (u # us) =
     obind (user_property_bytes u) (\<lambda>b. obind (user_properties_bytes us) (\<lambda>bs. Ret (b @ bs)))"

definition len_value_bytes :: "byte \<Rightarrow> len_value \<Rightarrow> byte list outcome" where
  "len_value_bytes tag v = obind (lv_bytes v) (\<lambda>b. Ret (tag # put_be16 (lv_len v) @ b))"

definition core_write_general_prop :: "general_property \<Rightarrow> byte list \<Rightarrow> byte list outcome" where
  "core_write_general_prop p property_len_array =
     obind (user_properties_bytes (user_properties p)) (\<lambda>users.
     obind (if lv_len (response_topic p) \<noteq> 0 then len_value_bytes 0x08 (response_topic p) else Ret [])
       (\<lambda>rt.
     obind (if lv_len (correlation_data p) \<noteq> 0 then len_value_bytes 0x09 (correlation_data p) else Ret [])
       (\<lambda>cd.
     obind (if length (remain_len_encode (subscription_identifier p)) > 4 then Fault else Ret ())
       (\<lambda>_.
     obind (case reason_string p of None \<Rightarrow> Ret [] | Some r \<Rightarrow> len_value_bytes 0x1F r) (\<lambda>rs.
       Ret (property_len_array @ users
         @ (if topic_alias_max p > 0 then 0x22 # put_be16 (topic_alias_max p) else [])
         @ (if topic_alias p > 0 then 0x23 # put_be16 (topic_alias p) else [])
         @ (if client_receive_max p > 0 then 0x21 # put_be16 (client_receive_max p) else [])
         @ rt @ cd
         @ (if subscription_identifier p > 0
            then 0x0B # remain_len_encode (subscription_identifier p) else [])
         @ rs))))))"

section \<open>One received property\<close>

text \<open>
  A pointer into the packet is an offset from the start of the properties. The element carries
  what the switch of the caller looks at.
\<close>

record tlv =
  tlv_type :: byte
  tlv_len :: nat
  tlv_value :: nat

text \<open>A received user property: where key and value stand, and how long they are.\<close>

record rx_user_property =
  rx_key :: "nat \<times> nat"
  rx_value :: "nat \<times> nat"

definition one_byte_properties :: "byte list" where
  "one_byte_properties = [0x01, 0x17, 0x19, 0x24, 0x25, 0x28, 0x29, 0x2A]"

definition two_byte_properties :: "byte list" where
  "two_byte_properties = [0x13, 0x23, 0x21, 0x22]"

definition four_byte_properties :: "byte list" where
  "four_byte_properties = [0x02, 0x11, 0x18, 0x27]"

definition binary_properties :: "byte list" where
  "binary_properties = [0x03, 0x08, 0x12, 0x15, 0x1A, 0x1C, 0x1F, 0x09, 0x16]"

text \<open>
  \<^verbatim>\<open>_core_mqtt_parse_property_element\<close> at \<open>idx\<close>: the number of bytes read, the
  element, the user property it may hold.
\<close>

definition parse_property_element :: "byte list \<Rightarrow> nat \<Rightarrow> (nat \<times> tlv \<times> rx_user_property) outcome" where
  "parse_property_element d idx =
     (let none = \<lparr>rx_key = (0, 0), rx_value = (0, 0)\<rparr> in
      obind (rd d idx) (\<lambda>ty.
      if ty \<in> set one_byte_properties then Ret (2, \<lparr>tlv_type = ty, tlv_len = 1, tlv_value = idx + 1\<rparr>, none)
      else if ty \<in> set two_byte_properties then Ret (3, \<lparr>tlv_type = ty, tlv_len = 2, tlv_value = idx + 1\<rparr>, none)
      else if ty \<in> set four_byte_properties then Ret (5, \<lparr>tlv_type = ty, tlv_len = 4, tlv_value = idx + 1\<rparr>, none)
      else if ty = 0x0B then
        obind (read_variable_byte_interger (drop (idx + 1) d)) (\<lambda>(n, offset).
          Ret (1 + offset, \<lparr>tlv_type = ty, tlv_len = offset, tlv_value = 0\<rparr>, none))
      else if ty \<in> set binary_properties then
        obind (rd d (idx + 1)) (\<lambda>h. obind (rd d (idx + 2)) (\<lambda>l.
          let n = get_be16 h l in
          Ret (1 + 2 + n, \<lparr>tlv_type = ty, tlv_len = n, tlv_value = idx + 3\<rparr>, none)))
      else if ty = 0x26 then
        obind (rd d (idx + 1)) (\<lambda>kh. obind (rd d (idx + 2)) (\<lambda>kl.
        let kn = get_be16 kh kl; vs = idx + 1 + 2 + kn in
        obind (rd d vs) (\<lambda>vh. obind (rd d (vs + 1)) (\<lambda>vl.
        let vn = get_be16 vh vl in
          Ret (1 + 2 + kn + 2 + vn,
               \<lparr>tlv_type = ty, tlv_len = (2 + kn + 2 + vn) mod 65536, tlv_value = 0\<rparr>,
               \<lparr>rx_key = (idx + 3, kn), rx_value = (vs + 2, vn)\<rparr>)))))
      else Ret (0, \<lparr>tlv_type = 0, tlv_len = 0, tlv_value = 0\<rparr>, none)))"

section \<open>The variable-length integer is read back\<close>

lemma vbi_byte:
  assumes "k < 128"
  shows "unat ((of_nat k OR 128 :: byte) AND 127) = k" "(of_nat k OR 128 :: byte) AND 128 \<noteq> 0"
    "unat ((of_nat k :: byte) AND 127) = k" "(of_nat k :: byte) AND 128 = 0"
proof -
  have "\<forall>k \<in> set [0..<128]. unat ((of_nat k OR 128 :: byte) AND 127) = k
      \<and> (of_nat k OR 128 :: byte) AND 128 \<noteq> 0
      \<and> unat ((of_nat k :: byte) AND 127) = k \<and> (of_nat k :: byte) AND 128 = 0"
    by code_simp
  with assms show "unat ((of_nat k OR 128 :: byte) AND 127) = k" "(of_nat k OR 128 :: byte) AND 128 \<noteq> 0"
    "unat ((of_nat k :: byte) AND 127) = k" "(of_nat k :: byte) AND 128 = 0"
    by simp_all
qed

lemma remain_len_encode_small: "n < 128 \<Longrightarrow> remain_len_encode n = [of_nat n]"
  by (simp add: remain_len_encode.simps [of n])

lemma remain_len_encode_large:
  "128 \<le> n \<Longrightarrow> remain_len_encode n = (of_nat (n mod 128) OR 128) # remain_len_encode (n div 128)"
proof -
  assume "128 \<le> n"
  then have "0 < n div 128" by (simp add: div_greater_zero_iff)
  then show ?thesis by (simp add: remain_len_encode.simps [of n])
qed

lemma remain_len_encode_nonempty [simp]: "remain_len_encode n \<noteq> []"
  by (simp add: remain_len_encode.simps [of n])

lemma length_remain_len_encode: "n < 128 ^ k \<Longrightarrow> 0 < k \<Longrightarrow> length (remain_len_encode n) \<le> k"
proof (induction k arbitrary: n)
  case (Suc k)
  show ?case
  proof (cases "n < 128")
    case False
    have "n div 128 < 128 ^ k" using Suc.prems(1) by (simp add: less_mult_imp_div_less mult.commute)
    moreover have "0 < k" using False calculation by (cases k) auto
    ultimately show ?thesis using False Suc.IH by (simp add: remain_len_encode_large)
  qed (simp add: remain_len_encode_small)
qed simp

text \<open>What the readers of this encoding compute with: the multiplier, and the rest of a number.\<close>

lemma vbi_multiplier: "pos < 4 \<Longrightarrow> \<not> 128 ^ pos > (128 * 128 * 128 :: nat)"
proof -
  assume "pos < 4"
  then have "(128 :: nat) ^ pos \<le> 128 ^ 3" by (intro power_increasing) simp_all
  then show ?thesis by (simp add: not_less)
qed

lemma vbi_rest:
  fixes n :: nat
  assumes "n < 128 ^ (4 - pos)" "pos < 4" "128 \<le> n"
  shows "Suc pos < 4" "n div 128 < 128 ^ (4 - Suc pos)"
proof -
  show pos: "Suc pos < 4"
  proof (rule ccontr)
    assume "\<not> Suc pos < 4"
    with assms have "4 - pos = 1" by simp
    with assms show False by simp
  qed
  then have "4 - pos = Suc (4 - Suc pos)" by simp
  with assms(1) have "n < 128 ^ (4 - Suc pos) * 128" by (simp add: mult.commute)
  then show "n div 128 < 128 ^ (4 - Suc pos)" by (rule less_mult_imp_div_less)
qed

lemma vbi_sum: "acc + n mod 128 * 128 ^ pos + n div 128 * 128 ^ Suc pos = acc + n * 128 ^ pos" for n :: nat
proof -
  have "n mod 128 * x + n div 128 * (128 * x) = (n div 128 * 128 + n mod 128) * x" for x
    by (simp only: add_mult_distrib mult.assoc add.commute)
  then show ?thesis by (simp only: power_Suc div_mult_mod_eq add.assoc)
qed

lemma read_vbi_loop_encode:
  "n < 128 ^ (4 - pos) \<Longrightarrow> pos < 4 \<Longrightarrow>
   read_vbi_loop (remain_len_encode n @ rest) (128 ^ pos) acc pos
     = Ret (acc + n * 128 ^ pos, pos + length (remain_len_encode n))"
proof (induction n arbitrary: pos acc rule: less_induct)
  case (less n)
  note mult = vbi_multiplier [OF less.prems(2)]
  show ?case
  proof (cases "n < 128")
    case True
    then show ?thesis using mult by (simp add: remain_len_encode_small vbi_byte Let_def)
  next
    case False
    then have "128 \<le> n" by simp
    note enc = remain_len_encode_large [OF this] and rest = vbi_rest [OF less.prems this]
    have "n div 128 < n" using False by simp
    from less.IH [OF this rest(2,1), of "acc + n mod 128 * 128 ^ pos", unfolded vbi_sum]
    have "read_vbi_loop (remain_len_encode (n div 128) @ rest) (128 ^ pos * 128)
        (acc + n mod 128 * 128 ^ pos) (Suc pos)
      = Ret (acc + n * 128 ^ pos, Suc pos + length (remain_len_encode (n div 128)))"
      by (simp only: power_Suc mult.commute [of "128 :: nat"])
    then show ?thesis
      using mult rest(1) by (simp add: enc vbi_byte Let_def)
  qed
qed

lemma read_vbi_encode:
  "n < 2 ^ 28 \<Longrightarrow>
   read_variable_byte_interger (remain_len_encode n @ rest) = Ret (n, length (remain_len_encode n))"
  using read_vbi_loop_encode [of n 0 rest 0] by (simp add: read_variable_byte_interger_def)

lemma read_vbi_bounds:
  "read_vbi_loop d mult acc pos = Ret (n, k) \<Longrightarrow> pos < 4 \<Longrightarrow> mult = 128 ^ pos \<Longrightarrow> acc < 128 ^ pos \<Longrightarrow>
   pos < k \<and> k \<le> 4 \<and> k \<le> pos + length d \<and> n < 2 ^ 28"
proof (induction d mult acc pos rule: read_vbi_loop.induct)
  case (2 ch d mult acc pos)
  have ch: "unat (ch AND 127) \<le> 127"
    using word_and_le1 [of ch 127] by (simp add: word_le_nat_alt)
  have acc: "acc + unat (ch AND 127) * 128 ^ pos < 128 ^ Suc pos"
  proof -
    have "unat (ch AND 127) * 128 ^ pos \<le> 127 * 128 ^ pos" using ch by (rule mult_le_mono1)
    moreover have "acc < 128 ^ pos" using 2 by simp
    ultimately have "acc + unat (ch AND 127) * 128 ^ pos < 128 ^ pos + 127 * 128 ^ pos" by linarith
    then show ?thesis by simp
  qed
  have top: "(128 :: nat) ^ Suc pos \<le> 2 ^ 28"
  proof -
    have "(128 :: nat) ^ Suc pos \<le> 128 ^ 4" using 2(3) by (intro power_increasing) simp_all
    then show ?thesis by simp
  qed
  show ?case
    using 2(2-) 2(1) [OF refl refl] acc top by (auto simp: Let_def split: if_splits)
qed simp

lemma read_variable_bounds:
  "read_variable_byte_interger d = Ret (n, k) \<Longrightarrow> 0 < k \<and> k \<le> 4 \<and> k \<le> length d \<and> n < 2 ^ 28"
  using read_vbi_bounds [of d 1 0 0 n k] by (simp add: read_variable_byte_interger_def)

section \<open>The computed length is the written length\<close>

definition lv_readable :: "len_value \<Rightarrow> bool" where
  "lv_readable v \<longleftrightarrow> (lv_len v = 0 \<or> (\<exists>bs. lv_value v = Some bs \<and> lv_len v \<le> length bs))"

lemma lv_bytes_Ret: "lv_bytes v = Ret b \<Longrightarrow> length b = lv_len v"
  by (auto simp: lv_bytes_def rd_block_def split: if_splits option.splits)

lemma lv_bytes_readable: "lv_readable v \<longleftrightarrow> (\<exists>b. lv_bytes v = Ret b)"
  by (auto simp: lv_readable_def lv_bytes_def rd_block_def split: option.splits)

lemma lv_bytes_not_Fail [simp]: "lv_bytes v \<noteq> Fail c"
  by (auto simp: lv_bytes_def rd_block_def split: option.splits)

lemma user_property_bytes_length: "user_property_bytes u = Ret b \<Longrightarrow> length b = user_property_len u"
  by (auto simp: user_property_bytes_def user_property_len_def obind_eq_Ret split: option.splits
      dest!: lv_bytes_Ret)

lemma user_properties_bytes_length:
  "user_properties_bytes us = Ret b \<Longrightarrow> length b = sum_list (map user_property_len us)"
  by (induction us arbitrary: b) (auto simp: obind_eq_Ret dest!: user_property_bytes_length)

lemma len_value_bytes_length: "len_value_bytes t v = Ret b \<Longrightarrow> length b = 3 + lv_len v"
  by (auto simp: len_value_bytes_def obind_eq_Ret dest!: lv_bytes_Ret)

lemma core_write_general_prop_length:
  assumes "core_write_general_prop p arr = Ret b"
  shows "length b = length arr + core_get_general_property_len p"
proof -
  from assms obtain users rt cd rs where
    parts: "user_properties_bytes (user_properties p) = Ret users"
      "(if lv_len (response_topic p) \<noteq> 0 then len_value_bytes 0x08 (response_topic p) else Ret []) = Ret rt"
      "(if lv_len (correlation_data p) \<noteq> 0 then len_value_bytes 0x09 (correlation_data p) else Ret []) = Ret cd"
      "(case reason_string p of None \<Rightarrow> Ret [] | Some r \<Rightarrow> len_value_bytes 0x1F r) = Ret rs"
    and b: "b = arr @ users
         @ (if topic_alias_max p > 0 then 0x22 # put_be16 (topic_alias_max p) else [])
         @ (if topic_alias p > 0 then 0x23 # put_be16 (topic_alias p) else [])
         @ (if client_receive_max p > 0 then 0x21 # put_be16 (client_receive_max p) else [])
         @ rt @ cd
         @ (if subscription_identifier p > 0
            then 0x0B # remain_len_encode (subscription_identifier p) else [])
         @ rs"
    unfolding core_write_general_prop_def obind_eq_Ret by blast
  have "length rt = (if lv_len (response_topic p) \<noteq> 0 then 1 + 2 + lv_len (response_topic p) else 0)"
    using parts(2) by (auto split: if_splits dest: len_value_bytes_length)
  moreover have "length cd = (if lv_len (correlation_data p) \<noteq> 0 then 1 + 2 + lv_len (correlation_data p) else 0)"
    using parts(3) by (auto split: if_splits dest: len_value_bytes_length)
  moreover have "length rs = (case reason_string p of None \<Rightarrow> 0 | Some r \<Rightarrow> lv_len r + 1 + 2)"
    using parts(4) by (auto split: option.splits dest: len_value_bytes_length)
  moreover have "length users = sum_list (map user_property_len (user_properties p))"
    using parts(1) by (rule user_properties_bytes_length)
  ultimately show ?thesis
    by (simp add: b core_get_general_property_len_def)
qed

lemma user_properties_check_neg: "user_properties_check us = Some e \<Longrightarrow> e < 0"
  by (induction us rule: user_properties_check.induct) (auto split: if_splits)

text \<open>When the caller's pointers are good, a property set that passes the check is written.\<close>

definition prop_readable :: "general_property \<Rightarrow> bool" where
  "prop_readable p \<longleftrightarrow> (\<forall>u. Some u \<in> set (user_properties p) \<longrightarrow> lv_readable (up_key u) \<and> lv_readable (up_value u))
     \<and> lv_readable (response_topic p) \<and> lv_readable (correlation_data p)
     \<and> (\<forall>r. reason_string p = Some r \<longrightarrow> lv_readable r)"

lemma user_properties_bytes_readable:
  "\<forall>u. Some u \<in> set us \<longrightarrow> lv_readable (up_key u) \<and> lv_readable (up_value u) \<Longrightarrow>
   \<exists>b. user_properties_bytes us = Ret b"
proof (induction us)
  case (Cons u us)
  then obtain bs where bs: "user_properties_bytes us = Ret bs" by auto
  show ?case
  proof (cases u)
    case (Some p)
    with Cons.prems obtain k v where "lv_bytes (up_key p) = Ret k" "lv_bytes (up_value p) = Ret v"
      by (auto simp: lv_bytes_readable)
    with Some bs show ?thesis by (simp add: user_property_bytes_def)
  qed (simp add: bs user_property_bytes_def)
qed simp

lemma core_write_general_prop_total:
  assumes "general_property_is_valid p = STATE_SUCCESS" "prop_readable p"
  shows "\<exists>b. core_write_general_prop p arr = Ret b"
proof -
  obtain users where users: "user_properties_bytes (user_properties p) = Ret users"
    using user_properties_bytes_readable assms(2) unfolding prop_readable_def by blast
  have "subscription_identifier p < 128 ^ 4"
    using assms(1) by (auto simp: general_property_is_valid_def split: option.splits if_splits
        dest: user_properties_check_neg)
  then have "\<not> length (remain_len_encode (subscription_identifier p)) > 4"
    using length_remain_len_encode [of "subscription_identifier p" 4] by simp
  moreover have lv: "\<exists>b. len_value_bytes t v = Ret b" if "lv_readable v" for t v
    using that by (auto simp: len_value_bytes_def lv_bytes_readable)
  moreover obtain rt where "(if lv_len (response_topic p) \<noteq> 0
      then len_value_bytes 0x08 (response_topic p) else Ret []) = Ret rt"
    using lv [of "response_topic p" "0x08"] assms(2)
    by (cases "lv_len (response_topic p) = 0") (auto simp: prop_readable_def)
  moreover obtain cd where "(if lv_len (correlation_data p) \<noteq> 0
      then len_value_bytes 0x09 (correlation_data p) else Ret []) = Ret cd"
    using lv [of "correlation_data p" "0x09"] assms(2)
    by (cases "lv_len (correlation_data p) = 0") (auto simp: prop_readable_def)
  moreover obtain rs where
    "(case reason_string p of None \<Rightarrow> Ret [] | Some r \<Rightarrow> len_value_bytes 0x1F r) = Ret rs"
    using lv [of _ "0x1F"] assms(2) by (cases "reason_string p") (auto simp: prop_readable_def)
  ultimately show ?thesis
    using users unfolding core_write_general_prop_def by (simp only: obind.simps if_False) blast
qed

section \<open>Properties\<close>

text \<open>
  Every length below 2 to the 28 is encoded in at most four bytes, and
  \<^verbatim>\<open>_read_variable_byte_interger\<close> reads it back, consuming exactly these bytes whatever
  follows them.
\<close>

theorem variable_length_roundtrip:
  assumes "n < 2 ^ 28"
  shows "length (remain_len_encode n) \<le> 4
    \<and> read_variable_byte_interger (remain_len_encode n @ rest) = Ret (n, length (remain_len_encode n))"
  using read_vbi_encode [OF assms] length_remain_len_encode [of n 4] assms by simp

theorem variable_length_roundtrip_witness:
  "read_variable_byte_interger (remain_len_encode 268435455 @ [7]) = Ret (268435455, 4)"
proof -
  have "length (remain_len_encode 268435455) = 4"
    by (simp add: remain_len_encode_large remain_len_encode_small)
  then show ?thesis using variable_length_roundtrip [of 268435455 "[7]"] by simp
qed

text \<open>
  A property set that passes the check of its user properties and whose pointers cover the
  lengths stated with them is written without leaving any buffer, and its bytes are exactly as
  many as \<^verbatim>\<open>_core_get_general_property_len\<close> computed for the packet buffer beforehand.
\<close>

theorem general_property_written_exactly:
  assumes "general_property_is_valid p = STATE_SUCCESS" "prop_readable p"
  shows "\<exists>b. core_write_general_prop p property_len_array = Ret b
    \<and> length b = length property_len_array + core_get_general_property_len p"
  using core_write_general_prop_total [OF assms] core_write_general_prop_length by blast

definition sample_property :: general_property where
  "sample_property = general_property_0\<lparr>topic_alias := 5, subscription_identifier := 300,
     user_properties := Some \<lparr>up_key = \<lparr>lv_len = 1, lv_value = Some [65]\<rparr>,
       up_value = \<lparr>lv_len = 2, lv_value = Some [66, 67]\<rparr>\<rparr> # replicate 19 None\<rparr>"

theorem general_property_written_exactly_witness:
  "\<exists>b. core_write_general_prop sample_property [14] = Ret b
    \<and> length b = 1 + core_get_general_property_len sample_property"
proof -
  have "user_properties_check (replicate n None) = None" for n by (induction n) simp_all
  then have "general_property_is_valid sample_property = STATE_SUCCESS"
    by (simp add: sample_property_def general_property_is_valid_def general_property_0_def del: replicate.simps)
  moreover have "prop_readable sample_property"
    by (auto simp: sample_property_def prop_readable_def lv_readable_def general_property_0_def no_value_def)
  ultimately show ?thesis using general_property_written_exactly [of sample_property "[14]"] by simp
qed

text \<open>
  The reader of one property advances, when it knows the type, by at least one byte and
  reports the length it advanced by; the value it points to lies behind the type.
\<close>

theorem property_element_progress:
  assumes "parse_property_element d idx = Ret (n, t, u)"
  shows "(n = 0 \<and> tlv_type t = 0) \<or> (2 \<le> n \<and> tlv_type t = d ! idx \<and> n \<le> 1 + 4 + 2 * 65535)"
proof -
  have "get_be16 h l \<le> 65535" for h l using get_be16_less [of h l] by simp
  note le = this
  have "get_be16 a b + get_be16 c d \<le> 131070" "get_be16 a b \<le> 131072"
    for a b c d using le [of a b] le [of c d] by linarith+
  note [simp] = this
  have vbi: "0 < k \<and> k \<le> 4" if "read_variable_byte_interger b = Ret (m, k)" for b m k
    using read_variable_bounds [OF that] by simp
  show ?thesis
    using assms
    by (auto simp: parse_property_element_def Let_def obind_eq_Ret rd_def split: if_splits dest!: vbi)
qed

theorem property_element_progress_witness:
  "(5 :: nat) = 0 \<and> tlv_type \<lparr>tlv_type = 0x1F, tlv_len = 2, tlv_value = 3\<rparr> = 0
   \<or> 2 \<le> (5 :: nat) \<and> (0x1F :: byte) = [0x1F, 0, 2, 65, 66] ! 0 \<and> (5 :: nat) \<le> 1 + 4 + 2 * 65535"
  using property_element_progress [of "[0x1F, 0, 2, 65, 66]" 0 5
      "\<lparr>tlv_type = 0x1F, tlv_len = 2, tlv_value = 3\<rparr>" "\<lparr>rx_key = (0, 0), rx_value = (0, 0)\<rparr>"]
  by (simp add: parse_property_element_def one_byte_properties_def two_byte_properties_def
      four_byte_properties_def binary_properties_def get_be16_def Let_def)

end
