(* ===== verification/Sysdep.thy ===== *)
theory Sysdep
  imports Mqtt_Codec
begin

text \<open>
  The world the stateful routines run in. The port layer (\<^verbatim>\<open>aiot_sysdep_portfile_t\<close> of
  \<^verbatim>\<open>core/aiot_sysdep_api.h\<close>) is supplied by the user of the SDK: here a record of oracles,
  asked with a counter that grows with every question, so that no assumption ties one answer to
  another; what the network delivers is counted by itself, by the calls that receive. What the SDK does to the outside, messages on the network and calls of user handlers,
  is appended to a trace. The state of \<^verbatim>\<open>core/utils/core_global.c\<close> and of the log lives in
  the world too. Handlers and user pointers are numbers; a handler does not call back into the
  SDK.
\<close>

section \<open>What crosses the boundary\<close>

datatype mutex = Data_mutex | Pub_mutex | Send_mutex | Recv_mutex | Sub_mutex | Alias_mutex
  | Process_mutex | Deinit_mutex | Global_mutex

text \<open>The order in which nested mutexes are taken.\<close>

definition mutex_rank :: "mutex \<Rightarrow> nat" where
  "mutex_rank m = (case m of Data_mutex \<Rightarrow> 0 | Pub_mutex \<Rightarrow> 1 | Send_mutex \<Rightarrow> 2 | Recv_mutex \<Rightarrow> 3
     | Sub_mutex \<Rightarrow> 4 | Alias_mutex \<Rightarrow> 5 | Process_mutex \<Rightarrow> 6 | Deinit_mutex \<Rightarrow> 7 | Global_mutex \<Rightarrow> 8)"

datatype netopt = Opt_socket_type | Opt_host "byte list" | Opt_backup_ip "byte list" | Opt_port nat
  | Opt_connect_timeout nat | Opt_cred nat | Opt_psk "byte list" "byte list"

datatype disconnect_reason = Network_disconnect | Heartbeat_disconnect

datatype mqtt_event = Evt_connect | Evt_reconnect | Evt_disconnect disconnect_reason

text \<open>The properties found in a received packet.\<close>

record rx_property =
  rp_max_qos :: nat
  rp_topic_alias_max :: nat
  rp_assigned_clientid :: "byte list option"
  rp_max_packet_size :: nat
  rp_wildcard :: nat
  rp_subid :: nat
  rp_shared :: nat
  rp_message_expire :: nat
  rp_topic_alias :: nat
  rp_server_receive_max :: nat
  rp_user :: "rx_user_property list"

definition rx_property_0 :: rx_property where
  "rx_property_0 = \<lparr>rp_max_qos = 0, rp_topic_alias_max = 0, rp_assigned_clientid = None,
     rp_max_packet_size = 0, rp_wildcard = 0, rp_subid = 0, rp_shared = 0, rp_message_expire = 0,
     rp_topic_alias = 0, rp_server_receive_max = 0, rp_user = []\<rparr>"

datatype mqtt_packet =
    Pkt_pub nat "byte list" "byte list" "rx_property option"
  | Pkt_heartbeat_response
  | Pkt_sub_ack nat int nat
  | Pkt_unsub_ack nat
  | Pkt_pub_ack nat
  | Pkt_con_ack nat rx_property
  | Pkt_disconnect nat

datatype http_packet = Http_status nat | Http_header "byte list" "byte list" | Http_body "byte list"

datatype out =
    Net_init | Net_setopt netopt | Net_establish | Net_deinit
  | Net_send "byte list" | Net_recv nat int "byte list"
  | Sleep nat
  | Log int "byte list"
  | Diag "byte list"
  | Recv_cb nat mqtt_packet nat
  | Event_cb nat mqtt_event nat
  | Process_cb nat nat "mqtt_event option" bool
  | Http_recv_cb nat http_packet nat
  | Http_event_cb nat int nat

section \<open>The world\<close>

record port =
  p_malloc :: "nat \<Rightarrow> bool"
  p_time :: "nat \<Rightarrow> 64 word"
  p_rand :: "nat \<Rightarrow> 32 word"
  p_init :: "nat \<Rightarrow> bool"
  p_setopt :: "nat \<Rightarrow> int"
  p_establish :: "nat \<Rightarrow> int"
  p_send :: "nat \<Rightarrow> int"
  p_recv :: "nat \<Rightarrow> int \<times> byte list"

record world =
  port :: port
  tick :: nat
  rx :: nat
  live :: int
  held :: "mutex list"
  lock_ok :: bool
  ub :: bool
  trace :: "out list"
  g_inited :: bool
  g_used :: nat
  g_alink_id :: "32 word"
  g_backup_ip :: "byte list"
  logcb :: bool
  log_timestamp :: "64 word"
  log_time_start :: "64 word"
  log_time_interval :: "64 word"
  log_stamp :: bool
  log_date :: bool

section \<open>The port operations\<close>

definition ask :: "(port \<Rightarrow> nat \<Rightarrow> 'r) \<Rightarrow> ('a world_scheme, 'r) state" where
  "ask q = do {
     w \<leftarrow> State_Monad.get;
     State_Monad.set (w\<lparr>tick := tick w + 1\<rparr>);
     State_Monad.return (q (port w) (tick w))
   }"

definition emit :: "out \<Rightarrow> ('a world_scheme, unit) state" where
  "emit e = modify (\<lambda>w. w\<lparr>trace := trace w @ [e]\<rparr>)"

text \<open>Undefined behaviour is recorded and the run goes on with an arbitrary value.\<close>

definition fault :: "('a world_scheme, unit) state" where
  "fault = modify (\<lambda>w. w\<lparr>ub := True\<rparr>)"

definition sys_malloc :: "('a world_scheme, bool) state" where
  "sys_malloc = do {
     ok \<leftarrow> ask p_malloc;
     (if ok then modify (\<lambda>w. w\<lparr>live := live w + 1\<rparr>) else State_Monad.return ());
     State_Monad.return ok
   }"

definition sys_free :: "('a world_scheme, unit) state" where
  "sys_free = modify (\<lambda>w. w\<lparr>live := live w - 1\<rparr>)"

definition sys_time :: "('a world_scheme, 64 word) state" where
  "sys_time = ask p_time"

definition sys_rand :: "('a world_scheme, 32 word) state" where
  "sys_rand = ask p_rand"

definition sys_sleep :: "nat \<Rightarrow> ('a world_scheme, unit) state" where
  "sys_sleep ms = emit (Sleep ms)"

definition mutex_lock :: "mutex \<Rightarrow> ('a world_scheme, unit) state" where
  "mutex_lock m = modify (\<lambda>w. w\<lparr>lock_ok := (lock_ok w \<and> (\<forall>h \<in> set (held w). mutex_rank h < mutex_rank m)),
     held := m # held w\<rparr>)"

definition mutex_unlock :: "mutex \<Rightarrow> ('a world_scheme, unit) state" where
  "mutex_unlock m = modify (\<lambda>w. w\<lparr>lock_ok := (lock_ok w \<and> m \<in> set (held w)), held := remove1 m (held w)\<rparr>)"

definition net_init :: "('a world_scheme, bool) state" where
  "net_init = do { emit Net_init; ask p_init }"

definition net_setopt :: "netopt \<Rightarrow> ('a world_scheme, int) state" where
  "net_setopt opt = do { emit (Net_setopt opt); ask p_setopt }"

definition net_establish :: "('a world_scheme, int) state" where
  "net_establish = do { emit Net_establish; ask p_establish }"

definition net_deinit :: "('a world_scheme, unit) state" where
  "net_deinit = emit Net_deinit"

definition net_send :: "byte list \<Rightarrow> ('a world_scheme, int) state" where
  "net_send pkt = do { emit (Net_send pkt); ask p_send }"

text \<open>
  The buffer of \<open>len\<close> bytes, zero before the call, as it is afterwards; the trace keeps the
  answer of the network.
\<close>

definition net_recv :: "nat \<Rightarrow> ('a world_scheme, int \<times> byte list) state" where
  "net_recv len = do {
     w \<leftarrow> State_Monad.get;
     let (r, bs) = p_recv (port w) (rx w);
     modify (\<lambda>w. w\<lparr>rx := rx w + 1\<rparr>);
     emit (Net_recv len r (take len (bs @ replicate len 0)));
     State_Monad.return (r, take len (bs @ replicate len 0))
   }"

text \<open>Options set one after the other, up to the first that fails.\<close>

fun setopts :: "netopt list \<Rightarrow> ('a world_scheme, int) state" where
  "setopts [] = State_Monad.return STATE_SUCCESS"
| "setopts (opt # opts) = do {
     res \<leftarrow> net_setopt opt;
     if res < STATE_SUCCESS then State_Monad.return res else setopts opts
   }"

text \<open>
  \<^verbatim>\<open>core_strdup\<close>: the old string is given back before memory for the new one is asked for.
\<close>

definition core_strdup ::
  "byte list option \<Rightarrow> byte list \<Rightarrow> ('a world_scheme, int \<times> byte list option) state" where
  "core_strdup dest src = do {
     on (dest \<noteq> None) sys_free;
     ok \<leftarrow> sys_malloc;
     State_Monad.return (if \<not> ok then (STATE_SYS_DEPEND_MALLOC_FAILED, None) else (STATE_SUCCESS, Some src))
   }"

text \<open>The value of a pure routine; a fault is recorded.\<close>

definition lift_outcome :: "'v \<Rightarrow> 'v outcome \<Rightarrow> ('a world_scheme, int \<times> 'v) state" where
  "lift_outcome dflt r = (case r of
     Fault \<Rightarrow> do { fault; State_Monad.return (STATE_SUCCESS, dflt) }
   | Fail c \<Rightarrow> State_Monad.return (c, dflt)
   | Ret v \<Rightarrow> State_Monad.return (STATE_SUCCESS, v))"

section \<open>core_global.c\<close>

definition core_global_init :: "('a world_scheme, int) state" where
  "core_global_init = do {
     inited \<leftarrow> gets g_inited;
     if inited then do {
       modify (\<lambda>w. w\<lparr>g_used := g_used w + 1\<rparr>);
       State_Monad.return STATE_SUCCESS
     } else do {
       modify (\<lambda>w. w\<lparr>g_inited := True\<rparr>);
       modify (\<lambda>w. w\<lparr>g_used := g_used w + 1\<rparr>);
       State_Monad.return STATE_SUCCESS
     }
   }"

definition core_global_deinit :: "('a world_scheme, int) state" where
  "core_global_deinit = do {
     used \<leftarrow> gets g_used;
     (if used > 0 then modify (\<lambda>w. w\<lparr>g_used := g_used w - 1\<rparr>) else State_Monad.return ());
     used \<leftarrow> gets g_used;
     if used \<noteq> 0 then State_Monad.return STATE_SUCCESS
     else do {
       modify (\<lambda>w. w\<lparr>g_inited := False, g_used := 0\<rparr>);
       State_Monad.return STATE_SUCCESS
     }
   }"

text \<open>
  The increment of the largest \<^verbatim>\<open>int32_t\<close> is undefined; the check behind it relies on the
  wrap-around.
\<close>

definition core_global_alink_id_next :: "('a world_scheme, int) state" where
  "core_global_alink_id_next = do {
     mutex_lock Global_mutex;
     id \<leftarrow> gets g_alink_id;
     (if sint id = 2 ^ 31 - 1 then fault else State_Monad.return ());
     modify (\<lambda>w. w\<lparr>g_alink_id := g_alink_id w + 1\<rparr>);
     id \<leftarrow> gets g_alink_id;
     (if sint id < 0 then modify (\<lambda>w. w\<lparr>g_alink_id := 0\<rparr>) else State_Monad.return ());
     id \<leftarrow> gets g_alink_id;
     mutex_unlock Global_mutex;
     State_Monad.return (sint id)
   }"

definition core_global_set_mqtt_backup_ip :: "byte list \<Rightarrow> ('a world_scheme, int) state" where
  "core_global_set_mqtt_backup_ip ip = do {
     mutex_lock Global_mutex;
     (if length ip > 16 then fault else modify (\<lambda>w. w\<lparr>g_backup_ip := ip\<rparr>));
     mutex_unlock Global_mutex;
     State_Monad.return STATE_SUCCESS
   }"

text \<open>An address of sixteen bytes has no terminator in its array.\<close>

definition core_global_get_mqtt_backup_ip :: "('a world_scheme, byte list) state" where
  "core_global_get_mqtt_backup_ip = do {
     mutex_lock Global_mutex;
     ip \<leftarrow> gets g_backup_ip;
     (if length ip \<ge> 16 then fault else State_Monad.return ());
     mutex_unlock Global_mutex;
     State_Monad.return ip
   }"

section \<open>Rules for the port operations\<close>

text \<open>A part of the state that the world does not touch.\<close>

definition beyond :: "('a world_scheme \<Rightarrow> 'b) \<Rightarrow> bool" where
  "beyond f \<longleftrightarrow> (\<forall>s w. f (world.extend w (world.more s)) = f s)"

lemma beyond_more [intro]: "beyond (\<lambda>s. g (world.more s))"
  by (simp add: beyond_def world.defs)

lemma beyondD:
  assumes "beyond f" "world.more t = world.more s"
  shows "f t = f s"
proof -
  have "f (world.extend (world.truncate t) (world.more s)) = f s" using assms(1) by (simp add: beyond_def)
  moreover have "world.extend (world.truncate t) (world.more s) = t"
    using assms(2) by (cases t) (simp add: world.defs)
  ultimately show ?thesis by simp
qed

lemma keeps_beyond: "keeps world.more m \<Longrightarrow> beyond f \<Longrightarrow> keeps f m"
proof (rule keepsI)
  fix s assume k: "keeps world.more m" and b: "beyond f"
  show "f (snd (run_state m s)) = f s" by (rule beyondD [OF b keepsD [OF k]])
qed

named_theorems world_only \<open>routines that change nothing but the world\<close>

lemma keeps_more_modify: "(\<And>s. world.more (g s) = world.more s) \<Longrightarrow> keeps world.more (modify g)"
  by (rule keeps_modify)

lemma ask_world [world_only]: "keeps world.more (ask q)"
  by (rule keepsI) (simp add: ask_def)

lemma emit_world [world_only]: "keeps world.more (emit e)"
  by (simp add: emit_def keeps_more_modify)

lemma fault_world [world_only]: "keeps world.more fault"
  by (simp add: fault_def keeps_more_modify)

lemma lock_world [world_only]:
  "keeps world.more (mutex_lock m)" "keeps world.more (mutex_unlock m)"
  by (simp_all add: mutex_lock_def mutex_unlock_def keeps_more_modify)

lemma sys_world [world_only]:
  "keeps world.more sys_malloc" "keeps world.more sys_free" "keeps world.more sys_time"
  "keeps world.more sys_rand" "keeps world.more (sys_sleep ms)"
  unfolding sys_malloc_def sys_free_def sys_time_def sys_rand_def sys_sleep_def
  by (intro keeps_rules world_only keeps_more_modify; simp)+

lemma net_world [world_only]:
  "keeps world.more net_init" "keeps world.more (net_setopt opt)" "keeps world.more net_establish"
  "keeps world.more net_deinit" "keeps world.more (net_send pkt)" "keeps world.more (net_recv n)"
  unfolding net_init_def net_setopt_def net_establish_def net_deinit_def net_send_def net_recv_def
  by (intro keeps_rules world_only keeps_more_modify; simp)+

lemma lift_outcome_world [world_only]: "keeps world.more (lift_outcome d r)"
  unfolding lift_outcome_def by (intro keeps_rules world_only)

lemma global_world [world_only]:
  "keeps world.more core_global_init" "keeps world.more core_global_deinit"
  "keeps world.more core_global_alink_id_next" "keeps world.more (core_global_set_mqtt_backup_ip ip)"
  "keeps world.more core_global_get_mqtt_backup_ip"
  unfolding core_global_init_def core_global_deinit_def core_global_alink_id_next_def
    core_global_set_mqtt_backup_ip_def core_global_get_mqtt_backup_ip_def
  by (intro keeps_rules world_only keeps_more_modify; simp)+

section \<open>Running the port operations\<close>

lemma wp_ask [run_simps]: "wp (ask q) Q s = Q (q (port s) (tick s)) (s\<lparr>tick := tick s + 1\<rparr>)"
  by (simp add: wp_def ask_def)

lemma wp_emit [run_simps]: "wp (emit e) Q s = Q () (s\<lparr>trace := trace s @ [e]\<rparr>)"
  by (simp add: emit_def)

lemma wp_sys_malloc [run_simps]:
  "wp sys_malloc Q s =
     (if p_malloc (port s) (tick s) then Q True (s\<lparr>tick := tick s + 1, live := live s + 1\<rparr>)
      else Q False (s\<lparr>tick := tick s + 1\<rparr>))"
  by (simp add: sys_malloc_def wp_ask)

lemma wp_sys_time [run_simps]: "wp sys_time Q s = Q (p_time (port s) (tick s)) (s\<lparr>tick := tick s + 1\<rparr>)"
  by (simp add: sys_time_def wp_ask)

lemma wp_sys_rand [run_simps]: "wp sys_rand Q s = Q (p_rand (port s) (tick s)) (s\<lparr>tick := tick s + 1\<rparr>)"
  by (simp add: sys_rand_def wp_ask)

lemma wp_lock [run_simps]:
  "wp (mutex_lock m) Q s = Q () (s\<lparr>lock_ok := (lock_ok s \<and> (\<forall>h \<in> set (held s). mutex_rank h < mutex_rank m)),
     held := m # held s\<rparr>)"
  "wp (mutex_unlock m) Q s = Q () (s\<lparr>lock_ok := (lock_ok s \<and> m \<in> set (held s)), held := remove1 m (held s)\<rparr>)"
  by (simp_all add: mutex_lock_def mutex_unlock_def)

end
