(* ===== verification/Core_Log.thy ===== *)
theory Core_Log
  imports Sysdep Core_String
begin

text \<open>
  \<^verbatim>\<open>core/utils/core_log.c\<close> and \<^verbatim>\<open>core/utils/core_diag.c\<close>: the time a log line
  carries, its prefix, the formatter with its bounded buffer, the hex dump. A log line is the text
  up to the first NUL of its buffer; when it fills the \<open>CORE_LOG_MAXLEN\<close> bytes, the carriage
  return and line feed stored behind them belong to it.
\<close>

definition CORE_LOG_MAXLEN :: nat where
  "CORE_LOG_MAXLEN = 160"

section \<open>Time\<close>

definition core_log_get_timestamp :: "('a world_scheme, 64 word) state" where
  "core_log_get_timestamp = do {
     timenow \<leftarrow> sys_time;
     w \<leftarrow> State_Monad.get;
     if log_timestamp w \<noteq> 0 \<and> log_timestamp w > timenow then do {
       (if timenow \<ge> log_time_start w
        then modify (\<lambda>w. w\<lparr>log_time_interval := log_time_interval w + (timenow - log_time_start w)\<rparr>)
        else modify (\<lambda>w. w\<lparr>log_time_interval := log_time_interval w + timenow\<rparr>));
       modify (\<lambda>w. w\<lparr>log_time_start := timenow\<rparr>);
       w \<leftarrow> State_Monad.get;
       State_Monad.return (log_timestamp w + log_time_interval w)
     } else State_Monad.return timenow
   }"

definition core_log_set_timestamp :: "64 word \<Rightarrow> ('a world_scheme, unit) state" where
  "core_log_set_timestamp timestamp = do {
     modify (\<lambda>w. w\<lparr>log_timestamp := timestamp\<rparr>);
     t \<leftarrow> sys_time;
     modify (\<lambda>w. w\<lparr>log_time_start := t\<rparr>);
     modify (\<lambda>w. w\<lparr>log_time_interval := 0\<rparr>)
   }"

section \<open>The prefix of a line\<close>

definition log_code_text :: "int \<Rightarrow> byte list" where
  "log_code_text code = (let c = of_int (- code) :: 16 word in
     str ''[LK-'' @ core_hex2str [ucast (drop_bit 8 c), ucast c] False @ str ''] '')"

text \<open>
  The last three digits are moved one place to the right and a point is put before them, if there
  are more than three.
\<close>

definition log_stamp_text :: "64 word \<Rightarrow> byte list" where
  "log_stamp_text t = (let d = rev (uint_digits t); n = length d in
     if n > 3 then take (n - 3) d @ [46] @ drop (n - 3) d else d)"

definition log_date_args :: "core_date \<Rightarrow> byte list option list" where
  "log_date_args d = map (\<lambda>v. Some (rev (uint_digits (of_nat v :: 32 word))))
     [year d, mon d, day d, hour d, minute d, sec d]"

text \<open>
  \<^verbatim>\<open>core_sprintf\<close> with its allocation: the text, or the status of a failed allocation.
\<close>

definition core_sprintf :: "byte list \<Rightarrow> byte list option list \<Rightarrow> ('a world_scheme, int \<times> byte list) state" where
  "core_sprintf fmt src = do {
     ok \<leftarrow> sys_malloc;
     if \<not> ok then State_Monad.return (STATE_SYS_DEPEND_MALLOC_FAILED, [])
     else lift_outcome [] (core_sprintf_text fmt src)
   }"

definition core_log_append_date :: "64 word \<Rightarrow> ('a world_scheme, byte list) state" where
  "core_log_append_date timestamp = do {
     (res, time) \<leftarrow> core_sprintf (str ''%s/%s/%s %s:%s:%s'') (log_date_args (core_utc2date timestamp 8));
     if res \<ge> STATE_SUCCESS then do { sys_free; State_Monad.return time }
     else State_Monad.return []
   }"

definition core_log_append_prefix :: "int \<Rightarrow> ('a world_scheme, byte list) state" where
  "core_log_append_prefix code = do {
     timenow \<leftarrow> core_log_get_timestamp;
     w \<leftarrow> State_Monad.get;
     date \<leftarrow> (if log_date w then do {
                 d \<leftarrow> core_log_append_date timenow;
                 State_Monad.return ([91] @ d @ [93])
               } else State_Monad.return []);
     State_Monad.return (date @ (if log_stamp w then [91] @ log_stamp_text timenow @ [93] else [])
       @ log_code_text code)
   }"

section \<open>The formatter\<close>

text \<open>
  The arguments of a format: a C string or NULL, an unsigned number, or the text of a
  \<^verbatim>\<open>%.*s\<close>, whose length stands in the argument before it. One step looks at the format
  with the arguments that are left; the code skips the rest of a directive it cannot serve byte by
  byte. Embedded NULs are not modelled: the texts are C strings.
\<close>

datatype log_arg = LStr "byte list option" | LUint "32 word"

text \<open>
  The text of \<^verbatim>\<open>%x\<close>; for the smallest \<^verbatim>\<open>int32_t\<close>, whose negation is
  undefined in C, the model prints nothing.
\<close>

definition log_hex :: "32 word \<Rightarrow> byte list" where
  "log_hex n = (case core_int2hexstr n of Ret t \<Rightarrow> t | _ \<Rightarrow> [])"

definition log_room :: "byte list \<Rightarrow> byte list \<Rightarrow> byte list" where
  "log_room buffer v = (if length buffer + length v > CORE_LOG_MAXLEN
     then take (CORE_LOG_MAXLEN - length buffer) v else v)"

text \<open>
  \<open>args\<close> holds the arguments from the current one on. A directive consumes the current
  argument (\<^verbatim>\<open>%.*s\<close> two); when the arguments are used up, \<^verbatim>\<open>arg\<close> is NULL and
  directives are copied as they stand.
\<close>

function core_log_loop :: "byte list \<Rightarrow> log_arg list \<Rightarrow> byte list \<Rightarrow> byte list" where
  "core_log_loop fmt args buffer =
     (if fmt = [] \<or> length buffer \<ge> CORE_LOG_MAXLEN then buffer
      else
        let copied = core_log_loop (tl fmt) args (buffer @ [hd fmt]) in
        if take 2 fmt = str ''%s'' then
          (case args of
             LStr (Some v) # as \<Rightarrow> core_log_loop (drop 2 fmt) as (buffer @ log_room buffer v)
           | _ \<Rightarrow> copied)
        else if take 4 fmt = str ''%.*s'' then
          (case args of
             LUint n # LStr v # as \<Rightarrow>
               core_log_loop (drop 4 fmt) as
                 (buffer @ log_room buffer (case v of None \<Rightarrow> [] | Some t \<Rightarrow> take (unat n) t))
           | _ \<Rightarrow> copied)
        else if take 2 fmt = str ''%d'' then
          (case args of
             LUint n # as \<Rightarrow> core_log_loop (drop 2 fmt) as (buffer @ log_room buffer (rev (uint_digits n)))
           | _ \<Rightarrow> copied)
        else if take 2 fmt = str ''%x'' then
          (case args of
             LUint n # as \<Rightarrow> core_log_loop (drop 2 fmt) as (buffer @ log_room buffer (log_hex n))
           | _ \<Rightarrow> copied)
        else copied)"
  by pat_completeness auto
termination by (relation "measure (\<lambda>(fmt, args, buffer). length fmt)") auto

declare core_log_loop.simps [simp del]

definition log_line :: "byte list \<Rightarrow> byte list" where
  "log_line buffer = (if length buffer = CORE_LOG_MAXLEN then buffer @ [13, 10] else buffer)"

text \<open>\<^verbatim>\<open>aiot_state_set_logcb\<close> of \<^verbatim>\<open>aiot_state_api.c\<close>: whether there is a callback.\<close>

definition aiot_state_set_logcb :: "bool \<Rightarrow> ('a world_scheme, int) state" where
  "aiot_state_set_logcb handler = do {
     modify (\<lambda>s. s\<lparr>logcb := handler\<rparr>);
     State_Monad.return 0
   }"

definition core_log :: "int \<Rightarrow> byte list \<Rightarrow> ('a world_scheme, unit) state" where
  "core_log code data = do {
     cb \<leftarrow> gets logcb;
     if \<not> cb then State_Monad.return ()
     else do {
       prefix \<leftarrow> core_log_append_prefix code;
       emit (Log code (log_line (prefix @ log_room prefix data)))
     }
   }"

definition core_logn :: "int \<Rightarrow> byte list \<Rightarrow> log_arg list \<Rightarrow> ('a world_scheme, unit) state" where
  "core_logn code fmt datas = do {
     cb \<leftarrow> gets logcb;
     if \<not> cb then State_Monad.return ()
     else do {
       prefix \<leftarrow> core_log_append_prefix code;
       emit (Log code (log_line (core_log_loop fmt datas prefix)))
     }
   }"

section \<open>The hex dump\<close>

text \<open>One line of at most sixteen bytes: their digits in two groups, a bar, their characters.\<close>

definition hexdump_char :: "byte \<Rightarrow> byte" where
  "hexdump_char b = (if b \<ge> 0x20 \<and> b \<le> 0x7E then b else 46)"

fun hexdump_digits :: "nat \<Rightarrow> byte list \<Rightarrow> byte list" where
  "hexdump_digits i [] = []"
| "hexdump_digits i (b # bs) =
     (if i = 8 then [32] else []) @ core_hex2str [b] False @ [32] @ hexdump_digits (i + 1) bs"

definition hexdump_line :: "int \<Rightarrow> byte \<Rightarrow> byte list \<Rightarrow> byte list" where
  "hexdump_line code prefix bs =
     (let digits = hexdump_digits 0 bs; chars = map hexdump_char bs
      in log_code_text code @ [prefix, 32] @ digits @ replicate (49 - length digits) 32
         @ [124, 32] @ chars @ replicate (16 - length chars) 32 @ [13, 10])"

function hexdump_lines :: "int \<Rightarrow> byte \<Rightarrow> byte list \<Rightarrow> byte list list" where
  "hexdump_lines code prefix bs =
     (if bs = [] then [] else hexdump_line code prefix (take 16 bs) # hexdump_lines code prefix (drop 16 bs))"
  by pat_completeness auto
termination by (relation "measure (\<lambda>(c, p, bs). length bs)") auto

declare hexdump_lines.simps [simp del]

definition core_log_hexdump :: "int \<Rightarrow> byte \<Rightarrow> byte list \<Rightarrow> ('a world_scheme, unit) state" where
  "core_log_hexdump code prefix buffer = do {
     cb \<leftarrow> gets logcb;
     if \<not> cb \<or> buffer = [] then State_Monad.return ()
     else do {
       emit (Log code [13, 10]);
       modify (\<lambda>w. w\<lparr>trace := trace w @ map (Log code) (hexdump_lines code prefix buffer)\<rparr>);
       emit (Log code [13, 10])
     }
   }"

section \<open>Diagnostics\<close>

text \<open>The callback gets the time and the record; the time is not kept in the trace.\<close>

definition core_diag :: "byte list \<Rightarrow> ('a world_scheme, unit) state" where
  "core_diag data = do {
     _ \<leftarrow> core_log_get_timestamp;
     emit (Diag data)
   }"

section \<open>Lemmas\<close>

lemma core_sprintf_world [world_only]: "keeps world.more (core_sprintf fmt src)"
  unfolding core_sprintf_def by (intro keeps_rules world_only)

lemma log_timestamp_world [world_only]: "keeps world.more core_log_get_timestamp"
  unfolding core_log_get_timestamp_def
  by (intro keeps_rules world_only keeps_more_modify; simp)

lemma log_prefix_world [world_only]: "keeps world.more (core_log_append_prefix code)"
  unfolding core_log_append_prefix_def core_log_append_date_def
  by (intro keeps_rules world_only)

lemma core_log_world [world_only]:
  "keeps world.more (core_log code data)" "keeps world.more (core_logn code fmt datas)"
  "keeps world.more (core_log_hexdump code p b)" "keeps world.more (core_diag d)"
  "keeps world.more (core_log_set_timestamp t)"
  unfolding core_log_def core_logn_def core_log_hexdump_def core_diag_def core_log_set_timestamp_def
  by (intro keeps_rules world_only keeps_more_modify; simp)+

lemma length_log_room: "length buffer \<le> CORE_LOG_MAXLEN \<Longrightarrow> length (buffer @ log_room buffer v) \<le> CORE_LOG_MAXLEN"
  by (simp add: log_room_def)

lemma length_core_log_loop:
  "length buffer \<le> CORE_LOG_MAXLEN \<Longrightarrow> length (core_log_loop fmt args buffer) \<le> CORE_LOG_MAXLEN"
proof (induction "length fmt" arbitrary: fmt args buffer rule: less_induct)
  case less
  show ?case
  proof (cases "fmt = [] \<or> length buffer \<ge> CORE_LOG_MAXLEN")
    case True
    then show ?thesis using less.prems by (simp add: core_log_loop.simps [of fmt])
  next
    case False
    then have nonempty: "fmt \<noteq> []" and room: "length buffer < CORE_LOG_MAXLEN" by auto
    have rec: "length (core_log_loop (drop k fmt) as (buffer @ log_room buffer v)) \<le> CORE_LOG_MAXLEN"
      if "0 < k" for k as v
      using less.hyps [of "drop k fmt"] that nonempty length_log_room [OF less.prems] by simp
    have copied: "length (core_log_loop (tl fmt) as (buffer @ [hd fmt])) \<le> CORE_LOG_MAXLEN" for as
      using less.hyps [of "tl fmt"] nonempty room by simp
    show ?thesis
      using False rec [of 2] rec [of 4] copied
      by (subst core_log_loop.simps) (simp add: Let_def split: list.split log_arg.split option.split)
  qed
qed

lemma hexdump_digits_length:
  "i + length bs \<le> 16 \<Longrightarrow> length (hexdump_digits i bs) = 3 * length bs + (if i \<le> 8 \<and> 8 < i + length bs then 1 else 0)"
  by (induction i bs rule: hexdump_digits.induct) auto

lemma length_log_code_text: "length (log_code_text code) = 10"
  by (simp add: log_code_text_def Let_def)

lemma length_hexdump_line: "length bs \<le> 16 \<Longrightarrow> length (hexdump_line code p bs) = 10 + 71"
  using hexdump_digits_length [of 0 bs] by (simp add: hexdump_line_def Let_def length_log_code_text)

lemma hexdump_lines_fit: "list_all (\<lambda>l. length l < 25 + 72) (hexdump_lines code p bs)"
proof (induction code p bs rule: hexdump_lines.induct)
  case (1 code p bs)
  then show ?case
    by (subst hexdump_lines.simps) (simp add: length_hexdump_line)
qed

section \<open>Properties\<close>

text \<open>
  Whatever the format and the arguments, the formatter keeps the text of a log line inside
  the \<open>CORE_LOG_MAXLEN\<close> bytes of its buffer, so that with the line end behind them and the
  terminator it never leaves the array of \<open>CORE_LOG_MAXLEN + 3\<close> bytes.
\<close>

theorem core_log_line_fits:
  assumes "length prefix \<le> CORE_LOG_MAXLEN"
  shows "length (log_line (core_log_loop fmt datas prefix)) < CORE_LOG_MAXLEN + 3
    \<and> length (log_line (prefix @ log_room prefix data)) < CORE_LOG_MAXLEN + 3"
  using length_core_log_loop [OF assms, of fmt datas] length_log_room [OF assms, of data]
  by (auto simp: log_line_def)

theorem core_log_line_fits_witness:
  "length (log_line (core_log_loop (str ''%s lost %d'') [LStr (Some (replicate 200 65)), LUint 3]
      (str ''[LK-0309] ''))) < 163"
  using core_log_line_fits [of "str ''[LK-0309] ''" "str ''%s lost %d''"
      "[LStr (Some (replicate 200 65)), LUint 3]" "[]"]
  by (simp add: CORE_LOG_MAXLEN_def)

end
