(* ===== verification/Core_Auth.thy ===== *)
theory Core_Auth
  imports Core_Log Core_Sha256
begin

text \<open>
  \<^verbatim>\<open>core/utils/core_auth.c\<close>: user name, password, client identifier, TLS-PSK identity and
  HTTP body, each built by \<^verbatim>\<open>core_sprintf\<close> and signed with the HMAC of the device secret.
  The texts are C strings; an argument that may be NULL is an option.
\<close>

definition CORE_AUTH_SDK_VERSION :: "byte list" where
  "CORE_AUTH_SDK_VERSION = str ''sdk-c-4.1.0''"

definition CORE_AUTH_TIMESTAMP :: "byte list" where
  "CORE_AUTH_TIMESTAMP = str ''2524608000000''"

text \<open>The signature buffer holds 32 zeros when the HMAC is called.\<close>

definition auth_sign :: "byte list \<Rightarrow> byte list \<Rightarrow> byte list" where
  "auth_sign plain secret = core_hex2str (core_hmac_sha256 plain secret (replicate 32 0)) False"

definition core_auth_mqtt_username ::
  "byte list \<Rightarrow> byte list \<Rightarrow> ('a world_scheme, int \<times> byte list) state"
where
  "core_auth_mqtt_username product_key device_name =
     core_sprintf (str ''%s&%s'') [Some device_name, Some product_key]"

definition auth_password_plain ::
  "byte list \<Rightarrow> byte list \<Rightarrow> nat \<Rightarrow> ('a world_scheme, int \<times> byte list) state"
where
  "auth_password_plain product_key device_name use_assigned =
     (if use_assigned = 1
      then core_sprintf (str ''clientIddeviceName%sproductKey%stimestamp%s'')
        [Some device_name, Some product_key, Some CORE_AUTH_TIMESTAMP]
      else core_sprintf (str ''clientId%s.%sdeviceName%sproductKey%stimestamp%s'')
        [Some product_key, Some device_name, Some device_name, Some product_key, Some CORE_AUTH_TIMESTAMP])"

definition core_auth_mqtt_password ::
  "byte list \<Rightarrow> byte list \<Rightarrow> byte list \<Rightarrow> nat \<Rightarrow> ('a world_scheme, int \<times> byte list option) state"
where
  "core_auth_mqtt_password product_key device_name device_secret use_assigned = do {
     (res, plain_text) \<leftarrow> auth_password_plain product_key device_name use_assigned;
     if res < STATE_SUCCESS then State_Monad.return (res, None)
     else do {
       ok \<leftarrow> sys_malloc;
       if \<not> ok then do { sys_free; State_Monad.return (STATE_SYS_DEPEND_MALLOC_FAILED, None) }
       else do {
         sys_free;
         State_Monad.return (0, Some (auth_sign plain_text device_secret))
       }
     }
   }"

definition core_auth_mqtt_clientid ::
  "byte list \<Rightarrow> byte list \<Rightarrow> byte list \<Rightarrow> byte list option \<Rightarrow> nat \<Rightarrow> ('a world_scheme, int \<times> byte list) state"
where
  "core_auth_mqtt_clientid product_key device_name secure_mode extend_clientid use_assigned =
     (if use_assigned = 1
      then core_sprintf
        (str ''|timestamp=%s,_ss=1,_v=%s,securemode=%s,signmethod=hmacsha256,ext=3,%s|'')
        [Some CORE_AUTH_TIMESTAMP, Some CORE_AUTH_SDK_VERSION, Some secure_mode, extend_clientid]
      else core_sprintf
        (str ''%s.%s|timestamp=%s,_ss=1,_v=%s,securemode=%s,signmethod=hmacsha256,ext=3,%s|'')
        [Some product_key, Some device_name, Some CORE_AUTH_TIMESTAMP, Some CORE_AUTH_SDK_VERSION,
         Some secure_mode, extend_clientid])"

definition core_auth_tls_psk ::
  "byte list option \<Rightarrow> byte list option \<Rightarrow> byte list option
     \<Rightarrow> ('a world_scheme, int \<times> byte list \<times> byte list) state"
where
  "core_auth_tls_psk product_key device_name device_secret =
     (case device_secret of
        None \<Rightarrow> State_Monad.return (STATE_USER_INPUT_MISSING_DEVICE_SECRET, [], [])
      | Some secret \<Rightarrow> do {
          (res, psk_id) \<leftarrow> core_sprintf (str ''%s|%s|%s&%s|%s'')
            [Some (str ''devicename''), Some (str ''hmacsha256''), product_key, device_name, Some CORE_AUTH_TIMESTAMP];
          if res < STATE_SUCCESS then State_Monad.return (res, [], [])
          else do {
            (res, plain) \<leftarrow> core_sprintf (str ''id%s&%stimestamp%s'')
              [product_key, device_name, Some CORE_AUTH_TIMESTAMP];
            if res < STATE_SUCCESS then do { sys_free; State_Monad.return (res, [], []) }
            else do {
              sys_free;
              State_Monad.return (res, psk_id, auth_sign plain secret)
            }
          }
        })"

definition core_auth_http_body ::
  "byte list \<Rightarrow> byte list \<Rightarrow> byte list \<Rightarrow> ('a world_scheme, int \<times> byte list) state"
where
  "core_auth_http_body product_key device_name device_secret = do {
     (res, plain) \<leftarrow> core_sprintf (str ''clientId%s.%sdeviceName%sproductKey%s'')
       [Some product_key, Some device_name, Some device_name, Some product_key];
     if res < STATE_SUCCESS then State_Monad.return (res, [])
     else do {
       sys_free;
       core_sprintf
         (str ''{\"clientId\":\"%s.%s\",\"signmethod\":\"hmacsha256\",\"deviceName\":\"%s\",\"productKey\":\"%s\",\"sign\":\"%s\"}'')
         [Some product_key, Some device_name, Some device_name, Some product_key,
          Some (auth_sign plain device_secret)]
     }
   }"

section \<open>Lemmas\<close>

lemma auth_world [world_only]:
  "keeps world.more (core_auth_mqtt_username pk dn)"
  "keeps world.more (core_auth_mqtt_password pk dn ds a)"
  "keeps world.more (core_auth_mqtt_clientid pk dn sm ext a)"
  "keeps world.more (core_auth_tls_psk opk odn ods)"
  "keeps world.more (core_auth_http_body pk dn ds)"
  unfolding core_auth_mqtt_username_def core_auth_mqtt_password_def auth_password_plain_def
    core_auth_mqtt_clientid_def core_auth_tls_psk_def core_auth_http_body_def
  by (intro keeps_rules world_only)+

text \<open>With memory to be had, \<^verbatim>\<open>core_sprintf\<close> gives the woven text.\<close>

lemma wp_sys_malloc_ok:
  "p_malloc (port w) (tick w) \<Longrightarrow> Q True (w\<lparr>tick := tick w + 1, live := live w + 1\<rparr>) \<Longrightarrow> wp sys_malloc Q w"
  by (simp add: sys_malloc_def ask_def)

lemma wp_sys_free [simp]: "wp sys_free Q w = Q () (w\<lparr>live := live w - 1\<rparr>)"
  by (simp add: sys_free_def)

lemma core_sprintf_run:
  assumes "p_malloc (port w) (tick w)" "core_sprintf_text fmt src = Ret text"
  shows "run_state (core_sprintf fmt src) w = ((STATE_SUCCESS, text), w\<lparr>tick := tick w + 1, live := live w + 1\<rparr>)"
  using assms by (simp add: core_sprintf_def sys_malloc_def ask_def lift_outcome_def)

text \<open>The formats as their literal pieces.\<close>

lemma password_format:
  "str ''clientId%s.%sdeviceName%sproductKey%stimestamp%s''
     = fmt_of [str ''clientId'', str ''.'', str ''deviceName'', str ''productKey'', str ''timestamp'', []]"
  "str ''clientIddeviceName%sproductKey%stimestamp%s''
     = fmt_of [str ''clientIddeviceName'', str ''productKey'', str ''timestamp'', []]"
  by simp_all

definition auth_password_text :: "byte list \<Rightarrow> byte list \<Rightarrow> nat \<Rightarrow> byte list" where
  "auth_password_text pk dn assigned =
     (if assigned = 1
      then str ''clientIddeviceName'' @ dn @ str ''productKey'' @ pk @ str ''timestamp2524608000000''
      else str ''clientId'' @ pk @ str ''.'' @ dn @ str ''deviceName'' @ dn @ str ''productKey'' @ pk
        @ str ''timestamp2524608000000'')"

lemma auth_password_plain_run:
  assumes "p_malloc (port w) (tick w)" "length (auth_password_text pk dn a) < 2 ^ 32"
  shows "run_state (auth_password_plain pk dn a) w
    = ((STATE_SUCCESS, auth_password_text pk dn a), w\<lparr>tick := tick w + 1, live := live w + 1\<rparr>)"
proof (cases "a = 1")
  case True
  have "core_sprintf_text (str ''clientIddeviceName%sproductKey%stimestamp%s'')
      [Some dn, Some pk, Some CORE_AUTH_TIMESTAMP] = Ret (auth_password_text pk dn a)"
    using assms(2) True unfolding password_format
    by (subst core_sprintf_text_weave(1))
      (simp_all add: auth_password_text_def sprintf_value_def CORE_AUTH_TIMESTAMP_def)
  from core_sprintf_run [OF assms(1) this] True show ?thesis
    by (simp add: auth_password_plain_def del: str_simps)
next
  case False
  have "core_sprintf_text (str ''clientId%s.%sdeviceName%sproductKey%stimestamp%s'')
      [Some pk, Some dn, Some dn, Some pk, Some CORE_AUTH_TIMESTAMP] = Ret (auth_password_text pk dn a)"
    using assms(2) False unfolding password_format
    by (subst core_sprintf_text_weave(1))
      (simp_all add: auth_password_text_def sprintf_value_def CORE_AUTH_TIMESTAMP_def)
  from core_sprintf_run [OF assms(1) this] False show ?thesis
    by (simp add: auth_password_plain_def del: str_simps)
qed

section \<open>Properties\<close>

text \<open>
  When memory is available the MQTT password is the upper-case hexadecimal HMAC-SHA-256,
  under the device secret, of the text the platform prescribes; for a device secret longer than
  one block it is 64 zero digits, whatever the device. No memory but the password itself stays
  allocated.
\<close>

theorem mqtt_password_signature:
  assumes "p_malloc (port w) (tick w)" "p_malloc (port w) (tick w + 1)"
    and "length (auth_password_text pk dn a) < 2 ^ 32"
  shows "run_state (core_auth_mqtt_password pk dn ds a) w =
    ((0, Some (if length ds \<le> 64 then core_hex2str (rfc_hmac ds (auth_password_text pk dn a)) False
               else replicate 64 48)),
     w\<lparr>tick := tick w + 2, live := live w + 1\<rparr>)"
proof -
  have zeros: "core_hex2str (replicate n 0) False = replicate (2 * n) 48" for n
    by (induction n) (simp_all add: Let_def hex_upper_def)
  have sign: "auth_sign (auth_password_text pk dn a) ds
      = (if length ds \<le> 64 then core_hex2str (rfc_hmac ds (auth_password_text pk dn a)) False
         else replicate 64 48)"
    using core_hmac_sha256_rfc [of ds "auth_password_text pk dn a"] assms(3) zeros [of 32]
    by (simp add: auth_sign_def core_hmac_sha256_def del: replicate.simps)
  show ?thesis
    unfolding core_auth_mqtt_password_def
    using assms(1,2) by (simp add: auth_password_plain_run [OF assms(1,3)] sys_malloc_def ask_def
        sys_free_def sign del: replicate.simps)
qed

definition happy_port :: port where
  "happy_port = \<lparr>p_malloc = \<lambda>_. True, p_time = \<lambda>n. of_nat n, p_rand = \<lambda>_. 7, p_init = \<lambda>_. True,
     p_setopt = \<lambda>_. 0, p_establish = \<lambda>_. 0, p_send = \<lambda>_. 0, p_recv = \<lambda>_. (0, [])\<rparr>"

definition world_0 :: "port \<Rightarrow> world" where
  "world_0 p = \<lparr>port = p, tick = 0, rx = 0, live = 0, held = [], lock_ok = True, ub = False, trace = [],
     g_inited = False, g_used = 0, g_alink_id = 0, g_backup_ip = [], logcb = False,
     log_timestamp = 0, log_time_start = 0, log_time_interval = 0, log_stamp = True, log_date = False\<rparr>"

theorem mqtt_password_signature_witness:
  "fst (run_state (core_auth_mqtt_password (str ''pk'') (str ''dn'') (replicate 65 97) 0) (world_0 happy_port))
     = (0, Some (replicate 64 48))
   \<and> fst (run_state (core_auth_mqtt_password (str ''pk'') (str ''dn'') (str ''secret'') 0) (world_0 happy_port))
     = (0, Some (core_hex2str (rfc_hmac (str ''secret'')
         (str ''clientIdpk.dndeviceNamednproductKeypktimestamp2524608000000'')) False))"
  using mqtt_password_signature [of "world_0 happy_port" "str ''pk''" "str ''dn''" 0 "replicate 65 97"]
    mqtt_password_signature [of "world_0 happy_port" "str ''pk''" "str ''dn''" 0 "str ''secret''"]
  by (simp add: world_0_def happy_port_def auth_password_text_def del: replicate.simps)

end
