(* ===== verification/Mqtt_Handle.thy ===== *)
theory Mqtt_Handle
  imports Core_Auth Mqtt_Topic "HOL-Library.AList"
begin

text \<open>
  The handle of the MQTT client (\<^verbatim>\<open>core_mqtt_handle_t\<close> of \<^verbatim>\<open>core/utils/core_mqtt.h\<close>)
  and the operations of \<^verbatim>\<open>core/aiot_mqtt_api.c\<close> on it that neither build nor parse a
  packet: the notification of events, the count of running calls, the packet identifiers and the
  lists of subscriptions, unacknowledged publishes, topic aliases and process handlers. A linked
  list is the list of its nodes in order; a pointer to a string is the string or \<open>None\<close>; a
  handler is a number, NULL user data the number zero.
\<close>

section \<open>The state\<close>

record sub_node =
  sub_topic :: "byte list"
  sub_handlers :: "(nat \<times> nat) list"

record pub_node =
  pub_packet_id :: "16 word"
  pub_packet :: "byte list"
  pub_last_send :: "64 word"

datatype cred_option = Cred_none | Cred_svrcert_ca | Cred_svrcert_psk

record mqtt = world +
  network_handle :: bool
  mqtt_host :: "byte list option"
  mqtt_port :: nat
  product_key :: "byte list option"
  device_name :: "byte list option"
  device_secret :: "byte list option"
  username :: "byte list option"
  password :: "byte list option"
  clientid :: "byte list option"
  extend_clientid :: "byte list option"
  security_mode :: "byte list option"
  keep_alive_s :: nat
  clean_session :: nat
  append_requestid :: nat
  connect_timeout_ms :: nat
  hb_interval_ms :: "32 word"
  hb_max_lost_times :: nat
  hb_lost_times :: "32 word"
  hb_last_send_time :: "64 word"
  rc_enabled :: nat
  rc_interval_ms :: "32 word"
  rc_last_retry_time :: "64 word"
  rc_backoff_enabled :: bool
  rc_rand_ms :: "32 word"
  rc_counter :: nat
  send_timeout_ms :: nat
  recv_timeout_ms :: nat
  repub_timeout_ms :: "32 word"
  deinit_timeout_ms :: "32 word"
  cred :: "cred_option option"
  has_connected :: bool
  disconnected :: bool
  disconnect_api_called :: bool
  exec_enabled :: bool
  exec_count :: "32 word"
  packet_id :: "16 word"
  sub_list :: "sub_node list"
  pub_list :: "pub_node list"
  process_data_list :: "(nat \<times> nat) list"
  recv_handler :: "nat option"
  event_handler :: "nat option"
  userdata :: nat
  nwk_network_type :: nat
  nwk_connect_timestamp :: "64 word"
  nwk_connect_time_used :: "32 word"
  nwk_failed_timestamp :: "64 word"
  nwk_failed_error_code :: int
  nwk_rtt :: "64 word"
  protocol_version :: nat
  rx_topic_alias_list :: "(byte list \<times> nat) list"
  tx_topic_alias_list :: "(byte list \<times> nat) list"
  pre_connect_property :: "byte list option"
  use_assigned_clientid :: nat
  tx_packet_max_size :: nat
  tx_topic_alias_max :: nat
  tx_topic_alias :: "32 word"
  server_receive_max :: nat
  flow_control_enabled :: bool

type_synonym 'r mqtt_m = "(mqtt, 'r) state"

definition v5_enabled :: "mqtt \<Rightarrow> bool" where
  "v5_enabled s \<longleftrightarrow> protocol_version s = 1"

definition mqtt_sysdep_return :: "int \<Rightarrow> int \<Rightarrow> int" where
  "mqtt_sysdep_return sysdep_code core_code =
     (if sysdep_code \<ge> STATE_PORT_BASE - 0x00FF \<and> sysdep_code < STATE_PORT_BASE
      then sysdep_code else core_code)"

section \<open>Events\<close>

fun notify_process_handlers :: "(nat \<times> nat) list \<Rightarrow> mqtt_event option \<Rightarrow> bool \<Rightarrow> unit mqtt_m" where
  "notify_process_handlers [] event core_event = ret ()"
| "notify_process_handlers ((h, ctx) # ns) event core_event = do {
     emit (Process_cb h ctx event core_event);
     notify_process_handlers ns event core_event
   }"

definition event_notify :: "mqtt_event \<Rightarrow> unit mqtt_m" where
  "event_notify event = do {
     s \<leftarrow> State_Monad.get;
     (case event_handler s of None \<Rightarrow> ret () | Some h \<Rightarrow> emit (Event_cb h event (userdata s)));
     mutex_lock Process_mutex;
     s \<leftarrow> State_Monad.get;
     notify_process_handlers (process_data_list s) (Some event) False;
     mutex_unlock Process_mutex
   }"

definition connect_event_notify :: "unit mqtt_m" where
  "connect_event_notify = do {
     modify (\<lambda>s. s\<lparr>disconnected := False\<rparr>);
     c \<leftarrow> gets has_connected;
     if \<not> c then do {
       modify (\<lambda>s. s\<lparr>has_connected := True\<rparr>);
       event_notify Evt_connect
     } else event_notify Evt_reconnect
   }"

definition disconnect_event_notify :: "disconnect_reason \<Rightarrow> unit mqtt_m" where
  "disconnect_event_notify reason = do {
     s \<leftarrow> State_Monad.get;
     on (has_connected s \<and> \<not> disconnected s) (do {
       modify (\<lambda>s. s\<lparr>disconnected := True\<rparr>);
       event_notify (Evt_disconnect reason)
     })
   }"

definition exec_inc :: "unit mqtt_m" where
  "exec_inc = do {
     mutex_lock Data_mutex;
     modify (\<lambda>s. s\<lparr>exec_count := exec_count s + 1\<rparr>);
     mutex_unlock Data_mutex
   }"

definition exec_dec :: "unit mqtt_m" where
  "exec_dec = do {
     mutex_lock Data_mutex;
     modify (\<lambda>s. s\<lparr>exec_count := exec_count s - 1\<rparr>);
     mutex_unlock Data_mutex
   }"

definition recv_notify :: "mqtt_packet \<Rightarrow> unit mqtt_m" where
  "recv_notify packet = do {
     s \<leftarrow> State_Monad.get;
     (case recv_handler s of None \<Rightarrow> ret () | Some h \<Rightarrow> emit (Recv_cb h packet (userdata s)))
   }"

text \<open>The network is given up under the send and the receive mutex.\<close>

definition network_close :: "unit mqtt_m" where
  "network_close = do {
     n \<leftarrow> gets network_handle;
     on n (do { net_deinit; modify (\<lambda>s. s\<lparr>network_handle := False\<rparr>) })
   }"

definition network_close_locked :: "unit mqtt_m" where
  "network_close_locked = do {
     mutex_lock Send_mutex;
     mutex_lock Recv_mutex;
     network_close;
     mutex_unlock Recv_mutex;
     mutex_unlock Send_mutex
   }"

definition sign_clean :: "unit mqtt_m" where
  "sign_clean = do {
     s \<leftarrow> State_Monad.get;
     on (username s \<noteq> None) (do { sys_free; modify (\<lambda>s. s\<lparr>username := None\<rparr>) });
     on (password s \<noteq> None) (do { sys_free; modify (\<lambda>s. s\<lparr>password := None\<rparr>) });
     on (clientid s \<noteq> None) (do { sys_free; modify (\<lambda>s. s\<lparr>clientid := None\<rparr>) })
   }"

section \<open>Subscriptions\<close>

text \<open>The first node that satisfies a condition, with what stands before and behind it.\<close>

fun split_first :: "('n \<Rightarrow> bool) \<Rightarrow> 'n list \<Rightarrow> ('n list \<times> 'n \<times> 'n list) option" where
  "split_first p [] = None"
| "split_first p (x # xs) =
     (if p x then Some ([], x, xs)
      else case split_first p xs of None \<Rightarrow> None | Some (as, y, bs) \<Rightarrow> Some (x # as, y, bs))"

text \<open>
  A handler that is already there gets the new user data, a new one a node at the end:
  \<open>AList.update\<close>.
\<close>

definition handlerlist_insert :: "(nat \<times> nat) list \<Rightarrow> nat \<Rightarrow> nat \<Rightarrow> (int \<times> (nat \<times> nat) list) mqtt_m" where
  "handlerlist_insert hs handler ud =
     (if handler \<in> fst ` set hs then ret (STATE_SUCCESS, AList.update handler ud hs)
      else do {
        ok \<leftarrow> sys_malloc;
        if \<not> ok then ret (STATE_SYS_DEPEND_MALLOC_FAILED, hs)
        else ret (STATE_SUCCESS, AList.update handler ud hs)
      })"

definition sublist_insert :: "byte list \<Rightarrow> nat option \<Rightarrow> nat \<Rightarrow> int mqtt_m" where
  "sublist_insert topic handler ud = do {
     s \<leftarrow> State_Monad.get;
     case split_first (\<lambda>n. sub_topic n = topic) (sub_list s) of
       Some (before, node, behind) \<Rightarrow>
         (case handler of
            None \<Rightarrow> ret STATE_SUCCESS
          | Some h \<Rightarrow> do {
              (res, hs) \<leftarrow> handlerlist_insert (sub_handlers node) h ud;
              modify (\<lambda>s. s\<lparr>sub_list := before @ node\<lparr>sub_handlers := hs\<rparr> # behind\<rparr>);
              ret res
            })
     | None \<Rightarrow> do {
         ok \<leftarrow> sys_malloc;
         if \<not> ok then ret STATE_SYS_DEPEND_MALLOC_FAILED
         else do {
           ok \<leftarrow> sys_malloc;
           if \<not> ok then do { sys_free; ret STATE_SYS_DEPEND_MALLOC_FAILED }
           else do {
             (res, hs) \<leftarrow> (case handler of
                None \<Rightarrow> ret (STATE_SUCCESS, [])
              | Some h \<Rightarrow> handlerlist_insert [] h ud);
             if res < STATE_SUCCESS then do { sys_free; sys_free; ret res }
             else do {
               modify (\<lambda>s. s\<lparr>sub_list := sub_list s @ [\<lparr>sub_topic = topic, sub_handlers = hs\<rparr>]\<rparr>);
               ret res
             }
           }
         }
       }
   }"

definition free_n :: "nat \<Rightarrow> unit mqtt_m" where
  "free_n n = modify (\<lambda>s. s\<lparr>live := live s - int n\<rparr>)"

text \<open>The copies of handlers, and the user properties of a received packet.\<close>

definition handlerlist_destroy :: "(nat \<times> nat) list \<Rightarrow> unit mqtt_m" where
  "handlerlist_destroy hs = free_n (length hs)"

definition reclaim_user_properties_mem :: "'p list \<Rightarrow> unit mqtt_m" where
  "reclaim_user_properties_mem ps = free_n (length ps)"

declare handlerlist_destroy_def [simp] reclaim_user_properties_mem_def [simp]

definition sub_node_blocks :: "sub_node \<Rightarrow> nat" where
  "sub_node_blocks n = length (sub_handlers n) + 2"

definition sublist_remove :: "byte list \<Rightarrow> unit mqtt_m" where
  "sublist_remove topic = do {
     s \<leftarrow> State_Monad.get;
     free_n (sum_list (map sub_node_blocks (filter (\<lambda>n. sub_topic n = topic) (sub_list s))));
     modify (\<lambda>s. s\<lparr>sub_list := filter (\<lambda>n. sub_topic n \<noteq> topic) (sub_list s)\<rparr>)
   }"

definition node_remove_handler :: "byte list \<Rightarrow> nat \<Rightarrow> sub_node \<Rightarrow> sub_node" where
  "node_remove_handler topic handler n =
     (if sub_topic n = topic
      then n\<lparr>sub_handlers := filter (\<lambda>p. fst p \<noteq> handler) (sub_handlers n)\<rparr> else n)"

definition sublist_remove_handler :: "byte list \<Rightarrow> nat \<Rightarrow> unit mqtt_m" where
  "sublist_remove_handler topic handler = do {
     s \<leftarrow> State_Monad.get;
     free_n (sum_list (map sub_node_blocks (sub_list s))
       - sum_list (map sub_node_blocks (map (node_remove_handler topic handler) (sub_list s))));
     modify (\<lambda>s. s\<lparr>sub_list := map (node_remove_handler topic handler) (sub_list s)\<rparr>)
   }"

definition sublist_destroy :: "unit mqtt_m" where
  "sublist_destroy = do {
     s \<leftarrow> State_Monad.get;
     free_n (sum_list (map sub_node_blocks (sub_list s)));
     modify (\<lambda>s. s\<lparr>sub_list := []\<rparr>)
   }"

text \<open>The topic map of \<^verbatim>\<open>aiot_mqtt_setopt\<close>.\<close>

definition topic_map_check :: "byte list option \<Rightarrow> int" where
  "topic_map_check topic = (case topic of
     None \<Rightarrow> STATE_USER_INPUT_NULL_POINTER
   | Some t \<Rightarrow> if length t \<ge> 128 then STATE_MQTT_TOPIC_TOO_LONG else topic_is_valid t)"

definition append_topic_map :: "byte list option \<Rightarrow> nat option \<Rightarrow> nat \<Rightarrow> int mqtt_m" where
  "append_topic_map topic handler ud =
     (if topic_map_check topic < STATE_SUCCESS then ret (topic_map_check topic)
      else do {
        mutex_lock Sub_mutex;
        res \<leftarrow> sublist_insert (the topic) handler ud;
        mutex_unlock Sub_mutex;
        ret res
      })"

definition remove_topic_map :: "byte list option \<Rightarrow> nat \<Rightarrow> int mqtt_m" where
  "remove_topic_map topic handler =
     (if topic_map_check topic < STATE_SUCCESS then ret (topic_map_check topic)
      else do {
        mutex_lock Sub_mutex;
        sublist_remove_handler (the topic) handler;
        mutex_unlock Sub_mutex;
        ret STATE_SUCCESS
      })"

section \<open>Topic aliases\<close>

definition alias_insert :: "(byte list \<times> nat) list \<Rightarrow> byte list \<Rightarrow> nat
     \<Rightarrow> (int \<times> (byte list \<times> nat) list) mqtt_m" where
  "alias_insert aliases topic alias =
     (if topic \<in> fst ` set aliases then ret (STATE_SUCCESS, aliases)
      else do {
        ok \<leftarrow> sys_malloc;
        if \<not> ok then ret (STATE_SYS_DEPEND_MALLOC_FAILED, aliases)
        else do {
          ok \<leftarrow> sys_malloc;
          if \<not> ok then do { sys_free; ret (STATE_SYS_DEPEND_MALLOC_FAILED, aliases) }
          else ret (STATE_SUCCESS, aliases @ [(topic, alias)])
        }
      })"

definition topic_alias_list_remove_all :: "unit mqtt_m" where
  "topic_alias_list_remove_all = do {
     s \<leftarrow> State_Monad.get;
     free_n (2 * length (rx_topic_alias_list s) + 2 * length (tx_topic_alias_list s));
     modify (\<lambda>s. s\<lparr>rx_topic_alias_list := [], tx_topic_alias_list := []\<rparr>)
   }"

section \<open>Packet identifiers and unacknowledged publishes\<close>

definition next_packet_id :: "(16 word) mqtt_m" where
  "next_packet_id = do {
     mutex_lock Data_mutex;
     pid \<leftarrow> gets packet_id;
     on (pid + 1 = 0) (modify (\<lambda>s. s\<lparr>packet_id := 0\<rparr>));
     modify (\<lambda>s. s\<lparr>packet_id := packet_id s + 1\<rparr>);
     pid \<leftarrow> gets packet_id;
     mutex_unlock Data_mutex;
     ret pid
   }"

definition publist_insert :: "byte list \<Rightarrow> 16 word \<Rightarrow> int mqtt_m" where
  "publist_insert packet pid = do {
     s \<leftarrow> State_Monad.get;
     if pid \<in> pub_packet_id ` set (pub_list s) then ret STATE_MQTT_PUBLIST_PACKET_ID_ROLL
     else do {
       ok \<leftarrow> sys_malloc;
       if \<not> ok then ret STATE_SYS_DEPEND_MALLOC_FAILED
       else do {
         ok \<leftarrow> sys_malloc;
         if \<not> ok then do { sys_free; ret STATE_SYS_DEPEND_MALLOC_FAILED }
         else do {
           t \<leftarrow> sys_time;
           modify (\<lambda>s. s\<lparr>pub_list := pub_list s @
             [\<lparr>pub_packet_id = pid, pub_packet = packet, pub_last_send = t\<rparr>]\<rparr>);
           ret STATE_SUCCESS
         }
       }
     }
   }"

definition publist_remove :: "16 word \<Rightarrow> unit mqtt_m" where
  "publist_remove pid = do {
     s \<leftarrow> State_Monad.get;
     case split_first (\<lambda>n. pub_packet_id n = pid) (pub_list s) of
       None \<Rightarrow> ret ()
     | Some (before, node, behind) \<Rightarrow> do {
         free_n 2;
         modify (\<lambda>s. s\<lparr>pub_list := before @ behind\<rparr>)
       }
   }"

definition publist_destroy :: "unit mqtt_m" where
  "publist_destroy = do {
     s \<leftarrow> State_Monad.get;
     free_n (2 * length (pub_list s));
     modify (\<lambda>s. s\<lparr>pub_list := []\<rparr>)
   }"

section \<open>Process handlers\<close>

definition process_datalist_insert :: "nat \<Rightarrow> nat \<Rightarrow> int mqtt_m" where
  "process_datalist_insert handler context = do {
     s \<leftarrow> State_Monad.get;
     (res, l) \<leftarrow> handlerlist_insert (process_data_list s) handler context;
     modify (\<lambda>s. s\<lparr>process_data_list := l\<rparr>);
     ret res
   }"

definition process_datalist_remove :: "nat \<Rightarrow> unit mqtt_m" where
  "process_datalist_remove handler = do {
     s \<leftarrow> State_Monad.get;
     case split_first (\<lambda>p. fst p = handler) (process_data_list s) of
       None \<Rightarrow> ret ()
     | Some (before, node, behind) \<Rightarrow> do {
         sys_free;
         modify (\<lambda>s. s\<lparr>process_data_list := before @ behind\<rparr>)
       }
   }"

definition process_datalist_destroy :: "unit mqtt_m" where
  "process_datalist_destroy = do {
     s \<leftarrow> State_Monad.get;
     free_n (length (process_data_list s));
     modify (\<lambda>s. s\<lparr>process_data_list := []\<rparr>)
   }"

definition append_process_data :: "nat option \<Rightarrow> nat \<Rightarrow> int mqtt_m" where
  "append_process_data handler context = (case handler of
     None \<Rightarrow> ret STATE_USER_INPUT_NULL_POINTER
   | Some h \<Rightarrow> do {
       mutex_lock Process_mutex;
       res \<leftarrow> process_datalist_insert h context;
       c \<leftarrow> gets has_connected;
       on (res \<ge> STATE_SUCCESS \<and> c) (emit (Process_cb h context (Some Evt_connect) False));
       mutex_unlock Process_mutex;
       ret res
     })"

definition remove_process_data :: "nat option \<Rightarrow> int mqtt_m" where
  "remove_process_data handler = (case handler of
     None \<Rightarrow> ret STATE_USER_INPUT_NULL_POINTER
   | Some h \<Rightarrow> do {
       mutex_lock Process_mutex;
       process_datalist_remove h;
       mutex_unlock Process_mutex;
       ret STATE_SUCCESS
     })"

definition process_data_process :: "bool \<Rightarrow> unit mqtt_m" where
  "process_data_process core_event = do {
     mutex_lock Process_mutex;
     s \<leftarrow> State_Monad.get;
     notify_process_handlers (process_data_list s) None core_event;
     mutex_unlock Process_mutex
   }"

section \<open>Flow control\<close>

definition flow_control_inc :: "unit mqtt_m" where
  "flow_control_inc = do {
     s \<leftarrow> State_Monad.get;
     on (v5_enabled s \<and> flow_control_enabled s) (do {
       mutex_lock Pub_mutex;
       modify (\<lambda>s. s\<lparr>server_receive_max := (server_receive_max s + 1) mod 65536\<rparr>);
       modify (\<lambda>s. s\<lparr>server_receive_max := (if server_receive_max s > 10 then 10 else server_receive_max s)\<rparr>);
       mutex_unlock Pub_mutex
     })
   }"

definition check_flow_control :: "nat \<Rightarrow> int mqtt_m" where
  "check_flow_control qos = do {
     s \<leftarrow> State_Monad.get;
     if flow_control_enabled s \<and> qos = 1 then do {
       mutex_lock Pub_mutex;
       m \<leftarrow> gets server_receive_max;
       mutex_unlock Pub_mutex;
       ret (if m = 0 then STATE_MQTT_RECEIVE_MAX_EXCEEDED else STATE_SUCCESS)
     } else ret STATE_SUCCESS
   }"

definition check_flow_dec :: "unit mqtt_m" where
  "check_flow_dec = do {
     s \<leftarrow> State_Monad.get;
     on (v5_enabled s \<and> flow_control_enabled s \<and> server_receive_max s > 0) (do {
       mutex_lock Pub_mutex;
       modify (\<lambda>s. s\<lparr>server_receive_max := server_receive_max s - 1\<rparr>);
       mutex_unlock Pub_mutex
     })
   }"

end
