(* ===== verification/Mqtt_Connect.thy ===== *)
theory Mqtt_Connect
  imports Mqtt_Handle
begin

text \<open>
  The connection of \<^verbatim>\<open>core/aiot_mqtt_api.c\<close>: reading and writing the network, the packets
  the client builds (CONNECT, SUBSCRIBE, UNSUBSCRIBE, PINGREQ, PUBACK, DISCONNECT), the properties
  of a received packet, the answer CONNACK, connecting, reconnecting with its back-off, and the
  repetition of unacknowledged publishes. A read or write outside a buffer is recorded as a fault;
  a bit shifted into the sign of an \<^verbatim>\<open>int\<close> counts as the two's complement result.
\<close>

section \<open>Reading and writing\<close>

definition core_mqtt_read :: "nat \<Rightarrow> (int \<times> byte list) mqtt_m" where
  "core_mqtt_read len = do {
     n \<leftarrow> gets network_handle;
     if n then do {
       (res, buffer) \<leftarrow> net_recv len;
       ret (if res < STATE_SUCCESS then mqtt_sysdep_return res STATE_SYS_DEPEND_NWK_RECV_ERR
            else if res \<noteq> int len then STATE_SYS_DEPEND_NWK_READ_LESSDATA else res, buffer)
     } else ret (STATE_SYS_DEPEND_NWK_CLOSED, replicate len 0)
   }"

definition core_mqtt_write :: "byte list \<Rightarrow> int mqtt_m" where
  "core_mqtt_write buffer = do {
     n \<leftarrow> gets network_handle;
     if n then do {
       res \<leftarrow> net_send buffer;
       ret (if res < STATE_SUCCESS then mqtt_sysdep_return res STATE_SYS_DEPEND_NWK_SEND_ERR
            else if res \<noteq> int (length buffer) then STATE_SYS_DEPEND_NWK_WRITE_LESSDATA else res)
     } else ret STATE_SYS_DEPEND_NWK_CLOSED
   }"

text \<open>Sending under the mutex, and giving the network up when the send failed for good.\<close>

definition send_locked :: "byte list \<Rightarrow> int mqtt_m" where
  "send_locked pkt = do {
     mutex_lock Send_mutex;
     res \<leftarrow> core_mqtt_write pkt;
     mutex_unlock Send_mutex;
     ret res
   }"

definition send_failed :: "int \<Rightarrow> unit mqtt_m" where
  "send_failed res = on (res \<noteq> STATE_SYS_DEPEND_NWK_WRITE_LESSDATA) network_close_locked"

definition send_or_close :: "byte list \<Rightarrow> int mqtt_m" where
  "send_or_close pkt = do {
     res \<leftarrow> send_locked pkt;
     if res < STATE_SUCCESS then do { send_failed res; ret res } else ret STATE_SUCCESS
   }"

definition core_mqtt_connect_diag :: "byte \<Rightarrow> unit mqtt_m" where
  "core_mqtt_connect_diag flag = core_diag [0x00, 0x10, 0x01, flag]"

definition core_mqtt_heartbeat_diag :: "byte \<Rightarrow> unit mqtt_m" where
  "core_mqtt_heartbeat_diag flag = core_diag [0x00, 0x20, 0x01, flag]"

text \<open>
  \<^verbatim>\<open>_core_mqtt_read_remainlen\<close>; the multiplier is 128 to the number of bytes read
  before. When the fourth byte says that more follow, a fifth is read, and then the multiplier is
  found too large.
\<close>

function read_remainlen_loop :: "nat \<Rightarrow> nat \<Rightarrow> (int \<times> nat) mqtt_m" where
  "read_remainlen_loop pos remainlen = do {
     (res, bs) \<leftarrow> core_mqtt_read 1;
     let ch = hd (bs @ [0]);
     let multiplier = 128 ^ pos;
     if res < STATE_SUCCESS then ret (res, 0)
     else if multiplier > 128 * 128 * 128 then ret (STATE_MQTT_MALFORMED_REMAINING_LEN, 0)
     else if ch AND 128 \<noteq> 0
     then read_remainlen_loop (pos + 1) (remainlen + unat (ch AND 127) * multiplier)
     else ret (STATE_SUCCESS, remainlen + unat (ch AND 127) * multiplier)
   }"
  by pat_completeness auto
termination
proof (relation "measure (\<lambda>(pos, remainlen). 4 - pos)")
  fix pos remainlen :: nat and res :: int and bs :: "byte list" and ch :: byte and multiplier :: nat
  assume "multiplier = 128 ^ pos" "\<not> multiplier > 128 * 128 * 128"
  then have "(128 :: nat) ^ pos < 128 ^ 4" by simp
  then have "pos < 4" using power_less_imp_less_exp [of "128 :: nat" pos 4] by simp
  then show "((pos + 1, r), pos, remainlen) \<in> measure (\<lambda>(pos, remainlen). 4 - pos)" for r
    by simp
qed simp

declare read_remainlen_loop.simps [simp del]

definition core_mqtt_read_remainlen :: "(int \<times> nat) mqtt_m" where
  "core_mqtt_read_remainlen = read_remainlen_loop 0 0"

definition core_mqtt_read_remainbytes :: "nat \<Rightarrow> (int \<times> byte list option) mqtt_m" where
  "core_mqtt_read_remainbytes remainlen =
     (if remainlen > 0 then do {
        ok \<leftarrow> sys_malloc;
        if \<not> ok then ret (STATE_SYS_DEPEND_MALLOC_FAILED, None)
        else do {
          (res, remain) \<leftarrow> core_mqtt_read remainlen;
          if res < STATE_SUCCESS then do {
            sys_free;
            ret (if res = STATE_SYS_DEPEND_NWK_READ_LESSDATA
                 then STATE_MQTT_MALFORMED_REMAINING_BYTES else res, None)
          } else ret (STATE_SUCCESS, Some remain)
        }
      } else ret (STATE_SUCCESS, None))"

section \<open>The properties of a received packet\<close>

text \<open>The cases of the switch that store a number.\<close>

definition store_property :: "byte list \<Rightarrow> tlv \<Rightarrow> rx_property \<Rightarrow> rx_property outcome" where
  "store_property d t p =
     (let v = tlv_value t; byte_at = (\<lambda>i. rd d (v + i)) in
      if tlv_type t \<in> {0x23, 0x22, 0x21} then
        obind (byte_at 0) (\<lambda>h. obind (byte_at 1) (\<lambda>l. Ret (
          if tlv_type t = 0x23 then p\<lparr>rp_topic_alias := get_be16 h l\<rparr>
          else if tlv_type t = 0x22 then p\<lparr>rp_topic_alias_max := get_be16 h l\<rparr>
          else p\<lparr>rp_server_receive_max := get_be16 h l\<rparr>)))
      else if tlv_type t \<in> {0x24, 0x28, 0x29, 0x2A} then
        obind (byte_at 0) (\<lambda>b. Ret (
          if tlv_type t = 0x24 then p\<lparr>rp_max_qos := unat b\<rparr>
          else if tlv_type t = 0x28 then p\<lparr>rp_wildcard := unat b\<rparr>
          else if tlv_type t = 0x29 then p\<lparr>rp_subid := unat b\<rparr>
          else p\<lparr>rp_shared := unat b\<rparr>))
      else if tlv_type t \<in> {0x02, 0x27} then
        obind (byte_at 0) (\<lambda>b0. obind (byte_at 1) (\<lambda>b1. obind (byte_at 2) (\<lambda>b2. obind (byte_at 3) (\<lambda>b3.
          Ret (if tlv_type t = 0x02 then p\<lparr>rp_message_expire := unat (get_be32 b0 b1 b2 b3)\<rparr>
               else p\<lparr>rp_max_packet_size := unat (get_be32 b0 b1 b2 b3)\<rparr>)))))
      else Ret p)"

text \<open>
  The cases that allocate: the assigned client identifier is copied, of the user properties the
  first \<open>USER_PROPERTY_MAX\<close> with a key are kept. The status and the properties so far.
\<close>

definition take_property ::
  "byte list \<Rightarrow> tlv \<Rightarrow> rx_user_property \<Rightarrow> rx_property \<Rightarrow> (int \<times> rx_property) mqtt_m" where
  "take_property d t u p =
     (if tlv_type t = 0x12 then do {
        ok \<leftarrow> sys_malloc;
        if \<not> ok then ret (STATE_SYS_DEPEND_MALLOC_FAILED, p)
        else do {
          (_, cid) \<leftarrow> lift_outcome [] (rd_block d (tlv_value t) (tlv_len t));
          ret (STATE_SUCCESS, p\<lparr>rp_assigned_clientid := Some cid\<rparr>)
        }
      }
      else if tlv_type t = 0x26 then
        (if length (rp_user p) < USER_PROPERTY_MAX \<and> snd (rx_key u) \<noteq> 0 then do {
           ok \<leftarrow> sys_malloc;
           if \<not> ok then ret (STATE_SYS_DEPEND_MALLOC_FAILED, p)
           else ret (STATE_SUCCESS, p\<lparr>rp_user := rp_user p @ [u]\<rparr>)
         } else ret (STATE_SUCCESS, p))
      else if tlv_type t = 0 then ret (STATE_MQTT_UNKNOWN_PROPERTY_OPTION, p)
      else lift_outcome p (store_property d t p))"

lemma parse_property_element_pos:
  "parse_property_element d idx = Ret (n, t, u) \<Longrightarrow> 0 < n \<or> tlv_type t = 0"
  by (auto simp: parse_property_element_def Let_def obind_eq_Ret rd_def split: if_splits)

text \<open>The loop over the properties; \<open>d\<close> is the buffer from the properties on.\<close>

function parse_properties_loop ::
  "byte list \<Rightarrow> nat \<Rightarrow> nat \<Rightarrow> nat \<Rightarrow> rx_property \<Rightarrow> (int \<times> rx_property) mqtt_m" where
  "parse_properties_loop d total_len remain_len idx p =
     (if total_len \<le> idx then ret (STATE_SUCCESS, p)
      else case parse_property_element d idx of
        Fault \<Rightarrow> do { fault; ret (STATE_SUCCESS, p) }
      | Fail c \<Rightarrow> ret (c, p)
      | Ret (n, t, u) \<Rightarrow>
          if idx + n > remain_len then ret (STATE_MQTT_INVALID_PROPERTY_LEN, p)
          else do {
            (res, p) \<leftarrow> take_property d t u p;
            if res < STATE_SUCCESS \<or> tlv_type t = 0 then ret (res, p)
            else parse_properties_loop d total_len remain_len (idx + n) p
          })"
  by pat_completeness auto
termination
  by (relation "measure (\<lambda>(d, total_len, remain_len, idx, p). total_len - idx)")
    (auto dest!: parse_property_element_pos)

declare parse_properties_loop.simps [simp del]

text \<open>
  The remaining length is an unsigned number: when the length field alone is longer, the difference
  wraps. The result carries the length of the properties and of their length field.
\<close>

definition core_mqtt_parse_general_properties ::
  "byte list \<Rightarrow> nat \<Rightarrow> (int \<times> nat \<times> nat \<times> rx_property) mqtt_m" where
  "core_mqtt_parse_general_properties d remain_len =
     (case read_variable_byte_interger d of
        Fault \<Rightarrow> do { fault; ret (STATE_SUCCESS, 0, 0, rx_property_0) }
      | Fail c \<Rightarrow> ret (c, 0, 0, rx_property_0)
      | Ret (property_len, offset) \<Rightarrow>
          if int property_len > (int remain_len - int offset) mod 2 ^ 32
          then ret (STATE_MQTT_INVALID_PROPERTY_LEN, 0, 0, rx_property_0)
          else if property_len = 0 then ret (STATE_SUCCESS, 0, offset, rx_property_0)
          else do {
            (res, p) \<leftarrow> parse_properties_loop d (property_len + offset) remain_len offset
              (rx_property_0\<lparr>rp_max_qos := 2, rp_wildcard := 1, rp_subid := 1, rp_shared := 1\<rparr>);
            ret (res, property_len, offset, p)
          })"

section \<open>CONNACK\<close>

definition core_mqtt_parse_conack_properties :: "byte list \<Rightarrow> nat \<Rightarrow> (int \<times> rx_property) mqtt_m" where
  "core_mqtt_parse_conack_properties d remain_len = do {
     (res, _, _, p) \<leftarrow> core_mqtt_parse_general_properties d remain_len;
     if res \<noteq> STATE_SUCCESS then ret (res, rx_property_0)
     else do {
       modify (\<lambda>s. s\<lparr>tx_topic_alias_max := rp_topic_alias_max p\<rparr>);
       ret (STATE_SUCCESS, p\<lparr>rp_message_expire := 0, rp_topic_alias := 0\<rparr>)
     }
   }"

definition connack_code_v5 :: "byte \<Rightarrow> int" where
  "connack_code_v5 c = (if c = 0x00 then STATE_SUCCESS
     else if c = 0x84 then STATE_MQTT_CONNACK_RCODE_UNACCEPTABLE_PROTOCOL_VERSION
     else if c = 0x88 then STATE_MQTT_CONNACK_RCODE_SERVER_UNAVAILABLE
     else if c = 0x86 then STATE_MQTT_CONNACK_RCODE_BAD_USERNAME_PASSWORD
     else if c = 0x87 then STATE_MQTT_CONNACK_RCODE_NOT_AUTHORIZED
     else STATE_MQTT_CONNACK_RCODE_UNKNOWN)"

definition connack_code_v3 :: "byte \<Rightarrow> int" where
  "connack_code_v3 c = (if c = 0x00 then STATE_SUCCESS
     else if c = 0x01 then STATE_MQTT_CONNACK_RCODE_UNACCEPTABLE_PROTOCOL_VERSION
     else if c = 0x02 then STATE_MQTT_CONNACK_RCODE_SERVER_UNAVAILABLE
     else if c = 0x03 then STATE_MQTT_CONNACK_RCODE_BAD_USERNAME_PASSWORD
     else if c = 0x04 then STATE_MQTT_CONNACK_RCODE_NOT_AUTHORIZED
     else STATE_MQTT_CONNACK_RCODE_UNKNOWN)"

definition connack_log :: "int \<Rightarrow> unit mqtt_m" where
  "connack_log res =
     (if res = STATE_MQTT_CONNACK_RCODE_UNACCEPTABLE_PROTOCOL_VERSION
      then core_log STATE_MQTT_LOG_DISCONNECT (str ''MQTT invalid protocol version, disconeect'' @ [13, 10])
      else if res = STATE_MQTT_CONNACK_RCODE_SERVER_UNAVAILABLE
      then core_log STATE_MQTT_LOG_DISCONNECT (str ''MQTT server unavailable, disconnect'' @ [13, 10])
      else if res = STATE_MQTT_CONNACK_RCODE_BAD_USERNAME_PASSWORD
      then core_log STATE_MQTT_LOG_DISCONNECT (str ''MQTT bad username or password, disconnect'' @ [13, 10])
      else if res = STATE_MQTT_CONNACK_RCODE_NOT_AUTHORIZED
      then core_log STATE_MQTT_LOG_DISCONNECT (str ''MQTT authorize fail, disconnect'' @ [13, 10])
      else ret ())"

definition core_mqtt_connack_handle :: "byte list \<Rightarrow> nat \<Rightarrow> int mqtt_m" where
  "core_mqtt_connack_handle connack remain_len = do {
     s \<leftarrow> State_Monad.get;
     if v5_enabled s then do {
       (_, flags) \<leftarrow> lift_outcome 0 (rd connack 0);
       if flags \<noteq> 0 then ret STATE_MQTT_CONNACK_FMT_ERROR
       else do {
         (_, code) \<leftarrow> lift_outcome 0 (rd connack 1);
         let res = connack_code_v5 code;
         connack_log res;
         (r, p) \<leftarrow> core_mqtt_parse_conack_properties (drop 2 connack) remain_len;
         if r < STATE_SUCCESS then ret r
         else do {
           recv_notify (Pkt_con_ack (unat code) p);
           on (rp_assigned_clientid p \<noteq> None) sys_free;
           reclaim_user_properties_mem (rp_user p);
           ret res
         }
       }
     } else do {
       (_, code) \<leftarrow> lift_outcome 0 (rd connack 1);
       connack_log (connack_code_v3 code);
       ret (connack_code_v3 code)
     }
   }"

section \<open>The packets of the client\<close>

record conn_property =
  cp_topic_alias_max :: nat
  cp_client_receive_max :: nat
  cp_user_property :: "user_property option list"

text \<open>A C string behind a pointer.\<close>

definition c_string :: "byte list option \<Rightarrow> (byte list) mqtt_m" where
  "c_string p = (case p of None \<Rightarrow> do { fault; ret [] } | Some t \<Rightarrow> ret t)"

text \<open>
  \<^verbatim>\<open>_core_mqtt_set_utf8_encoded_str\<close> with the step the caller makes: the length is cut
  to 16 bits, the step is not, and the buffer was zero before.
\<close>

definition utf8_field :: "byte list \<Rightarrow> byte list" where
  "utf8_field input = set_utf8_encoded_str input @ replicate (length input - length input mod 65536) 0"

definition conn_general_property :: "conn_property option \<Rightarrow> general_property" where
  "conn_general_property conn_prop = (case conn_prop of
     None \<Rightarrow> general_property_0
   | Some c \<Rightarrow> general_property_0\<lparr>topic_alias_max := cp_topic_alias_max c,
       user_properties := cp_user_property c\<rparr>)"

definition property_len_array :: "general_property \<Rightarrow> byte list" where
  "property_len_array p = remain_len_encode (core_get_general_property_len p)"

text \<open>How many bytes the properties of CONNECT will take: stored ones when there are any.\<close>

definition conn_property_total_len :: "general_property \<Rightarrow> nat mqtt_m" where
  "conn_property_total_len gp = do {
     s \<leftarrow> State_Monad.get;
     if \<not> v5_enabled s then ret 0
     else case pre_connect_property s of
       None \<Rightarrow> ret (length (property_len_array gp) + core_get_general_property_len gp)
     | Some stored \<Rightarrow> do {
         (_, len, offset) \<leftarrow> lift_outcome (0, 0) (read_variable_byte_interger stored);
         ret (offset + len)
       }
   }"

text \<open>The properties of CONNECT; those written for the first time are kept for reconnects.\<close>

definition conn_property_bytes :: "general_property \<Rightarrow> nat \<Rightarrow> (int \<times> byte list) mqtt_m" where
  "conn_property_bytes gp total_len = do {
     s \<leftarrow> State_Monad.get;
     if \<not> v5_enabled s then ret (STATE_SUCCESS, [])
     else case pre_connect_property s of
       Some stored \<Rightarrow> do {
         (_, b) \<leftarrow> lift_outcome [] (rd_block stored 0 total_len);
         ret (STATE_SUCCESS, b)
       }
     | None \<Rightarrow> do {
         (_, b) \<leftarrow> lift_outcome [] (core_write_general_prop gp (property_len_array gp));
         ok \<leftarrow> sys_malloc;
         if \<not> ok then ret (STATE_SYS_DEPEND_MALLOC_FAILED, b)
         else do {
           modify (\<lambda>s. s\<lparr>pre_connect_property := Some (take total_len b)\<rparr>);
           ret (STATE_SUCCESS, b)
         }
       }
   }"

definition conn_flags :: "mqtt \<Rightarrow> byte" where
  "conn_flags s = 0xC0 OR push_bit 1 (of_nat (clean_session s))"

definition conn_pkt_bytes ::
  "mqtt \<Rightarrow> nat \<Rightarrow> byte list \<Rightarrow> byte list \<Rightarrow> byte list \<Rightarrow> byte list \<Rightarrow> byte list" where
  "conn_pkt_bytes s remainlen property cid user pass =
     0x10 # remain_len_encode remainlen @ [0x00, 0x04, 0x4D, 0x51, 0x54, 0x54]
     @ [if v5_enabled s then 0x05 else 0x04, conn_flags s] @ put_be16 (keep_alive_s s)
     @ property @ utf8_field cid @ utf8_field user @ utf8_field pass"

definition core_mqtt_conn_pkt :: "conn_property option \<Rightarrow> (int \<times> byte list) mqtt_m" where
  "core_mqtt_conn_pkt conn_prop = do {
     s \<leftarrow> State_Monad.get;
     let gp = conn_general_property conn_prop;
     if v5_enabled s \<and> pre_connect_property s = None \<and> general_property_is_valid gp < STATE_SUCCESS
     then ret (general_property_is_valid gp, [])
     else do {
       property_total_len \<leftarrow> conn_property_total_len gp;
       cid \<leftarrow> c_string (clientid s);
       user \<leftarrow> c_string (username s);
       pass \<leftarrow> c_string (password s);
       let payload_len = length cid + length user + length pass + 3 * 2;
       let conn_remainlen = 10 + payload_len + property_total_len;
       let conn_pkt_len = 15 + payload_len + property_total_len;
       ok \<leftarrow> sys_malloc;
       if \<not> ok then ret (STATE_SYS_DEPEND_MALLOC_FAILED, [])
       else do {
         (res, property) \<leftarrow> conn_property_bytes gp property_total_len;
         if res < STATE_SUCCESS then ret (res, [])
         else do {
           let pkt = conn_pkt_bytes s conn_remainlen property cid user pass;
           on (length pkt > conn_pkt_len) fault;
           ret (STATE_SUCCESS, pkt)
         }
       }
     }
   }"

text \<open>
  SUBSCRIBE (\<open>sub\<close>) and UNSUBSCRIBE. The length of the topic is cut to 16 bits by the call.
\<close>

definition subunsub_first_byte :: "mqtt \<Rightarrow> bool \<Rightarrow> byte" where
  "subunsub_first_byte s sub =
     (if sub then 0x82 else if v5_enabled s then 0xA2 else 0xA0)"

definition subunsub_property :: "general_property option \<Rightarrow> (byte list) mqtt_m" where
  "subunsub_property gp = do {
     s \<leftarrow> State_Monad.get;
     if \<not> v5_enabled s then ret []
     else case gp of
       None \<Rightarrow> do { fault; ret [] }
     | Some p \<Rightarrow> do {
         (_, b) \<leftarrow> lift_outcome [] (core_write_general_prop p (property_len_array p));
         ret b
       }
   }"

definition subunsub_property_total_len :: "mqtt \<Rightarrow> general_property option \<Rightarrow> nat" where
  "subunsub_property_total_len s gp =
     (if \<not> v5_enabled s then 0
      else case gp of None \<Rightarrow> length (remain_len_encode 0)
      | Some p \<Rightarrow> length (property_len_array p) + core_get_general_property_len p)"

definition subunsub_pkt_bytes ::
  "mqtt \<Rightarrow> bool \<Rightarrow> nat \<Rightarrow> 16 word \<Rightarrow> byte list \<Rightarrow> byte list \<Rightarrow> nat \<Rightarrow> byte list" where
  "subunsub_pkt_bytes s sub remainlen pid property topic qos =
     subunsub_first_byte s sub # remain_len_encode remainlen @ put_be16 (unat pid) @ property
     @ put_be16 (length topic) @ topic @ (if sub then [of_nat qos] else [])"

definition core_mqtt_subunsub ::
  "byte list \<Rightarrow> nat \<Rightarrow> bool \<Rightarrow> general_property option \<Rightarrow> int mqtt_m" where
  "core_mqtt_subunsub topic_name qos sub gp = do {
     s \<leftarrow> State_Monad.get;
     let topic = take (length topic_name mod 65536) topic_name;
     if v5_enabled s \<and> (case gp of None \<Rightarrow> False | Some p \<Rightarrow> general_property_is_valid p < STATE_SUCCESS)
     then ret (general_property_is_valid (the gp))
     else do {
       let remainlen = 2 + 2 + length topic + subunsub_property_total_len s gp + (if sub then 1 else 0);
       ok \<leftarrow> sys_malloc;
       if \<not> ok then ret STATE_SYS_DEPEND_MALLOC_FAILED
       else do {
         pid \<leftarrow> next_packet_id;
         property \<leftarrow> subunsub_property gp;
         let pkt = subunsub_pkt_bytes s sub remainlen pid property topic qos;
         on (length pkt > 1 + 4 + remainlen) fault;
         res \<leftarrow> send_locked pkt;
         sys_free;
         if res < STATE_SUCCESS then do { send_failed res; ret res }
         else ret (int (unat pid))
       }
     }
   }"

definition core_mqtt_disconnect :: "int mqtt_m" where
  "core_mqtt_disconnect = send_or_close [0xE0, 0x00]"

definition core_mqtt_heartbeat :: "int mqtt_m" where
  "core_mqtt_heartbeat = do {
     core_mqtt_heartbeat_diag 0x00;
     send_or_close [0xC0, 0x00]
   }"

definition core_mqtt_puback_send :: "16 word \<Rightarrow> int mqtt_m" where
  "core_mqtt_puback_send pid = send_or_close (0x40 # 2 # put_be16 (unat pid))"

section \<open>Connecting\<close>

definition cred_number :: "cred_option \<Rightarrow> nat" where
  "cred_number c = (case c of Cred_none \<Rightarrow> 0 | Cred_svrcert_ca \<Rightarrow> 1 | Cred_svrcert_psk \<Rightarrow> 2)"

definition connect_secure_mode :: "mqtt \<Rightarrow> byte list" where
  "connect_secure_mode s =
     (case security_mode s of Some m \<Rightarrow> m
      | None \<Rightarrow> if cred s = None \<or> cred s = Some Cred_none then str ''3'' else str ''2'')"

text \<open>User name, password and client identifier, computed from the device triple when missing.\<close>

definition connect_sign_with :: "byte list \<Rightarrow> byte list \<Rightarrow> byte list \<Rightarrow> int mqtt_m" where
  "connect_sign_with pk dn ds = do {
     sign_clean;
     s \<leftarrow> State_Monad.get;
     (res, user) \<leftarrow> core_auth_mqtt_username pk dn;
     if res < STATE_SUCCESS then do { sign_clean; ret res }
     else do {
       modify (\<lambda>s. s\<lparr>username := Some user\<rparr>);
       (res, pass) \<leftarrow> core_auth_mqtt_password pk dn ds (use_assigned_clientid s);
       if res < STATE_SUCCESS then do { sign_clean; ret res }
       else do {
         modify (\<lambda>s. s\<lparr>password := pass\<rparr>);
         (res, cid) \<leftarrow> core_auth_mqtt_clientid pk dn (connect_secure_mode s) (extend_clientid s)
           (use_assigned_clientid s);
         if res < STATE_SUCCESS then do { sign_clean; ret res }
         else do {
           modify (\<lambda>s. s\<lparr>clientid := Some cid\<rparr>);
           core_logn STATE_MQTT_LOG_USERNAME (str ''%s'' @ [13, 10]) [LStr (Some user)];
           core_logn STATE_MQTT_LOG_PASSWORD (str ''%s'' @ [13, 10]) [LStr pass];
           ret STATE_SUCCESS
         }
       }
     }
   }"

definition connect_sign :: "int mqtt_m" where
  "connect_sign = do {
     s \<leftarrow> State_Monad.get;
     if username s = None \<or> password s = None \<or> clientid s = None then
       (case (product_key s, device_name s, device_secret s) of
          (None, _, _) \<Rightarrow> ret STATE_USER_INPUT_MISSING_PRODUCT_KEY
        | (Some _, None, _) \<Rightarrow> ret STATE_USER_INPUT_MISSING_DEVICE_NAME
        | (Some _, Some _, None) \<Rightarrow> ret STATE_USER_INPUT_MISSING_DEVICE_SECRET
        | (Some pk, Some dn, Some ds) \<Rightarrow> connect_sign_with pk dn ds)
     else ret STATE_SUCCESS
   }"

text \<open>Giving up the network handle that is being set up; no mutex is taken here.\<close>

definition network_drop :: "unit mqtt_m" where
  "network_drop = do { net_deinit; modify (\<lambda>s. s\<lparr>network_handle := False\<rparr>) }"

definition connect_psk :: "int mqtt_m" where
  "connect_psk = do {
     s \<leftarrow> State_Monad.get;
     (res, psk_id, psk) \<leftarrow> core_auth_tls_psk (product_key s) (device_name s) (device_secret s);
     if res < STATE_SUCCESS then ret res
     else do {
       core_logn STATE_MQTT_LOG_TLS_PSK (str ''%s'' @ [13, 10]) [LStr (Some psk_id)];
       core_logn STATE_MQTT_LOG_TLS_PSK (str ''%s'' @ [13, 10]) [LStr (Some psk)];
       res \<leftarrow> net_setopt (Opt_psk psk_id psk);
       sys_free;
       ret (if res < STATE_SUCCESS
            then mqtt_sysdep_return res STATE_SYS_DEPEND_NWK_INVALID_OPTION else STATE_SUCCESS)
     }
   }"

definition connect_cred :: "int mqtt_m" where
  "connect_cred = do {
     s \<leftarrow> State_Monad.get;
     case cred s of
       None \<Rightarrow> ret STATE_SUCCESS
     | Some c \<Rightarrow> do {
         res \<leftarrow> net_setopt (Opt_cred (cred_number c));
         if res < STATE_SUCCESS then do {
           network_drop;
           ret (mqtt_sysdep_return res STATE_SYS_DEPEND_NWK_INVALID_OPTION)
         } else do {
           res \<leftarrow> (if c = Cred_svrcert_psk then connect_psk else ret STATE_SUCCESS);
           if res < STATE_SUCCESS then ret res
           else do {
             modify (\<lambda>s. s\<lparr>nwk_network_type := cred_number c\<rparr>);
             ret STATE_SUCCESS
           }
         }
       }
   }"

definition connect_options :: "byte list \<Rightarrow> int mqtt_m" where
  "connect_options host = do {
     backup_ip \<leftarrow> core_global_get_mqtt_backup_ip;
     on (length backup_ip > 0)
       (core_logn STATE_MQTT_LOG_BACKUP_IP (str ''%s'' @ [13, 10]) [LStr (Some backup_ip)]);
     s \<leftarrow> State_Monad.get;
     res \<leftarrow> setopts [Opt_socket_type, Opt_host host, Opt_backup_ip backup_ip, Opt_port (mqtt_port s),
       Opt_connect_timeout (connect_timeout_ms s)];
     if res < STATE_SUCCESS then do {
       network_drop;
       ret (mqtt_sysdep_return res STATE_SYS_DEPEND_NWK_INVALID_OPTION)
     } else connect_cred
   }"

definition connect_establish :: "int mqtt_m" where
  "connect_establish = do {
     topic_alias_list_remove_all;
     t \<leftarrow> sys_time;
     modify (\<lambda>s. s\<lparr>nwk_connect_timestamp := t\<rparr>);
     res \<leftarrow> net_establish;
     if res < STATE_SUCCESS then do {
       network_drop;
       modify (\<lambda>s. s\<lparr>nwk_failed_timestamp := nwk_connect_timestamp s, nwk_failed_error_code := res\<rparr>);
       ret (mqtt_sysdep_return res STATE_SYS_DEPEND_NWK_EST_FAILED)
     } else do {
       t \<leftarrow> sys_time;
       modify (\<lambda>s. s\<lparr>nwk_connect_time_used := ucast (t - nwk_connect_timestamp s)\<rparr>);
       ret STATE_SUCCESS
     }
   }"

definition timeout_log :: "string \<Rightarrow> nat \<Rightarrow> unit mqtt_m" where
  "timeout_log text ms =
     core_logn STATE_MQTT_LOG_CONNECT_TIMEOUT (str text @ str '': %d'' @ [13, 10]) [LUint (of_nat ms)]"

text \<open>CONNECT goes out; a partial write leaves the network as it is.\<close>

definition connect_send :: "conn_property option \<Rightarrow> int mqtt_m" where
  "connect_send conn_prop = do {
     (res, pkt) \<leftarrow> core_mqtt_conn_pkt conn_prop;
     if res < STATE_SUCCESS then ret res
     else do {
       res \<leftarrow> core_mqtt_write pkt;
       sys_free;
       s \<leftarrow> State_Monad.get;
       on (res < STATE_SUCCESS)
         (if res = STATE_SYS_DEPEND_NWK_WRITE_LESSDATA
          then timeout_log ''MQTT connect packet send timeout'' (send_timeout_ms s)
          else network_close);
       ret res
     }
   }"

definition connect_receive :: "int mqtt_m" where
  "connect_receive = do {
     s \<leftarrow> State_Monad.get;
     (res, header) \<leftarrow> core_mqtt_read 1;
     if res < STATE_SUCCESS then do {
       (if res = STATE_SYS_DEPEND_NWK_READ_LESSDATA
        then timeout_log ''MQTT connack packet recv fixed header timeout'' (recv_timeout_ms s)
        else network_close);
       ret res
     }
     else if hd (header @ [0]) \<noteq> 0x20 then ret STATE_MQTT_CONNACK_FMT_ERROR
     else do {
       (res, remain_len) \<leftarrow> core_mqtt_read_remainlen;
       if res < STATE_SUCCESS then do {
         on (res = STATE_SYS_DEPEND_NWK_READ_LESSDATA)
           (timeout_log ''MQTT connack packet recv remain len timeout'' (recv_timeout_ms s));
         ret res
       }
       else if \<not> v5_enabled s \<and> remain_len \<noteq> 2 then ret STATE_MQTT_CONNACK_FMT_ERROR
       else do {
         ok \<leftarrow> sys_malloc;
         if \<not> ok then ret STATE_SYS_DEPEND_MALLOC_FAILED
         else do {
           (res, connack) \<leftarrow> core_mqtt_read remain_len;
           if res < STATE_SUCCESS then do {
             on (res = STATE_SYS_DEPEND_NWK_READ_LESSDATA)
               (timeout_log ''MQTT connack packet variable header and property recv timeout''
                 (recv_timeout_ms s));
             sys_free;
             ret res
           } else do {
             res \<leftarrow> core_mqtt_connack_handle connack remain_len;
             sys_free;
             if res < STATE_SUCCESS then do { network_drop; ret res }
             else ret STATE_SUCCESS
           }
         }
       }
     }
   }"

definition core_mqtt_connect :: "conn_property option \<Rightarrow> int mqtt_m" where
  "core_mqtt_connect conn_prop = do {
     s \<leftarrow> State_Monad.get;
     case mqtt_host s of
       None \<Rightarrow> ret STATE_USER_INPUT_MISSING_HOST
     | Some host \<Rightarrow> do {
         res \<leftarrow> connect_sign;
         if res < STATE_SUCCESS then ret res
         else do {
           network_close;
           core_mqtt_connect_diag 0x00;
           ok \<leftarrow> net_init;
           if \<not> ok then ret STATE_SYS_DEPEND_MALLOC_FAILED
           else do {
             modify (\<lambda>s. s\<lparr>network_handle := True\<rparr>);
             res \<leftarrow> connect_options host;
             if res < STATE_SUCCESS then ret res
             else do {
               res \<leftarrow> connect_establish;
               if res < STATE_SUCCESS then ret res
               else do {
                 res \<leftarrow> connect_send conn_prop;
                 if res < STATE_SUCCESS then ret res
                 else do {
                   res \<leftarrow> connect_receive;
                   if res < STATE_SUCCESS then ret res
                   else do {
                     core_mqtt_connect_diag 0x01;
                     ret STATE_MQTT_CONNECT_SUCCESS
                   }
                 }
               }
             }
           }
         }
       }
   }"

section \<open>Reconnecting and repeating\<close>

definition reconnect_interval :: "mqtt \<Rightarrow> 32 word" where
  "reconnect_interval s =
     (if rc_backoff_enabled s then rc_interval_ms s * (of_nat (rc_counter s) + 1) + rc_rand_ms s
      else rc_interval_ms s)"

definition reconnect_count :: "int \<Rightarrow> mqtt \<Rightarrow> nat" where
  "reconnect_count res s =
     (if rc_backoff_enabled s
      then if res = STATE_MQTT_CONNECT_SUCCESS then 0
        else if rc_counter s < 60 then rc_counter s + 1 else rc_counter s
      else rc_counter s)"

definition reconnect_try :: "32 word \<Rightarrow> int mqtt_m" where
  "reconnect_try interval_ms = do {
     time_now \<leftarrow> sys_time;
     modify (\<lambda>s. s\<lparr>rc_last_retry_time :=
       (if time_now < rc_last_retry_time s then time_now else rc_last_retry_time s)\<rparr>);
     s \<leftarrow> State_Monad.get;
     if time_now \<ge> rc_last_retry_time s + ucast interval_ms then do {
       core_log STATE_MQTT_LOG_RECONNECTING
         (str ''MQTT network disconnect, try to reconnecting...'' @ [13, 10]);
       res \<leftarrow> core_mqtt_connect None;
       t \<leftarrow> sys_time;
       modify (\<lambda>s. s\<lparr>rc_last_retry_time := t\<rparr>);
       modify (\<lambda>s. s\<lparr>rc_counter := reconnect_count res s\<rparr>);
       ret res
     } else ret STATE_SYS_DEPEND_NWK_CLOSED
   }"

definition core_mqtt_reconnect :: "int mqtt_m" where
  "core_mqtt_reconnect = do {
     s \<leftarrow> State_Monad.get;
     if network_handle s then ret STATE_SUCCESS
     else do {
       mutex_lock Data_mutex;
       mutex_lock Send_mutex;
       mutex_lock Recv_mutex;
       res \<leftarrow> reconnect_try (reconnect_interval s);
       mutex_unlock Recv_mutex;
       mutex_unlock Send_mutex;
       mutex_unlock Data_mutex;
       ret res
     }
   }"

text \<open>
  The walk over the unacknowledged publishes: the nodes as they are afterwards, and the status of
  the write that ended it. The time of the last transmission is only moved back, never renewed.
\<close>

fun repub_nodes :: "pub_node list \<Rightarrow> (int \<times> pub_node list) mqtt_m" where
  "repub_nodes [] = ret (STATE_SUCCESS, [])"
| "repub_nodes (n # ns) = do {
     time_now \<leftarrow> sys_time;
     s \<leftarrow> State_Monad.get;
     let n = (if time_now < pub_last_send n then n\<lparr>pub_last_send := time_now\<rparr> else n);
     res \<leftarrow> (if time_now - pub_last_send n \<ge> ucast (repub_timeout_ms s)
             then send_locked (pub_packet n) else ret STATE_SUCCESS);
     if res < STATE_SUCCESS then ret (res, n # ns)
     else do {
       (res, ms) \<leftarrow> repub_nodes ns;
       ret (res, n # ms)
     }
   }"

definition core_mqtt_repub :: "int mqtt_m" where
  "core_mqtt_repub = do {
     mutex_lock Pub_mutex;
     s \<leftarrow> State_Monad.get;
     (res, ns) \<leftarrow> repub_nodes (pub_list s);
     modify (\<lambda>s. s\<lparr>pub_list := ns\<rparr>);
     mutex_unlock Pub_mutex;
     if res < STATE_SUCCESS then do { send_failed res; ret res } else ret STATE_SUCCESS
   }"

end
