(* ===== verification/Mqtt_Receive.thy ===== *)
theory Mqtt_Receive
  imports Mqtt_Connect
begin

text \<open>
  Receiving: the handlers of \<^verbatim>\<open>core/aiot_mqtt_api.c\<close> for each packet type and
  \<^verbatim>\<open>aiot_mqtt_recv\<close>, which reconnects when it has to, reads one packet and dispatches
  it. \<open>input\<close> is the buffer of the packet, \<open>None\<close> the NULL pointer of a packet without one; the
  length is that of the buffer.
\<close>

section \<open>PINGRESP\<close>

definition pingresp_handler :: "nat \<Rightarrow> int mqtt_m" where
  "pingresp_handler len = do {
     t \<leftarrow> sys_time;
     s \<leftarrow> State_Monad.get;
     let rtt = t - hb_last_send_time s;
     if len \<noteq> 0 then ret STATE_MQTT_RECV_INVALID_PINRESP_PACKET
     else do {
       on (rtt < 10000) (modify (\<lambda>s. s\<lparr>nwk_rtt := (nwk_rtt s + rtt) div 2\<rparr>));
       recv_notify Pkt_heartbeat_response;
       core_mqtt_heartbeat_diag 0x01;
       ret STATE_SUCCESS
     }
   }"

section \<open>PUBLISH\<close>

text \<open>The copies of the handlers of one subscription; a handler without memory is left out.\<close>

fun handlerlist_append :: "(nat \<times> nat) list \<Rightarrow> ((nat \<times> nat) list) mqtt_m" where
  "handlerlist_append [] = ret []"
| "handlerlist_append (h # hs) = do {
     ok \<leftarrow> sys_malloc;
     copies \<leftarrow> handlerlist_append hs;
     ret (if ok then h # copies else copies)
   }"

fun collect_handlers :: "sub_node list \<Rightarrow> byte list \<Rightarrow> ((nat \<times> nat) list) mqtt_m" where
  "collect_handlers [] topic = ret []"
| "collect_handlers (n # ns) topic = do {
     copies \<leftarrow> (if topic_compare (sub_topic n) topic = STATE_SUCCESS
                then handlerlist_append (sub_handlers n) else ret []);
     others \<leftarrow> collect_handlers ns topic;
     ret (copies @ others)
   }"

fun call_handlers :: "(nat \<times> nat) list \<Rightarrow> mqtt_packet \<Rightarrow> unit mqtt_m" where
  "call_handlers [] packet = ret ()"
| "call_handlers ((h, ud) # hs) packet = do {
     s \<leftarrow> State_Monad.get;
     emit (Recv_cb h packet (if ud = 0 then userdata s else ud));
     call_handlers hs packet
   }"

text \<open>Delivery: every handler of a matching subscription, the default handler when there is none.\<close>

definition deliver :: "byte list \<Rightarrow> mqtt_packet \<Rightarrow> unit mqtt_m" where
  "deliver topic packet = do {
     mutex_lock Sub_mutex;
     s \<leftarrow> State_Monad.get;
     copies \<leftarrow> collect_handlers (sub_list s) topic;
     mutex_unlock Sub_mutex;
     call_handlers copies packet;
     handlerlist_destroy copies;
     on (copies = []) (recv_notify packet)
   }"

definition parse_pub_properties :: "byte list \<Rightarrow> nat \<Rightarrow> (int \<times> nat \<times> rx_property) mqtt_m" where
  "parse_pub_properties d remain_len = do {
     (res, property_len, offset, p) \<leftarrow> core_mqtt_parse_general_properties d remain_len;
     if res \<noteq> STATE_SUCCESS then ret (res, 0, rx_property_0)
     else ret (STATE_SUCCESS, property_len + offset,
       rx_property_0\<lparr>rp_message_expire := rp_message_expire p, rp_topic_alias := rp_topic_alias p,
         rp_user := rp_user p\<rparr>)
   }"

text \<open>
  A topic with an alias is remembered, not under the mutex; an empty topic is looked up under the
  mutex. The result is the topic that the alias stands for.
\<close>

definition process_topic_alias :: "rx_property \<Rightarrow> byte list \<Rightarrow> (byte list option) mqtt_m" where
  "process_topic_alias p topic =
     (if rp_topic_alias p = 0 then ret None
      else if topic \<noteq> [] then do {
        s \<leftarrow> State_Monad.get;
        (_, l) \<leftarrow> alias_insert (rx_topic_alias_list s) topic (rp_topic_alias p);
        modify (\<lambda>s. s\<lparr>rx_topic_alias_list := l\<rparr>);
        ret None
      }
      else do {
        mutex_lock Alias_mutex;
        s \<leftarrow> State_Monad.get;
        found \<leftarrow> (case find (\<lambda>(t, a). a = rp_topic_alias p) (rx_topic_alias_list s) of
            None \<Rightarrow> ret None
          | Some (t, a) \<Rightarrow> do {
              core_log STATE_MQTT_LOG_CONNECT (str ''found a rx topic alias'' @ [10]);
              ret (Some t)
            });
        mutex_unlock Alias_mutex;
        ret found
      })"

text \<open>
  What the handler does once the header is read: \<open>idx\<close> is behind the topic and the identifier.
\<close>

definition pub_finish ::
  "byte list \<Rightarrow> nat \<Rightarrow> nat \<Rightarrow> byte list \<Rightarrow> 16 word \<Rightarrow> nat \<Rightarrow> rx_property option \<Rightarrow> byte list option
     \<Rightarrow> int mqtt_m"
where
  "pub_finish input idx qos topic pid total_prop_len p alias_topic =
     (if length input < 2 + length topic
      then ret STATE_MQTT_RECV_INVALID_PUBLISH_PACKET
      else do {
        let payload_len = nat ((int (length input) - 2 - int (length topic) - int total_prop_len
          - (if qos = 1 then 2 else 0)) mod 2 ^ 32);
        on (qos = 1) (do { _ \<leftarrow> core_mqtt_puback_send pid; ret () });
        let topic = (case alias_topic of None \<Rightarrow> topic | Some t \<Rightarrow> t);
        core_logn STATE_MQTT_LOG_TOPIC (str ''pub: %.*s'' @ [13, 10])
          [LUint (of_nat (length topic)), LStr (Some topic)];
        (_, payload) \<leftarrow> lift_outcome [] (rd_block input idx payload_len);
        core_log_hexdump STATE_MQTT_LOG_HEXDUMP 60 payload;
        deliver topic (Pkt_pub qos topic payload p);
        on (p \<noteq> None) (reclaim_user_properties_mem (rp_user (the p)));
        ret STATE_SUCCESS
      })"

definition pub_handler :: "byte list option \<Rightarrow> nat \<Rightarrow> int mqtt_m" where
  "pub_handler input qos = (case input of
     None \<Rightarrow> ret STATE_MQTT_RECV_INVALID_PUBLISH_PACKET
   | Some d \<Rightarrow> do {
       s \<leftarrow> State_Monad.get;
       let len = length d;
       if len = 0 \<or> qos > 1 then ret STATE_MQTT_RECV_INVALID_PUBLISH_PACKET
       else if \<not> v5_enabled s \<and> len < 2 then ret STATE_MQTT_RECV_INVALID_PUBLISH_PACKET
       else do {
         (_, topic_len) \<leftarrow> lift_outcome 0 (obind (rd d 0) (\<lambda>h. obind (rd d 1) (\<lambda>l. Ret (get_be16 h l))));
         let idx = 2 + topic_len;
         if len < idx \<or> (qos = 1 \<and> len < idx + 2) then ret STATE_MQTT_RECV_INVALID_PUBLISH_PACKET
         else do {
           let topic = take topic_len (drop 2 d);
           let pid = (if qos = 1 then of_nat (get_be16 (d ! idx) (d ! (idx + 1))) else 0);
           let idx = (if qos = 1 then idx + 2 else idx);
           if v5_enabled s then do {
             (res, total_prop_len, p) \<leftarrow> parse_pub_properties (drop idx d) len;
             if res < STATE_SUCCESS then ret res
             else do {
               alias_topic \<leftarrow> process_topic_alias p topic;
               pub_finish d (idx + total_prop_len) qos topic pid total_prop_len (Some p) alias_topic
             }
           }
           else pub_finish d idx qos topic pid 0 None None
         }
       }
     })"

section \<open>PUBACK, DISCONNECT, SUBACK and UNSUBACK\<close>

definition puback_handler :: "byte list option \<Rightarrow> int mqtt_m" where
  "puback_handler input = do {
     flow_control_inc;
     s \<leftarrow> State_Monad.get;
     case input of
       None \<Rightarrow> ret STATE_MQTT_RECV_INVALID_PUBACK_PACKET
     | Some d \<Rightarrow>
         if (\<not> v5_enabled s \<and> length d \<noteq> 2) \<or> (v5_enabled s \<and> length d < 2)
         then ret STATE_MQTT_RECV_INVALID_PUBACK_PACKET
         else do {
           let pid = get_be16 (d ! 0) (d ! 1);
           mutex_lock Pub_mutex;
           publist_remove (of_nat pid);
           mutex_unlock Pub_mutex;
           recv_notify (Pkt_pub_ack pid);
           ret STATE_SUCCESS
         }
   }"

definition server_disconnect_handler :: "byte list option \<Rightarrow> int mqtt_m" where
  "server_disconnect_handler input = do {
     s \<leftarrow> State_Monad.get;
     case input of
       None \<Rightarrow> ret STATE_MQTT_RECV_INVALID_SERVER_DISCONNECT_PACKET
     | Some d \<Rightarrow>
         if v5_enabled s \<and> length d < 2 then ret STATE_MQTT_RECV_INVALID_SERVER_DISCONNECT_PACKET
         else do {
           (_, reason_code) \<leftarrow> lift_outcome 0 (rd d 0);
           recv_notify (Pkt_disconnect (unat reason_code));
           network_close_locked;
           disconnect_event_notify Network_disconnect;
           core_log STATE_MQTT_LOG_DISCONNECT (str ''MQTT receives server disconnect, disconnect'' @ [13, 10]);
           ret STATE_SUCCESS
         }
   }"

definition suback_result :: "byte \<Rightarrow> int \<times> nat" where
  "suback_result c =
     (if c = 0x00 \<or> c = 0x01 \<or> c = 0x02 then (STATE_SUCCESS, unat c)
      else if c = 0x80 then (STATE_MQTT_SUBACK_RCODE_FAILURE, 0)
      else (STATE_MQTT_SUBACK_RCODE_UNKNOWN, 0))"

text \<open>One packet may acknowledge several requests.\<close>

fun suback_loop :: "byte list \<Rightarrow> unit mqtt_m" where
  "suback_loop (h # l # c # d) = do {
     recv_notify (Pkt_sub_ack (get_be16 h l) (fst (suback_result c)) (snd (suback_result c)));
     suback_loop d
   }"
| "suback_loop d = on (d \<noteq> []) fault"

fun unsuback_loop :: "byte list \<Rightarrow> unit mqtt_m" where
  "unsuback_loop (h # l # d) = do {
     recv_notify (Pkt_unsub_ack (get_be16 h l));
     unsuback_loop d
   }"
| "unsuback_loop d = on (d \<noteq> []) fault"

definition suback_v5 :: "byte list \<Rightarrow> bool \<Rightarrow> unit mqtt_m" where
  "suback_v5 d sub = do {
     (_, pid) \<leftarrow> lift_outcome 0 (obind (rd d 0) (\<lambda>h. obind (rd d 1) (\<lambda>l. Ret (get_be16 h l))));
     (res, property_len, offset) \<leftarrow> lift_outcome (0, 0) (read_variable_byte_interger (drop 2 d));
     if res < STATE_SUCCESS then ret ()
     else if sub then do {
       (_, c) \<leftarrow> lift_outcome 0 (rd d (2 + offset + property_len));
       recv_notify (Pkt_sub_ack pid (fst (suback_result c)) (snd (suback_result c)))
     } else recv_notify (Pkt_unsub_ack pid)
   }"

definition subunsuback_handler :: "byte list option \<Rightarrow> bool \<Rightarrow> unit mqtt_m" where
  "subunsuback_handler input sub = do {
     s \<leftarrow> State_Monad.get;
     case input of
       None \<Rightarrow> ret ()
     | Some d \<Rightarrow>
         if v5_enabled s then on (d \<noteq> []) (suback_v5 d sub)
         else if d = [] \<or> (sub \<and> length d mod 3 \<noteq> 0) \<or> (\<not> sub \<and> length d mod 2 \<noteq> 0) then ret ()
         else if sub then suback_loop d else unsuback_loop d
   }"

section \<open>aiot\_mqtt\_recv\<close>

definition reconnected :: "unit mqtt_m" where
  "reconnected = do {
     modify (\<lambda>s. s\<lparr>hb_lost_times := 0\<rparr>);
     core_log STATE_MQTT_LOG_CONNECT (str ''MQTT network reconnect success'' @ [13, 10]);
     connect_event_notify
   }"

text \<open>A new connection when the network is gone; a negative result ends the call.\<close>

definition recv_reconnect :: "int mqtt_m" where
  "recv_reconnect = do {
     s \<leftarrow> State_Monad.get;
     on (\<not> network_handle s) (disconnect_event_notify Network_disconnect);
     s \<leftarrow> State_Monad.get;
     if rc_enabled s = 1 \<and> \<not> disconnect_api_called s then do {
       res \<leftarrow> core_mqtt_reconnect;
       if res = STATE_MQTT_CONNECT_SUCCESS then do { reconnected; ret STATE_SUCCESS } else ret res
     } else ret STATE_SUCCESS
   }"

text \<open>A new connection when too many heartbeats were lost.\<close>

definition recv_heartbeat_lost :: "int mqtt_m" where
  "recv_heartbeat_lost = do {
     s \<leftarrow> State_Monad.get;
     if unat (hb_lost_times s) > hb_max_lost_times s then do {
       disconnect_event_notify Heartbeat_disconnect;
       s \<leftarrow> State_Monad.get;
       if rc_enabled s = 1 \<and> \<not> disconnect_api_called s then do {
         core_logn STATE_MQTT_LOG_RECONNECTING
           (str ''MQTT heartbeat lost %d times, try to reconnecting...'' @ [13, 10])
           [LUint (hb_lost_times s)];
         mutex_lock Send_mutex;
         mutex_lock Recv_mutex;
         res \<leftarrow> core_mqtt_connect None;
         mutex_unlock Recv_mutex;
         mutex_unlock Send_mutex;
         if res = STATE_MQTT_CONNECT_SUCCESS then do { reconnected; ret STATE_SUCCESS } else ret res
       } else ret STATE_SUCCESS
     } else ret STATE_SUCCESS
   }"

text \<open>The switch over the packet type.\<close>

definition dispatch :: "byte \<Rightarrow> nat \<Rightarrow> byte list option \<Rightarrow> int mqtt_m" where
  "dispatch header remainlen remain =
     (let ty = header AND 0xF0; flags = header AND 0x0F in
      if ty = 0xD0 then pingresp_handler remainlen
      else if ty = 0x30 then pub_handler remain (unat (drop_bit 1 flags AND 0x03))
      else if ty = 0x40 then puback_handler remain
      else if ty = 0x90 then do { subunsuback_handler remain True; ret STATE_SUCCESS }
      else if ty = 0xB0 then do { subunsuback_handler remain False; ret STATE_SUCCESS }
      else if ty = 0xE0 then do { _ \<leftarrow> server_disconnect_handler remain; ret STATE_SUCCESS }
      else if ty = 0x50 \<or> ty = 0x60 \<or> ty = 0x70 then ret STATE_SUCCESS
      else ret STATE_MQTT_PACKET_TYPE_UNKNOWN)"

text \<open>One packet: fixed header, remaining length, remaining bytes; then its handler.\<close>

definition recv_packet :: "int mqtt_m" where
  "recv_packet = do {
     mutex_lock Recv_mutex;
     (res, header) \<leftarrow> core_mqtt_read 1;
     if res < STATE_SUCCESS then do {
       mutex_unlock Recv_mutex;
       exec_dec;
       if res = STATE_SYS_DEPEND_NWK_READ_LESSDATA then ret STATE_SUCCESS
       else do { network_close_locked; ret res }
     } else do {
       (res, remainlen) \<leftarrow> core_mqtt_read_remainlen;
       if res < STATE_SUCCESS then do {
         mutex_unlock Recv_mutex;
         network_close_locked;
         exec_dec;
         ret res
       } else do {
         (res, remain) \<leftarrow> core_mqtt_read_remainbytes remainlen;
         if res < STATE_SUCCESS then do {
           mutex_unlock Recv_mutex;
           network_close_locked;
           exec_dec;
           ret res
         } else do {
           mutex_unlock Recv_mutex;
           modify (\<lambda>s. s\<lparr>hb_lost_times := 0\<rparr>);
           res \<leftarrow> dispatch (hd (header @ [0])) remainlen remain;
           on (remain \<noteq> None) sys_free;
           on (res < STATE_SUCCESS) network_close_locked;
           exec_dec;
           ret res
         }
       }
     }
   }"

definition aiot_mqtt_recv :: "int mqtt_m" where
  "aiot_mqtt_recv = do {
     s \<leftarrow> State_Monad.get;
     if \<not> exec_enabled s then ret STATE_USER_INPUT_EXEC_DISABLED
     else do {
       exec_inc;
       res \<leftarrow> recv_reconnect;
       if res < STATE_SUCCESS then do { exec_dec; ret res }
       else do {
         res \<leftarrow> recv_heartbeat_lost;
         if res < STATE_SUCCESS then do { exec_dec; ret res }
         else recv_packet
       }
     }
   }"

end
