(* ===== verification/Mqtt_Api.thy ===== *)
theory Mqtt_Api
  imports Mqtt_Receive
begin

text \<open>
  The interface of \<^verbatim>\<open>core/aiot_mqtt_api.c\<close>: creating, configuring and destroying a handle,
  connecting and disconnecting, the periodic \<^verbatim>\<open>aiot_mqtt_process\<close>, publishing,
  subscribing and unsubscribing. The handle is the state; the checks for a NULL handle have no
  counterpart.
\<close>

section \<open>Creating a handle\<close>

text \<open>The handle after \<^verbatim>\<open>memset\<close>: everything zero, no pointer set.\<close>

definition handle_zero :: "world \<Rightarrow> mqtt" where
  "handle_zero w = world.extend w (mqtt.fields False None 0 None None None None None None None None
     0 0 0 0 0 0 0 0 0 0 0 False 0 0 0 0 0 0 None False False False False 0 0 [] [] [] None None 0
     0 0 0 0 0 0 0 [] [] None 0 0 0 0 0 False)"

definition handle_init :: "32 word \<Rightarrow> world \<Rightarrow> mqtt" where
  "handle_init rand_value w = (handle_zero w)\<lparr>keep_alive_s := 1200, clean_session := 1,
     connect_timeout_ms := 10 * 1000, hb_interval_ms := 25 * 1000, hb_max_lost_times := 2,
     rc_enabled := 1, rc_interval_ms := 2 * 1000, rc_backoff_enabled := True,
     rc_rand_ms := rand_value mod 1000 - 500, rc_counter := 0, send_timeout_ms := 5 * 1000,
     recv_timeout_ms := 5 * 1000, repub_timeout_ms := 3 * 1000, deinit_timeout_ms := 2 * 1000,
     protocol_version := 0, tx_packet_max_size := 1024 * 256, exec_enabled := True,
     server_receive_max := 10\<rparr>"

definition aiot_mqtt_init :: "(world, mqtt option) state" where
  "aiot_mqtt_init = do {
     _ \<leftarrow> core_global_init;
     ok \<leftarrow> sys_malloc;
     if \<not> ok then do { _ \<leftarrow> core_global_deinit; ret None }
     else do {
       rand_value \<leftarrow> sys_rand;
       w \<leftarrow> State_Monad.get;
       ret (Some (handle_init rand_value w))
     }
   }"

section \<open>Options\<close>

text \<open>One constructor per option of \<^verbatim>\<open>aiot_mqtt_option_t\<close> with the data it points to.\<close>

datatype mqtt_option =
    Mo_host "byte list" | Mo_port nat | Mo_product_key "byte list" | Mo_device_name "byte list"
  | Mo_device_secret "byte list" | Mo_extend_clientid "byte list" | Mo_security_mode "byte list"
  | Mo_username "byte list" | Mo_password "byte list" | Mo_clientid "byte list"
  | Mo_keepalive_sec nat | Mo_clean_session nat | Mo_network_cred cred_option
  | Mo_connect_timeout_ms nat | Mo_heartbeat_interval_ms "32 word" | Mo_heartbeat_max_lost nat
  | Mo_reconn_enabled nat | Mo_reconn_interval_ms "32 word" | Mo_send_timeout_ms nat
  | Mo_recv_timeout_ms nat | Mo_repub_timeout_ms "32 word" | Mo_deinit_timeout_ms "32 word"
  | Mo_recv_handler nat | Mo_event_handler nat
  | Mo_append_topic_map "byte list option" "nat option" nat
  | Mo_remove_topic_map "byte list option" nat
  | Mo_append_requestid nat | Mo_userdata nat | Mo_version nat | Mo_assigned_clientid nat
  | Mo_flow_control_enabled nat

definition set_string ::
  "(mqtt \<Rightarrow> byte list option) \<Rightarrow> (byte list option \<Rightarrow> mqtt \<Rightarrow> mqtt) \<Rightarrow> byte list \<Rightarrow> int mqtt_m" where
  "set_string field update data = do {
     s \<leftarrow> State_Monad.get;
     (res, dest) \<leftarrow> core_strdup (field s) data;
     modify (update dest);
     ret res
   }"

definition set_identity ::
  "(mqtt \<Rightarrow> byte list option) \<Rightarrow> (byte list option \<Rightarrow> mqtt \<Rightarrow> mqtt) \<Rightarrow> byte list \<Rightarrow> int mqtt_m" where
  "set_identity field update data = do {
     res \<leftarrow> set_string field update data;
     sign_clean;
     ret res
   }"

definition set_value :: "(mqtt \<Rightarrow> mqtt) \<Rightarrow> int mqtt_m" where
  "set_value update = do { modify update; ret STATE_SUCCESS }"

text \<open>A flag out of its range is reported, and stored all the same.\<close>

definition set_flag :: "nat \<Rightarrow> (mqtt \<Rightarrow> mqtt) \<Rightarrow> int mqtt_m" where
  "set_flag v update = do {
     modify update;
     ret (if v \<noteq> 0 \<and> v \<noteq> 1 then STATE_USER_INPUT_OUT_RANGE else STATE_SUCCESS)
   }"

definition set_cred :: "cred_option \<Rightarrow> int mqtt_m" where
  "set_cred c = do {
     s \<leftarrow> State_Monad.get;
     on (cred s \<noteq> None) (do { sys_free; modify (\<lambda>s. s\<lparr>cred := None\<rparr>) });
     ok \<leftarrow> sys_malloc;
     if ok then do { modify (\<lambda>s. s\<lparr>cred := Some c\<rparr>); ret STATE_SUCCESS }
     else ret STATE_SYS_DEPEND_MALLOC_FAILED
   }"

text \<open>The topic maps are changed without the data mutex.\<close>

definition without_data_mutex :: "int mqtt_m \<Rightarrow> int mqtt_m" where
  "without_data_mutex m = do {
     mutex_unlock Data_mutex;
     res \<leftarrow> m;
     mutex_lock Data_mutex;
     ret res
   }"

definition setopt_switch :: "mqtt_option \<Rightarrow> int mqtt_m" where
  "setopt_switch opt = (case opt of
     Mo_host v \<Rightarrow> set_string mqtt_host (\<lambda>d s. s\<lparr>mqtt_host := d\<rparr>) v
   | Mo_port v \<Rightarrow> set_value (\<lambda>s. s\<lparr>mqtt_port := v\<rparr>)
   | Mo_product_key v \<Rightarrow> set_identity product_key (\<lambda>d s. s\<lparr>product_key := d\<rparr>) v
   | Mo_device_name v \<Rightarrow> set_identity device_name (\<lambda>d s. s\<lparr>device_name := d\<rparr>) v
   | Mo_device_secret v \<Rightarrow> set_identity device_secret (\<lambda>d s. s\<lparr>device_secret := d\<rparr>) v
   | Mo_extend_clientid v \<Rightarrow> set_identity extend_clientid (\<lambda>d s. s\<lparr>extend_clientid := d\<rparr>) v
   | Mo_security_mode v \<Rightarrow> set_identity security_mode (\<lambda>d s. s\<lparr>security_mode := d\<rparr>) v
   | Mo_username v \<Rightarrow> set_string username (\<lambda>d s. s\<lparr>username := d\<rparr>) v
   | Mo_password v \<Rightarrow> set_string password (\<lambda>d s. s\<lparr>password := d\<rparr>) v
   | Mo_clientid v \<Rightarrow> set_string clientid (\<lambda>d s. s\<lparr>clientid := d\<rparr>) v
   | Mo_keepalive_sec v \<Rightarrow> set_value (\<lambda>s. s\<lparr>keep_alive_s := v\<rparr>)
   | Mo_clean_session v \<Rightarrow> set_flag v (\<lambda>s. s\<lparr>clean_session := v\<rparr>)
   | Mo_network_cred v \<Rightarrow> set_cred v
   | Mo_connect_timeout_ms v \<Rightarrow> set_value (\<lambda>s. s\<lparr>connect_timeout_ms := v\<rparr>)
   | Mo_heartbeat_interval_ms v \<Rightarrow> set_value (\<lambda>s. s\<lparr>hb_interval_ms := v\<rparr>)
   | Mo_heartbeat_max_lost v \<Rightarrow> set_value (\<lambda>s. s\<lparr>hb_max_lost_times := v\<rparr>)
   | Mo_reconn_enabled v \<Rightarrow> set_flag v (\<lambda>s. s\<lparr>rc_enabled := v\<rparr>)
   | Mo_reconn_interval_ms v \<Rightarrow> set_value (\<lambda>s. s\<lparr>rc_interval_ms := v, rc_backoff_enabled := False\<rparr>)
   | Mo_send_timeout_ms v \<Rightarrow> set_value (\<lambda>s. s\<lparr>send_timeout_ms := v\<rparr>)
   | Mo_recv_timeout_ms v \<Rightarrow> set_value (\<lambda>s. s\<lparr>recv_timeout_ms := v\<rparr>)
   | Mo_repub_timeout_ms v \<Rightarrow> set_value (\<lambda>s. s\<lparr>repub_timeout_ms := v\<rparr>)
   | Mo_deinit_timeout_ms v \<Rightarrow> set_value (\<lambda>s. s\<lparr>deinit_timeout_ms := v\<rparr>)
   | Mo_recv_handler v \<Rightarrow> set_value (\<lambda>s. s\<lparr>recv_handler := Some v\<rparr>)
   | Mo_event_handler v \<Rightarrow> set_value (\<lambda>s. s\<lparr>event_handler := Some v\<rparr>)
   | Mo_append_topic_map topic handler ud \<Rightarrow> without_data_mutex (append_topic_map topic handler ud)
   | Mo_remove_topic_map topic handler \<Rightarrow> without_data_mutex (remove_topic_map topic handler)
   | Mo_append_requestid v \<Rightarrow> set_value (\<lambda>s. s\<lparr>append_requestid := v\<rparr>)
   | Mo_userdata v \<Rightarrow> set_value (\<lambda>s. s\<lparr>userdata := v\<rparr>)
   | Mo_version v \<Rightarrow> set_value (\<lambda>s. s\<lparr>protocol_version := v\<rparr>)
   | Mo_assigned_clientid v \<Rightarrow> set_value (\<lambda>s. s\<lparr>use_assigned_clientid := v\<rparr>)
   | Mo_flow_control_enabled v \<Rightarrow> set_value (\<lambda>s. s\<lparr>flow_control_enabled := (v \<noteq> 0)\<rparr>))"

definition aiot_mqtt_setopt :: "mqtt_option option \<Rightarrow> int mqtt_m" where
  "aiot_mqtt_setopt data = (case data of
     None \<Rightarrow> ret STATE_USER_INPUT_NULL_POINTER
   | Some opt \<Rightarrow> do {
       s \<leftarrow> State_Monad.get;
       if \<not> exec_enabled s then ret STATE_USER_INPUT_EXEC_DISABLED
       else do {
         exec_inc;
         mutex_lock Data_mutex;
         res \<leftarrow> setopt_switch opt;
         mutex_unlock Data_mutex;
         exec_dec;
         ret res
       }
     })"

text \<open>\<^verbatim>\<open>core_mqtt_setopt\<close>: the process handlers of the services on top of the client.\<close>

datatype core_option = Co_append_process "nat option" nat | Co_remove_process "nat option"

definition core_mqtt_setopt :: "core_option \<Rightarrow> int mqtt_m" where
  "core_mqtt_setopt opt = do {
     mutex_lock Data_mutex;
     res \<leftarrow> without_data_mutex (case opt of
         Co_append_process handler context \<Rightarrow> append_process_data handler context
       | Co_remove_process handler \<Rightarrow> remove_process_data handler);
     mutex_unlock Data_mutex;
     ret res
   }"

section \<open>Destroying a handle\<close>

text \<open>
  The wait for running calls; the clock decides when it ends, \<open>fuel\<close> bounds the rounds of the
  model. The result is \<open>None\<close> when the fuel did not suffice.
\<close>

fun deinit_wait :: "nat \<Rightarrow> 64 word \<Rightarrow> (unit option) mqtt_m" where
  "deinit_wait 0 timestart = ret None"
| "deinit_wait (Suc fuel) timestart = do {
     s \<leftarrow> State_Monad.get;
     if exec_count s = 0 then ret (Some ())
     else do {
       sys_sleep 100;
       t \<leftarrow> sys_time;
       if t - timestart < ucast (deinit_timeout_ms s) then deinit_wait fuel timestart
       else ret (Some ())
     }
   }"

definition free_option :: "'x option \<Rightarrow> unit mqtt_m" where
  "free_option p = on (p \<noteq> None) sys_free"

definition handle_free :: "unit mqtt_m" where
  "handle_free = do {
     network_close;
     s \<leftarrow> State_Monad.get;
     free_option (mqtt_host s);
     free_option (product_key s);
     free_option (device_name s);
     free_option (device_secret s);
     free_option (username s);
     free_option (password s);
     free_option (clientid s);
     free_option (extend_clientid s);
     free_option (security_mode s);
     free_option (cred s);
     free_option (pre_connect_property s);
     sublist_destroy;
     publist_destroy;
     process_datalist_destroy;
     _ \<leftarrow> core_global_deinit;
     sys_free
   }"

definition aiot_mqtt_deinit :: "nat \<Rightarrow> (int option) mqtt_m" where
  "aiot_mqtt_deinit fuel = do {
     s \<leftarrow> State_Monad.get;
     if \<not> exec_enabled s then ret (Some STATE_USER_INPUT_EXEC_DISABLED)
     else do {
       modify (\<lambda>s. s\<lparr>exec_enabled := False\<rparr>);
       t \<leftarrow> sys_time;
       waited \<leftarrow> deinit_wait fuel t;
       case waited of
         None \<Rightarrow> ret None
       | Some _ \<Rightarrow> do {
           s \<leftarrow> State_Monad.get;
           if exec_count s \<noteq> 0 then ret (Some STATE_MQTT_DEINIT_TIMEOUT)
           else do {
             topic_alias_list_remove_all;
             process_data_process True;
             handle_free;
             ret (Some STATE_SUCCESS)
           }
         }
     }
   }"

section \<open>Connecting and disconnecting\<close>

definition mqtt_connect_with_prop :: "conn_property option \<Rightarrow> int mqtt_m" where
  "mqtt_connect_with_prop conn_prop = do {
     time_ent_ms \<leftarrow> sys_time;
     s \<leftarrow> State_Monad.get;
     if \<not> exec_enabled s then ret STATE_USER_INPUT_EXEC_DISABLED
     else do {
       exec_inc;
       modify (\<lambda>s. s\<lparr>disconnect_api_called := False\<rparr>);
       core_log STATE_MQTT_LOG_CONNECT (str ''MQTT user calls aiot_mqtt_connect api, connect'' @ [13, 10]);
       mutex_lock Send_mutex;
       mutex_lock Recv_mutex;
       res \<leftarrow> core_mqtt_connect conn_prop;
       mutex_unlock Recv_mutex;
       mutex_unlock Send_mutex;
       res \<leftarrow> (if res = STATE_MQTT_CONNECT_SUCCESS then do {
                  time_ms \<leftarrow> sys_time;
                  core_logn STATE_MQTT_LOG_CONNECT (str ''MQTT connect success in %d ms'' @ [13, 10])
                    [LUint (ucast (time_ms - time_ent_ms))];
                  connect_event_notify;
                  ret STATE_SUCCESS
                } else do {
                  disconnect_event_notify Network_disconnect;
                  ret res
                });
       exec_dec;
       ret res
     }
   }"

definition aiot_mqtt_connect :: "int mqtt_m" where
  "aiot_mqtt_connect = mqtt_connect_with_prop None"

definition aiot_mqtt_connect_with_prop :: "conn_property option \<Rightarrow> int mqtt_m" where
  "aiot_mqtt_connect_with_prop conn_prop = do {
     s \<leftarrow> State_Monad.get;
     if \<not> v5_enabled s then ret STATE_MQTT_INVALID_PROTOCOL_VERSION
     else do {
       on (pre_connect_property s \<noteq> None) (do {
         sys_free;
         modify (\<lambda>s. s\<lparr>pre_connect_property := None\<rparr>)
       });
       mqtt_connect_with_prop conn_prop
     }
   }"

definition aiot_mqtt_disconnect :: "int mqtt_m" where
  "aiot_mqtt_disconnect = do {
     s \<leftarrow> State_Monad.get;
     if \<not> exec_enabled s then ret STATE_USER_INPUT_EXEC_DISABLED
     else do {
       exec_inc;
       modify (\<lambda>s. s\<lparr>disconnect_api_called := True\<rparr>);
       _ \<leftarrow> core_mqtt_disconnect;
       network_close_locked;
       disconnect_event_notify Network_disconnect;
       core_log STATE_MQTT_LOG_DISCONNECT
         (str ''MQTT user calls aiot_mqtt_disconnect api, disconnect'' @ [13, 10]);
       exec_dec;
       ret STATE_SUCCESS
     }
   }"

record disconn_property =
  dp_reason_string :: "len_value option"
  dp_user_property :: "user_property option list"

definition disconn_general_property :: "disconn_property option \<Rightarrow> general_property" where
  "disconn_general_property prop = (case prop of
     None \<Rightarrow> general_property_0
   | Some d \<Rightarrow> general_property_0\<lparr>user_properties := dp_user_property d,
       reason_string := dp_reason_string d\<rparr>)"

definition core_mqtt_disconnect_with_prop :: "byte \<Rightarrow> disconn_property option \<Rightarrow> int mqtt_m" where
  "core_mqtt_disconnect_with_prop reason_code prop = (
     let gp = disconn_general_property prop in
     if prop \<noteq> None \<and> general_property_is_valid gp < STATE_SUCCESS
     then ret (general_property_is_valid gp)
     else do {
       let property_len = (if prop = None then 0 else core_get_general_property_len gp);
       let len_array = remain_len_encode property_len;
       let pkt_remain_len = length len_array + property_len + 1;
       let pkt_len = 1 + length (remain_len_encode pkt_remain_len) + pkt_remain_len;
       ok \<leftarrow> sys_malloc;
       if \<not> ok then ret STATE_PORT_MALLOC_FAILED
       else do {
         (_, b) \<leftarrow> lift_outcome [] (core_write_general_prop gp len_array);
         let pkt = 0xE0 # remain_len_encode pkt_remain_len @ [reason_code] @ b;
         on (length pkt > pkt_len) fault;
         res \<leftarrow> send_locked pkt;
         sys_free;
         ret res
       }
     })"

definition aiot_mqtt_disconnect_with_prop :: "byte \<Rightarrow> disconn_property option \<Rightarrow> int mqtt_m" where
  "aiot_mqtt_disconnect_with_prop reason_code prop = do {
     s \<leftarrow> State_Monad.get;
     if \<not> v5_enabled s then ret STATE_MQTT_INVALID_PROTOCOL_VERSION
     else if \<not> exec_enabled s then ret STATE_USER_INPUT_EXEC_DISABLED
     else do {
       exec_inc;
       modify (\<lambda>s. s\<lparr>disconnect_api_called := True\<rparr>);
       res \<leftarrow> core_mqtt_disconnect_with_prop reason_code prop;
       if res \<le> STATE_SUCCESS then do { exec_dec; ret res }
       else do {
         topic_alias_list_remove_all;
         network_close_locked;
         disconnect_event_notify Network_disconnect;
         core_log STATE_MQTT_LOG_DISCONNECT
           (str ''MQTT user calls aiot_mqtt_disconnect api, disconnect'' @ [13, 10]);
         exec_dec;
         ret STATE_SUCCESS
       }
     }
   }"

section \<open>The periodic call\<close>

definition aiot_mqtt_heartbeat :: "int mqtt_m" where
  "aiot_mqtt_heartbeat = core_mqtt_heartbeat"

definition process_heartbeat :: "int mqtt_m" where
  "process_heartbeat = do {
     time_now \<leftarrow> sys_time;
     modify (\<lambda>s. s\<lparr>hb_last_send_time :=
       (if time_now < hb_last_send_time s then time_now else hb_last_send_time s)\<rparr>);
     s \<leftarrow> State_Monad.get;
     if time_now - hb_last_send_time s \<ge> ucast (hb_interval_ms s) then do {
       res \<leftarrow> core_mqtt_heartbeat;
       on (res = STATE_SUCCESS)
         (modify (\<lambda>s. s\<lparr>hb_last_send_time := time_now, hb_lost_times := hb_lost_times s + 1\<rparr>));
       ret res
     } else ret STATE_SUCCESS
   }"

definition aiot_mqtt_process :: "int mqtt_m" where
  "aiot_mqtt_process = do {
     s \<leftarrow> State_Monad.get;
     if \<not> exec_enabled s then ret STATE_USER_INPUT_EXEC_DISABLED
     else do {
       exec_inc;
       res \<leftarrow> process_heartbeat;
       _ \<leftarrow> core_mqtt_repub;
       process_data_process False;
       exec_dec;
       ret res
     }
   }"

section \<open>Publishing\<close>

record pub_property =
  pp_response_topic :: len_value
  pp_correlation_data :: len_value
  pp_subscription_identifier :: nat
  pp_user_property :: "user_property option list"

definition pub_general_property :: "pub_property option \<Rightarrow> general_property" where
  "pub_general_property prop = (case prop of
     None \<Rightarrow> general_property_0
   | Some p \<Rightarrow> general_property_0\<lparr>user_properties := pp_user_property p,
       response_topic := pp_response_topic p, correlation_data := pp_correlation_data p,
       subscription_identifier := pp_subscription_identifier p\<rparr>)"

text \<open>
  The alias of a topic to be sent, and whether it replaces the topic. The comparison looks at as
  many bytes as the new topic has: a stored topic matches when the new one is a prefix of it; where
  the stored topic is shorter the comparison ends at its NUL at the latest.
\<close>

definition tx_topic_alias_process :: "byte list \<Rightarrow> (bool \<times> 16 word) mqtt_m" where
  "tx_topic_alias_process topic = do {
     mutex_lock Alias_mutex;
     s \<leftarrow> State_Monad.get;
     let known = find (\<lambda>(t, a). take (length topic) t = topic) (tx_topic_alias_list s);
     on (known \<noteq> None) (core_log STATE_MQTT_LOG_CONNECT (str ''tx use topic alias'' @ [10]));
     mutex_unlock Alias_mutex;
     case known of
       Some (t, a) \<Rightarrow> ret (True, of_nat a)
     | None \<Rightarrow> do {
         let alias_id = (ucast (tx_topic_alias s) :: 16 word) + 1;
         if unat alias_id \<le> tx_topic_alias_max s then do {
           modify (\<lambda>s. s\<lparr>tx_topic_alias := ucast alias_id\<rparr>);
           mutex_lock Alias_mutex;
           s \<leftarrow> State_Monad.get;
           (_, l) \<leftarrow> alias_insert (tx_topic_alias_list s) topic (unat alias_id);
           modify (\<lambda>s. s\<lparr>tx_topic_alias_list := l\<rparr>);
           mutex_unlock Alias_mutex;
           ret (False, alias_id)
         } else ret (False, 0)
       }
   }"

text \<open>The checks and the properties of MQTT 5.0: a status, the properties, the replacement.\<close>

definition pub_prepare ::
  "byte list \<Rightarrow> nat \<Rightarrow> pub_property option \<Rightarrow> (int \<times> general_property \<times> bool) mqtt_m"
where
  "pub_prepare topic qos prop = do {
     s \<leftarrow> State_Monad.get;
     if \<not> v5_enabled s then ret (STATE_SUCCESS, general_property_0, False)
     else do {
       let gp = pub_general_property prop;
       if general_property_is_valid gp < STATE_SUCCESS
       then ret (general_property_is_valid gp, gp, False)
       else do {
         res \<leftarrow> check_flow_control qos;
         if res < STATE_SUCCESS then ret (res, gp, False)
         else do {
           (replaced, alias_id) \<leftarrow> tx_topic_alias_process topic;
           ret (STATE_SUCCESS, gp\<lparr>topic_alias := unat alias_id\<rparr>, replaced)
         }
       }
     }
   }"

definition pub_pkt_bytes ::
  "nat \<Rightarrow> nat \<Rightarrow> bool \<Rightarrow> byte list \<Rightarrow> 16 word \<Rightarrow> byte list \<Rightarrow> byte list \<Rightarrow> byte list"
where
  "pub_pkt_bytes qos remainlen replaced topic pid property payload =
     (0x30 OR push_bit 1 (of_nat qos)) # remain_len_encode remainlen
     @ (if replaced then [0, 0] else utf8_field topic)
     @ (if qos = 1 then put_be16 (unat pid) else []) @ property @ payload"

definition pub_remainlen :: "mqtt \<Rightarrow> nat \<Rightarrow> bool \<Rightarrow> byte list \<Rightarrow> general_property \<Rightarrow> byte list \<Rightarrow> nat" where
  "pub_remainlen s qos replaced topic gp payload =
     (if replaced then 0 else length topic) + length payload + 2
     + (if qos = 1 then 2 else 0)
     + (if v5_enabled s then core_get_general_property_len gp + length (property_len_array gp) else 0)"

definition check_tx_payload_len :: "nat \<Rightarrow> int mqtt_m" where
  "check_tx_payload_len pkt_len = do {
     s \<leftarrow> State_Monad.get;
     if pkt_len \<ge> tx_packet_max_size s then do {
       exec_dec;
       ret STATE_MQTT_INVALID_TX_PACK_SIZE
     } else ret STATE_SUCCESS
   }"

text \<open>The packet goes out; with QoS 1 it has been kept for repetition before.\<close>

definition pub_send :: "byte list \<Rightarrow> nat \<Rightarrow> 16 word \<Rightarrow> int mqtt_m" where
  "pub_send pkt qos pid = do {
     res \<leftarrow> (if qos = 1 then do {
                mutex_lock Pub_mutex;
                res \<leftarrow> publist_insert pkt pid;
                mutex_unlock Pub_mutex;
                ret res
              } else ret STATE_SUCCESS);
     if res < STATE_SUCCESS then do { sys_free; exec_dec; ret res }
     else do {
       res \<leftarrow> send_locked pkt;
       sys_free;
       if res < STATE_SUCCESS then do { send_failed res; exec_dec; ret res }
       else if qos = 1 then do { exec_dec; check_flow_dec; ret (int (unat pid)) }
       else do { exec_dec; ret STATE_SUCCESS }
     }
   }"

definition core_mqtt_pub ::
  "byte list \<Rightarrow> byte list option \<Rightarrow> nat \<Rightarrow> pub_property option \<Rightarrow> int mqtt_m"
where
  "core_mqtt_pub topic payload_buffer qos prop = (case payload_buffer of
     None \<Rightarrow> ret STATE_USER_INPUT_NULL_POINTER
   | Some payload \<Rightarrow>
       if topic = [] \<or> qos > 1 then ret STATE_USER_INPUT_OUT_RANGE
       else do {
         (res, gp, replaced) \<leftarrow> pub_prepare topic qos prop;
         s \<leftarrow> State_Monad.get;
         if res < STATE_SUCCESS then ret res
         else if \<not> exec_enabled s then ret STATE_USER_INPUT_EXEC_DISABLED
         else do {
           exec_inc;
           core_logn STATE_MQTT_LOG_TOPIC (str ''pub: %.*s'' @ [13, 10])
             [LUint (of_nat (length topic)), LStr (Some topic)];
           core_log_hexdump STATE_MQTT_LOG_HEXDUMP 62 payload;
           let remainlen = pub_remainlen s qos replaced topic gp payload;
           ok \<leftarrow> sys_malloc;
           if \<not> ok then do { exec_dec; ret STATE_SYS_DEPEND_MALLOC_FAILED }
           else do {
             pid \<leftarrow> (if qos = 1 then next_packet_id else ret 0);
             (_, property) \<leftarrow> (if v5_enabled s
               then lift_outcome [] (core_write_general_prop gp (property_len_array gp))
               else ret (STATE_SUCCESS, []));
             let pkt = pub_pkt_bytes qos remainlen replaced topic pid property payload;
             on (length pkt > 1 + 4 + remainlen) fault;
             res \<leftarrow> check_tx_payload_len (length pkt);
             if res < STATE_SUCCESS then do { sys_free; ret res }
             else pub_send pkt qos pid
           }
         }
       })"

text \<open>With the option for it, every topic gets a request identifier of its own behind it.\<close>

definition rid_topic :: "byte list \<Rightarrow> 64 word \<Rightarrow> 32 word \<Rightarrow> byte list" where
  "rid_topic topic timestamp rand =
     topic @ str ''?_rid='' @ rev (uint_digits timestamp) @ rev (uint_digits rand)"

definition mqtt_pub_with_prop ::
  "byte list option \<Rightarrow> byte list option \<Rightarrow> nat \<Rightarrow> pub_property option \<Rightarrow> int mqtt_m"
where
  "mqtt_pub_with_prop topic_ptr payload qos prop = (case topic_ptr of
     None \<Rightarrow> ret STATE_USER_INPUT_NULL_POINTER
   | Some topic \<Rightarrow>
       if length topic \<ge> 128 then ret STATE_MQTT_TOPIC_TOO_LONG
       else if (case payload of None \<Rightarrow> 0 | Some p \<Rightarrow> length p) \<ge> 1024 * 1024 + 1
       then ret STATE_MQTT_PUB_PAYLOAD_TOO_LONG
       else do {
         s \<leftarrow> State_Monad.get;
         if append_requestid s = 0 then core_mqtt_pub topic payload qos prop
         else do {
           timestamp \<leftarrow> core_log_get_timestamp;
           ok \<leftarrow> sys_malloc;
           if \<not> ok then ret STATE_PORT_MALLOC_FAILED
           else do {
             rand \<leftarrow> sys_rand;
             res \<leftarrow> core_mqtt_pub (rid_topic topic timestamp rand) payload qos prop;
             sys_free;
             ret res
           }
         }
       })"

definition aiot_mqtt_pub :: "byte list option \<Rightarrow> byte list option \<Rightarrow> nat \<Rightarrow> int mqtt_m" where
  "aiot_mqtt_pub topic payload qos = mqtt_pub_with_prop topic payload qos None"

definition aiot_mqtt_pub_with_prop ::
  "byte list option \<Rightarrow> byte list option \<Rightarrow> nat \<Rightarrow> pub_property option \<Rightarrow> int mqtt_m" where
  "aiot_mqtt_pub_with_prop topic payload qos prop = do {
     s \<leftarrow> State_Monad.get;
     if \<not> v5_enabled s then ret STATE_MQTT_INVALID_PROTOCOL_VERSION
     else mqtt_pub_with_prop topic payload qos prop
   }"

section \<open>Subscribing\<close>

definition user_general_property :: "user_property option list option \<Rightarrow> general_property" where
  "user_general_property prop = (case prop of
     None \<Rightarrow> general_property_0 | Some us \<Rightarrow> general_property_0\<lparr>user_properties := us\<rparr>)"

text \<open>
  When the subscription cannot be stored the call returns without taking its count back.
\<close>

definition core_mqtt_sub ::
  "byte list \<Rightarrow> nat option \<Rightarrow> nat \<Rightarrow> nat \<Rightarrow> user_property option list option \<Rightarrow> int mqtt_m"
where
  "core_mqtt_sub topic handler qos ud prop = do {
     s \<leftarrow> State_Monad.get;
     if topic = [] \<or> qos > 1 then ret STATE_USER_INPUT_OUT_RANGE
     else if topic_is_valid topic < STATE_SUCCESS then ret STATE_MQTT_TOPIC_INVALID
     else if \<not> exec_enabled s then ret STATE_USER_INPUT_EXEC_DISABLED
     else do {
       exec_inc;
       core_logn STATE_MQTT_LOG_TOPIC (str ''sub: %.*s'' @ [13, 10])
         [LUint (of_nat (length topic)), LStr (Some topic)];
       mutex_lock Sub_mutex;
       res \<leftarrow> sublist_insert topic handler ud;
       mutex_unlock Sub_mutex;
       if res < STATE_SUCCESS then ret res
       else do {
         res \<leftarrow> core_mqtt_subunsub topic qos True (Some (user_general_property prop));
         exec_dec;
         ret res
       }
     }
   }"

definition mqtt_sub_with_prop ::
  "byte list option \<Rightarrow> nat option \<Rightarrow> nat \<Rightarrow> nat \<Rightarrow> user_property option list option \<Rightarrow> int mqtt_m"
where
  "mqtt_sub_with_prop topic_ptr handler qos ud prop = (case topic_ptr of
     None \<Rightarrow> ret STATE_USER_INPUT_NULL_POINTER
   | Some topic \<Rightarrow>
       if length topic \<ge> 128 then ret STATE_MQTT_TOPIC_TOO_LONG
       else core_mqtt_sub topic handler qos ud prop)"

definition aiot_mqtt_sub :: "byte list option \<Rightarrow> nat option \<Rightarrow> nat \<Rightarrow> nat \<Rightarrow> int mqtt_m" where
  "aiot_mqtt_sub topic handler qos ud = mqtt_sub_with_prop topic handler qos ud None"

definition aiot_mqtt_sub_with_prop ::
  "byte list option \<Rightarrow> nat option \<Rightarrow> nat \<Rightarrow> nat \<Rightarrow> user_property option list option \<Rightarrow> int mqtt_m"
where
  "aiot_mqtt_sub_with_prop topic handler qos ud prop = do {
     s \<leftarrow> State_Monad.get;
     if \<not> v5_enabled s then ret STATE_MQTT_INVALID_PROTOCOL_VERSION
     else mqtt_sub_with_prop topic handler qos ud prop
   }"

definition core_mqtt_unsub :: "byte list \<Rightarrow> user_property option list option \<Rightarrow> int mqtt_m" where
  "core_mqtt_unsub topic prop = do {
     s \<leftarrow> State_Monad.get;
     if topic = [] then ret STATE_USER_INPUT_OUT_RANGE
     else if topic_is_valid topic < STATE_SUCCESS then ret STATE_MQTT_TOPIC_INVALID
     else if \<not> exec_enabled s then ret STATE_USER_INPUT_EXEC_DISABLED
     else do {
       exec_inc;
       core_logn STATE_MQTT_LOG_TOPIC (str ''unsub: %.*s'' @ [13, 10])
         [LUint (of_nat (length topic)), LStr (Some topic)];
       mutex_lock Sub_mutex;
       sublist_remove topic;
       mutex_unlock Sub_mutex;
       res \<leftarrow> core_mqtt_subunsub topic 0 False (Some (user_general_property prop));
       exec_dec;
       ret res
     }
   }"

definition mqtt_unsub :: "byte list option \<Rightarrow> user_property option list option \<Rightarrow> int mqtt_m" where
  "mqtt_unsub topic_ptr prop = (case topic_ptr of
     None \<Rightarrow> ret STATE_USER_INPUT_NULL_POINTER
   | Some topic \<Rightarrow>
       if length topic \<ge> 128 then ret STATE_MQTT_TOPIC_TOO_LONG
       else core_mqtt_unsub topic prop)"

definition aiot_mqtt_unsub :: "byte list option \<Rightarrow> int mqtt_m" where
  "aiot_mqtt_unsub topic = mqtt_unsub topic None"

definition aiot_mqtt_unsub_with_prop ::
  "byte list option \<Rightarrow> user_property option list option \<Rightarrow> int mqtt_m" where
  "aiot_mqtt_unsub_with_prop topic prop = do {
     s \<leftarrow> State_Monad.get;
     if \<not> v5_enabled s then ret STATE_MQTT_INVALID_PROTOCOL_VERSION
     else mqtt_unsub topic prop
   }"

section \<open>What other modules ask\<close>

record nwkstats_info =
  info_network_type :: nat
  info_connect_timestamp :: "64 word"
  info_connect_time_used :: "32 word"
  info_failed_timestamp :: "64 word"
  info_failed_error_code :: int
  info_rtt :: "64 word"

definition core_mqtt_get_product_key :: "byte list option mqtt_m" where
  "core_mqtt_get_product_key = gets product_key"

definition core_mqtt_get_device_name :: "byte list option mqtt_m" where
  "core_mqtt_get_device_name = gets device_name"

definition core_mqtt_get_port :: "nat mqtt_m" where
  "core_mqtt_get_port = gets mqtt_port"

text \<open>The statistics of the network; the error and the time that are read are set back.\<close>

definition core_mqtt_get_nwkstats :: "(int \<times> nwkstats_info) mqtt_m" where
  "core_mqtt_get_nwkstats = do {
     s \<leftarrow> State_Monad.get;
     modify (\<lambda>s. s\<lparr>nwk_failed_error_code := 0, nwk_connect_time_used := 0\<rparr>);
     ret (STATE_SUCCESS,
       \<lparr>info_network_type = nwk_network_type s, info_connect_timestamp = nwk_connect_timestamp s,
        info_connect_time_used = nwk_connect_time_used s, info_failed_timestamp = nwk_failed_timestamp s,
        info_failed_error_code = nwk_failed_error_code s, info_rtt = nwk_rtt s\<rparr>)
   }"

end
