(* ===== verification/Mqtt_Lists.thy ===== *)
theory Mqtt_Lists
  imports Mqtt_Handle
begin

text \<open>
  The lists a handle keeps (unacknowledged publishes, subscriptions, process handlers) share one
  contract: an insertion that succeeds adds the key and nothing else, one that fails changes no
  key, a removal takes away exactly its key, and keys stay distinct. The locale states the
  contract and derives what a sequence of operations does; it is interpreted for the three lists.
\<close>

section \<open>The contract\<close>

datatype ('k, 'v) list_op = Put 'k 'v | Drop 'k

fun run_ops :: "('k \<Rightarrow> 'v \<Rightarrow> int mqtt_m) \<Rightarrow> ('k \<Rightarrow> unit mqtt_m) \<Rightarrow> ('k, 'v) list_op list \<Rightarrow> (int list) mqtt_m" where
  "run_ops put drop_key [] = ret []"
| "run_ops put drop_key (Put k v # ops) = do {
     r \<leftarrow> put k v;
     rs \<leftarrow> run_ops put drop_key ops;
     ret (r # rs)
   }"
| "run_ops put drop_key (Drop k # ops) = do {
     drop_key k;
     rs \<leftarrow> run_ops put drop_key ops;
     ret (STATE_SUCCESS # rs)
   }"

text \<open>The abstract list: a set of keys, changed by the operations that reported success.\<close>

fun spec_ops :: "('k, 'v) list_op list \<Rightarrow> int list \<Rightarrow> 'k set \<Rightarrow> 'k set" where
  "spec_ops (Put k v # ops) (r # rs) K = spec_ops ops rs (if r < STATE_SUCCESS then K else insert k K)"
| "spec_ops (Drop k # ops) (r # rs) K = spec_ops ops rs (K - {k})"
| "spec_ops ops rs K = K"

fun drops :: "'k \<Rightarrow> ('k, 'v) list_op \<Rightarrow> bool" where
  "drops k (Drop k') \<longleftrightarrow> k = k'"
| "drops k (Put k' v) \<longleftrightarrow> False"

locale handle_list =
  fixes keys :: "mqtt \<Rightarrow> 'k list"
    and put :: "'k \<Rightarrow> 'v \<Rightarrow> int mqtt_m"
    and drop_key :: "'k \<Rightarrow> unit mqtt_m"
  assumes put_law: "distinct (keys s) \<Longrightarrow>
      wp (put k v) (\<lambda>r t. distinct (keys t)
        \<and> set (keys t) = (if r < STATE_SUCCESS then set (keys s) else insert k (set (keys s)))) s"
    and drop_law: "distinct (keys s) \<Longrightarrow>
      wp (drop_key k) (\<lambda>_ t. distinct (keys t) \<and> set (keys t) = set (keys s) - {k}) s"
begin

lemma put_frame: "distinct (keys s) \<Longrightarrow> k' \<noteq> k \<Longrightarrow>
    wp (put k v) (\<lambda>r t. k' \<in> set (keys t) \<longleftrightarrow> k' \<in> set (keys s)) s"
  by (rule wp_mono [OF put_law]) (auto split: if_splits)

lemma run_ops_refines:
  "distinct (keys s) \<Longrightarrow>
   wp (run_ops put drop_key ops)
     (\<lambda>rs t. distinct (keys t) \<and> length rs = length ops
        \<and> set (keys t) = spec_ops ops rs (set (keys s))) s"
proof (induction ops arbitrary: s)
  case (Cons op ops)
  show ?case
  proof (cases op)
    case (Put k v)
    show ?thesis unfolding Put run_ops.simps wp_bind
    proof (rule wp_mono [OF put_law [OF Cons.prems]])
      fix r t
      assume *: "distinct (keys t)
          \<and> set (keys t) = (if r < STATE_SUCCESS then set (keys s) else insert k (set (keys s)))"
      then show "wp (run_ops put drop_key ops) (\<lambda>rs. wp (ret (r # rs))
          (\<lambda>rs t. distinct (keys t) \<and> length rs = length (Put k v # ops)
            \<and> set (keys t) = spec_ops (Put k v # ops) rs (set (keys s)))) t"
        by (intro wp_mono [OF Cons.IH [of t]]) auto
    qed
  next
    case (Drop k)
    show ?thesis unfolding Drop run_ops.simps wp_bind
    proof (rule wp_mono [OF drop_law [OF Cons.prems]])
      fix u t
      assume *: "distinct (keys t) \<and> set (keys t) = set (keys s) - {k}"
      then show "wp (run_ops put drop_key ops) (\<lambda>rs. wp (ret (STATE_SUCCESS # rs))
          (\<lambda>rs t. distinct (keys t) \<and> length rs = length (Drop k # ops)
            \<and> set (keys t) = spec_ops (Drop k # ops) rs (set (keys s)))) t"
        by (intro wp_mono [OF Cons.IH [of t]]) auto
    qed
  qed
qed simp

text \<open>A key that is there stays until it is dropped.\<close>

lemma spec_ops_keeps: "k \<in> K \<Longrightarrow> \<forall>op \<in> set ops. \<not> drops k op \<Longrightarrow> k \<in> spec_ops ops rs K"
  by (induction ops rs K rule: spec_ops.induct) auto

lemma stays:
  assumes "distinct (keys s)" "k \<in> set (keys s)" "\<forall>op \<in> set ops. \<not> drops k op"
  shows "wp (run_ops put drop_key ops) (\<lambda>_ t. k \<in> set (keys t)) s"
  by (rule wp_mono [OF run_ops_refines [OF assms(1)]]) (use assms spec_ops_keeps in auto)

end

section \<open>Running the leaf operations\<close>

lemma wp_free_n [run_simps]: "wp (free_n n) Q s = Q () (s\<lparr>live := live s - int n\<rparr>)"
  by (simp add: free_n_def)

lemma split_first_None: "split_first p xs = None \<longleftrightarrow> (\<forall>x \<in> set xs. \<not> p x)"
  by (induction xs) (auto split: option.splits)

lemma split_first_Some:
  "split_first p xs = Some (as, y, bs) \<Longrightarrow> xs = as @ y # bs \<and> p y \<and> (\<forall>x \<in> set as. \<not> p x)"
  by (induction xs arbitrary: as) (auto split: if_splits option.splits)

text \<open>Taking out the first node with a key takes out the only one.\<close>

lemma split_first_filter:
  assumes "distinct (map f xs)" "split_first (\<lambda>n. f n = k) xs = Some (as, y, bs)"
  shows "filter (\<lambda>n. f n \<noteq> k) xs = as @ bs"
proof -
  have xs: "xs = as @ y # bs" "f y = k" using split_first_Some [OF assms(2)] by auto
  with assms(1) have "k \<notin> f ` set as" "k \<notin> f ` set bs" by auto
  then have "filter (\<lambda>n. f n \<noteq> k) as = as" "filter (\<lambda>n. f n \<noteq> k) bs = bs"
    by (auto simp: filter_id_conv)
  with xs show ?thesis by simp
qed

lemma split_first_filter_None:
  "split_first (\<lambda>n. f n = k) xs = None \<Longrightarrow> filter (\<lambda>n. f n \<noteq> k) xs = xs"
  by (simp add: split_first_None filter_id_conv)

section \<open>Unacknowledged publishes\<close>

abbreviation pub_keys :: "mqtt \<Rightarrow> 16 word list" where
  "pub_keys s \<equiv> map pub_packet_id (pub_list s)"

definition publist_put :: "16 word \<Rightarrow> byte list \<Rightarrow> int mqtt_m" where
  "publist_put pid packet = publist_insert packet pid"

lemma publist_insert_list:
  "wp (publist_insert packet pid)
     (\<lambda>r t. if r < STATE_SUCCESS then pub_list t = pub_list s
        else pid \<notin> set (pub_keys s)
          \<and> (\<exists>now. pub_list t = pub_list s @ [\<lparr>pub_packet_id = pid, pub_packet = packet, pub_last_send = now\<rparr>])) s"
  by (auto simp: publist_insert_def run_simps wp_sys_free)

lemma publist_remove_list:
  assumes "distinct (pub_keys s)"
  shows "wp (publist_remove pid) (\<lambda>_ t. pub_list t = filter (\<lambda>n. pub_packet_id n \<noteq> pid) (pub_list s)) s"
  using assms split_first_filter [OF assms, of pid]
  by (auto simp: publist_remove_def run_simps split_first_filter_None split: option.split)

lemma set_filter_keys: "set (map f (filter (\<lambda>n. f n \<noteq> k) l)) = set (map f l) - {k}"
  by auto

interpretation publist: handle_list pub_keys publist_put publist_remove
proof (unfold_locales, goal_cases)
  case (1 s k v)
  show ?case unfolding publist_put_def
    by (rule wp_mono [OF publist_insert_list]) (use 1 in \<open>auto split: if_splits\<close>)
next
  case (2 s k)
  show ?case
    by (rule wp_mono [OF publist_remove_list [OF 2]])
      (use 2 in \<open>simp add: distinct_map_filter set_filter_keys del: set_map\<close>)
qed

section \<open>Subscriptions\<close>

abbreviation sub_keys :: "mqtt \<Rightarrow> byte list list" where
  "sub_keys s \<equiv> map sub_topic (sub_list s)"

definition sublist_put :: "byte list \<Rightarrow> nat option \<times> nat \<Rightarrow> int mqtt_m" where
  "sublist_put topic hu = sublist_insert topic (fst hu) (snd hu)"

lemma keeps_handlerlist_insert [world_only]: "keeps world.more (handlerlist_insert hs h ud)"
  unfolding handlerlist_insert_def by (intro keeps_rules world_only)

text \<open>What an insertion leaves: the old nodes, one of them with its handlers changed, or a new node.\<close>

lemma handlerlist_insert_run:
  "wp (handlerlist_insert hs h ud) Q s =
     (if h \<in> fst ` set hs then Q (STATE_SUCCESS, AList.update h ud hs) s
      else if p_malloc (port s) (tick s)
      then Q (STATE_SUCCESS, AList.update h ud hs) (s\<lparr>tick := tick s + 1, live := live s + 1\<rparr>)
      else Q (STATE_SYS_DEPEND_MALLOC_FAILED, hs) (s\<lparr>tick := tick s + 1\<rparr>))"
  by (simp add: handlerlist_insert_def run_simps)

lemma sublist_insert_new:
  assumes "topic \<notin> set (sub_keys s)"
  shows "wp (sublist_insert topic handler ud)
     (\<lambda>r t. sub_list t = (if r < STATE_SUCCESS then sub_list s
        else sub_list s @ [\<lparr>sub_topic = topic,
              sub_handlers = (case handler of None \<Rightarrow> [] | Some h \<Rightarrow> [(h, ud)])\<rparr>])) s"
proof -
  have "split_first (\<lambda>n. sub_topic n = topic) (sub_list s) = None"
    using assms by (auto simp: split_first_None)
  then show ?thesis
    by (cases handler) (simp_all add: sublist_insert_def handlerlist_insert_run run_simps wp_sys_free)
qed

lemma sublist_insert_known:
  assumes "split_first (\<lambda>n. sub_topic n = topic) (sub_list s) = Some (as, n, bs)"
  shows "wp (sublist_insert topic handler ud)
     (\<lambda>r t. sub_list t = as @ n\<lparr>sub_handlers :=
        (case handler of Some h \<Rightarrow> if r < STATE_SUCCESS then sub_handlers n
           else AList.update h ud (sub_handlers n) | None \<Rightarrow> sub_handlers n)\<rparr> # bs) s"
  using assms split_first_Some [OF assms]
  by (cases handler) (simp_all add: sublist_insert_def handlerlist_insert_run run_simps)

lemma sublist_insert_list:
  "wp (sublist_insert topic handler ud)
     (\<lambda>r t. (\<exists>as n bs hs. sub_list s = as @ n # bs \<and> sub_topic n = topic
          \<and> sub_list t = as @ n\<lparr>sub_handlers := hs\<rparr> # bs
          \<and> (distinct (map fst (sub_handlers n)) \<longrightarrow> distinct (map fst hs)))
        \<or> topic \<notin> set (sub_keys s) \<and> r < STATE_SUCCESS \<and> sub_list t = sub_list s
        \<or> topic \<notin> set (sub_keys s) \<and> r \<ge> STATE_SUCCESS
          \<and> sub_list t = sub_list s @ [\<lparr>sub_topic = topic,
              sub_handlers = (case handler of None \<Rightarrow> [] | Some h \<Rightarrow> [(h, ud)])\<rparr>]) s"
proof (cases "split_first (\<lambda>n. sub_topic n = topic) (sub_list s)")
  case None
  then have "topic \<notin> set (sub_keys s)" by (auto simp: split_first_None)
  from wp_mono [OF sublist_insert_new [OF this]] this show ?thesis by fastforce
next
  case (Some r)
  obtain as n bs where r: "r = (as, n, bs)" by (cases r)
  have l: "sub_list s = as @ n # bs" "sub_topic n = topic"
    using split_first_Some [OF Some [unfolded r]] by auto
  show ?thesis
  proof (rule wp_mono [OF sublist_insert_known [OF Some [unfolded r]]], rule disjI1)
    fix q t
    let ?hs = "case handler of Some h \<Rightarrow> if q < STATE_SUCCESS then sub_handlers n
           else AList.update h ud (sub_handlers n) | None \<Rightarrow> sub_handlers n"
    assume "sub_list t = as @ n\<lparr>sub_handlers := ?hs\<rparr> # bs"
    moreover have "distinct (map fst (sub_handlers n)) \<longrightarrow> distinct (map fst ?hs)"
      by (simp add: distinct_update del: distinct_map split: option.split)
    ultimately show "\<exists>as n bs hs. sub_list s = as @ n # bs \<and> sub_topic n = topic
          \<and> sub_list t = as @ n\<lparr>sub_handlers := hs\<rparr> # bs
          \<and> (distinct (map fst (sub_handlers n)) \<longrightarrow> distinct (map fst hs))"
      using l by blast
  qed
qed

lemma sublist_remove_list:
  "wp (sublist_remove topic) (\<lambda>_ t. sub_list t = filter (\<lambda>n. sub_topic n \<noteq> topic) (sub_list s)) s"
  by (simp add: sublist_remove_def run_simps)

interpretation sublist: handle_list sub_keys sublist_put sublist_remove
proof (unfold_locales, goal_cases)
  case (1 s k v)
  show ?case unfolding sublist_put_def
    by (rule wp_mono [OF sublist_insert_list]) (use 1 in auto)
next
  case (2 s k)
  show ?case
    by (rule wp_mono [OF sublist_remove_list])
      (use 2 in \<open>simp add: distinct_map_filter set_filter_keys del: set_map\<close>)
qed

section \<open>Process handlers\<close>

abbreviation process_keys :: "mqtt \<Rightarrow> nat list" where
  "process_keys s \<equiv> map fst (process_data_list s)"

lemma process_insert_list:
  "wp (process_datalist_insert h c)
     (\<lambda>r t. if r < STATE_SUCCESS then process_data_list t = process_data_list s
        else process_data_list t = AList.update h c (process_data_list s)) s"
  by (auto simp: process_datalist_insert_def handlerlist_insert_def run_simps)

lemma process_remove_list:
  assumes "distinct (process_keys s)"
  shows "wp (process_datalist_remove h)
    (\<lambda>_ t. process_data_list t = filter (\<lambda>p. fst p \<noteq> h) (process_data_list s)) s"
  using assms split_first_filter [OF assms, of h]
  by (auto simp: process_datalist_remove_def wp_sys_free split_first_filter_None split: option.split)

interpretation processlist: handle_list process_keys process_datalist_insert process_datalist_remove
proof (unfold_locales, goal_cases)
  case (1 s k v)
  have "set (map fst (AList.update k v l)) = insert k (set (map fst l))" for l
    by (simp add: update_keys) (auto simp: dom_update)
  then show ?case
    by (intro wp_mono [OF process_insert_list]) (use 1 in \<open>auto split: if_splits simp: distinct_update\<close>)
next
  case (2 s k)
  show ?case
    by (rule wp_mono [OF process_remove_list [OF 2]])
      (use 2 in \<open>simp add: distinct_map_filter set_filter_keys del: set_map\<close>)
qed

end
