(* ===== verification/Mqtt_Discipline.thy ===== *)
theory Mqtt_Discipline
  imports Mqtt_Api Mqtt_Lists
begin

text \<open>
  One walk over every routine of the client that shows four things at once: mutexes are taken in
  the order of their ranks and given back, the lists and counters of the handle stay well-formed,
  the count of running calls returns to what it was, and the events handed to the user follow the
  connection automaton.
\<close>

section \<open>Events\<close>

definition event_of :: "out \<Rightarrow> mqtt_event option" where
  "event_of e = (case e of Event_cb h ev ud \<Rightarrow> Some ev | _ \<Rightarrow> None)"

definition events :: "out list \<Rightarrow> mqtt_event list" where
  "events tr = List.map_filter event_of tr"

lemma events_simps [simp]:
  "events [] = []" "events (tr @ tr') = events tr @ events tr'"
  "events (e # tr) = (case event_of e of None \<Rightarrow> events tr | Some ev \<Rightarrow> ev # events tr)"
  by (simp_all add: events_def map_filter_simps List.map_filter_def split: option.split)

lemma events_log [simp]: "events (map (Log c) ls) = []"
  by (induction ls) (simp_all add: event_of_def)

text \<open>
  The connection as the user sees it: never connected or connected before, and whether the loss of
  the connection has been reported.
\<close>

fun event_step :: "bool \<times> bool \<Rightarrow> mqtt_event \<Rightarrow> (bool \<times> bool) option" where
  "event_step (c, d) Evt_connect = (if c then None else Some (True, False))"
| "event_step (c, d) Evt_reconnect = (if c then Some (True, False) else None)"
| "event_step (c, d) (Evt_disconnect r) = (if c \<and> \<not> d then Some (True, True) else None)"

fun event_run :: "bool \<times> bool \<Rightarrow> mqtt_event list \<Rightarrow> (bool \<times> bool) option" where
  "event_run q [] = Some q"
| "event_run q (e # es) = (case event_step q e of None \<Rightarrow> None | Some q' \<Rightarrow> event_run q' es)"

lemma event_run_snoc: "event_run q (es @ [e]) = (case event_run q es of None \<Rightarrow> None | Some q' \<Rightarrow> event_step q' e)"
  by (induction q es rule: event_run.induct) (auto split: option.splits)

section \<open>The invariant\<close>

definition sub_ok :: "sub_node list \<Rightarrow> bool" where
  "sub_ok l \<longleftrightarrow> distinct (map sub_topic l)
     \<and> (\<forall>n \<in> set l. topic_is_valid (sub_topic n) = STATE_SUCCESS \<and> length (sub_topic n) < 128
          \<and> distinct (map fst (sub_handlers n)))"

definition pub_ok :: "pub_node list \<Rightarrow> bool" where
  "pub_ok l \<longleftrightarrow> distinct (map pub_packet_id l) \<and> 0 \<notin> set (map pub_packet_id l)"

definition lists_ok :: "mqtt \<Rightarrow> bool" where
  "lists_ok s \<longleftrightarrow> sub_ok (sub_list s) \<and> pub_ok (pub_list s) \<and> distinct (process_keys s)
     \<and> distinct (map fst (rx_topic_alias_list s)) \<and> distinct (map fst (tx_topic_alias_list s))
     \<and> server_receive_max s \<le> 10 \<and> rc_counter s \<le> 60 \<and> (disconnected s \<longrightarrow> has_connected s)"

text \<open>\<open>pre\<close> are the events before the stretch that is looked at, \<open>q\<close> the automaton there.\<close>

definition events_ok :: "mqtt_event list \<Rightarrow> bool \<times> bool \<Rightarrow> mqtt \<Rightarrow> bool" where
  "events_ok pre q s \<longleftrightarrow> (event_handler s \<noteq> None \<longrightarrow>
     (\<exists>es. events (trace s) = pre @ es \<and> event_run q es = Some (has_connected s, disconnected s)))"

definition client_inv :: "mqtt_event list \<Rightarrow> bool \<times> bool \<Rightarrow> mqtt \<Rightarrow> bool" where
  "client_inv pre q s \<longleftrightarrow> lock_ok s \<and> lists_ok s \<and> events_ok pre q s"

section \<open>The triple\<close>

text \<open>
  \<open>disc H e m H' e'\<close>: from a state that satisfies the invariant, where the mutexes \<open>H\<close> are
  held and \<open>e\<close> of the running calls are the caller's, \<open>m\<close> leads to such a state with \<open>H'\<close>
  and \<open>e'\<close>.
\<close>

definition disc :: "mutex list \<Rightarrow> nat \<Rightarrow> 'a mqtt_m \<Rightarrow> mutex list \<Rightarrow> nat \<Rightarrow> bool" where
  "disc H e m H' e' \<longleftrightarrow> (\<forall>pre q base s. client_inv pre q s \<and> held s = H \<and> exec_count s = base + of_nat e \<longrightarrow>
     wp m (\<lambda>_ t. client_inv pre q t \<and> held t = H' \<and> exec_count t = base + of_nat e') s)"

lemma mutex_rank_simps [simp]:
  "mutex_rank Data_mutex = 0" "mutex_rank Pub_mutex = 1" "mutex_rank Send_mutex = 2"
  "mutex_rank Recv_mutex = 3" "mutex_rank Sub_mutex = 4" "mutex_rank Alias_mutex = 5"
  "mutex_rank Process_mutex = 6" "mutex_rank Deinit_mutex = 7" "mutex_rank Global_mutex = 8"
  by (simp_all add: mutex_rank_def)

text \<open>All mutexes in a list rank below a number.\<close>

definition below :: "nat \<Rightarrow> mutex list \<Rightarrow> bool" where
  "below k H \<longleftrightarrow> (\<forall>h \<in> set H. mutex_rank h < k)"

lemma below_simps [simp]: "below k []" "below k (h # H) \<longleftrightarrow> mutex_rank h < k \<and> below k H"
  by (auto simp: below_def)

lemma below_mono: "below k H \<Longrightarrow> k \<le> k' \<Longrightarrow> below k' H"
  by (fastforce simp: below_def)

named_theorems disc_rules \<open>rules that walk through the routines of the client\<close>

lemma discD:
  "disc H e m H' e' \<Longrightarrow> client_inv pre q s \<Longrightarrow> held s = H \<Longrightarrow> exec_count s = base + of_nat e \<Longrightarrow>
   wp m (\<lambda>_ t. client_inv pre q t \<and> held t = H' \<and> exec_count t = base + of_nat e') s"
  unfolding disc_def by blast

lemma discI:
  assumes "\<And>pre q base s. client_inv pre q s \<Longrightarrow> held s = H \<Longrightarrow> exec_count s = base + of_nat e \<Longrightarrow>
     wp m (\<lambda>_ t. client_inv pre q t \<and> held t = H' \<and> exec_count t = base + of_nat e') s"
  shows "disc H e m H' e'"
  unfolding disc_def using assms by blast

lemma disc_bind [disc_rules]:
  assumes "disc H e m H1 e1" "\<And>x. disc H1 e1 (f x) H2 e2"
  shows "disc H e (m \<bind> f) H2 e2"
proof (rule discI, unfold wp_bind)
  fix pre q base s
  assume "client_inv pre q s" "held s = H" "exec_count s = base + of_nat e"
  note first = discD [OF assms(1) this]
  show "wp m (\<lambda>r. wp (f r) (\<lambda>_ t. client_inv pre q t \<and> held t = H2 \<and> exec_count t = base + of_nat e2)) s"
    by (rule wp_mono [OF first], rule discD [OF assms(2)]) simp_all
qed

lemma disc_return [disc_rules]: "disc H e (ret x) H e"
  by (simp add: disc_def)

lemma disc_get [disc_rules]: "disc H e State_Monad.get H e"
  by (simp add: disc_def)

lemma disc_gets [disc_rules]: "disc H e (gets f) H e"
  by (simp add: disc_def)

lemma disc_if [disc_rules]:
  "(b \<Longrightarrow> disc H e m H' e') \<Longrightarrow> (\<not> b \<Longrightarrow> disc H e n H' e') \<Longrightarrow> disc H e (if b then m else n) H' e'"
  by simp

lemma disc_option [disc_rules]:
  "(x = None \<Longrightarrow> disc H e m H' e') \<Longrightarrow> (\<And>y. x = Some y \<Longrightarrow> disc H e (f y) H' e') \<Longrightarrow>
   disc H e (case x of None \<Rightarrow> m | Some y \<Rightarrow> f y) H' e'"
  by (cases x) auto

lemma disc_prod [disc_rules]:
  "(\<And>a b. x = (a, b) \<Longrightarrow> disc H e (f a b) H' e') \<Longrightarrow> disc H e (case x of (a, b) \<Rightarrow> f a b) H' e'"
  by (cases x) auto

lemma disc_outcome [disc_rules]:
  "(x = Fault \<Longrightarrow> disc H e m H' e') \<Longrightarrow> (\<And>c. x = Fail c \<Longrightarrow> disc H e (f c) H' e') \<Longrightarrow>
   (\<And>v. x = Ret v \<Longrightarrow> disc H e (g v) H' e') \<Longrightarrow>
   disc H e (case x of Fault \<Rightarrow> m | Fail c \<Rightarrow> f c | Ret v \<Rightarrow> g v) H' e'"
  by (cases x) auto

lemma disc_let [disc_rules]: "(\<And>x. x = v \<Longrightarrow> disc H e (f x) H' e') \<Longrightarrow> disc H e (let x = v in f x) H' e'"
  by simp

text \<open>What the triple looks at. A routine that leaves it alone satisfies every triple.\<close>

definition aspect where
  "aspect s = (held s, lock_ok s, events (trace s), world.more s)"

lemma more_fields:
  fixes s t :: mqtt
  assumes "world.more t = world.more s"
  shows "sub_list t = sub_list s" "pub_list t = pub_list s" "process_data_list t = process_data_list s"
    "rx_topic_alias_list t = rx_topic_alias_list s" "tx_topic_alias_list t = tx_topic_alias_list s"
    "server_receive_max t = server_receive_max s" "rc_counter t = rc_counter s"
    "disconnected t = disconnected s" "has_connected t = has_connected s"
    "event_handler t = event_handler s" "exec_count t = exec_count s"
  using assms by (cases t, cases s, simp)+

lemma aspect_cong:
  assumes "aspect t = aspect s"
  shows "client_inv pre q t = client_inv pre q s" "held t = held s" "exec_count t = exec_count s"
proof -
  have "held t = held s" "lock_ok t = lock_ok s" "events (trace t) = events (trace s)"
    and more: "world.more t = world.more s"
    using assms by (simp_all add: aspect_def)
  moreover note more_fields [OF more]
  ultimately show "client_inv pre q t = client_inv pre q s" "held t = held s" "exec_count t = exec_count s"
    by (simp_all add: client_inv_def lists_ok_def events_ok_def)
qed

named_theorems quiet_rules \<open>routines that take no mutex, report no event and change no field of the handle\<close>

lemma disc_quiet: "keeps aspect m \<Longrightarrow> disc H e m H e"
proof -
  assume k: "keeps aspect m"
  have "aspect (snd (run_state m s)) = aspect s" for s by (rule keepsD [OF k])
  from aspect_cong [OF this] show ?thesis
    by (simp add: disc_def wp_def split_beta)
qed

lemma quiet_modify: "(\<And>s. aspect (f s) = aspect s) \<Longrightarrow> keeps aspect (modify f)"
  by (rule keeps_modify)

lemma ask_quiet [quiet_rules]: "keeps aspect (ask q)"
  by (rule keepsI) (simp add: ask_def aspect_def)

lemma emit_quiet: "event_of e = None \<Longrightarrow> keeps aspect (emit e)"
  by (simp add: emit_def keeps_modify aspect_def)

lemma port_quiet [quiet_rules]:
  "keeps aspect fault" "keeps aspect sys_malloc" "keeps aspect sys_free" "keeps aspect sys_time"
  "keeps aspect sys_rand" "keeps aspect (sys_sleep ms)" "keeps aspect net_init"
  "keeps aspect (net_setopt opt)" "keeps aspect net_establish" "keeps aspect net_deinit"
  "keeps aspect (net_send pkt)" "keeps aspect (net_recv n)" "keeps aspect (lift_outcome d r)"
  unfolding fault_def sys_malloc_def sys_free_def sys_time_def sys_rand_def sys_sleep_def net_init_def
    net_setopt_def net_establish_def net_deinit_def net_send_def net_recv_def lift_outcome_def
  by (intro keeps_rules quiet_rules emit_quiet quiet_modify; simp add: aspect_def event_of_def)+

lemma log_quiet [quiet_rules]:
  "keeps aspect core_log_get_timestamp" "keeps aspect (core_log_set_timestamp t)"
  "keeps aspect (core_sprintf fmt src)"
  unfolding core_log_get_timestamp_def core_log_set_timestamp_def core_sprintf_def
  by (intro keeps_rules quiet_rules quiet_modify; simp add: aspect_def)+

lemma prefix_quiet [quiet_rules]: "keeps aspect (core_log_append_prefix c)"
  unfolding core_log_append_prefix_def core_log_append_date_def
  by (intro keeps_rules quiet_rules)

lemma logs_quiet [quiet_rules]:
  "keeps aspect (core_log c d)" "keeps aspect (core_logn c fmt ds)"
  "keeps aspect (core_log_hexdump c p b)" "keeps aspect (core_diag dd)"
  unfolding core_log_def core_logn_def core_log_hexdump_def core_diag_def
  by (intro keeps_rules quiet_rules emit_quiet quiet_modify; simp add: aspect_def event_of_def)+

lemma auth_quiet [quiet_rules]:
  "keeps aspect (core_auth_mqtt_username pk dn)" "keeps aspect (core_auth_mqtt_password pk dn ds a)"
  "keeps aspect (core_auth_mqtt_clientid pk dn sm ext a)" "keeps aspect (core_auth_tls_psk opk odn ods)"
  unfolding core_auth_mqtt_username_def core_auth_mqtt_password_def auth_password_plain_def
    core_auth_mqtt_clientid_def core_auth_tls_psk_def
  by (intro keeps_rules quiet_rules)+

lemmas disc_world [disc_rules] = quiet_rules [THEN disc_quiet]

section \<open>Steps that touch the handle\<close>

definition parts where
  "parts (s :: mqtt) = (held s, lock_ok s, events (trace s), sub_list s, pub_list s, process_data_list s,
     rx_topic_alias_list s, tx_topic_alias_list s, server_receive_max s, rc_counter s,
     disconnected s, has_connected s, event_handler s, exec_count s)"

lemmas inv_defs = client_inv_def lists_ok_def events_ok_def

lemma disc_modify: "(\<And>s. parts (f s) = parts s) \<Longrightarrow> disc H e (modify f) H e"
proof (rule discI)
  fix pre q base s
  assume "\<And>s. parts (f s) = parts s" "client_inv pre q s" "held s = H" "exec_count s = base + of_nat e"
  moreover from this(1) have "parts (f s) = parts s" .
  ultimately show "wp (modify f) (\<lambda>_ t. client_inv pre q t \<and> held t = H \<and> exec_count t = base + of_nat e) s"
    by (simp add: parts_def inv_defs)
qed

lemma disc_modify_inv:
  assumes "\<And>pre q s. client_inv pre q s \<Longrightarrow> client_inv pre q (f s)"
    and "\<And>s. held (f s) = held s" "\<And>s. exec_count (f s) = exec_count s"
  shows "disc H e (modify f) H e"
  by (rule discI) (simp add: assms)

lemma disc_lock [disc_rules]:
  "below (mutex_rank m) H \<Longrightarrow> disc H e (mutex_lock m) (m # H) e"
  by (rule discI) (simp add: run_simps inv_defs below_def)

lemma disc_unlock [disc_rules]: "disc (m # H) e (mutex_unlock m) H e"
  by (rule discI) (simp add: run_simps inv_defs)

lemma disc_exec [disc_rules]:
  "disc [] e exec_inc [] (Suc e)" "disc [] (Suc e) exec_dec [] e"
  unfolding exec_inc_def exec_dec_def
  by (rule discI, simp add: run_simps inv_defs algebra_simps)+

lemma free_n_quiet [quiet_rules]: "keeps aspect (free_n n)"
  unfolding free_n_def by (rule quiet_modify) (simp add: aspect_def)

lemma disc_free_n [disc_rules]: "disc H e (free_n n) H e"
  by (rule disc_quiet [OF free_n_quiet])

lemma reclaim_quiet [quiet_rules]:
  "keeps aspect (handlerlist_destroy hs)" "keeps aspect (reclaim_user_properties_mem ps)"
  by (simp_all add: free_n_quiet)

lemma disc_reclaim [disc_rules]: "disc H e (handlerlist_destroy hs) H e" "disc H e (reclaim_user_properties_mem ps) H e"
  by (simp_all add: disc_free_n)

lemma recv_notify_quiet [quiet_rules]: "keeps aspect (recv_notify p)"
  unfolding recv_notify_def by (intro keeps_rules emit_quiet) (simp add: event_of_def)

lemma disc_recv_notify [disc_rules]: "disc H e (recv_notify p) H e"
  by (rule disc_quiet [OF recv_notify_quiet])

lemma notify_process_quiet [quiet_rules]: "keeps aspect (notify_process_handlers l ev c)"
  by (induction l) (auto intro!: keeps_rules emit_quiet simp: event_of_def)

lemma disc_notify_process [disc_rules]: "disc H e (notify_process_handlers l ev c) H e"
  by (rule disc_quiet [OF notify_process_quiet])

section \<open>Events of the connection\<close>

lemma event_notify_run:
  assumes "\<forall>h \<in> set (held s). mutex_rank h < mutex_rank Process_mutex"
  shows "wp (event_notify ev) (\<lambda>_ t. world.more t = world.more s \<and> held t = held s \<and> lock_ok t = lock_ok s
     \<and> events (trace t) = events (trace s) @ (if event_handler s = None then [] else [ev])) s"
proof -
  have quiet: "wp (notify_process_handlers l (Some ev) False) (\<lambda>_ t. aspect t = aspect u) u"
    for l and u :: mqtt
    using keepsD [OF notify_process_quiet [of l "Some ev" False], where s = u] by (simp add: wp_def split_beta)
  define rest :: "unit mqtt_m" where "rest = do { mutex_lock Process_mutex;
         s \<leftarrow> State_Monad.get;
         notify_process_handlers (process_data_list s) (Some ev) False;
         mutex_unlock Process_mutex }"
  have rest: "wp rest (\<lambda>_ t. world.more t = world.more u \<and> held t = held u \<and> lock_ok t = lock_ok u
        \<and> events (trace t) = events (trace u)) u"
    if "held u = held s" for u :: mqtt
    unfolding rest_def wp_bind run_simps wp_get
    by (rule wp_mono [OF quiet]) (use assms that in \<open>simp add: run_simps aspect_def\<close>)
  have split: "event_notify ev = do {
     s \<leftarrow> State_Monad.get;
     (case event_handler s of None \<Rightarrow> ret () | Some h \<Rightarrow> emit (Event_cb h ev (userdata s)));
     rest }"
    by (simp add: event_notify_def rest_def)
  show ?thesis
  proof (cases "event_handler s")
    case None
    then show ?thesis by (simp add: split, intro wp_mono [OF rest]) simp_all
  next
    case (Some h)
    then show ?thesis
      by (simp add: split run_simps, intro wp_mono [OF rest]) (simp_all add: event_of_def)
  qed
qed

lemma disc_connect_event [disc_rules]:
  assumes "below (mutex_rank Process_mutex) H"
  shows "disc H e connect_event_notify H e"
proof (rule discI)
  fix pre q base s
  assume s: "client_inv pre q s" "held s = H" "exec_count s = base + of_nat e"
  have "wp (event_notify ev) (\<lambda>_ t. client_inv pre q t \<and> held t = H \<and> exec_count t = base + of_nat e)
      (s\<lparr>disconnected := False, has_connected := True\<rparr>)"
    if "ev = (if has_connected s then Evt_reconnect else Evt_connect)" for ev
  proof (rule wp_mono [OF event_notify_run])
    let ?s = "s\<lparr>disconnected := False, has_connected := True\<rparr>"
    show "\<forall>h \<in> set (held ?s). mutex_rank h < mutex_rank Process_mutex" using assms s by (simp add: below_def)
    fix t
    assume t: "world.more t = world.more ?s \<and> held t = held ?s \<and> lock_ok t = lock_ok ?s
      \<and> events (trace t) = events (trace ?s) @ (if event_handler ?s = None then [] else [ev])"
    then have "world.more t = world.more ?s" by simp
    note same = more_fields [OF this]
    have fields: "sub_list t = sub_list s" "pub_list t = pub_list s" "process_data_list t = process_data_list s"
      "rx_topic_alias_list t = rx_topic_alias_list s" "tx_topic_alias_list t = tx_topic_alias_list s"
      "server_receive_max t = server_receive_max s" "rc_counter t = rc_counter s"
      "\<not> disconnected t" "has_connected t"
      "event_handler t = event_handler s" "exec_count t = exec_count s"
      using same by simp_all
    have "events_ok pre q t"
      using s(1) t that fields
      by (auto simp: inv_defs event_run_snoc)
    then show "client_inv pre q t \<and> held t = H \<and> exec_count t = base + of_nat e"
      using s t fields by (simp add: client_inv_def lists_ok_def)
  qed
  note ev = this
  show "wp connect_event_notify (\<lambda>_ t. client_inv pre q t \<and> held t = H \<and> exec_count t = base + of_nat e) s"
  proof (cases "has_connected s")
    case True
    then have "s\<lparr>disconnected := False\<rparr> = s\<lparr>disconnected := False, has_connected := True\<rparr>" by simp
    with True ev [of Evt_reconnect] show ?thesis by (simp add: connect_event_notify_def)
  next
    case False
    with ev [of Evt_connect] show ?thesis by (simp add: connect_event_notify_def)
  qed
qed

lemma disc_disconnect_event [disc_rules]:
  assumes "below (mutex_rank Process_mutex) H"
  shows "disc H e (disconnect_event_notify reason) H e"
proof (rule discI)
  fix pre q base s
  assume s: "client_inv pre q s" "held s = H" "exec_count s = base + of_nat e"
  show "wp (disconnect_event_notify reason)
    (\<lambda>_ t. client_inv pre q t \<and> held t = H \<and> exec_count t = base + of_nat e) s"
  proof (cases "has_connected s \<and> \<not> disconnected s")
    case True
    let ?s = "s\<lparr>disconnected := True\<rparr>"
    have "wp (event_notify (Evt_disconnect reason))
      (\<lambda>_ t. client_inv pre q t \<and> held t = H \<and> exec_count t = base + of_nat e) ?s"
    proof (rule wp_mono [OF event_notify_run])
      show "\<forall>h \<in> set (held ?s). mutex_rank h < mutex_rank Process_mutex" using assms s by (simp add: below_def)
      fix t
      assume t: "world.more t = world.more ?s \<and> held t = held ?s \<and> lock_ok t = lock_ok ?s
        \<and> events (trace t) = events (trace ?s)
            @ (if event_handler ?s = None then [] else [Evt_disconnect reason])"
      then have "world.more t = world.more ?s" by simp
      note same = more_fields [OF this]
      have fields: "sub_list t = sub_list s" "pub_list t = pub_list s" "process_data_list t = process_data_list s"
        "rx_topic_alias_list t = rx_topic_alias_list s" "tx_topic_alias_list t = tx_topic_alias_list s"
        "server_receive_max t = server_receive_max s" "rc_counter t = rc_counter s"
        "disconnected t" "has_connected t"
        "event_handler t = event_handler s" "exec_count t = exec_count s"
        using same True by simp_all
      have "events_ok pre q t"
        using s(1) t True fields by (auto simp: inv_defs event_run_snoc)
      then show "client_inv pre q t \<and> held t = H \<and> exec_count t = base + of_nat e"
        using s t fields by (simp add: client_inv_def lists_ok_def)
    qed
    with True show ?thesis by (simp add: disconnect_event_notify_def)
  qed (use s in \<open>auto simp: disconnect_event_notify_def\<close>)
qed

section \<open>The lists\<close>

lemma wp_keeps: "keeps f m \<Longrightarrow> wp m (\<lambda>_ t. f t = f s) s"
  by (simp add: keeps_def preserves_def wp_def split_beta)

text \<open>What remains of the invariant when one list is set aside.\<close>

definition parts_no_sub where
  "parts_no_sub (s :: mqtt) = parts (s\<lparr>sub_list := []\<rparr>)"

lemma quiet_no_sub: "keeps aspect m \<Longrightarrow> keeps parts_no_sub m"
proof (rule keepsI)
  fix s assume "keeps aspect m"
  then have "aspect (snd (run_state m s)) = aspect s" by (rule keepsD)
  then show "parts_no_sub (snd (run_state m s)) = parts_no_sub s"
    using more_fields [of "snd (run_state m s)" s] by (simp add: aspect_def parts_no_sub_def parts_def)
qed

lemma keeps_no_sub: "(\<And>s. parts_no_sub (f s) = parts_no_sub s) \<Longrightarrow> keeps parts_no_sub (modify f)"
  by (rule keeps_modify)

lemma handlerlist_quiet [quiet_rules]: "keeps aspect (handlerlist_insert hs h ud)"
  unfolding handlerlist_insert_def by (intro keeps_rules quiet_rules)

lemma sublist_insert_frame: "keeps parts_no_sub (sublist_insert topic handler ud)"
  unfolding sublist_insert_def
  by (intro keeps_rules quiet_rules [THEN quiet_no_sub] handlerlist_quiet [THEN quiet_no_sub] keeps_no_sub)
    (simp_all add: parts_no_sub_def parts_def)

lemma sub_ok_insert:
  assumes "sub_ok l" "topic_is_valid topic = STATE_SUCCESS" "length topic < 128"
  shows "distinct (map fst hs) \<Longrightarrow> l = as @ n # bs \<Longrightarrow> sub_ok (as @ n\<lparr>sub_handlers := hs\<rparr> # bs)"
    and "topic \<notin> set (map sub_topic l) \<Longrightarrow> distinct (map fst hs) \<Longrightarrow>
      sub_ok (l @ [\<lparr>sub_topic = topic, sub_handlers = hs\<rparr>])"
  using assms by (auto simp: sub_ok_def)

lemma disc_sublist_insert [disc_rules]:
  assumes "topic_is_valid topic = STATE_SUCCESS" "length topic < 128"
  shows "disc H e (sublist_insert topic handler ud) H e"
proof (rule discI)
  fix pre q base s
  assume s: "client_inv pre q s" "held s = H" "exec_count s = base + of_nat e"
  then have ok: "sub_ok (sub_list s)" by (simp add: inv_defs)
  show "wp (sublist_insert topic handler ud)
    (\<lambda>_ t. client_inv pre q t \<and> held t = H \<and> exec_count t = base + of_nat e) s"
  proof (rule wp_mono [OF wp_conj [OF sublist_insert_list wp_keeps [OF sublist_insert_frame]]])
    fix r t
    assume post: "((\<exists>as n bs hs. sub_list s = as @ n # bs \<and> sub_topic n = topic
          \<and> sub_list t = as @ n\<lparr>sub_handlers := hs\<rparr> # bs
          \<and> (distinct (map fst (sub_handlers n)) \<longrightarrow> distinct (map fst hs)))
        \<or> topic \<notin> set (sub_keys s) \<and> r < STATE_SUCCESS \<and> sub_list t = sub_list s
        \<or> topic \<notin> set (sub_keys s) \<and> r \<ge> STATE_SUCCESS
          \<and> sub_list t = sub_list s @ [\<lparr>sub_topic = topic,
              sub_handlers = (case handler of None \<Rightarrow> [] | Some h \<Rightarrow> [(h, ud)])\<rparr>])
      \<and> parts_no_sub t = parts_no_sub s"
    have handlers: "n \<in> set (sub_list s) \<Longrightarrow> distinct (map fst (sub_handlers n))" for n
      using ok by (simp add: sub_ok_def)
    have single: "distinct (map fst (case handler of None \<Rightarrow> [] | Some h \<Rightarrow> [(h, ud)]))"
      by (simp split: option.split)
    from post have "sub_ok (sub_list t)"
      by (elim conjE disjE exE) (auto intro!: sub_ok_insert [OF ok assms] single ok handlers simp del: distinct_map)
    with s post show "client_inv pre q t \<and> held t = H \<and> exec_count t = base + of_nat e"
      by (simp add: parts_no_sub_def parts_def inv_defs)
  qed
qed

lemma sub_ok_filter: "sub_ok l \<Longrightarrow> sub_ok (filter P l)"
  by (auto simp: sub_ok_def distinct_map_filter)

lemma sub_ok_map:
  assumes "sub_ok l" "\<And>n. sub_topic (g n) = sub_topic n"
    "\<And>n. distinct (map fst (sub_handlers n)) \<Longrightarrow> distinct (map fst (sub_handlers (g n)))"
  shows "sub_ok (map g l)"
  using assms by (auto simp: sub_ok_def o_def simp del: distinct_map)

lemma disc_sublist_remove [disc_rules]: "disc H e (sublist_remove topic) H e"
  by (rule discI) (simp add: sublist_remove_def run_simps inv_defs sub_ok_filter)

lemma disc_sublist_remove_handler [disc_rules]: "disc H e (sublist_remove_handler topic h) H e"
proof (rule discI)
  fix pre q base s
  assume s: "client_inv pre q s" "held s = H" "exec_count s = base + of_nat e"
  have "sub_ok (map (node_remove_handler topic h) (sub_list s))"
    using s(1) by (intro sub_ok_map) (auto simp: inv_defs node_remove_handler_def distinct_map_filter simp del: distinct_map)
  with s show "wp (sublist_remove_handler topic h)
    (\<lambda>_ t. client_inv pre q t \<and> held t = H \<and> exec_count t = base + of_nat e) s"
    by (simp add: sublist_remove_handler_def run_simps inv_defs)
qed

lemma disc_sublist_destroy [disc_rules]: "disc H e sublist_destroy H e"
  by (rule discI) (simp add: sublist_destroy_def run_simps inv_defs sub_ok_def)

lemma disc_publist_insert [disc_rules]: "pid \<noteq> 0 \<Longrightarrow> disc H e (publist_insert packet pid) H e"
  by (rule discI) (auto simp: publist_insert_def run_simps wp_sys_free inv_defs pub_ok_def)

lemma disc_publist_remove [disc_rules]: "disc H e (publist_remove pid) H e"
proof (rule discI)
  fix pre q base s
  assume s: "client_inv pre q s" "held s = H" "exec_count s = base + of_nat e"
  have "pub_ok (filter P (pub_list s))" for P
    using s(1) by (auto simp: inv_defs pub_ok_def distinct_map_filter)
  moreover have "as @ bs = filter (\<lambda>n. pub_packet_id n \<noteq> pid) (pub_list s)"
    if "split_first (\<lambda>n. pub_packet_id n = pid) (pub_list s) = Some (as, y, bs)" for as y bs
    using split_first_filter [OF _ that] s(1) by (simp add: inv_defs pub_ok_def)
  ultimately have "pub_ok (as @ bs)"
    if "split_first (\<lambda>n. pub_packet_id n = pid) (pub_list s) = Some (as, y, bs)" for as y bs
    using that by simp
  with s show "wp (publist_remove pid)
    (\<lambda>_ t. client_inv pre q t \<and> held t = H \<and> exec_count t = base + of_nat e) s"
    by (auto simp: publist_remove_def run_simps inv_defs split: option.split)
qed

lemma disc_publist_destroy [disc_rules]: "disc H e publist_destroy H e"
  by (rule discI) (simp add: publist_destroy_def run_simps inv_defs pub_ok_def)

lemma disc_process_insert [disc_rules]: "disc H e (process_datalist_insert h c) H e"
  by (rule discI) (auto simp: process_datalist_insert_def handlerlist_insert_run run_simps inv_defs
      distinct_update simp del: distinct_map)

lemma disc_process_remove [disc_rules]: "disc H e (process_datalist_remove h) H e"
proof (rule discI)
  fix pre q base s
  assume s: "client_inv pre q s" "held s = H" "exec_count s = base + of_nat e"
  have "distinct (map fst (as @ bs))"
    if "split_first (\<lambda>p. fst p = h) (process_data_list s) = Some (as, y, bs)" for as y bs
    using split_first_Some [OF that] s(1) by (auto simp: inv_defs)
  with s show "wp (process_datalist_remove h)
    (\<lambda>_ t. client_inv pre q t \<and> held t = H \<and> exec_count t = base + of_nat e) s"
    by (auto simp: process_datalist_remove_def wp_sys_free inv_defs split: option.split
        simp del: distinct_map map_append)
qed

lemma disc_process_destroy [disc_rules]: "disc H e process_datalist_destroy H e"
  by (rule discI) (simp add: process_datalist_destroy_def run_simps inv_defs)

lemma disc_aliases_remove [disc_rules]: "disc H e topic_alias_list_remove_all H e"
  by (rule discI) (simp add: topic_alias_list_remove_all_def run_simps inv_defs)

lemma alias_insert_run:
  "wp (alias_insert l topic a) Q s =
     (if topic \<in> fst ` set l then Q (STATE_SUCCESS, l) s
      else if p_malloc (port s) (tick s) then
        if p_malloc (port s) (tick s + 1)
        then Q (STATE_SUCCESS, l @ [(topic, a)]) (s\<lparr>tick := tick s + 2, live := 2 + live s\<rparr>)
        else Q (STATE_SYS_DEPEND_MALLOC_FAILED, l) (s\<lparr>tick := tick s + 2\<rparr>)
      else Q (STATE_SYS_DEPEND_MALLOC_FAILED, l) (s\<lparr>tick := tick s + 1\<rparr>))"
  by (simp add: alias_insert_def run_simps wp_sys_free)

lemma disc_alias_insert:
  "disc H e (do { s \<leftarrow> State_Monad.get; (r, l) \<leftarrow> alias_insert (rx_topic_alias_list s) topic a;
     modify (\<lambda>s. s\<lparr>rx_topic_alias_list := l\<rparr>); ret x }) H e"
  "disc H e (do { s \<leftarrow> State_Monad.get; (r, l) \<leftarrow> alias_insert (tx_topic_alias_list s) topic a;
     modify (\<lambda>s. s\<lparr>tx_topic_alias_list := l\<rparr>); ret () }) H e"
  by (rule discI, auto simp: alias_insert_run inv_defs)+

section \<open>Flow control\<close>

lemma disc_flow_inc [disc_rules]:
  "below (mutex_rank Pub_mutex) H \<Longrightarrow> disc H e flow_control_inc H e"
  by (rule discI) (auto simp: flow_control_inc_def run_simps inv_defs below_def)

lemma disc_check_flow [disc_rules]:
  "below (mutex_rank Pub_mutex) H \<Longrightarrow> disc H e (check_flow_control qos) H e"
  "below (mutex_rank Pub_mutex) H \<Longrightarrow> disc H e check_flow_dec H e"
  by (rule discI, auto simp: check_flow_control_def check_flow_dec_def run_simps inv_defs below_def)+

end
