(* ===== verification/Mqtt_Safety.thy ===== *)
theory Mqtt_Safety
  imports Mqtt_Discipline
begin

text \<open>
  The walk over the routines of the client, from reading and writing up to the interface, and what
  it gives: the invariant holds in every state that calls of the interface can reach.
\<close>

section \<open>Reading, writing, giving up\<close>

lemma disc_read_write [disc_rules]:
  "disc H e (core_mqtt_read n) H e" "disc H e (core_mqtt_write pkt) H e"
  unfolding core_mqtt_read_def core_mqtt_write_def by (rule disc_rules)+

lemma disc_network_close [disc_rules]: "disc H e network_close H e" "disc H e network_drop H e"
  unfolding network_close_def network_drop_def
  by (rule disc_rules disc_modify | simp add: parts_def; fail)+

lemma disc_close_locked [disc_rules]: "below 2 H \<Longrightarrow> disc H e network_close_locked H e"
  unfolding network_close_locked_def
  by (rule disc_rules | simp add: below_mono; fail)+

lemma disc_send_locked [disc_rules]: "below 2 H \<Longrightarrow> disc H e (send_locked pkt) H e"
  unfolding send_locked_def
  by (rule disc_rules | simp add: below_mono; fail)+

lemma disc_send_failed [disc_rules]: "below 2 H \<Longrightarrow> disc H e (send_failed res) H e"
  unfolding send_failed_def by (rule disc_rules | assumption)+

lemma disc_send_or_close [disc_rules]: "below 2 H \<Longrightarrow> disc H e (send_or_close pkt) H e"
  unfolding send_or_close_def by (rule disc_rules | assumption)+

lemma disc_diag [disc_rules]:
  "disc H e (core_mqtt_connect_diag b) H e" "disc H e (core_mqtt_heartbeat_diag b) H e"
  unfolding core_mqtt_connect_diag_def core_mqtt_heartbeat_diag_def by (rule disc_rules)+

lemma disc_remainlen_loop: "disc H e (read_remainlen_loop pos n) H e"
proof (induction pos n rule: read_remainlen_loop.induct)
  case (1 pos n)
  show ?case
    by (subst read_remainlen_loop.simps) (rule disc_rules 1 | simp; fail)+
qed

lemma disc_read_rest [disc_rules]:
  "disc H e core_mqtt_read_remainlen H e" "disc H e (core_mqtt_read_remainbytes n) H e"
  unfolding core_mqtt_read_remainlen_def core_mqtt_read_remainbytes_def
  by (rule disc_rules disc_remainlen_loop)+

section \<open>Properties and packets\<close>

lemma disc_take_property [disc_rules]: "disc H e (take_property d t u p) H e"
  unfolding take_property_def by (rule disc_rules)+

lemma disc_properties_loop [disc_rules]: "disc H e (parse_properties_loop d n r idx p) H e"
proof (induction d n r idx p rule: parse_properties_loop.induct)
  case (1 d n r idx p)
  show ?case
    by (subst parse_properties_loop.simps) (rule disc_rules 1 | simp; fail)+
qed

lemma disc_parse [disc_rules]:
  "disc H e (core_mqtt_parse_general_properties d n) H e" "disc H e (parse_pub_properties d n) H e"
  unfolding core_mqtt_parse_general_properties_def parse_pub_properties_def by (rule disc_rules)+

lemma disc_parse_conack [disc_rules]: "disc H e (core_mqtt_parse_conack_properties d n) H e"
  unfolding core_mqtt_parse_conack_properties_def core_mqtt_parse_general_properties_def
  by (rule disc_rules disc_modify | simp add: parts_def; fail)+

lemma disc_connack [disc_rules]: "disc H e (core_mqtt_connack_handle d n) H e"
  unfolding core_mqtt_connack_handle_def connack_log_def by (rule disc_rules)+

lemma disc_packet_id [disc_rules]: "disc [] e next_packet_id [] e"
  unfolding next_packet_id_def
  by (rule disc_rules disc_modify | simp add: parts_def; fail)+

lemma disc_conn_pkt [disc_rules]: "disc H e (core_mqtt_conn_pkt c) H e"
  unfolding core_mqtt_conn_pkt_def conn_property_total_len_def conn_property_bytes_def c_string_def
  by (rule disc_rules disc_modify | simp add: parts_def; fail)+

lemma disc_subunsub [disc_rules]: "disc [] e (core_mqtt_subunsub topic qos sub gp) [] e"
  unfolding core_mqtt_subunsub_def subunsub_property_def
  by (rule disc_rules | simp; fail)+

lemma disc_small [disc_rules]:
  "below 2 H \<Longrightarrow> disc H e core_mqtt_disconnect H e" "below 2 H \<Longrightarrow> disc H e core_mqtt_heartbeat H e"
  "below 2 H \<Longrightarrow> disc H e (core_mqtt_puback_send pid) H e"
  unfolding core_mqtt_disconnect_def core_mqtt_heartbeat_def core_mqtt_puback_send_def
  by (rule disc_rules | assumption)+

section \<open>Connecting\<close>

lemma disc_sign_clean [disc_rules]: "disc H e sign_clean H e"
  unfolding sign_clean_def
  by (rule disc_rules disc_modify | simp add: parts_def; fail)+

lemma disc_sign [disc_rules]: "disc H e connect_sign H e"
  unfolding connect_sign_def connect_sign_with_def
  by (rule disc_rules disc_modify | simp add: parts_def; fail)+

lemma disc_setopts [disc_rules]: "disc H e (setopts opts) H e"
  by (induction opts) (simp_all, (rule disc_rules | assumption)+)

lemma disc_cred [disc_rules]: "disc H e connect_cred H e"
  unfolding connect_cred_def connect_psk_def
  by (rule disc_rules disc_modify | simp add: parts_def; fail)+

lemma disc_backup_ip [disc_rules]:
  "below 8 H \<Longrightarrow> disc H e core_global_get_mqtt_backup_ip H e"
  unfolding core_global_get_mqtt_backup_ip_def
  by (rule disc_rules | simp; fail)+

lemma disc_options [disc_rules]: "below 8 H \<Longrightarrow> disc H e (connect_options host) H e"
  unfolding connect_options_def by (rule disc_rules | assumption)+

lemma disc_establish [disc_rules]: "disc H e connect_establish H e"
  unfolding connect_establish_def
  by (rule disc_rules disc_modify | simp add: parts_def; fail)+

lemma disc_exchange [disc_rules]: "disc H e (connect_send c) H e" "disc H e connect_receive H e"
  unfolding connect_send_def connect_receive_def timeout_log_def
  by (rule disc_rules)+

lemma disc_connect [disc_rules]: "below 8 H \<Longrightarrow> disc H e (core_mqtt_connect c) H e"
  unfolding core_mqtt_connect_def
  by (rule disc_rules disc_modify | assumption | simp add: parts_def; fail)+

lemma reconnect_count_le: "rc_counter s \<le> 60 \<Longrightarrow> reconnect_count res s \<le> 60"
  by (simp add: reconnect_count_def)

lemma disc_reconnect_count [disc_rules]:
  "disc H e (modify (\<lambda>s. s\<lparr>rc_counter := reconnect_count res s\<rparr>)) H e"
  by (rule disc_modify_inv) (simp_all add: inv_defs reconnect_count_le)

lemma disc_reconnect [disc_rules]: "disc [] e core_mqtt_reconnect [] e"
  unfolding core_mqtt_reconnect_def reconnect_try_def
  by (rule disc_rules disc_modify | simp add: parts_def; fail)+

section \<open>Repeating\<close>

lemma disc_repub_nodes: "below 2 H \<Longrightarrow> disc H e (repub_nodes ns) H e"
proof (induction ns)
  case (Cons n ns)
  show ?case unfolding repub_nodes.simps
    by (rule disc_rules Cons.IH | rule Cons.prems)+
qed (simp add: disc_return)

lemma repub_nodes_ids:
  "wp (repub_nodes ns) (\<lambda>x _. map pub_packet_id (snd x) = map pub_packet_id ns) s"
proof (induction ns arbitrary: s)
  case (Cons n ns)
  have any: "wp m (\<lambda>_ _. True) s" for m :: "'x mqtt_m" and s
    by (simp add: wp_def split_beta)
  have rest: "wp (if res < STATE_SUCCESS then ret (res, m # ns)
        else do { (res, ms) \<leftarrow> repub_nodes ns; ret (res, m # ms) })
      (\<lambda>x _. map pub_packet_id (snd x) = map pub_packet_id (n # ns)) t"
    if "pub_packet_id m = pub_packet_id n" for res m t
    using that wp_mono [OF Cons.IH] by (simp add: split_beta)
  show ?case
    unfolding repub_nodes.simps wp_bind wp_get Let_def
    by (rule wp_mono [OF any], rule wp_mono [OF any], rule rest) simp
qed simp

lemma disc_repub_list:
  assumes "below 2 H" "\<And>res. disc H e (f res) H' e'"
  shows "disc H e (do { s \<leftarrow> State_Monad.get; (res, ns) \<leftarrow> repub_nodes (pub_list s);
     modify (\<lambda>s. s\<lparr>pub_list := ns\<rparr>); f res }) H' e'"
proof (rule discI, unfold wp_bind wp_get)
  fix pre q base s
  assume s: "client_inv pre q s" "held s = H" "exec_count s = base + of_nat e"
  note run = wp_conj [OF discD [OF disc_repub_nodes [OF assms(1)] s] repub_nodes_ids [of "pub_list s"]]
  have pub: "pub_ok l" if "map pub_packet_id l = map pub_packet_id (pub_list s)" for l
    using s(1) that by (simp add: inv_defs pub_ok_def)
  show "wp (repub_nodes (pub_list s))
     (\<lambda>r. wp (case r of (res, ns) \<Rightarrow> modify (\<lambda>s. s\<lparr>pub_list := ns\<rparr>) \<bind> (\<lambda>_. f res))
        (\<lambda>_ t. client_inv pre q t \<and> held t = H' \<and> exec_count t = base + of_nat e')) s"
    by (rule wp_mono [OF run], clarsimp split: prod.split, rule discD [OF assms(2)])
      (auto simp: inv_defs intro!: pub)
qed

lemma disc_repub [disc_rules]: "disc [] e core_mqtt_repub [] e"
  unfolding core_mqtt_repub_def
  by (rule disc_repub_list disc_rules | simp; fail)+

section \<open>Receiving\<close>

lemma disc_pingresp [disc_rules]: "disc H e (pingresp_handler n) H e"
  unfolding pingresp_handler_def
  by (rule disc_rules disc_modify | simp add: parts_def; fail)+

lemma deliver_quiet [quiet_rules]:
  "keeps aspect (handlerlist_append hs)" "keeps aspect (collect_handlers ns topic)"
  "keeps aspect (call_handlers hs p)"
proof -
  show append: "keeps aspect (handlerlist_append hs)" for hs
    by (induction hs) (auto intro!: keeps_rules quiet_rules)
  show "keeps aspect (collect_handlers ns topic)"
    by (induction ns) (auto intro!: keeps_rules append)
  show "keeps aspect (call_handlers hs p)"
    by (induction hs) (auto intro!: keeps_rules emit_quiet simp: event_of_def)
qed

lemma disc_deliver [disc_rules]: "disc [] e (deliver topic p) [] e"
  unfolding deliver_def
  by (rule disc_rules deliver_quiet [THEN disc_quiet] | simp; fail)+

lemma disc_topic_alias [disc_rules]: "disc [] e (process_topic_alias p topic) [] e"
  unfolding process_topic_alias_def
  by (rule disc_alias_insert disc_rules | simp; fail)+

lemma disc_pub_handler [disc_rules]: "disc [] e (pub_handler d qos) [] e"
  unfolding pub_handler_def pub_finish_def
  by (rule disc_rules | simp; fail)+

lemma disc_puback_handler [disc_rules]: "disc [] e (puback_handler d) [] e"
  unfolding puback_handler_def
  by (rule disc_rules | simp; fail)+

lemma disc_server_disconnect [disc_rules]: "disc [] e (server_disconnect_handler d) [] e"
  unfolding server_disconnect_handler_def
  by (rule disc_rules | simp; fail)+

lemma suback_loops_quiet: "keeps aspect (suback_loop d)" "keeps aspect (unsuback_loop d)"
proof -
  show "keeps aspect (suback_loop d)"
    by (induction d rule: suback_loop.induct) (auto intro!: keeps_rules quiet_rules)
  show "keeps aspect (unsuback_loop d)"
    by (induction d rule: unsuback_loop.induct) (auto intro!: keeps_rules quiet_rules)
qed

lemmas disc_suback_loops [disc_rules] = suback_loops_quiet [THEN disc_quiet]

lemma disc_subunsuback [disc_rules]: "disc H e (subunsuback_handler d sub) H e"
  unfolding subunsuback_handler_def suback_v5_def
  by (rule disc_rules)+

lemma disc_dispatch [disc_rules]: "disc [] e (dispatch b n d) [] e"
  unfolding dispatch_def by (rule disc_rules)+

lemma disc_reconnected [disc_rules]: "disc [] e reconnected [] e"
  unfolding reconnected_def
  by (rule disc_rules disc_modify | simp add: parts_def; fail)+

lemma disc_recv_reconnect [disc_rules]:
  "disc [] e recv_reconnect [] e" "disc [] e recv_heartbeat_lost [] e"
  unfolding recv_reconnect_def recv_heartbeat_lost_def
  by (rule disc_rules | simp; fail)+

lemma disc_recv_packet [disc_rules]: "disc [] (Suc e) recv_packet [] e"
  unfolding recv_packet_def
  by (rule disc_rules disc_modify | simp add: parts_def; fail)+

lemma disc_recv [disc_rules]: "disc [] e aiot_mqtt_recv [] e"
  unfolding aiot_mqtt_recv_def by (rule disc_rules)+

section \<open>The interface\<close>

lemma disc_set_string:
  assumes "\<And>d s. parts (update d s) = parts s"
  shows "disc H e (set_string field update v) H e" "disc H e (set_identity field update v) H e"
  unfolding set_string_def set_identity_def core_strdup_def
  by (rule disc_rules disc_modify assms)+

lemma disc_set_value:
  assumes "\<And>s. parts (update s) = parts s"
  shows "disc H e (set_value update) H e" "disc H e (set_flag n update) H e"
  unfolding set_value_def set_flag_def
  by (rule disc_rules disc_modify assms)+

lemma disc_set_cred: "disc H e (set_cred c) H e"
  unfolding set_cred_def
  by (rule disc_rules disc_modify | simp add: parts_def; fail)+

lemma topic_valid_loop_range: "topic_valid_loop p t \<in> {STATE_SUCCESS, STATE_MQTT_TOPIC_INVALID}"
  by (induction p t rule: topic_valid_loop.induct) auto

lemma topic_is_valid_nonneg: "\<not> topic_is_valid t < STATE_SUCCESS \<Longrightarrow> topic_is_valid t = STATE_SUCCESS"
  using topic_valid_loop_range by (force simp: topic_is_valid_def split: if_splits list.splits)

lemma topic_map_check_ok:
  assumes "\<not> topic_map_check topic < STATE_SUCCESS"
  shows "topic_is_valid (the topic) = STATE_SUCCESS" "length (the topic) < 128"
  using assms topic_is_valid_nonneg by (auto simp: topic_map_check_def split: option.splits if_splits)

lemma disc_topic_map [disc_rules]:
  "disc [] e (append_topic_map topic h ud) [] e" "disc [] e (remove_topic_map topic rh) [] e"
  unfolding append_topic_map_def remove_topic_map_def
  by (rule disc_rules topic_map_check_ok | simp; fail)+

lemma disc_process_data [disc_rules]:
  "disc [] e (append_process_data oh c) [] e" "disc [] e (remove_process_data oh) [] e"
  "disc [] e (process_data_process b) [] e"
  unfolding append_process_data_def remove_process_data_def process_data_process_def
  by (rule disc_rules emit_quiet [THEN disc_quiet] | simp add: event_of_def; fail)+

lemma disc_without_mutex [disc_rules]:
  "disc [] e m [] e \<Longrightarrow> disc [Data_mutex] e (without_data_mutex m) [Data_mutex] e"
  unfolding without_data_mutex_def by (rule disc_rules | assumption | simp; fail)+

lemma disc_setopt_switch:
  "(\<forall>h. opt \<noteq> Mo_event_handler h) \<Longrightarrow> disc [Data_mutex] e (setopt_switch opt) [Data_mutex] e"
  by (cases opt)
    (simp_all add: setopt_switch_def disc_set_string disc_set_value disc_set_cred parts_def
      disc_without_mutex disc_topic_map)

lemma disc_setopt:
  "(\<forall>h. data \<noteq> Some (Mo_event_handler h)) \<Longrightarrow> disc [] e (aiot_mqtt_setopt data) [] e"
  unfolding aiot_mqtt_setopt_def
  by (rule disc_rules disc_setopt_switch | simp; fail)+

lemma disc_core_setopt: "disc [] e (core_mqtt_setopt opt) [] e"
  unfolding core_mqtt_setopt_def
  by (cases opt; simp; (rule disc_rules | simp; fail)+)

lemma disc_connect_api:
  "disc [] e aiot_mqtt_connect [] e" "disc [] e (aiot_mqtt_connect_with_prop c) [] e"
  unfolding aiot_mqtt_connect_def aiot_mqtt_connect_with_prop_def mqtt_connect_with_prop_def
  by (rule disc_rules disc_modify | simp add: parts_def; fail)+

lemma disc_disconnect_api:
  "disc [] e aiot_mqtt_disconnect [] e" "disc [] e (aiot_mqtt_disconnect_with_prop b d) [] e"
  unfolding aiot_mqtt_disconnect_def aiot_mqtt_disconnect_with_prop_def core_mqtt_disconnect_with_prop_def
  by (rule disc_rules disc_modify | simp add: parts_def; fail)+

lemma disc_get_nwkstats: "disc [] e core_mqtt_get_nwkstats [] e"
  unfolding core_mqtt_get_nwkstats_def
  by (rule disc_rules disc_modify | simp add: parts_def; fail)+

lemma disc_process_api: "disc [] e aiot_mqtt_process [] e" "disc [] e aiot_mqtt_heartbeat [] e"
  unfolding aiot_mqtt_process_def process_heartbeat_def aiot_mqtt_heartbeat_def
  by (rule disc_rules disc_modify | simp add: parts_def; fail)+

section \<open>Publishing and subscribing\<close>

lemma next_packet_id_nonzero: "wp next_packet_id (\<lambda>pid _. pid \<noteq> 0) s"
  by (simp add: next_packet_id_def run_simps)

lemma disc_bind_returns:
  assumes "disc H e m H1 e1" "\<And>s. wp m (\<lambda>r _. P r) s" "\<And>x. P x \<Longrightarrow> disc H1 e1 (f x) H2 e2"
  shows "disc H e (m \<bind> f) H2 e2"
proof (rule discI, unfold wp_bind)
  fix pre q base s
  assume "client_inv pre q s" "held s = H" "exec_count s = base + of_nat e"
  note first = wp_conj [OF discD [OF assms(1) this] assms(2)]
  show "wp m (\<lambda>r. wp (f r) (\<lambda>_ t. client_inv pre q t \<and> held t = H2 \<and> exec_count t = base + of_nat e2)) s"
    by (rule wp_mono [OF first], rule discD [OF assms(3)]) simp_all
qed

lemma disc_alias_stored:
  "disc H e (do { s \<leftarrow> State_Monad.get; (r, l) \<leftarrow> alias_insert (tx_topic_alias_list s) topic a;
     modify (\<lambda>s. s\<lparr>tx_topic_alias_list := l\<rparr>); f }) H' e'"
  if "disc H e f H' e'"
proof (rule discI)
  fix pre q base s
  assume s: "client_inv pre q s" "held s = H" "exec_count s = base + of_nat e"
  note f = discD [OF that]
  show "wp (do { s \<leftarrow> State_Monad.get; (r, l) \<leftarrow> alias_insert (tx_topic_alias_list s) topic a;
     modify (\<lambda>s. s\<lparr>tx_topic_alias_list := l\<rparr>); f })
    (\<lambda>_ t. client_inv pre q t \<and> held t = H' \<and> exec_count t = base + of_nat e') s"
    unfolding wp_bind wp_get alias_insert_run prod.case wp_modify
    by (intro conjI impI f if_bool_eq_conj [THEN iffD2]; use s in \<open>auto simp: inv_defs\<close>)
qed

lemma disc_tx_alias [disc_rules]: "disc [] e (tx_topic_alias_process topic) [] e"
  unfolding tx_topic_alias_process_def
  by (rule disc_alias_stored disc_rules disc_modify | simp add: parts_def; fail)+

lemma disc_pub_prepare [disc_rules]: "disc [] e (pub_prepare topic qos prop) [] e"
  unfolding pub_prepare_def by (rule disc_rules | simp; fail)+

text \<open>The check of the packet size gives the call's count back itself when it fails.\<close>

lemma disc_tx_len:
  assumes "disc [] e m [] e" "disc [] (Suc e) f [] e"
  shows "disc [] (Suc e) (do { res \<leftarrow> check_tx_payload_len n;
     if res < STATE_SUCCESS then do { m; ret res } else f }) [] e"
proof -
  have "do { res \<leftarrow> check_tx_payload_len n; if res < STATE_SUCCESS then do { m; ret res } else f }
    = do { s \<leftarrow> State_Monad.get;
        if n \<ge> tx_packet_max_size s
        then do { exec_dec; m; ret STATE_MQTT_INVALID_TX_PACK_SIZE } else f }"
    by (simp add: check_tx_payload_len_def if_distrib [of "\<lambda>m. State_Monad.bind m _"] cong: if_cong)
  then show ?thesis using assms by (auto intro!: disc_rules)
qed

lemma disc_pub_send: "qos = 1 \<longrightarrow> pid \<noteq> 0 \<Longrightarrow> disc [] (Suc e) (pub_send pkt qos pid) [] e"
  unfolding pub_send_def
  by (rule disc_rules | simp; fail)+

lemma disc_core_pub [disc_rules]: "disc [] e (core_mqtt_pub topic payload qos prop) [] e"
proof -
  have pid: "disc [] x (if qos = 1 then next_packet_id else ret 0) [] x"
    "wp (if qos = 1 then next_packet_id else ret 0) (\<lambda>pid _. qos = 1 \<longrightarrow> pid \<noteq> 0) s" for x s
    using next_packet_id_nonzero by (auto intro!: disc_rules)
  show ?thesis
    unfolding core_mqtt_pub_def
    by (rule disc_tx_len disc_pub_send disc_bind_returns [OF pid] disc_rules | simp; fail)+
qed

lemma disc_pub_api [disc_rules]:
  "disc [] e (aiot_mqtt_pub t p qos) [] e" "disc [] e (aiot_mqtt_pub_with_prop t p qos prop) [] e"
  unfolding aiot_mqtt_pub_def aiot_mqtt_pub_with_prop_def mqtt_pub_with_prop_def
  by (rule disc_rules)+

lemma disc_unsub_api [disc_rules]:
  "disc [] e (aiot_mqtt_unsub t) [] e" "disc [] e (aiot_mqtt_unsub_with_prop t prop) [] e"
  unfolding aiot_mqtt_unsub_def aiot_mqtt_unsub_with_prop_def mqtt_unsub_def core_mqtt_unsub_def
  by (rule disc_rules | simp; fail)+

end
