(* ===== verification/Mqtt_Calls.thy ===== *)
theory Mqtt_Calls
  imports Mqtt_Api Mqtt_Lists
begin

text \<open>
  The calls of the interface as data, sequences of calls, and a concrete client on which theorems
  are tried out: a fresh handle over a port whose clock counts the questions asked and whose
  network answers as its user says. The equations below run it step by step in the logic.
\<close>

section \<open>The calls of the interface\<close>

datatype api =
    Api_setopt "mqtt_option option" | Api_core_setopt core_option
  | Api_connect | Api_connect_prop "conn_property option"
  | Api_disconnect | Api_disconnect_prop byte "disconn_property option"
  | Api_heartbeat | Api_process | Api_recv
  | Api_pub "byte list option" "byte list option" nat
  | Api_pub_prop "byte list option" "byte list option" nat "pub_property option"
  | Api_sub "byte list option" "nat option" nat nat
  | Api_sub_prop "byte list option" "nat option" nat nat "user_property option list option"
  | Api_unsub "byte list option"
  | Api_unsub_prop "byte list option" "user_property option list option"
  | Api_nwkstats
  | Api_deinit nat

text \<open>The status of a call, \<open>None\<close> when the fuel given to the destruction did not suffice.\<close>

fun run_api :: "api \<Rightarrow> (int option) mqtt_m" where
  "run_api (Api_setopt opt) = do { r \<leftarrow> aiot_mqtt_setopt opt; ret (Some r) }"
| "run_api (Api_core_setopt opt) = do { r \<leftarrow> core_mqtt_setopt opt; ret (Some r) }"
| "run_api Api_connect = do { r \<leftarrow> aiot_mqtt_connect; ret (Some r) }"
| "run_api (Api_connect_prop c) = do { r \<leftarrow> aiot_mqtt_connect_with_prop c; ret (Some r) }"
| "run_api Api_disconnect = do { r \<leftarrow> aiot_mqtt_disconnect; ret (Some r) }"
| "run_api (Api_disconnect_prop b d) = do { r \<leftarrow> aiot_mqtt_disconnect_with_prop b d; ret (Some r) }"
| "run_api Api_heartbeat = do { r \<leftarrow> aiot_mqtt_heartbeat; ret (Some r) }"
| "run_api Api_process = do { r \<leftarrow> aiot_mqtt_process; ret (Some r) }"
| "run_api Api_recv = do { r \<leftarrow> aiot_mqtt_recv; ret (Some r) }"
| "run_api (Api_pub t p qos) = do { r \<leftarrow> aiot_mqtt_pub t p qos; ret (Some r) }"
| "run_api (Api_pub_prop t p qos prop) = do { r \<leftarrow> aiot_mqtt_pub_with_prop t p qos prop; ret (Some r) }"
| "run_api (Api_sub t h qos ud) = do { r \<leftarrow> aiot_mqtt_sub t h qos ud; ret (Some r) }"
| "run_api (Api_sub_prop t h qos ud prop) = do { r \<leftarrow> aiot_mqtt_sub_with_prop t h qos ud prop; ret (Some r) }"
| "run_api (Api_unsub t) = do { r \<leftarrow> aiot_mqtt_unsub t; ret (Some r) }"
| "run_api (Api_unsub_prop t prop) = do { r \<leftarrow> aiot_mqtt_unsub_with_prop t prop; ret (Some r) }"
| "run_api Api_nwkstats = do { r \<leftarrow> core_mqtt_get_nwkstats; ret (Some (fst r)) }"
| "run_api (Api_deinit fuel) = aiot_mqtt_deinit fuel"

fun run_apis :: "api list \<Rightarrow> (int option list) mqtt_m" where
  "run_apis [] = ret []"
| "run_apis (c # cs) = do {
     r \<leftarrow> run_api c;
     rs \<leftarrow> run_apis cs;
     ret (r # rs)
   }"

section \<open>A concrete client\<close>

definition demo_port :: "(nat \<Rightarrow> bool) \<Rightarrow> (nat \<Rightarrow> int) \<Rightarrow> (nat \<Rightarrow> int \<times> byte list) \<Rightarrow> port" where
  "demo_port mallocs sends recvs = \<lparr>p_malloc = mallocs, p_time = of_nat, p_rand = \<lambda>_. 7,
     p_init = \<lambda>_. True, p_setopt = \<lambda>_. 0, p_establish = \<lambda>_. 0, p_send = sends, p_recv = recvs\<rparr>"

definition demo_handle :: "port \<Rightarrow> mqtt" where
  "demo_handle p = handle_init 7
     ((world_0 p)\<lparr>g_inited := True, g_used := 1, tick := 2, live := 1\<rparr>)"

lemma demo_port_simps [simp]:
  "p_malloc (demo_port m s r) = m" "p_time (demo_port m s r) n = of_nat n"
  "p_rand (demo_port m s r) n = 7" "p_init (demo_port m s r) n" "p_setopt (demo_port m s r) n = 0"
  "p_establish (demo_port m s r) n = 0" "p_send (demo_port m s r) = s" "p_recv (demo_port m s r) = r"
  by (simp_all add: demo_port_def)

lemma demo_handle_simps [simp]:
  "port (demo_handle p) = p" "tick (demo_handle p) = 2" "rx (demo_handle p) = 0" "live (demo_handle p) = 1"
  "held (demo_handle p) = []" "lock_ok (demo_handle p)" "\<not> ub (demo_handle p)"
  "trace (demo_handle p) = []" "g_inited (demo_handle p)" "g_used (demo_handle p) = 1"
  "g_alink_id (demo_handle p) = 0" "g_backup_ip (demo_handle p) = []" "\<not> logcb (demo_handle p)"
  "log_timestamp (demo_handle p) = 0" "log_time_start (demo_handle p) = 0"
  "log_time_interval (demo_handle p) = 0" "log_stamp (demo_handle p)"
  "\<not> log_date (demo_handle p)" "\<not> network_handle (demo_handle p)"
  "mqtt_host (demo_handle p) = None" "mqtt_port (demo_handle p) = 0"
  "product_key (demo_handle p) = None" "device_name (demo_handle p) = None"
  "device_secret (demo_handle p) = None" "username (demo_handle p) = None"
  "password (demo_handle p) = None" "clientid (demo_handle p) = None"
  "extend_clientid (demo_handle p) = None" "security_mode (demo_handle p) = None"
  "keep_alive_s (demo_handle p) = 1200" "clean_session (demo_handle p) = 1"
  "append_requestid (demo_handle p) = 0" "connect_timeout_ms (demo_handle p) = 10000"
  "hb_interval_ms (demo_handle p) = 25000" "hb_max_lost_times (demo_handle p) = 2"
  "hb_lost_times (demo_handle p) = 0" "hb_last_send_time (demo_handle p) = 0"
  "rc_enabled (demo_handle p) = 1" "rc_interval_ms (demo_handle p) = 2000"
  "rc_last_retry_time (demo_handle p) = 0" "rc_backoff_enabled (demo_handle p)"
  "rc_rand_ms (demo_handle p) = 7 - 500" "rc_counter (demo_handle p) = 0"
  "send_timeout_ms (demo_handle p) = 5000" "recv_timeout_ms (demo_handle p) = 5000"
  "repub_timeout_ms (demo_handle p) = 3000" "deinit_timeout_ms (demo_handle p) = 2000"
  "cred (demo_handle p) = None" "\<not> has_connected (demo_handle p)"
  "\<not> disconnected (demo_handle p)" "\<not> disconnect_api_called (demo_handle p)"
  "exec_enabled (demo_handle p)" "exec_count (demo_handle p) = 0" "packet_id (demo_handle p) = 0"
  "sub_list (demo_handle p) = []" "pub_list (demo_handle p) = []"
  "process_data_list (demo_handle p) = []" "recv_handler (demo_handle p) = None"
  "event_handler (demo_handle p) = None" "userdata (demo_handle p) = 0"
  "nwk_network_type (demo_handle p) = 0" "nwk_connect_timestamp (demo_handle p) = 0"
  "nwk_connect_time_used (demo_handle p) = 0" "nwk_failed_timestamp (demo_handle p) = 0"
  "nwk_failed_error_code (demo_handle p) = 0" "nwk_rtt (demo_handle p) = 0"
  "protocol_version (demo_handle p) = 0" "rx_topic_alias_list (demo_handle p) = []"
  "tx_topic_alias_list (demo_handle p) = []" "pre_connect_property (demo_handle p) = None"
  "use_assigned_clientid (demo_handle p) = 0" "tx_packet_max_size (demo_handle p) = 262144"
  "tx_topic_alias_max (demo_handle p) = 0" "tx_topic_alias (demo_handle p) = 0"
  "server_receive_max (demo_handle p) = 10" "\<not> flow_control_enabled (demo_handle p)"
  by (simp_all add: demo_handle_def handle_init_def handle_zero_def world_0_def world.defs mqtt.defs)

lemma demo_handle_init:
  "m 0 \<Longrightarrow> fst (run_state aiot_mqtt_init (world_0 (demo_port m s r))) = Some (demo_handle (demo_port m s r))"
  by (simp add: aiot_mqtt_init_def core_global_init_def sys_malloc_def sys_rand_def ask_def world_0_def
      demo_handle_def numeral_2_eq_2)

section \<open>Running it\<close>

text \<open>The simplifier runs a routine from its head, one step at a time, when it keeps to these rules.\<close>

lemma wp_weak_cong: "m = m' \<Longrightarrow> s = s' \<Longrightarrow> wp m Q s = wp m' Q s'"
  by simp

lemma bind_weak_cong: "m = m' \<Longrightarrow> State_Monad.bind m f = State_Monad.bind m' f"
  by simp

lemmas eval_congs = wp_weak_cong bind_weak_cong if_weak_cong

lemma wp_Let: "wp (let x = v in f x) Q s = wp (f v) Q s"
  by simp

lemma wp_setopt:
  "exec_enabled s \<Longrightarrow> wp (aiot_mqtt_setopt (Some opt)) Q s
     = wp (do { exec_inc; mutex_lock Data_mutex; res \<leftarrow> setopt_switch opt; mutex_unlock Data_mutex;
          exec_dec; ret res }) Q s"
  by (simp add: aiot_mqtt_setopt_def)

lemmas eval_basic = wp_Let run_simps exec_inc_def exec_dec_def core_logn_def core_log_def core_diag_def
  core_log_get_timestamp_def fault_def lift_outcome_def net_init_def net_setopt_def net_establish_def
  net_deinit_def net_send_def net_recv_def core_mqtt_read_def core_mqtt_write_def v5_enabled_def

lemmas eval_setopt = wp_setopt setopt_switch_def set_string_def set_identity_def set_value_def
  core_strdup_def sign_clean_def

lemmas eval_connect = aiot_mqtt_connect_def mqtt_connect_with_prop_def core_mqtt_connect_def
  connect_sign_def network_close_def core_mqtt_connect_diag_def connect_options_def
  core_global_get_mqtt_backup_ip_def connect_cred_def connect_establish_def
  topic_alias_list_remove_all_def connect_send_def core_mqtt_conn_pkt_def c_string_def
  conn_property_total_len_def conn_property_bytes_def conn_pkt_bytes_def utf8_field_def
  set_utf8_encoded_str_def remain_len_encode.simps timeout_log_def connect_receive_def
  core_mqtt_read_remainlen_def read_remainlen_loop.simps core_mqtt_connack_handle_def
  connack_code_v3_def connack_log_def connect_event_notify_def event_notify_def

section \<open>A client that connects\<close>

text \<open>
  The broker of the example answers CONNECT with an accepting CONNACK; the events go to handler 1.
\<close>

definition demo_client :: mqtt where
  "demo_client = demo_handle (demo_port (\<lambda>_. True) (\<lambda>_. 21)
     (\<lambda>n. if n = 0 then (1, [0x20]) else if n = 1 then (1, [2]) else (2, [0, 0])))"

definition demo_options :: "api list" where
  "demo_options = map (Api_setopt \<circ> Some) [Mo_host (str ''h''), Mo_product_key (str ''p''),
     Mo_device_name (str ''d''), Mo_username (str ''u''), Mo_password (str ''p''),
     Mo_clientid (str ''c''), Mo_event_handler 1]"

lemma demo_options_run:
  "wp (run_apis demo_options) (\<lambda>rs t. set rs = {Some 0} \<and> event_handler t = Some 1) demo_client"
  by (simp add: demo_client_def demo_options_def eval_basic eval_setopt cong: eval_congs)

lemma demo_connects:
  "wp (run_apis (demo_options @ [Api_connect])) (\<lambda>rs t. last rs = Some 0 \<and> event_handler t = Some 1
     \<and> last (trace t) = Event_cb 1 Evt_connect 0 \<and> network_handle t \<and> has_connected t) demo_client"
  by (simp add: demo_client_def demo_options_def eval_basic eval_setopt eval_connect cong: eval_congs)

section \<open>The lists of a handle are sets\<close>

text \<open>
  C9: the three lists with keys that a handle keeps, the unacknowledged publishes, the subscriptions
  and the process handlers, implement sets: whatever sequence of insertions and removals runs on
  them, and whichever of the insertions fail for lack of memory, the keys stay distinct and are
  those of a set to which the successful insertions add and from which the removals take away.
\<close>

theorem handle_lists_are_sets:
  assumes "distinct (map pub_packet_id (pub_list s))" "distinct (map sub_topic (sub_list s))"
    "distinct (map fst (process_data_list s))"
  shows "wp (run_ops publist_put publist_remove pub_ops) (\<lambda>rs t. distinct (map pub_packet_id (pub_list t))
      \<and> set (map pub_packet_id (pub_list t)) = spec_ops pub_ops rs (set (map pub_packet_id (pub_list s)))) s
    \<and> wp (run_ops sublist_put sublist_remove sub_ops) (\<lambda>rs t. distinct (map sub_topic (sub_list t))
      \<and> set (map sub_topic (sub_list t)) = spec_ops sub_ops rs (set (map sub_topic (sub_list s)))) s
    \<and> wp (run_ops process_datalist_insert process_datalist_remove process_ops)
      (\<lambda>rs t. distinct (map fst (process_data_list t))
      \<and> set (map fst (process_data_list t)) = spec_ops process_ops rs (set (map fst (process_data_list s)))) s"
  by (rule conjI, rule wp_mono [OF publist.run_ops_refines [OF assms(1)]], simp, rule conjI,
      rule wp_mono [OF sublist.run_ops_refines [OF assms(2)]], simp,
      rule wp_mono [OF processlist.run_ops_refines [OF assms(3)]], simp)

theorem handle_lists_are_sets_witness:
  "wp (run_ops publist_put publist_remove [Put 7 [1], Put 7 [2], Put 8 [3], Drop 7])
     (\<lambda>rs t. set (map pub_packet_id (pub_list t)) = {8})
     (demo_handle (demo_port (\<lambda>_. True) (\<lambda>_. 0) (\<lambda>_. (0, []))))"
proof -
  let ?s = "demo_handle (demo_port (\<lambda>_. True) (\<lambda>_. 0) (\<lambda>_. (0, [])))"
  let ?ops = "[Put 7 [1], Put 7 [2], Put 8 [3], Drop 7] :: (16 word, byte list) list_op list"
  have run: "wp (run_ops publist_put publist_remove ?ops)
      (\<lambda>rs t. rs = [0, STATE_MQTT_PUBLIST_PACKET_ID_ROLL, 0, 0]) ?s"
    by (simp add: publist_put_def publist_insert_def publist_remove_def eval_basic cong: eval_congs)
  have fresh: "distinct (map pub_packet_id (pub_list ?s))" "distinct (map sub_topic (sub_list ?s))"
    "distinct (map fst (process_data_list ?s))" by simp_all
  have last: "spec_ops ?ops [0, STATE_MQTT_PUBLIST_PACKET_ID_ROLL, 0, 0] (set (map pub_packet_id (pub_list ?s))) = {8}"
    by auto
  show ?thesis
    by (rule wp_mono [OF wp_conj [OF run conjunct1 [OF handle_lists_are_sets [OF fresh, of ?ops]]]])
      (use last in simp)
qed

end
