(* ===== verification/Mqtt_Reach.thy ===== *)
theory Mqtt_Reach
  imports Mqtt_Safety Mqtt_Calls
begin

text \<open>
  What the walk over the routines gives for a user of the interface: the calls as data, the states
  they reach from \<^verbatim>\<open>aiot_mqtt_init\<close>, the invariant of those states, the order of the events
  and the count of running calls, which only a subscription that runs out of memory leaves behind.
\<close>

section \<open>A subscription\<close>

text \<open>The first half of \<^verbatim>\<open>_core_mqtt_sub\<close>, up to the stored subscription.\<close>

definition sub_store :: "byte list \<Rightarrow> nat option \<Rightarrow> nat \<Rightarrow> int mqtt_m" where
  "sub_store topic handler ud = do {
     exec_inc;
     core_logn STATE_MQTT_LOG_TOPIC (str ''sub: %.*s'' @ [13, 10])
       [LUint (of_nat (length topic)), LStr (Some topic)];
     mutex_lock Sub_mutex;
     res \<leftarrow> sublist_insert topic handler ud;
     mutex_unlock Sub_mutex;
     ret res
   }"

definition sub_checks :: "mqtt \<Rightarrow> byte list \<Rightarrow> nat \<Rightarrow> int" where
  "sub_checks s topic qos =
     (if topic = [] \<or> qos > 1 then STATE_USER_INPUT_OUT_RANGE
      else if topic_is_valid topic < STATE_SUCCESS then STATE_MQTT_TOPIC_INVALID
      else if \<not> exec_enabled s then STATE_USER_INPUT_EXEC_DISABLED
      else STATE_SUCCESS)"

lemma sub_codes: "STATE_USER_INPUT_OUT_RANGE < STATE_SUCCESS" "STATE_MQTT_TOPIC_INVALID < STATE_SUCCESS"
  "STATE_USER_INPUT_EXEC_DISABLED < STATE_SUCCESS"
  by simp_all

lemma core_mqtt_sub_split:
  "core_mqtt_sub topic handler qos ud prop = do {
     s \<leftarrow> State_Monad.get;
     if sub_checks s topic qos < STATE_SUCCESS then ret (sub_checks s topic qos)
     else do {
       res \<leftarrow> sub_store topic handler ud;
       if res < STATE_SUCCESS then ret res
       else do {
         res \<leftarrow> core_mqtt_subunsub topic qos True (Some (user_general_property prop));
         exec_dec;
         ret res
       }
     }
   }"
  unfolding core_mqtt_sub_def
  by (rule arg_cong [where f = "State_Monad.bind State_Monad.get"], rule ext)
    (simp add: sub_store_def sub_checks_def)

text \<open>A subscription is balanced, or it failed and left one call counted.\<close>

definition leak_post :: "mqtt_event list \<Rightarrow> bool \<times> bool \<Rightarrow> 32 word \<Rightarrow> int \<Rightarrow> mqtt \<Rightarrow> bool" where
  "leak_post pre q n r t \<longleftrightarrow> client_inv pre q t \<and> held t = []
     \<and> (exec_count t = n \<or> r < STATE_SUCCESS \<and> exec_count t = n + 1)"

lemma disc_sub_store:
  "topic_is_valid topic = STATE_SUCCESS \<Longrightarrow> length topic < 128 \<Longrightarrow>
   disc [] e (sub_store topic handler ud) [] (Suc e)"
  unfolding sub_store_def by (rule disc_rules | assumption | simp; fail)+

lemma disc_leak:
  "disc [] 0 m [] 0 \<Longrightarrow> client_inv pre q s \<Longrightarrow> held s = [] \<Longrightarrow> wp m (leak_post pre q (exec_count s)) s"
  by (drule discD [where base = "exec_count s"]) (auto simp: leak_post_def elim: wp_mono)

lemma core_sub_leak:
  assumes "length topic < 128" "client_inv pre q s" "held s = []"
  shows "wp (core_mqtt_sub topic handler qos ud prop) (leak_post pre q (exec_count s)) s"
proof (cases "sub_checks s topic qos < STATE_SUCCESS")
  case True
  with assms show ?thesis by (simp add: core_mqtt_sub_split leak_post_def)
next
  case False
  then have valid: "topic_is_valid topic = STATE_SUCCESS"
    using topic_is_valid_nonneg by (auto simp: sub_checks_def split: if_splits)
  note store = discD [OF disc_sub_store [OF valid assms(1), of 0] assms(2,3), where base = "exec_count s"]
  have rest: "disc [] (Suc 0) (do { res \<leftarrow> core_mqtt_subunsub topic qos True (Some (user_general_property prop));
         exec_dec; ret res }) [] 0"
    by (rule disc_rules)+
  have last: "wp (do { res \<leftarrow> core_mqtt_subunsub topic qos True (Some (user_general_property prop));
         exec_dec; ret res }) (leak_post pre q (exec_count s)) t"
    if "client_inv pre q t \<and> held t = [] \<and> exec_count t = exec_count s + of_nat (Suc 0)" for t
    using that
    by (intro wp_mono [OF discD [OF rest, where base = "exec_count s"]]) (auto simp: leak_post_def)
  show ?thesis
    unfolding core_mqtt_sub_split wp_bind [of State_Monad.get] wp_get if_not_P [OF False]
      wp_bind [of "sub_store topic handler ud"]
    by (rule wp_mono [OF store]) (auto simp: wp_if leak_post_def intro: last simp del: wp_bind)
qed

section \<open>Destroying a handle\<close>

lemma disc_deinit_wait [disc_rules]: "disc H e (deinit_wait fuel t) H e"
  by (induction fuel) (simp_all, (rule disc_rules | assumption)+)

lemma global_quiet: "keeps aspect core_global_deinit"
  unfolding core_global_deinit_def
  by (intro keeps_rules quiet_modify; simp add: aspect_def)

lemma disc_deinit [disc_rules]: "disc [] e (aiot_mqtt_deinit fuel) [] e"
  unfolding aiot_mqtt_deinit_def handle_free_def free_option_def
  by (rule disc_rules disc_modify global_quiet [THEN disc_quiet] | simp add: parts_def; fail)+

section \<open>What a call leaves behind\<close>

fun sets_event_handler :: "api \<Rightarrow> bool" where
  "sets_event_handler (Api_setopt (Some (Mo_event_handler h))) = True"
| "sets_event_handler c = False"

fun subscribes :: "api \<Rightarrow> bool" where
  "subscribes (Api_sub t h qos ud) = True"
| "subscribes (Api_sub_prop t h qos ud prop) = True"
| "subscribes c = False"

lemmas api_disc = disc_setopt disc_core_setopt disc_connect_api disc_disconnect_api disc_process_api disc_get_nwkstats

lemma disc_run_api: "\<not> sets_event_handler c \<Longrightarrow> \<not> subscribes c \<Longrightarrow> disc [] e (run_api c) [] e"
proof (cases c)
  case (Api_setopt opt)
  assume "\<not> sets_event_handler c"
  with Api_setopt have "\<forall>h. opt \<noteq> Some (Mo_event_handler h)" by auto
  then have "disc [] e (aiot_mqtt_setopt opt) [] e" by (rule disc_setopt)
  then show ?thesis by (simp add: Api_setopt disc_bind [OF _ disc_return])
qed (simp_all, (rule disc_rules api_disc)+)

lemma sub_api_leak:
  assumes "client_inv pre q s" "held s = []"
  shows "wp (aiot_mqtt_sub t h qos ud) (leak_post pre q (exec_count s)) s"
    "wp (aiot_mqtt_sub_with_prop t h qos ud prop) (leak_post pre q (exec_count s)) s"
proof -
  have "wp (mqtt_sub_with_prop t h qos ud p) (leak_post pre q (exec_count s)) s" for p
    using assms core_sub_leak
    by (cases t) (simp_all add: mqtt_sub_with_prop_def leak_post_def)
  with assms show "wp (aiot_mqtt_sub t h qos ud) (leak_post pre q (exec_count s)) s"
    "wp (aiot_mqtt_sub_with_prop t h qos ud prop) (leak_post pre q (exec_count s)) s"
    by (simp_all add: aiot_mqtt_sub_def aiot_mqtt_sub_with_prop_def leak_post_def)
qed

lemma run_api_leak:
  assumes "client_inv pre q s" "held s = []" "\<not> sets_event_handler c"
  shows "wp (run_api c) (\<lambda>r t. client_inv pre q t \<and> held t = []
    \<and> (exec_count t = exec_count s
      \<or> subscribes c \<and> (\<exists>code. r = Some code \<and> code < STATE_SUCCESS) \<and> exec_count t = exec_count s + 1)) s"
proof (cases "subscribes c")
  case False
  show ?thesis
    by (rule wp_mono [OF discD [OF disc_run_api [OF assms(3) False, of 0] assms(1,2), where base = "exec_count s"]])
      auto
next
  case True
  then show ?thesis
    using wp_mono [OF sub_api_leak(1) [OF assms(1,2)]] wp_mono [OF sub_api_leak(2) [OF assms(1,2)]]
    by (cases c) (auto simp: leak_post_def)
qed

section \<open>Steps and reachable states\<close>

text \<open>
  Between two calls the application may use the rest of the SDK: the world changes, but not what
  belongs to the handle.
\<close>

datatype label = Call api "int option" | Outside

inductive client_step :: "mqtt \<Rightarrow> label \<Rightarrow> mqtt \<Rightarrow> bool" where
  call: "run_state (run_api c) s = (r, t) \<Longrightarrow> client_step s (Call c r) t"
| outside: "aspect t = aspect s \<Longrightarrow> client_step s Outside t"

inductive_cases client_step_callE: "client_step s (Call c r) t"
inductive_simps client_step_outside: "client_step s Outside t"

inductive client_run :: "mqtt \<Rightarrow> label list \<Rightarrow> mqtt \<Rightarrow> bool" where
  empty: "client_run s [] s"
| snoc: "client_run s ls t \<Longrightarrow> client_step t l u \<Longrightarrow> client_run s (ls @ [l]) u"

inductive reachable :: "mqtt \<Rightarrow> bool" where
  init: "run_state aiot_mqtt_init w = (Some s, w') \<Longrightarrow> held w = [] \<Longrightarrow> lock_ok w \<Longrightarrow> reachable s"
| step: "reachable s \<Longrightarrow> client_step s l t \<Longrightarrow> reachable t"

fun keeps_event_handler :: "label \<Rightarrow> bool" where
  "keeps_event_handler (Call c r) \<longleftrightarrow> \<not> sets_event_handler c"
| "keeps_event_handler Outside \<longleftrightarrow> True"

lemma client_inv_here:
  "client_inv (events (trace s)) (has_connected s, disconnected s) s \<longleftrightarrow> lock_ok s \<and> lists_ok s"
  by (auto simp: client_inv_def events_ok_def)

lemma set_handler_run:
  assumes "run_state (run_api (Api_setopt (Some (Mo_event_handler h)))) s = (r, t)" "held s = []"
  shows "held t = [] \<and> lock_ok t = lock_ok s \<and> lists_ok t = lists_ok s \<and> exec_count t = exec_count s"
proof -
  have "wp (run_api (Api_setopt (Some (Mo_event_handler h)))) (\<lambda>r t. held t = [] \<and> lock_ok t = lock_ok s
    \<and> lists_ok t = lists_ok s \<and> exec_count t = exec_count s) s"
    using assms(2) by (simp add: aiot_mqtt_setopt_def exec_inc_def exec_dec_def setopt_switch_def
        set_value_def run_simps lists_ok_def)
  from wp_run [OF this assms(1)] show ?thesis .
qed

lemma call_keeps:
  assumes "held s = []" "lock_ok s" "lists_ok s" "run_state (run_api c) s = (r, t)"
  shows "held t = [] \<and> lock_ok t \<and> lists_ok t \<and> (exec_count t = exec_count s
      \<or> subscribes c \<and> (\<exists>code. r = Some code \<and> code < STATE_SUCCESS) \<and> exec_count t = exec_count s + 1)"
proof (cases "sets_event_handler c")
  case True
  then obtain h where "c = Api_setopt (Some (Mo_event_handler h))"
    by (elim sets_event_handler.elims) auto
  with set_handler_run assms show ?thesis by blast
next
  case False
  have "client_inv (events (trace s)) (has_connected s, disconnected s) s"
    using assms by (simp add: client_inv_here)
  from wp_run [OF run_api_leak [OF this assms(1) False] assms(4)] show ?thesis
    by (auto simp: client_inv_def)
qed

lemma init_run:
  assumes "run_state aiot_mqtt_init w = (Some s, w')" "held w = []" "lock_ok w"
  shows "held s = [] \<and> lock_ok s \<and> lists_ok s \<and> exec_enabled s \<and> exec_count s = 0"
proof -
  have "wp aiot_mqtt_init (\<lambda>r _. \<forall>s. r = Some s \<longrightarrow>
      held s = [] \<and> lock_ok s \<and> lists_ok s \<and> exec_enabled s \<and> exec_count s = 0) w"
    using assms(2,3)
    by (simp add: aiot_mqtt_init_def core_global_init_def core_global_deinit_def run_simps wp_sys_free
        handle_init_def handle_zero_def
        world.defs mqtt.defs lists_ok_def sub_ok_def pub_ok_def)
  from wp_run [OF this assms(1)] show ?thesis by blast
qed

lemma reachable_inv: "reachable s \<Longrightarrow> held s = [] \<and> lock_ok s \<and> lists_ok s"
proof (induction rule: reachable.induct)
  case (init w s w')
  then show ?case using init_run by blast
next
  case (step s l t)
  from step.hyps(2) show ?case
  proof cases
    case (call c r)
    with step.IH call_keeps show ?thesis by blast
  next
    case outside
    from aspect_cong [OF this(2)] step.IH show ?thesis
      using client_inv_here by (metis client_inv_def)
  qed
qed

lemma client_run_inv:
  "client_run s ls t \<Longrightarrow> client_inv pre q s \<Longrightarrow> held s = [] \<Longrightarrow> \<forall>l \<in> set ls. keeps_event_handler l \<Longrightarrow>
   client_inv pre q t \<and> held t = []"
proof (induction rule: client_run.induct)
  case (empty s)
  then show ?case by simp
next
  case (snoc s ls t l u)
  then have t: "client_inv pre q t" "held t = []" and l: "keeps_event_handler l" by auto
  from snoc.hyps(2) show ?case
  proof cases
    case (call c r)
    with l have "\<not> sets_event_handler c" by simp
    from wp_run [OF run_api_leak [OF t this] call(2)] show ?thesis by blast
  next
    case outside
    from aspect_cong [OF this(2)] t show ?thesis by simp
  qed
qed

text \<open>Sequences of calls stay among the reachable states.\<close>

lemma client_run_trans: "client_run t ls u \<Longrightarrow> client_run s ks t \<Longrightarrow> client_run s (ks @ ls) u"
  by (induction rule: client_run.induct) (auto simp flip: append_assoc intro: client_run.snoc)

lemma run_apis_steps:
  "wp (run_apis cs) (\<lambda>rs t. length rs = length cs \<and> client_run s (map2 Call cs rs) t
     \<and> (reachable s \<longrightarrow> reachable t)) s"
proof (induction cs arbitrary: s)
  case (Cons c cs)
  show ?case
  proof (simp add: wp_def split: prod.split, intro allI impI)
    fix r t rs u
    assume r: "run_state (run_api c) s = (r, t)" and rs: "run_state (run_apis cs) t = (rs, u)"
    have c: "client_step s (Call c r) t" by (rule client_step.call [OF r])
    have one: "client_run s [Call c r] t" using client_run.snoc [OF client_run.empty c] by simp
    from Cons.IH [of t] rs
    have rest: "length rs = length cs" "client_run t (map2 Call cs rs) u" "reachable t \<longrightarrow> reachable u"
      by (auto simp: wp_def)
    from client_run_trans [OF rest(2) one] rest c
    show "length rs = length cs \<and> client_run s (Call c r # map2 Call cs rs) u \<and> (reachable s \<longrightarrow> reachable u)"
      by (auto intro: reachable.step)
  qed
qed (simp add: client_run.empty)

lemma run_apis_append:
  "run_apis (cs @ ds) = do { rs \<leftarrow> run_apis cs; rs' \<leftarrow> run_apis ds; ret (rs @ rs') }"
  by (induction cs) simp_all

lemma demo_reachable: "m 0 \<Longrightarrow> reachable (demo_handle (demo_port m s r))"
  using reachable.init [of "world_0 (demo_port m s r)"] demo_handle_init [of m s r]
  by (cases "run_state aiot_mqtt_init (world_0 (demo_port m s r))") (auto simp: world_0_def)

section \<open>What a user can rely on\<close>

text \<open>
  C1: whatever calls of the interface an application makes on a handle it got from
  \<^verbatim>\<open>aiot_mqtt_init\<close>, after each of them every mutex has been given back, no mutex was ever
  taken against the fixed order or released without being held, the keys of the lists of the handle
  are distinct, no unacknowledged publish has the packet identifier zero, every subscription is a
  valid filter of fewer than 128 bytes, and the counters of flow control and reconnection are in
  their ranges.
\<close>

theorem reachable_client_inv:
  assumes "reachable s"
  shows "held s = [] \<and> lock_ok s
    \<and> distinct (map sub_topic (sub_list s))
    \<and> (\<forall>n \<in> set (sub_list s). topic_is_valid (sub_topic n) = STATE_SUCCESS \<and> length (sub_topic n) < 128
         \<and> distinct (map fst (sub_handlers n)))
    \<and> distinct (map pub_packet_id (pub_list s)) \<and> 0 \<notin> set (map pub_packet_id (pub_list s))
    \<and> distinct (map fst (process_data_list s))
    \<and> distinct (map fst (rx_topic_alias_list s)) \<and> distinct (map fst (tx_topic_alias_list s))
    \<and> server_receive_max s \<le> 10 \<and> rc_counter s \<le> 60 \<and> (disconnected s \<longrightarrow> has_connected s)"
  using reachable_inv [OF assms] unfolding lists_ok_def sub_ok_def pub_ok_def by blast

theorem reachable_client_inv_witness:
  "wp (run_apis (demo_options @ [Api_connect]))
     (\<lambda>_ t. network_handle t \<and> held t = [] \<and> lock_ok t \<and> distinct (map sub_topic (sub_list t))) demo_client"
  by (rule wp_mono [OF wp_conj [OF demo_connects run_apis_steps]])
    (use reachable_client_inv demo_reachable in \<open>auto simp: demo_client_def\<close>)

text \<open>
  C4: as long as no call replaces the event handler, the events it gets follow the connection
  automaton: the first connection is reported once, a reconnection only after a connection, a loss
  only while connected and once per loss.
\<close>

theorem events_follow_automaton:
  assumes "reachable s" "client_run s ls t" "\<forall>l \<in> set ls. keeps_event_handler l"
    and "event_handler t \<noteq> None"
  shows "\<exists>es. events (trace t) = events (trace s) @ es
    \<and> event_run (has_connected s, disconnected s) es = Some (has_connected t, disconnected t)"
proof -
  have "client_inv (events (trace s)) (has_connected s, disconnected s) s"
    using reachable_inv [OF assms(1)] by (simp add: client_inv_here)
  from client_run_inv [OF assms(2) this _ assms(3)] reachable_inv [OF assms(1)] assms(4)
  show ?thesis by (auto simp: client_inv_def events_ok_def)
qed

theorem events_follow_automaton_witness:
  "wp (run_apis demo_options) (\<lambda>_ s. wp (run_api Api_connect) (\<lambda>_ t.
     \<exists>es. events (trace t) = events (trace s) @ es
       \<and> event_run (has_connected s, disconnected s) es = Some (has_connected t, disconnected t)
       \<and> es \<noteq> []) s) demo_client"
proof -
  have start: "reachable demo_client" by (simp add: demo_client_def demo_reachable)
  have "wp (run_apis demo_options) (\<lambda>_ s. \<not> has_connected s) demo_client"
    by (simp add: demo_client_def demo_options_def eval_basic eval_setopt cong: eval_congs)
  note opts = wp_conj [OF this wp_conj [OF run_apis_steps demo_connects [unfolded run_apis_append wp_bind [of "run_apis demo_options"]]]]
  have es: "es \<noteq> []" if "event_run (False, d) es = Some (True, d')" for d d' es using that by auto
  have last: "wp (run_api Api_connect) (\<lambda>_ t. \<exists>es. events (trace t) = events (trace s) @ es
       \<and> event_run (has_connected s, disconnected s) es = Some (has_connected t, disconnected t)
       \<and> es \<noteq> []) s"
    if s: "reachable s" "\<not> has_connected s"
      and conn: "wp (run_api Api_connect) (\<lambda>_ t. event_handler t \<noteq> None \<and> has_connected t) s" for s
  proof -
    obtain r t where r: "run_state (run_api Api_connect) s = (r, t)" by fastforce
    from wp_run [OF conn this] have t: "event_handler t \<noteq> None" "has_connected t" by auto
    have "client_run s [Call Api_connect r] t"
      using client_run.snoc [OF client_run.empty client_step.call [OF r]] by simp
    from events_follow_automaton [OF s(1) this _ t(1)] s(2) t(2) es r
    show ?thesis by (fastforce simp: wp_def)
  qed
  show ?thesis
    by (rule wp_mono [OF opts], rule last) (use start in \<open>auto elim: wp_mono\<close>)
qed

text \<open>
  C5: every call gives back its count of running calls, with one exception: a subscription that
  fails may leave it one higher.
\<close>

theorem calls_are_counted:
  assumes "reachable s" "run_state (run_api c) s = (r, t)"
  shows "exec_count t = exec_count s
    \<or> subscribes c \<and> (\<exists>code. r = Some code \<and> code < STATE_SUCCESS) \<and> exec_count t = exec_count s + 1"
  using call_keeps [OF _ _ _ assms(2)] reachable_inv [OF assms(1)] by blast


theorem calls_are_counted_witness:
  "wp (run_api (Api_unsub (Some (str ''/a'')))) (\<lambda>_ t. exec_count t = 0) demo_client"
  using calls_are_counted [of demo_client "Api_unsub (Some (str ''/a''))"]
  by (simp add: wp_def demo_reachable demo_client_def split: prod.split)

section \<open>The end of a handle\<close>

lemma deinit_wait_frame: "keeps (\<lambda>s. (live s, world.more s)) (deinit_wait fuel t)"
proof (induction fuel)
  case (Suc fuel)
  have "keeps (\<lambda>s. (live s, world.more s)) (sys_sleep ms)" "keeps (\<lambda>s. (live s, world.more s)) sys_time" for ms
    unfolding sys_sleep_def sys_time_def emit_def
    by (auto intro: keepsI keeps_modify simp: ask_def)
  then show ?case by (simp, intro keeps_rules Suc)
qed (simp add: keeps_return)

lemma deinit_wait_busy:
  "wp (deinit_wait fuel t0) (\<lambda>_ t. live t = live s \<and> world.more t = world.more s) s"
  using wp_keeps [OF deinit_wait_frame [of fuel t0], of s] by simp

text \<open>What the destruction does after the wait.\<close>

definition deinit_end :: "unit option \<Rightarrow> (int option) mqtt_m" where
  "deinit_end waited = (case waited of
     None \<Rightarrow> ret None
   | Some _ \<Rightarrow> do {
       s \<leftarrow> State_Monad.get;
       if exec_count s \<noteq> 0 then ret (Some STATE_MQTT_DEINIT_TIMEOUT)
       else do {
         topic_alias_list_remove_all;
         process_data_process True;
         handle_free;
         ret (Some STATE_SUCCESS)
       }
     })"

lemma deinit_split:
  "aiot_mqtt_deinit fuel = do {
     s \<leftarrow> State_Monad.get;
     if \<not> exec_enabled s then ret (Some STATE_USER_INPUT_EXEC_DISABLED)
     else do {
       modify (\<lambda>s. s\<lparr>exec_enabled := False\<rparr>);
       t \<leftarrow> sys_time;
       waited \<leftarrow> deinit_wait fuel t;
       deinit_end waited
     }
   }"
  by (simp only: aiot_mqtt_deinit_def deinit_end_def)

definition deinit_refused :: "mqtt \<Rightarrow> int option \<Rightarrow> mqtt \<Rightarrow> bool" where
  "deinit_refused s r t \<longleftrightarrow>
     (if exec_enabled s then r = None \<or> r = Some STATE_MQTT_DEINIT_TIMEOUT
      else r = Some STATE_USER_INPUT_EXEC_DISABLED)
     \<and> live t = live s \<and> network_handle t = network_handle s \<and> sub_list t = sub_list s
     \<and> pub_list t = pub_list s \<and> process_data_list t = process_data_list s
     \<and> exec_count t = exec_count s \<and> \<not> exec_enabled t"

lemma deinit_busy:
  assumes "exec_count s \<noteq> 0"
  shows "wp (aiot_mqtt_deinit fuel) (deinit_refused s) s"
proof (cases "exec_enabled s")
  case True
  define u where "u = s\<lparr>exec_enabled := False, tick := tick s + 1\<rparr>"
  have "wp (deinit_end r) (deinit_refused s) t" if "live t = live u \<and> world.more t = world.more u" for r t
  proof -
    from that have more: "world.more t = world.more u" by simp
    have "network_handle t = network_handle u" "exec_enabled t = exec_enabled u"
      using more by (cases t, cases u, simp)+
    with that more_fields [OF more] assms True show ?thesis
      by (cases r) (simp_all add: deinit_end_def deinit_refused_def u_def)
  qed
  then show ?thesis
    using True wp_mono [OF deinit_wait_busy [where s = u]] by (simp add: deinit_split run_simps u_def)
qed (simp add: aiot_mqtt_deinit_def deinit_refused_def)

text \<open>
  C6: a handle on which calls are running is not freed: the destruction gives up with a timeout
  (or \<^verbatim>\<open>EXEC_DISABLED\<close> when it was tried before), leaves the network and every list as they
  were and gives no memory back, and from then on the handle refuses calls.
\<close>

theorem deinit_waits_for_calls:
  assumes "exec_count s \<noteq> 0"
  shows "case run_state (aiot_mqtt_deinit fuel) s of (r, t) \<Rightarrow>
    r \<in> {None, Some STATE_MQTT_DEINIT_TIMEOUT, Some STATE_USER_INPUT_EXEC_DISABLED}
    \<and> live t = live s \<and> network_handle t = network_handle s \<and> sub_list t = sub_list s
    \<and> pub_list t = pub_list s \<and> process_data_list t = process_data_list s
    \<and> exec_count t = exec_count s \<and> \<not> exec_enabled t"
  using deinit_busy [OF assms, of fuel] by (auto simp: wp_def deinit_refused_def split: if_splits)

theorem deinit_waits_for_calls_witness:
  "fst (run_state (aiot_mqtt_deinit 3) (demo_client\<lparr>exec_count := 1\<rparr>))
     \<in> {None, Some STATE_MQTT_DEINIT_TIMEOUT, Some STATE_USER_INPUT_EXEC_DISABLED}"
  using deinit_waits_for_calls [of "demo_client\<lparr>exec_count := 1\<rparr>" 3] by (simp add: split_beta)

lemma deinit_wait_returns:
  assumes "exec_count s = 0 \<and> 0 < fuel
    \<or> (\<exists>n < fuel. p_time (port s) (tick s + n) - t0 \<ge> ucast (deinit_timeout_ms s))"
  shows "wp (deinit_wait fuel t0) (\<lambda>r _. r \<noteq> None) s"
  using assms
proof (induction fuel arbitrary: s)
  case (Suc fuel)
  show ?case
  proof (cases "exec_count s = 0 \<or> p_time (port s) (tick s) - t0 \<ge> ucast (deinit_timeout_ms s)")
    case True
    then show ?thesis by (auto simp: sys_sleep_def run_simps)
  next
    case False
    with Suc.prems obtain n where n: "n < Suc fuel"
      "p_time (port s) (tick s + n) - t0 \<ge> ucast (deinit_timeout_ms s)" by auto
    with False obtain m where "n = Suc m" by (cases n) auto
    with n have "\<exists>m < fuel. p_time (port s) (Suc (tick s) + m) - t0 \<ge> ucast (deinit_timeout_ms s)" by auto
    with False show ?thesis
      using Suc.IH [of "s\<lparr>trace := trace s @ [Sleep 100], tick := Suc (tick s)\<rparr>"]
      by (simp add: sys_sleep_def run_simps)
  qed
qed simp

text \<open>
  C33: the destruction ends: at once when no call is running, otherwise at the latest when the clock
  shows that the timeout has passed; as many rounds as the clock was asked are enough.
\<close>

theorem deinit_returns:
  assumes "exec_count s = 0 \<and> 0 < fuel
    \<or> (\<exists>n < fuel. p_time (port s) (tick s + 1 + n) - p_time (port s) (tick s) \<ge> ucast (deinit_timeout_ms s))"
  shows "fst (run_state (aiot_mqtt_deinit fuel) s) \<noteq> None"
proof -
  have last: "wp (deinit_end r) (\<lambda>r _. r \<noteq> None) t" if "r \<noteq> None" for r t
  proof -
    have "wp m (\<lambda>_ _. True) t" for m :: "unit mqtt_m" and t by (simp add: wp_def split_beta)
    from wp_mono [OF this] show ?thesis using that by (auto simp: deinit_end_def)
  qed
  let ?u = "s\<lparr>exec_enabled := False, tick := tick s + 1\<rparr>"
  have "wp (deinit_wait fuel (p_time (port s) (tick s))) (\<lambda>r _. r \<noteq> None) ?u"
    using assms by (intro deinit_wait_returns) simp
  from wp_mono [OF this last] have "wp (aiot_mqtt_deinit fuel) (\<lambda>r _. r \<noteq> None) s"
    by (simp add: deinit_split run_simps)
  then show ?thesis by (simp add: wp_def split_beta)
qed

theorem deinit_returns_witness:
  "fst (run_state (aiot_mqtt_deinit 2001) (demo_client\<lparr>exec_count := 1\<rparr>)) \<noteq> None"
  by (rule deinit_returns) (rule disjI2, rule exI [of _ 2000], simp add: demo_client_def)

section \<open>A subscription that runs out of memory\<close>

lemma log_monotone:
  "preserves (\<lambda>s :: 'a world_scheme. port s = p \<and> k \<le> tick s \<and> world.more s = x) (core_logn c fmt ds)"
proof -
  let ?I = "\<lambda>s :: 'a world_scheme. port s = p \<and> k \<le> tick s \<and> world.more s = x"
  have time: "preserves ?I sys_time" by (rule preservesI) (simp add: run_simps)
  have malloc: "preserves ?I sys_malloc" "preserves ?I sys_free"
    by (rule preservesI, simp add: run_simps)+
  have spr: "preserves ?I (core_sprintf f a)" for f a
    unfolding core_sprintf_def lift_outcome_def fault_def
    by (intro pres_rules malloc pres_modify) simp_all
  have "preserves ?I (core_log_append_prefix c)"
    unfolding core_log_append_prefix_def core_log_append_date_def core_log_get_timestamp_def
    by (intro pres_rules time spr malloc pres_modify) simp_all
  then show ?thesis
    unfolding core_logn_def emit_def by (intro pres_rules pres_modify) simp_all
qed

lemma log_frame:
  "wp (core_logn c fmt ds) (\<lambda>_ t. port t = port s \<and> tick s \<le> tick t \<and> world.more t = world.more s) s"
  using preservesD [OF log_monotone, of s "port s" "tick s" "world.more s" c fmt ds]
  by (simp add: wp_def split_beta)

text \<open>The state in which the subscription asks for the memory of its node: after its log line.\<close>

definition sub_logged :: "byte list \<Rightarrow> mqtt \<Rightarrow> mqtt" where
  "sub_logged topic s = snd (run_state (do {
     exec_inc;
     core_logn STATE_MQTT_LOG_TOPIC (str ''sub: %.*s'' @ [13, 10])
       [LUint (of_nat (length topic)), LStr (Some topic)] }) s)"

lemma sub_logged_frame:
  "port (sub_logged topic s) = port s \<and> sub_list (sub_logged topic s) = sub_list s
   \<and> exec_count (sub_logged topic s) = exec_count s + 1"
proof -
  have log: "wp (core_logn c fmt ds) (\<lambda>_ t. port t = port u \<and> sub_list t = sub_list u
      \<and> exec_count t = exec_count u) u" for c fmt ds and u :: mqtt
  proof (rule wp_mono [OF log_frame])
    fix t :: mqtt assume "port t = port u \<and> tick u \<le> tick t \<and> world.more t = world.more u"
    then show "port t = port u \<and> sub_list t = sub_list u \<and> exec_count t = exec_count u"
      using more_fields [of t u] by blast
  qed
  have "wp (do { exec_inc; core_logn STATE_MQTT_LOG_TOPIC (str ''sub: %.*s'' @ [13, 10])
       [LUint (of_nat (length topic)), LStr (Some topic)] })
    (\<lambda>_ t. port t = port s \<and> sub_list t = sub_list s \<and> exec_count t = exec_count s + 1) s"
    unfolding wp_bind exec_inc_def wp_modify wp_lock
    by (rule wp_mono [OF log]) simp
  then show ?thesis by (simp add: sub_logged_def wp_def split_beta)
qed

lemma sub_store_fails:
  assumes "topic \<notin> set (sub_keys s)" "\<not> p_malloc (port s) (tick (sub_logged topic s))"
  shows "wp (sub_store topic handler ud) (\<lambda>r t. r = STATE_SYS_DEPEND_MALLOC_FAILED
    \<and> exec_count t = exec_count s + 1) s"
proof -
  let ?u = "sub_logged topic s"
  have u: "split_first (\<lambda>n. sub_topic n = topic) (sub_list ?u) = None" "\<not> p_malloc (port ?u) (tick ?u)"
    "exec_count ?u = exec_count s + 1"
    using assms sub_logged_frame [of topic s] by (auto simp: split_first_None)
  have "wp (sub_store topic handler ud) Q s = wp (do { mutex_lock Sub_mutex;
      res \<leftarrow> sublist_insert topic handler ud; mutex_unlock Sub_mutex; ret res }) Q ?u" for Q
    unfolding sub_store_def sub_logged_def by (simp add: wp_def split_beta)
  with u show ?thesis by (simp add: sublist_insert_def run_simps)
qed

text \<open>A count that is not zero stays so, until so many calls were made that it wraps.\<close>

lemma count_stays:
  assumes "client_run s ls t" "held s = []" "lock_ok s" "lists_ok s"
  shows "held t = [] \<and> lock_ok t \<and> lists_ok t
    \<and> (unat (exec_count s) + length ls < 2 ^ 32 \<longrightarrow> unat (exec_count s) \<le> unat (exec_count t)
        \<and> unat (exec_count t) \<le> unat (exec_count s) + length ls)"
  using assms
proof (induction rule: client_run.induct)
  case (snoc s ls t l u)
  then have t: "held t = []" "lock_ok t" "lists_ok t" by auto
  from snoc.hyps(2) have u: "held u = [] \<and> lock_ok u \<and> lists_ok u
      \<and> (exec_count u = exec_count t \<or> exec_count u = exec_count t + 1)"
  proof cases
    case (call c r)
    from call_keeps [OF t call(2)] show ?thesis by blast
  next
    case outside
    from aspect_cong [OF this(2)] t show ?thesis
      using client_inv_here by (metis client_inv_def)
  qed
  have "unat (exec_count t + 1) = unat (exec_count t) + 1" if "unat (exec_count t) + 1 < 2 ^ 32"
    using that by (simp add: unat_word_ariths)
  with u snoc.IH snoc.prems show ?case by auto
qed simp

text \<open>
  C37: a subscription to a new topic that gets no memory for its node fails without giving back its
  count of running calls. From then on the handle can not be destroyed: whatever calls follow, with
  whatever memory they get, an attempt that ends is refused, with the timeout or because an earlier
  attempt has switched the handle off, and leaves the allocations, the subscriptions and a count
  that is not zero (fewer than two to the 32 calls, for then the count may wrap).
\<close>

theorem failed_sub_blocks_deinit:
  assumes "reachable s" "exec_enabled s" "qos \<le> 1" "length topic < 128"
    and "topic_is_valid topic = STATE_SUCCESS" "topic \<notin> set (map sub_topic (sub_list s))"
    and "\<not> p_malloc (port s) (tick (sub_logged topic s))"
    and "run_state (aiot_mqtt_sub (Some topic) handler qos ud) s = (r, t)"
    and "client_run t ls u" "unat (exec_count s) + 1 + length ls < 2 ^ 32"
  shows "r = STATE_SYS_DEPEND_MALLOC_FAILED \<and> exec_count t = exec_count s + 1
    \<and> (case run_state (aiot_mqtt_deinit fuel) u of (q, v) \<Rightarrow>
        q \<in> {None, Some STATE_MQTT_DEINIT_TIMEOUT, Some STATE_USER_INPUT_EXEC_DISABLED}
        \<and> live v = live u \<and> sub_list v = sub_list u \<and> exec_count v \<noteq> 0)"
proof -
  have "topic \<noteq> []" using assms(5) by (auto simp: topic_is_valid_def)
  then have checks: "sub_checks s topic qos = STATE_SUCCESS"
    using assms by (simp add: sub_checks_def)
  have "wp (aiot_mqtt_sub (Some topic) handler qos ud) (\<lambda>r t. r = STATE_SYS_DEPEND_MALLOC_FAILED
      \<and> exec_count t = exec_count s + 1) s"
    unfolding aiot_mqtt_sub_def mqtt_sub_with_prop_def option.case core_mqtt_sub_split
    using assms(4) checks
    by (simp, intro wp_mono [OF sub_store_fails [OF assms(6,7)]]) simp
  from wp_run [OF this assms(8)] have r: "r = STATE_SYS_DEPEND_MALLOC_FAILED"
    and t: "exec_count t = exec_count s + 1" by auto
  have "client_step s (Call (Api_sub (Some topic) handler qos ud) (Some r)) t"
    using assms(8) by (intro client_step.call) simp
  with assms(1) have "reachable t" by (rule reachable.step)
  note inv = reachable_inv [OF this]
  have one: "unat (exec_count t) = unat (exec_count s) + 1"
    using assms(10) t by (simp add: unat_word_ariths)
  with count_stays [OF assms(9)] inv assms(10) have "unat (exec_count u) \<noteq> 0" by auto
  then have busy: "exec_count u \<noteq> 0" by auto
  from deinit_busy [OF this, of fuel] r t busy show ?thesis
    by (auto simp: wp_def deinit_refused_def split: if_splits)
qed

theorem failed_sub_blocks_deinit_witness:
  "\<exists>t. run_state (aiot_mqtt_sub (Some (str ''/a'')) (Some 7) 1 0)
       (demo_handle (demo_port (\<lambda>n. n \<noteq> 2) (\<lambda>_. 0) (\<lambda>_. (0, [])))) = (STATE_SYS_DEPEND_MALLOC_FAILED, t)
     \<and> (\<forall>ls u. client_run t ls u \<and> length ls < 1000
         \<longrightarrow> fst (run_state (aiot_mqtt_deinit 30) u) \<noteq> Some STATE_SUCCESS)"
proof -
  let ?s = "demo_handle (demo_port (\<lambda>n. n \<noteq> 2) (\<lambda>_. 0) (\<lambda>_. (0, [])))"
  obtain r t where run: "run_state (aiot_mqtt_sub (Some (str ''/a'')) (Some 7) 1 0) ?s = (r, t)" by fastforce
  have tick: "tick (sub_logged (str ''/a'') ?s) = 2"
  proof -
    have "wp (do { exec_inc; core_logn STATE_MQTT_LOG_TOPIC (str ''sub: %.*s'' @ [13, 10])
       [LUint (of_nat (length (str ''/a''))), LStr (Some (str ''/a''))] }) (\<lambda>_ t. tick t = 2) ?s"
      by (simp add: exec_inc_def core_logn_def run_simps)
    then show ?thesis unfolding sub_logged_def wp_def split_beta .
  qed
  have reach: "reachable ?s" by (rule demo_reachable) simp
  note blocked = failed_sub_blocks_deinit [OF reach, of 1 "str ''/a''", OF _ _ _ _ _ _ run]
  have "r = STATE_SYS_DEPEND_MALLOC_FAILED"
    using blocked [of "[]" t] tick by (simp add: topic_is_valid_def client_run.empty)
  moreover have "fst (run_state (aiot_mqtt_deinit 30) u) \<noteq> Some STATE_SUCCESS"
    if "client_run t ls u" "length ls < 1000" for ls u
    using blocked [of ls u 30] tick that by (auto simp: topic_is_valid_def split_beta)
  ultimately show ?thesis using run by blast
qed

end
