(* ===== verification/Mqtt_Wire.thy ===== *)
theory Mqtt_Wire
  imports Mqtt_Reach
begin

text \<open>
  What goes over the wire and to the handlers: the packets the client sends are framed as MQTT
  asks, a published message comes back as the call of the handlers whose filter matches, no packet
  makes a client of version 3.1.1 read outside its buffer, and publishes wait for their
  acknowledgement.
\<close>

section \<open>What is looked at\<close>

definition received :: "out list \<Rightarrow> (nat \<times> mqtt_packet \<times> nat) list" where
  "received tr = List.map_filter (\<lambda>e. case e of Recv_cb h p ud \<Rightarrow> Some (h, p, ud) | _ \<Rightarrow> None) tr"

definition sent :: "out list \<Rightarrow> byte list list" where
  "sent tr = List.map_filter (\<lambda>e. case e of Net_send pkt \<Rightarrow> Some pkt | _ \<Rightarrow> None) tr"

lemma received_simps [simp]:
  "received [] = []" "received (tr @ tr') = received tr @ received tr'"
  "received (Recv_cb h p ud # tr) = (h, p, ud) # received tr"
  "(\<forall>h p ud. e \<noteq> Recv_cb h p ud) \<Longrightarrow> received (e # tr) = received tr"
  by (auto simp: received_def List.map_filter_def split: out.splits)

lemma sent_simps [simp]:
  "sent [] = []" "sent (tr @ tr') = sent tr @ sent tr'" "sent (Net_send pkt # tr) = pkt # sent tr"
  "(\<forall>pkt. e \<noteq> Net_send pkt) \<Longrightarrow> sent (e # tr) = sent tr"
  by (auto simp: sent_def List.map_filter_def split: out.splits)

text \<open>Logging, memory, the clock and the mutexes leave all this alone.\<close>

definition wire where
  "wire s = (received (trace s), sent (trace s), ub s, port s, world.more s)"

named_theorems wire_rules \<open>routines that neither send nor deliver nor touch the handle\<close>

lemma wire_modify: "(\<And>s. wire (f s) = wire s) \<Longrightarrow> keeps wire (modify f)"
  by (rule keeps_modify)

lemma wire_ask: "keeps wire (ask q)"
  by (rule keepsI) (simp add: ask_def wire_def)

lemma wire_emit:
  "(\<forall>h p ud. e \<noteq> Recv_cb h p ud) \<Longrightarrow> (\<forall>pkt. e \<noteq> Net_send pkt) \<Longrightarrow> keeps wire (emit e)"
  unfolding emit_def by (rule wire_modify) (simp add: wire_def)

lemma wire_sys [wire_rules]:
  "keeps wire sys_malloc" "keeps wire sys_free" "keeps wire sys_time" "keeps wire sys_rand"
  "keeps wire (mutex_lock m)" "keeps wire (mutex_unlock m)"
  unfolding sys_malloc_def sys_free_def sys_time_def sys_rand_def mutex_lock_def mutex_unlock_def
  by (intro keeps_rules wire_ask wire_modify; simp add: wire_def)+

lemma log_date_text: "\<exists>out. core_sprintf_text (str ''%s/%s/%s %s:%s:%s'') (log_date_args d) = Ret out"
proof -
  define ls where "ls = map str ['''', ''/'', ''/'', '' '', '':'', '':'', '''']"
  have fmt: "str ''%s/%s/%s %s:%s:%s'' = fmt_of ls" by (simp add: ls_def)
  have digits: "length (uint_digits n) \<le> 10" for n :: "32 word"
    by (rule length_uint_digits) (use unsigned_less [of n, where 'a = nat] in simp_all)
  have "length (weave ls (log_date_args d)) \<le> 5 + 6 * 10"
    using digits [of "of_nat (year d)"] digits [of "of_nat (mon d)"] digits [of "of_nat (day d)"]
      digits [of "of_nat (hour d)"] digits [of "of_nat (minute d)"] digits [of "of_nat (sec d)"]
    by (simp add: ls_def log_date_args_def sprintf_value_def)
  then have "core_sprintf_text (fmt_of ls) (log_date_args d) = Ret (weave ls (log_date_args d))"
    by (intro core_sprintf_text_weave) (auto simp: ls_def log_date_args_def)
  with fmt show ?thesis by auto
qed

lemma wire_timestamp [wire_rules]: "keeps wire core_log_get_timestamp"
  unfolding core_log_get_timestamp_def
  by (intro keeps_rules wire_rules wire_modify; simp add: wire_def)

lemma wire_date [wire_rules]: "keeps wire (core_log_append_date t)"
proof -
  obtain out where "core_sprintf_text (str ''%s/%s/%s %s:%s:%s'') (log_date_args (core_utc2date t 8)) = Ret out"
    using log_date_text by blast
  then have "keeps wire (lift_outcome [] (core_sprintf_text (str ''%s/%s/%s %s:%s:%s'')
      (log_date_args (core_utc2date t 8))))"
    by (simp only: lift_outcome_def outcome.case keeps_return)
  then show ?thesis
    unfolding core_log_append_date_def core_sprintf_def by (intro keeps_rules wire_rules)
qed

lemma wire_log [wire_rules]:
  "keeps wire (core_log c d)" "keeps wire (core_logn c fmt ds)"
  "keeps wire (core_log_hexdump c p b)" "keeps wire (core_diag dd)"
proof -
  have prefix: "keeps wire (core_log_append_prefix c)"
    unfolding core_log_append_prefix_def by (intro keeps_rules wire_rules)
  have lines: "keeps wire (modify (\<lambda>w. w\<lparr>trace := trace w @ map (Log c) ls\<rparr>))" for ls
  proof (rule wire_modify)
    have "received (map (Log c) ls) = []" "sent (map (Log c) ls) = []" by (induction ls) simp_all
    then show "wire (s\<lparr>trace := trace s @ map (Log c) ls\<rparr>) = wire s" for s by (simp add: wire_def)
  qed
  show "keeps wire (core_log c d)" "keeps wire (core_logn c fmt ds)"
    "keeps wire (core_log_hexdump c p b)" "keeps wire (core_diag dd)"
    unfolding core_log_def core_logn_def core_log_hexdump_def core_diag_def
    by (intro keeps_rules wire_rules prefix lines wire_emit; simp)+
qed

text \<open>Stepping over such a routine.\<close>

lemma wp_wire:
  assumes "keeps wire m" "\<And>r t. wire t = wire s \<Longrightarrow> wp (f r) Q t"
  shows "wp (m \<bind> f) Q s"
  using wp_keeps [OF assms(1)] by (auto intro: wp_mono assms(2))

lemma wire_fields:
  assumes "wire t = wire (s :: mqtt)"
  shows "received (trace t) = received (trace s)" "sent (trace t) = sent (trace s)" "ub t = ub s"
    "port t = port s" "world.more t = world.more s"
  using assms by (simp_all add: wire_def)

section \<open>Packets of a broker to a client of version 3.1.1\<close>

definition uv where
  "uv (s :: mqtt) = (ub s, protocol_version s)"

text \<open>A routine that in version 3.1.1 reads and writes only what it may.\<close>

definition calm :: "'a mqtt_m \<Rightarrow> bool" where
  "calm m \<longleftrightarrow> (\<forall>b v. v \<noteq> 1 \<longrightarrow> preserves (\<lambda>s. uv s = (b, v)) m)"

named_theorems calm_rules \<open>rules that show a routine stays inside its buffers in version 3.1.1\<close>

lemma calm_get [calm_rules]: "(\<And>s. \<not> v5_enabled s \<Longrightarrow> calm (f s)) \<Longrightarrow> calm (State_Monad.get \<bind> f)"
  by (auto simp: calm_def preserves_def uv_def v5_enabled_def split_beta)

lemma calm_bind [calm_rules]: "calm m \<Longrightarrow> (\<And>x. calm (f x)) \<Longrightarrow> calm (m \<bind> f)"
  unfolding calm_def by (blast intro: pres_bind)

lemma calm_cases [calm_rules]:
  "calm (ret x)"
  "(b \<Longrightarrow> calm m) \<Longrightarrow> (\<not> b \<Longrightarrow> calm n) \<Longrightarrow> calm (if b then m else n)"
  "(y = None \<Longrightarrow> calm m) \<Longrightarrow> (\<And>z. y = Some z \<Longrightarrow> calm (g z)) \<Longrightarrow>
     calm (case y of None \<Rightarrow> m | Some z \<Rightarrow> g z)"
  "(\<And>a b. p = (a, b) \<Longrightarrow> calm (h a b)) \<Longrightarrow> calm (case p of (a, b) \<Rightarrow> h a b)"
  "(\<And>x. x = v \<Longrightarrow> calm (k x)) \<Longrightarrow> calm (let x = v in k x)"
  by (auto simp: calm_def pres_return split: option.split prod.split)

lemma calm_keeps: "keeps uv m \<Longrightarrow> calm m"
  by (simp add: calm_def keeps_def)

lemma wire_uv: "keeps wire m \<Longrightarrow> keeps uv m"
proof (rule keepsI)
  fix s assume "keeps wire m"
  then have "wire (snd (run_state m s)) = wire s" by (rule keepsD)
  then have "ub (snd (run_state m s)) = ub s" "world.more (snd (run_state m s)) = world.more s"
    by (rule wire_fields)+
  then show "uv (snd (run_state m s)) = uv s"
    by (cases s, cases "snd (run_state m s)") (simp add: uv_def)
qed

named_theorems uv_rules \<open>routines that fault in no version\<close>

lemma uv_modify: "(\<And>s. uv (f s) = uv s) \<Longrightarrow> keeps uv (modify f)"
  by (rule keeps_modify)

lemma uv_port [uv_rules]:
  "keeps uv (emit e)" "keeps uv (net_send pkt)" "keeps uv net_deinit" "keeps uv (free_n n)"
  unfolding emit_def net_send_def net_deinit_def free_n_def
  by (intro keeps_rules uv_modify keepsI; simp add: uv_def ask_def)+

lemmas uv_wire [uv_rules] = wire_rules [THEN wire_uv]

lemma uv_send [uv_rules]:
  "keeps uv network_close" "keeps uv network_close_locked" "keeps uv (send_locked pkt)"
  "keeps uv (send_failed res)" "keeps uv (send_or_close pkt)" "keeps uv (core_mqtt_puback_send pid)"
  unfolding network_close_def network_close_locked_def send_locked_def send_failed_def
    send_or_close_def core_mqtt_puback_send_def core_mqtt_write_def
  by (intro keeps_rules uv_rules uv_modify; simp add: uv_def)+

lemma uv_notify [uv_rules]:
  "keeps uv (notify_process_handlers l ev c)" "keeps uv (recv_notify pkt)"
  "keeps uv (core_mqtt_heartbeat_diag b)"
proof -
  show "keeps uv (notify_process_handlers l ev c)"
    by (induction l) (auto intro!: keeps_rules uv_rules)
qed (unfold recv_notify_def core_mqtt_heartbeat_diag_def, (intro keeps_rules uv_rules)+)

lemma uv_event [uv_rules]: "keeps uv (disconnect_event_notify r)"
  unfolding disconnect_event_notify_def event_notify_def
  by (intro keeps_rules uv_rules uv_modify; simp add: uv_def)

lemma uv_deliver [uv_rules]: "keeps uv (deliver topic pkt)"
proof -
  have append: "keeps uv (handlerlist_append hs)" for hs
    by (induction hs) (auto intro!: keeps_rules uv_rules)
  have "keeps uv (collect_handlers ns topic)" for ns
    by (induction ns) (auto intro!: keeps_rules append)
  moreover have "keeps uv (call_handlers hs pkt)" for hs
    by (induction hs) (auto intro!: keeps_rules uv_rules)
  ultimately show ?thesis unfolding deliver_def handlerlist_destroy_def by (intro keeps_rules uv_rules)
qed

lemma uv_publist_remove [uv_rules]: "keeps uv (publist_remove pid)"
  unfolding publist_remove_def
  by (intro keeps_rules uv_rules uv_modify; simp add: uv_def)

lemmas calm_uv [calm_rules] = uv_rules [THEN calm_keeps]

lemma calm_modify: "(\<And>s. uv (f s) = uv s) \<Longrightarrow> calm (modify f)"
  by (rule calm_keeps [OF uv_modify])

lemma calm_lift: "r \<noteq> Fault \<Longrightarrow> calm (lift_outcome d r)"
  by (cases r) (simp_all add: lift_outcome_def calm_cases)

lemma payload_in: "i + n \<le> length d \<Longrightarrow> m \<le> n \<Longrightarrow> rd_block d i m \<noteq> Fault"
  by (simp add: rd_block_def)

lemma calm_pub_finish:
  assumes "length d \<ge> idx" "idx = 2 + length topic + (if qos = 1 then 2 else 0)"
  shows "calm (pub_finish d idx qos topic pid 0 None alias)"
proof -
  have len: "int (length d) - 2 - int (length topic) - int 0 - (if qos = 1 then 2 else 0) = int (length d - idx)"
    using assms by (cases "qos = 1") (simp_all add: of_nat_diff)
  have "nat (int (length d - idx) mod 2 ^ 32) \<le> length d - idx"
    using zmod_le_nonneg_dividend [of "int (length d - idx)" "2 ^ 32"] by simp
  with assms(1) have "rd_block d idx (nat ((int (length d) - 2 - int (length topic) - int 0
      - (if qos = 1 then 2 else 0)) mod 2 ^ 32)) \<noteq> Fault"
    unfolding len by (intro payload_in [where n = "length d - idx"]) simp_all
  note this [THEN calm_lift]
  then show ?thesis
    unfolding pub_finish_def by (intro calm_rules) simp_all
qed

lemma calm_pub_handler: "calm (pub_handler input qos)"
proof (cases input)
  case (Some d)
  have header: "obind (rd d 0) (\<lambda>h. obind (rd d 1) (\<lambda>l. Ret (get_be16 h l))) = Ret (get_be16 (d ! 0) (d ! 1))"
    if "length d \<ge> 2" using that by (auto simp: rd_def)
  show ?thesis
    unfolding pub_handler_def Some option.case
    by (intro calm_rules calm_lift calm_pub_finish; auto simp: header)
qed (simp add: pub_handler_def calm_cases)

lemma calm_flow [calm_rules]: "calm flow_control_inc"
  unfolding flow_control_inc_def by (intro calm_rules calm_modify) (simp_all add: uv_def)

lemma calm_acks: "d \<noteq> [] \<Longrightarrow> length d mod 3 = 0 \<Longrightarrow> calm (suback_loop d)"
  "length d mod 2 = 0 \<Longrightarrow> calm (unsuback_loop d)"
proof -
  show "length d mod 3 = 0 \<Longrightarrow> calm (suback_loop d)"
    by (induction d rule: suback_loop.induct) (auto intro!: calm_rules simp: mod_Suc split: if_splits)
  show "length d mod 2 = 0 \<Longrightarrow> calm (unsuback_loop d)"
    by (induction d rule: unsuback_loop.induct) (auto intro!: calm_rules simp: mod_Suc split: if_splits)
qed

lemma calm_handlers:
  "calm (pingresp_handler n)" "calm (puback_handler input)" "calm (subunsuback_handler input sub)"
  "input \<noteq> Some [] \<Longrightarrow> calm (server_disconnect_handler input)"
  unfolding pingresp_handler_def puback_handler_def subunsuback_handler_def server_disconnect_handler_def
  by (intro calm_rules calm_modify calm_acks calm_lift; auto simp: uv_def rd_def)+



text \<open>
  C38: with MQTT 5.0 switched on, a PUBLISH packet of a single byte makes the client read the byte
  behind its buffer.
\<close>

theorem short_publish_reads_outside:
  assumes "v5_enabled s" "header AND 0xF0 = 0x30" "unat (drop_bit 1 (header AND 0x0F) AND 0x03) \<le> 1"
  shows "ub (snd (run_state (dispatch header 1 (Some [b])) s))"
proof -
  have "wp (dispatch header 1 (Some [b])) (\<lambda>_ t. ub t) s"
    using assms by (simp add: dispatch_def pub_handler_def lift_outcome_def fault_def rd_def)
  then show ?thesis by (simp add: wp_def split_beta)
qed

theorem short_publish_reads_outside_witness:
  "ub (snd (run_state (dispatch 0x30 1 (Some [0])) (demo_client\<lparr>protocol_version := 1\<rparr>)))"
  by (rule short_publish_reads_outside) (simp_all add: v5_enabled_def)

section \<open>A published message comes back\<close>

text \<open>The calls a message leads to: those of the matching filters in their order, or the default.\<close>

definition deliveries :: "mqtt \<Rightarrow> byte list \<Rightarrow> mqtt_packet \<Rightarrow> (nat \<times> mqtt_packet \<times> nat) list" where
  "deliveries s topic p =
     (let hs = concat (map sub_handlers
          (filter (\<lambda>n. topic_compare (sub_topic n) topic = STATE_SUCCESS) (sub_list s))) in
      if hs = [] then (case recv_handler s of None \<Rightarrow> [] | Some h \<Rightarrow> [(h, p, userdata s)])
      else map (\<lambda>h. (fst h, p, if snd h = 0 then userdata s else snd h)) hs)"

lemma wire_malloc:
  "\<forall>n. p_malloc (port s) n \<Longrightarrow> (\<And>t. wire t = wire s \<Longrightarrow> wp (f True) Q t) \<Longrightarrow> wp (sys_malloc \<bind> f) Q s"
  by (simp add: run_simps wire_def)

lemma handlerlist_append_run:
  "\<forall>n. p_malloc (port s) n \<Longrightarrow> wp (handlerlist_append hs) (\<lambda>r t. r = hs \<and> wire t = wire s) s"
proof (induction hs arbitrary: s)
  case (Cons h hs)
  show ?case unfolding handlerlist_append.simps
  proof (rule wire_malloc [OF Cons.prems])
    fix t assume "wire t = wire s"
    with Cons show "wp (do { copies \<leftarrow> handlerlist_append hs; ret (if True then h # copies else copies) })
        (\<lambda>r t. r = h # hs \<and> wire t = wire s) t"
      by (simp, intro wp_mono [OF Cons.IH]) (simp_all add: wire_fields [of t s])
  qed
qed simp

lemma collect_handlers_run:
  "\<forall>n. p_malloc (port s) n \<Longrightarrow>
   wp (collect_handlers ns topic) (\<lambda>r t. r = concat (map sub_handlers
     (filter (\<lambda>n. topic_compare (sub_topic n) topic = STATE_SUCCESS) ns)) \<and> wire t = wire s) s"
proof (induction ns arbitrary: s)
  case (Cons n ns)
  have first: "wp (if topic_compare (sub_topic n) topic = STATE_SUCCESS
      then handlerlist_append (sub_handlers n) else ret [])
      (\<lambda>r t. r = (if topic_compare (sub_topic n) topic = STATE_SUCCESS then sub_handlers n else [])
        \<and> wire t = wire s) s"
    using handlerlist_append_run [OF Cons.prems] by simp
  have rest: "wp (collect_handlers ns topic) (\<lambda>r u. r = concat (map sub_handlers
      (filter (\<lambda>n. topic_compare (sub_topic n) topic = STATE_SUCCESS) ns)) \<and> wire u = wire s) t"
    if "wire t = wire s" for t
    using Cons.IH [of t] Cons.prems wire_fields [OF that] that by simp
  show ?case unfolding collect_handlers.simps wp_bind
    by (rule wp_mono [OF first], rule wp_mono [OF rest]) auto
qed simp

lemma call_handlers_run:
  "wp (call_handlers hs p) (\<lambda>_ t. received (trace t) = received (trace s)
       @ map (\<lambda>h. (fst h, p, if snd h = 0 then userdata s else snd h)) hs
     \<and> sent (trace t) = sent (trace s) \<and> ub t = ub s \<and> world.more t = world.more s) s"
proof (induction hs arbitrary: s)
  case (Cons h hs)
  obtain f ud where h: "h = (f, ud)" by (cases h)
  let ?s = "s\<lparr>trace := trace s @ [Recv_cb f p (if ud = 0 then userdata s else ud)]\<rparr>"
  show ?case unfolding h call_handlers.simps wp_bind wp_get wp_emit
    by (rule wp_mono [OF Cons.IH [of ?s]]) simp
qed simp

lemma deliver_run:
  assumes "\<forall>n. p_malloc (port s) n"
  shows "wp (deliver topic p) (\<lambda>_ t. received (trace t) = received (trace s) @ deliveries s topic p
    \<and> sent (trace t) = sent (trace s) \<and> ub t = ub s) s"
proof -
  let ?hs = "concat (map sub_handlers
    (filter (\<lambda>n. topic_compare (sub_topic n) topic = STATE_SUCCESS) (sub_list s)))"
  let ?Q = "\<lambda>t. received (trace t) = received (trace s) @ deliveries s topic p
    \<and> sent (trace t) = sent (trace s) \<and> ub t = ub s"
  have fields: "userdata t = userdata u" "recv_handler t = recv_handler u"
    if "world.more t = world.more u" for t u :: mqtt
    using that by (cases t, cases u, simp)+
  have default: "wp (do { free_n k; on (hs = []) (recv_notify p) }) (\<lambda>_ t. received (trace t) =
        received (trace s) @ (if hs = [] then (case recv_handler s of None \<Rightarrow> [] | Some h \<Rightarrow> [(h, p, userdata s)])
          else map (\<lambda>h. (fst h, p, if snd h = 0 then userdata s else snd h)) hs)
      \<and> sent (trace t) = sent (trace s) \<and> ub t = ub s) t"
    if "received (trace t) = received (trace s) @ map (\<lambda>h. (fst h, p, if snd h = 0 then userdata s else snd h)) hs"
      "sent (trace t) = sent (trace s)" "ub t = ub s" "world.more t = world.more s" for t k hs
    using that fields [OF that(4)]
    by (cases "hs = []"; cases "recv_handler s") (simp_all add: recv_notify_def run_simps)
  have last: "wp (do { free_n k; on (?hs = []) (recv_notify p) }) (\<lambda>_ t. ?Q t) t"
    if "received (trace t) = received (trace s) @ map (\<lambda>h. (fst h, p, if snd h = 0 then userdata s else snd h)) ?hs"
      "sent (trace t) = sent (trace s)" "ub t = ub s" "world.more t = world.more s" for t k
    using default [OF that] by (simp only: deliveries_def Let_def)
  have calls: "wp (do { call_handlers ?hs p; free_n k; on (?hs = []) (recv_notify p) }) (\<lambda>_ t. ?Q t) t"
    if "wire t = wire s" for t k
    unfolding wp_bind [of "call_handlers _ _"]
    by (rule wp_mono [OF call_handlers_run], rule last)
      (use wire_fields [OF that] fields [OF wire_fields(5) [OF that]] in simp_all)
  show ?thesis unfolding deliver_def handlerlist_destroy_def
  proof (rule wp_wire [OF wire_sys(5)])
    fix r t assume t: "wire t = wire s"
    then have same: "sub_list t = sub_list s" "\<forall>n. p_malloc (port t) n"
      using assms wire_fields [OF t] more_fields(1) [OF wire_fields(5) [OF t]] by simp_all
    show "wp (do {
       s \<leftarrow> State_Monad.get;
       copies \<leftarrow> collect_handlers (sub_list s) topic;
       mutex_unlock Sub_mutex;
       call_handlers copies p;
       free_n (length copies);
       on (copies = []) (recv_notify p) }) (\<lambda>_ t. ?Q t) t"
      unfolding wp_bind [of State_Monad.get] wp_get wp_bind [of "collect_handlers _ _"] same(1)
    proof (rule wp_mono [OF collect_handlers_run [OF same(2)]], clarify, rule wp_wire [OF wire_sys(6)])
      fix q u v assume "wire q = wire t" "wire v = wire q"
      with t have "wire v = wire s" by simp
      from calls [OF this] show "wp (do { call_handlers ?hs p; free_n (length ?hs);
          on (?hs = []) (recv_notify p) }) (\<lambda>_ t. ?Q t) v" .
    qed
  qed
qed

section \<open>Framing\<close>

lemma length_utf8_field [simp]: "length (utf8_field t) = 2 + length t"
  by (simp add: utf8_field_def set_utf8_encoded_str_def)

lemma utf8_field_short: "length t < 65536 \<Longrightarrow> utf8_field t = put_be16 (length t) @ t"
  by (simp add: utf8_field_def set_utf8_encoded_str_def)

text \<open>The remaining length behind the first byte is the number of bytes behind it.\<close>

definition framed :: "byte list \<Rightarrow> bool" where
  "framed pkt \<longleftrightarrow> (case read_variable_byte_interger (tl pkt) of
     Ret (n, k) \<Rightarrow> length pkt = 1 + k + n | _ \<Rightarrow> False)"

lemma framedI: "length rest < 2 ^ 28 \<Longrightarrow> framed (b # remain_len_encode (length rest) @ rest)"
  by (simp add: framed_def read_vbi_encode)

lemma property_bytes_length:
  "core_write_general_prop gp (property_len_array gp) = Ret b \<Longrightarrow>
   length b = length (property_len_array gp) + core_get_general_property_len gp"
  by (rule core_write_general_prop_length)

text \<open>
  C10: the packets the client builds are framed: in PUBLISH, SUBSCRIBE, UNSUBSCRIBE and CONNECT the
  remaining length is the number of bytes that follow it, and the packet fits the buffer the client
  allocates for it, with and without MQTT 5.0 properties.
\<close>

theorem packets_framed:
  assumes "if v5_enabled s then core_write_general_prop gp (property_len_array gp) = Ret b else b = []"
  shows "(let n = pub_remainlen s qos replaced topic gp payload;
      pkt = pub_pkt_bytes qos n replaced topic pid b payload
    in n < 2 ^ 28 \<longrightarrow> framed pkt \<and> length pkt \<le> 1 + 4 + n)
  \<and> (let n = 2 + 2 + length topic + subunsub_property_total_len s (Some gp) + (if sub then 1 else 0);
      pkt = subunsub_pkt_bytes s sub n pid b topic qos
    in n < 2 ^ 28 \<longrightarrow> framed pkt \<and> length pkt \<le> 1 + 4 + n)
  \<and> (let payload_len = length cid + length user + length pass + 3 * 2;
      property_len = (if v5_enabled s then length (property_len_array gp) + core_get_general_property_len gp else 0);
      n = 10 + payload_len + property_len;
      pkt = conn_pkt_bytes s n b cid user pass
    in n < 2 ^ 28 \<longrightarrow> framed pkt \<and> length pkt \<le> 15 + payload_len + property_len)"
proof (intro conjI)
  have b: "length b = (if v5_enabled s then length (property_len_array gp) + core_get_general_property_len gp else 0)"
    using assms property_bytes_length by (auto split: if_splits)
  have enc: "n < 2 ^ 28 \<Longrightarrow> length (remain_len_encode n) \<le> 4" for n
    using length_remain_len_encode [of n 4] by simp
  have framed: "framed (c # remain_len_encode n @ rest) \<and> length (c # remain_len_encode n @ rest) \<le> m"
    if "n < 2 ^ 28" "length rest = n" "m = 1 + 4 + n" for c n rest m
    using framedI [of rest c] that enc [OF that(1)] by simp
  show "let n = pub_remainlen s qos replaced topic gp payload;
      pkt = pub_pkt_bytes qos n replaced topic pid b payload
    in n < 2 ^ 28 \<longrightarrow> framed pkt \<and> length pkt \<le> 1 + 4 + n"
    unfolding Let_def pub_pkt_bytes_def by (intro impI framed) (simp_all add: b pub_remainlen_def)
  show "let n = 2 + 2 + length topic + subunsub_property_total_len s (Some gp) + (if sub then 1 else 0);
      pkt = subunsub_pkt_bytes s sub n pid b topic qos
    in n < 2 ^ 28 \<longrightarrow> framed pkt \<and> length pkt \<le> 1 + 4 + n"
    unfolding Let_def subunsub_pkt_bytes_def
    by (intro impI framed) (simp_all add: b subunsub_property_total_len_def)
  show "let payload_len = length cid + length user + length pass + 3 * 2;
      property_len = (if v5_enabled s then length (property_len_array gp) + core_get_general_property_len gp else 0);
      n = 10 + payload_len + property_len;
      pkt = conn_pkt_bytes s n b cid user pass
    in n < 2 ^ 28 \<longrightarrow> framed pkt \<and> length pkt \<le> 15 + payload_len + property_len"
    unfolding Let_def conn_pkt_bytes_def
    by (intro impI framed) (simp_all add: b)
qed

lemma deliveries_cong:
  "sub_list t = sub_list s \<Longrightarrow> recv_handler t = recv_handler s \<Longrightarrow> userdata t = userdata s \<Longrightarrow>
   deliveries t topic p = deliveries s topic p"
  by (simp only: deliveries_def)

text \<open>What a delivery depends on.\<close>

definition reader where
  "reader (s :: mqtt) = (received (trace s), ub s, port s, sub_list s, recv_handler s, userdata s)"

lemma wire_reader: "wire t = wire s \<Longrightarrow> reader t = reader s"
proof -
  assume w: "wire t = wire s"
  then have "recv_handler t = recv_handler s" "userdata t = userdata s"
    using wire_fields(5) [OF w] by (cases t, cases s, simp)+
  then show ?thesis using wire_fields [OF w] more_fields(1) [OF wire_fields(5) [OF w]]
    by (simp add: reader_def)
qed

definition reader_sent where
  "reader_sent s = (reader s, sent (trace s))"

lemma close_reader: "keeps reader_sent network_close_locked"
proof -
  have wired: "keeps wire m \<Longrightarrow> keeps reader_sent m" for m :: "'a mqtt_m"
    by (rule keepsI) (auto simp: reader_sent_def dest: keepsD [of wire] intro: wire_reader wire_fields)
  have "keeps reader_sent net_deinit" "keeps reader_sent (modify (\<lambda>s. s\<lparr>network_handle := False\<rparr>))"
    unfolding net_deinit_def emit_def by (rule keeps_modify, simp add: reader_sent_def reader_def)+
  then show ?thesis
    unfolding network_close_locked_def network_close_def
    by (intro keeps_rules wire_rules [THEN wired])
qed

lemma send_reader:
  "wp (send_locked pkt) (\<lambda>_ t. reader t = reader s
     \<and> sent (trace t) = sent (trace s) @ (if network_handle s then [pkt] else [])) s"
  by (simp add: send_locked_def core_mqtt_write_def net_send_def run_simps reader_def)

lemma puback_run:
  "wp (core_mqtt_puback_send pid) (\<lambda>_ t. reader t = reader s
     \<and> sent (trace t) = sent (trace s) @ (if network_handle s then [0x40 # 2 # put_be16 (unat pid)] else [])) s"
proof -
  have close: "wp network_close_locked (\<lambda>_ t. reader t = reader u \<and> sent (trace t) = sent (trace u)) u" for u
    using wp_keeps [OF close_reader, of u] by (simp add: reader_sent_def)
  show ?thesis
    unfolding core_mqtt_puback_send_def send_or_close_def send_failed_def wp_bind [of "send_locked _"]
    by (rule wp_mono [OF send_reader]) (auto intro!: wp_mono [OF close])
qed

lemma pub_finish_run:
  assumes "\<forall>n. p_malloc (port s) n" "qos \<le> 1"
    and "length d = 2 + length topic + (if qos = 1 then 2 else 0) + length payload" "length d < 2 ^ 28"
    and "drop idx d = payload" "idx = 2 + length topic + (if qos = 1 then 2 else 0)"
  shows "wp (pub_finish d idx qos topic pid 0 None None) (\<lambda>r t. r = STATE_SUCCESS
    \<and> received (trace t) = received (trace s) @ deliveries s topic (Pkt_pub qos topic payload None)
    \<and> sent (trace t) = sent (trace s)
        @ (if qos = 1 \<and> network_handle s then [0x40 # 2 # put_be16 (unat pid)] else [])
    \<and> ub t = ub s) s"
proof -
  let ?sent = "sent (trace s) @ (if qos = 1 \<and> network_handle s then [0x40 # 2 # put_be16 (unat pid)] else [])"
  have "int (length d) - 2 - int (length topic) - int 0 - (if qos = 1 then 2 else 0) = int (length payload)"
    using assms(3) by simp
  moreover have "nat (int (length payload) mod 2 ^ 32) = length payload"
    using assms(3,4) by (simp add: nat_mod_distrib)
  ultimately have len: "nat ((int (length d) - 2 - int (length topic) - int 0
      - (if qos = 1 then 2 else 0)) mod 2 ^ 32) = length payload" by simp
  have block: "rd_block d idx (length payload) = Ret payload"
    using assms(3,5,6) by (simp add: rd_block_def flip: assms(5))
  define rest where "rest = do {
        core_logn STATE_MQTT_LOG_TOPIC (str ''pub: %.*s'' @ [13, 10])
          [LUint (of_nat (length topic)), LStr (Some topic)];
        core_log_hexdump STATE_MQTT_LOG_HEXDUMP 60 payload;
        deliver topic (Pkt_pub qos topic payload None);
        ret STATE_SUCCESS }"
  have rest: "wp rest (\<lambda>r t. r = STATE_SUCCESS
      \<and> received (trace t) = received (trace s) @ deliveries s topic (Pkt_pub qos topic payload None)
      \<and> sent (trace t) = ?sent \<and> ub t = ub s) t"
    if "reader t = reader s" "sent (trace t) = ?sent" for t
    unfolding rest_def
  proof (rule wp_wire [OF wire_log(2)], rule wp_wire [OF wire_log(3)])
    fix a u b v assume u: "wire u = wire t" "wire v = wire u"
    then have v: "reader v = reader s" "sent (trace v) = ?sent"
      using that wire_reader [of u t] wire_reader [of v u] by (simp_all add: wire_def)
    then have "\<forall>n. p_malloc (port v) n" using assms(1) by (simp add: reader_def)
    from wp_mono [OF deliver_run [OF this]] v
    show "wp (do { deliver topic (Pkt_pub qos topic payload None); ret STATE_SUCCESS })
      (\<lambda>r t. r = STATE_SUCCESS
        \<and> received (trace t) = received (trace s) @ deliveries s topic (Pkt_pub qos topic payload None)
        \<and> sent (trace t) = ?sent \<and> ub t = ub s) v"
      unfolding wp_bind wp_return by (simp add: reader_def deliveries_cong [of v s])
  qed
  have ack: "wp (on (qos = 1) (do { _ \<leftarrow> core_mqtt_puback_send pid; ret () }))
      (\<lambda>_ t. reader t = reader s \<and> sent (trace t) = ?sent) s"
  proof (cases "qos = 1")
    case True
    show ?thesis unfolding if_P [OF True] wp_bind wp_return
      by (rule wp_mono [OF puback_run]) (simp add: True)
  qed simp
  have run: "pub_finish d idx qos topic pid 0 None None
      = do { on (qos = 1) (do { _ \<leftarrow> core_mqtt_puback_send pid; ret () }); rest }"
    unfolding pub_finish_def len Let_def block lift_outcome_def rest_def using assms(3) by simp
  show ?thesis
    unfolding run wp_bind [of "on _ _"] by (rule wp_mono [OF ack], rule rest) auto
qed

text \<open>
  C2: the body of a version 3.1.1 PUBLISH packet, as the client itself writes it, cut out behind the
  remaining length and given to the dispatcher of a client of version 3.1.1, is taken apart into the
  same topic, identifier and payload: when every allocation succeeds, the handlers of exactly the
  matching filters are called with it, in the order of the subscriptions (the default handler when
  there are none), and with QoS 1 the identifier is acknowledged while the network is there.
\<close>

theorem publish_delivered:
  assumes "\<not> v5_enabled s" "qos \<le> 1" "length topic < 65536" "\<forall>n. p_malloc (port s) n"
    and "n = pub_remainlen s qos False topic gp payload" "n < 2 ^ 28"
    and "pkt = pub_pkt_bytes qos n False topic pid [] payload"
  shows "\<exists>k. read_variable_byte_interger (tl pkt) = Ret (n, k)
    \<and> (case run_state (dispatch (hd pkt) n (Some (drop (1 + k) pkt))) s of (r, t) \<Rightarrow>
         r = STATE_SUCCESS
         \<and> received (trace t) = received (trace s) @ deliveries s topic (Pkt_pub qos topic payload None)
         \<and> sent (trace t) = sent (trace s)
             @ (if qos = 1 \<and> network_handle s then [0x40 # 2 # put_be16 (unat pid)] else [])
         \<and> ub t = ub s)"
proof -
  define body where "body = put_be16 (length topic) @ topic
    @ (if qos = 1 then put_be16 (unat pid) else []) @ payload"
  have n: "length body = n" using assms(1,5) by (simp add: body_def pub_remainlen_def)
  have pkt: "pkt = (0x30 OR push_bit 1 (of_nat qos)) # remain_len_encode n @ body"
    using assms(3,7) by (simp add: pub_pkt_bytes_def body_def utf8_field_short)
  have "qos = 0 \<or> qos = 1" using assms(2) by auto
  then have to_handler: "dispatch (hd pkt) n (Some body) = pub_handler (Some body) qos"
    by (auto simp: pkt dispatch_def)
  have len: "length body = 2 + length topic + (if qos = 1 then 2 else 0) + length payload"
    by (simp add: body_def)
  have header: "obind (rd body 0) (\<lambda>h. obind (rd body 1) (\<lambda>l. Ret (get_be16 h l))) = Ret (length topic)"
    using get_put_be16 [OF assms(3)] by (simp add: body_def put_be16_def rd_def)
  have ident: "of_nat (get_be16 (body ! (2 + length topic)) (body ! (2 + length topic + 1))) = pid" if "qos = 1"
  proof -
    have "unat pid < 65536" using unsigned_less [of pid, where 'a = nat] by simp
    from get_put_be16 [OF this] that show ?thesis
      by (simp add: body_def put_be16_def nth_append)
  qed
  have topic: "take (length topic) (drop 2 body) = topic" by (simp add: body_def put_be16_def)
  have finish: "drop (2 + length topic + (if qos = 1 then 2 else 0)) body = payload"
    by (simp add: body_def)
  have "wp (pub_handler (Some body) qos) (\<lambda>r t. r = STATE_SUCCESS
      \<and> received (trace t) = received (trace s) @ deliveries s topic (Pkt_pub qos topic payload None)
      \<and> sent (trace t) = sent (trace s)
          @ (if qos = 1 \<and> network_handle s then [0x40 # 2 # put_be16 (unat pid)] else [])
      \<and> ub t = ub s) s"
  proof -
    let ?idx = "2 + length topic + (if qos = 1 then 2 else 0)"
    let ?pid = "if qos = 1 then pid else 0"
    have handler: "wp (pub_handler (Some body) qos) Q s = wp (pub_finish body ?idx qos topic ?pid 0 None None) Q s" for Q
      unfolding pub_handler_def option.case wp_bind wp_get header
      using assms(1,2) len topic ident by (simp add: lift_outcome_def Let_def header)
    have ack: "(if qos = 1 \<and> network_handle s then [0x40 # 2 # put_be16 (unat ?pid)] else [])
        = (if qos = 1 \<and> network_handle s then [0x40 # 2 # put_be16 (unat pid)] else [])" by simp
    have "length body < 2 ^ 28" using n assms(6) by simp
    from pub_finish_run [OF assms(4,2) len this finish refl, of ?pid] show ?thesis
      unfolding handler ack .
  qed
  note handled = this [unfolded wp_def]
  have read: "read_variable_byte_interger (tl pkt) = Ret (n, length (remain_len_encode n))"
    using assms(6) by (simp add: pkt read_vbi_encode)
  have body: "drop (1 + length (remain_len_encode n)) pkt = body" by (simp add: pkt)
  show ?thesis
    by (rule exI [of _ "length (remain_len_encode n)"], rule conjI [OF read])
      (unfold body to_handler, rule handled)
qed

text \<open>A client with two subscriptions: handler 5 gets the message that handler 6 does not.\<close>

definition demo_reader :: mqtt where
  "demo_reader = (demo_handle (demo_port (\<lambda>_. True) (\<lambda>_. 4) (\<lambda>_. (0, []))))
     \<lparr>network_handle := True, sub_list := [\<lparr>sub_topic = str ''/a/+'', sub_handlers = [(5, 9)]\<rparr>,
        \<lparr>sub_topic = str ''/b'', sub_handlers = [(6, 0)]\<rparr>]\<rparr>"

theorem publish_delivered_witness:
  "received (trace (snd (run_state (dispatch 0x32 8 (Some [0, 4, 47, 97, 47, 98, 0, 7])) demo_reader)))
     = [(5, Pkt_pub 1 (str ''/a/b'') [] None, 9)]"
proof -
  have "pub_pkt_bytes 1 8 False (str ''/a/b'') 7 [] [] = [0x32, 8, 0, 4, 47, 97, 47, 98, 0, 7]"
    by (simp add: pub_pkt_bytes_def remain_len_encode.simps utf8_field_short put_be16_def)
  moreover have "deliveries demo_reader (str ''/a/b'') p = [(5, p, 9)]" for p
    by (simp add: deliveries_def demo_reader_def topic_compare.simps)
  ultimately show ?thesis
    using publish_delivered [of demo_reader 1 "str ''/a/b''" 8 general_property_0 "[]"
        "[0x32, 8, 0, 4, 47, 97, 47, 98, 0, 7]" 7]
    by (auto simp: demo_reader_def v5_enabled_def pub_remainlen_def read_variable_byte_interger_def
        split_beta)
qed

theorem packets_framed_witness:
  "framed (pub_pkt_bytes 1 (pub_remainlen demo_client 1 False (str ''/a'') general_property_0 (str ''hi''))
     False (str ''/a'') 7 [] (str ''hi''))"
  using packets_framed [of demo_client general_property_0 "[]" 1 False "str ''/a''" "str ''hi''" 7]
  by (simp add: demo_client_def v5_enabled_def pub_remainlen_def Let_def)

end
