(* ===== verification/Mqtt_Outbox.thy ===== *)
theory Mqtt_Outbox
  imports Mqtt_Wire
begin

text \<open>
  Publishes that wait for their acknowledgement: a publish with QoS 1 is kept before it is sent,
  PUBACK removes exactly the acknowledged one, the periodic call repeats the overdue ones; and the
  way back of the remaining length from the network.
\<close>

section \<open>What is looked at\<close>

definition outbox where
  "outbox (s :: mqtt) = (sent (trace s), pub_list s, packet_id s, network_handle s, protocol_version s,
     tx_packet_max_size s, repub_timeout_ms s, port s)"

named_theorems outbox_rules \<open>routines that leave the outbox alone\<close>

lemma wire_outbox: "keeps wire m \<Longrightarrow> keeps outbox m"
proof (rule keepsI)
  fix s assume "keeps wire m"
  then have w: "wire (snd (run_state m s)) = wire s" by (rule keepsD)
  have "packet_id (snd (run_state m s)) = packet_id s" "network_handle (snd (run_state m s)) = network_handle s"
    "protocol_version (snd (run_state m s)) = protocol_version s"
    "tx_packet_max_size (snd (run_state m s)) = tx_packet_max_size s"
    "repub_timeout_ms (snd (run_state m s)) = repub_timeout_ms s"
    using wire_fields(5) [OF w] by (cases "snd (run_state m s)", cases s, simp)+
  then show "outbox (snd (run_state m s)) = outbox s"
    using wire_fields [OF w] more_fields(2) [OF wire_fields(5) [OF w]] by (simp add: outbox_def)
qed

lemmas outbox_wire [outbox_rules] = wire_rules [THEN wire_outbox]

lemma outbox_modify: "(\<And>s. outbox (f s) = outbox s) \<Longrightarrow> keeps outbox (modify f)"
  by (rule keeps_modify)

lemma outbox_small [outbox_rules]:
  "keeps outbox exec_inc" "keeps outbox exec_dec" "keeps outbox fault" "keeps outbox check_flow_dec"
  unfolding exec_inc_def exec_dec_def fault_def check_flow_dec_def
  by (intro keeps_rules outbox_rules outbox_modify; simp add: outbox_def)+

lemma wp_outbox:
  assumes "keeps outbox m" "\<And>r t. outbox t = outbox s \<Longrightarrow> wp (f r) Q t"
  shows "wp (m \<bind> f) Q s"
  using wp_keeps [OF assms(1)] by (auto intro: wp_mono assms(2))

lemma send_outbox:
  "wp (send_locked pkt) (\<lambda>r t. pub_list t = pub_list s \<and> packet_id t = packet_id s
     \<and> repub_timeout_ms t = repub_timeout_ms s \<and> port t = port s \<and> tick s \<le> tick t
     \<and> (0 \<le> r \<longrightarrow> outbox (t\<lparr>trace := trace s\<rparr>) = outbox s \<and> sent (trace t) = sent (trace s) @ [pkt])) s"
  by (simp add: send_locked_def core_mqtt_write_def net_send_def run_simps outbox_def mqtt_sysdep_return_def)

lemma wp_all: "(\<And>r t. Q r t) \<Longrightarrow> wp m Q s"
  by (simp add: wp_def split_beta)

lemma wp_ifI: "(b \<Longrightarrow> wp m Q s) \<Longrightarrow> (\<not> b \<Longrightarrow> wp n Q s) \<Longrightarrow> wp (if b then m else n) Q s"
  by simp

section \<open>Publishing\<close>

definition next_id :: "16 word \<Rightarrow> 16 word" where
  "next_id pid = (if pid + 1 = 0 then 1 else pid + 1)"

text \<open>What a publish that reports success has done.\<close>

definition published :: "mqtt \<Rightarrow> byte list \<Rightarrow> nat \<Rightarrow> 16 word \<Rightarrow> int \<Rightarrow> mqtt \<Rightarrow> bool" where
  "published s pkt qos pid r t \<longleftrightarrow>
     sent (trace t) = sent (trace s) @ [pkt]
     \<and> (if qos = 1
        then r = int (unat pid) \<and> pid \<notin> set (map pub_packet_id (pub_list s))
          \<and> (\<exists>now. pub_list t = pub_list s @ [\<lparr>pub_packet_id = pid, pub_packet = pkt, pub_last_send = now\<rparr>])
        else r = STATE_SUCCESS \<and> pub_list t = pub_list s)"

lemma published_cong:
  "published s pkt qos pid r t \<Longrightarrow> outbox u = outbox t \<Longrightarrow> published s pkt qos pid r u"
  by (simp add: published_def outbox_def del: set_map)

lemma published_start:
  assumes "published w pkt qos pid r t" "pub_list w = pub_list s" "sent (trace w) = sent (trace s)"
  shows "published s pkt qos pid r t"
  using assms(1) unfolding published_def assms(2,3) .

lemma publist_insert_outbox:
  "wp (publist_insert pkt pid) (\<lambda>r t. sent (trace t) = sent (trace s) \<and> (STATE_SUCCESS \<le> r \<longrightarrow>
      pid \<notin> set (map pub_packet_id (pub_list s))
      \<and> (\<exists>now. pub_list t = pub_list s @ [\<lparr>pub_packet_id = pid, pub_packet = pkt, pub_last_send = now\<rparr>]))) s"
  by (auto simp: publist_insert_def run_simps wp_sys_free)

lemma pub_send_run:
  assumes "qos \<le> 1"
  shows "wp (pub_send pkt qos pid) (\<lambda>r t. STATE_SUCCESS \<le> r \<longrightarrow> published s pkt qos pid r t) s"
proof -
  define kept where "kept r t \<longleftrightarrow> sent (trace t) = sent (trace s) \<and> (STATE_SUCCESS \<le> r \<longrightarrow>
      (if qos = 1 then pid \<notin> set (map pub_packet_id (pub_list s))
        \<and> (\<exists>now. pub_list t = pub_list s @ [\<lparr>pub_packet_id = pid, pub_packet = pkt, pub_last_send = now\<rparr>])
       else pub_list t = pub_list s))" for r :: int and t :: mqtt
  have unlocked: "kept r u" if "kept r t" "outbox u = outbox t" for r t u
    using that by (simp add: kept_def outbox_def del: set_map)
  have insert: "wp (do { mutex_lock Pub_mutex; res \<leftarrow> publist_insert pkt pid; mutex_unlock Pub_mutex; ret res }) kept s"
    if "qos = 1"
  proof (rule wp_outbox [OF wire_sys(5) [THEN wire_outbox]])
    fix a u assume u: "outbox u = outbox s"
    show "wp (do { res \<leftarrow> publist_insert pkt pid; mutex_unlock Pub_mutex; ret res }) kept u"
      unfolding wp_bind [of "publist_insert _ _"]
      by (rule wp_mono [OF publist_insert_outbox], rule wp_outbox [OF wire_sys(6) [THEN wire_outbox]])
        (use u that in \<open>auto simp: kept_def outbox_def simp del: set_map\<close>)
  qed
  have keep: "wp (if qos = 1 then do { mutex_lock Pub_mutex; res \<leftarrow> publist_insert pkt pid;
        mutex_unlock Pub_mutex; ret res } else ret STATE_SUCCESS) kept s"
    using insert by (cases "qos = 1") (simp_all add: kept_def del: wp_bind)
  have after: "wp (do { res \<leftarrow> send_locked pkt;
       sys_free;
       if res < STATE_SUCCESS then do { send_failed res; exec_dec; ret res }
       else if qos = 1 then do { exec_dec; check_flow_dec; ret (int (unat pid)) }
       else do { exec_dec; ret STATE_SUCCESS } })
      (\<lambda>r t. STATE_SUCCESS \<le> r \<longrightarrow> published s pkt qos pid r t) t"
    if kept: "kept q t" "STATE_SUCCESS \<le> q" for q t
    unfolding wp_bind [of "send_locked _"]
  proof (rule wp_mono [OF send_outbox], rule wp_outbox [OF wire_sys(2) [THEN wire_outbox]])
    fix r :: int and u a v
    assume u: "pub_list u = pub_list t \<and> packet_id u = packet_id t \<and> repub_timeout_ms u = repub_timeout_ms t
        \<and> port u = port t \<and> tick t \<le> tick u \<and> (0 \<le> r \<longrightarrow> outbox (u\<lparr>trace := trace t\<rparr>) = outbox t \<and> sent (trace u) = sent (trace t) @ [pkt])"
      and v: "outbox v = outbox u"
    have fin: "published s pkt qos pid (if qos = 1 then int (unat pid) else STATE_SUCCESS) v" if "0 \<le> r"
      using kept u v that assms by (simp add: kept_def published_def outbox_def del: set_map)
    show "wp (if r < STATE_SUCCESS then do { send_failed r; exec_dec; ret r }
       else if qos = 1 then do { exec_dec; check_flow_dec; ret (int (unat pid)) }
       else do { exec_dec; ret STATE_SUCCESS })
      (\<lambda>r t. STATE_SUCCESS \<le> r \<longrightarrow> published s pkt qos pid r t) v"
    proof (cases "r < STATE_SUCCESS")
      case True
      then show ?thesis unfolding if_P [OF True] wp_bind wp_return
        by (intro wp_all) simp
    next
      case False
      with fin have fin: "published s pkt qos pid (if qos = 1 then int (unat pid) else STATE_SUCCESS) v" by simp
      show ?thesis
        using False published_cong [OF fin]
        by (auto simp: wp_if intro!: wp_outbox [OF outbox_small(2)] wp_outbox [OF outbox_small(4)] simp del: wp_bind)
    qed
  qed
  have failed: "wp (do { sys_free; exec_dec; ret q }) (\<lambda>r t. STATE_SUCCESS \<le> r \<longrightarrow> published s pkt qos pid r t) t"
    if "q < STATE_SUCCESS" for q t
    unfolding wp_bind wp_return by (intro wp_all) (use that in simp)
  show ?thesis
    unfolding pub_send_def wp_bind [of "if _ then _ else _"]
    by (rule wp_mono [OF keep], rule wp_ifI, erule failed, erule after) simp
qed

lemma next_packet_id_run:
  "wp next_packet_id (\<lambda>pid t. pid = next_id (packet_id s)
     \<and> outbox (t\<lparr>packet_id := packet_id s\<rparr>) = outbox s) s"
  by (simp add: next_packet_id_def next_id_def run_simps outbox_def)

text \<open>
  C3: a publish of version 3.1.1 that reports success has put exactly one packet on the network,
  the framed PUBLISH with its topic and payload. With QoS 1 it returns the identifier in the packet,
  the one after the last and never zero, and the same packet has been kept for repetition under
  this identifier, which no unacknowledged publish had.
\<close>

theorem publish_sends_and_keeps:
  assumes "\<not> v5_enabled s" "topic \<noteq> []" "qos \<le> 1" "exec_enabled s"
    and "run_state (core_mqtt_pub topic (Some payload) qos None) s = (r, t)" "STATE_SUCCESS \<le> r"
    and "pid = (if qos = 1 then next_id (packet_id s) else 0)"
    and "pkt = pub_pkt_bytes qos (pub_remainlen s qos False topic general_property_0 payload) False topic pid [] payload"
  shows "sent (trace t) = sent (trace s) @ [pkt]
     \<and> (if qos = 1
        then r = int (unat pid) \<and> pid \<noteq> 0 \<and> pid \<notin> set (map pub_packet_id (pub_list s))
          \<and> (\<exists>now. pub_list t = pub_list s @ [\<lparr>pub_packet_id = pid, pub_packet = pkt, pub_last_send = now\<rparr>])
        else r = STATE_SUCCESS \<and> pub_list t = pub_list s)"
proof -
  let ?P = "\<lambda>r t. STATE_SUCCESS \<le> r \<longrightarrow> published s pkt qos pid r t"
  let ?n = "pub_remainlen s qos False topic general_property_0 payload"
  have send: "wp (do { on (length pkt > 1 + 4 + ?n) fault;
       res \<leftarrow> check_tx_payload_len (length pkt);
       if res < STATE_SUCCESS then do { sys_free; ret res } else pub_send pkt qos pid }) ?P u"
    if u: "sent (trace u) = sent (trace s)" "pub_list u = pub_list s" for u
    unfolding wp_bind [of "on _ _"] wp_bind [of "check_tx_payload_len _"]
  proof (rule wp_mono [OF wp_keeps [OF keeps_if [OF outbox_small(3) keeps_return]]])
    fix a v assume v: "outbox v = outbox u"
    have check: "wp (check_tx_payload_len (length pkt)) (\<lambda>q w. outbox w = outbox v) v"
      by (rule wp_keeps) (unfold check_tx_payload_len_def, intro keeps_rules outbox_rules)
    show "wp (check_tx_payload_len (length pkt)) (\<lambda>res. wp (if res < STATE_SUCCESS
        then do { sys_free; ret res } else pub_send pkt qos pid) ?P) v"
    proof (rule wp_mono [OF check], rule wp_ifI)
      fix q w assume "q < STATE_SUCCESS"
      then show "wp (do { sys_free; ret q }) ?P w"
        unfolding wp_bind wp_return by (intro wp_all) simp
    next
      fix q w assume w: "outbox w = outbox v"
      have "pub_list w = pub_list s" "sent (trace w) = sent (trace s)"
        using w v u by (simp_all add: outbox_def)
      then show "wp (pub_send pkt qos pid) ?P w"
        by (intro wp_mono [OF pub_send_run [OF assms(3)]]) (blast intro: published_start)
    qed
  qed
  have "wp (core_mqtt_pub topic (Some payload) qos None) ?P s"
  proof -
    have prepare: "wp (pub_prepare topic qos None \<bind> f) Q s = wp (f (STATE_SUCCESS, general_property_0, False)) Q s" for f Q
      using assms(1) by (simp add: pub_prepare_def)
    have pid: "wp (if qos = 1 then next_packet_id else ret 0)
        (\<lambda>x w. x = pid \<and> sent (trace w) = sent (trace u) \<and> pub_list w = pub_list u) u"
      if "packet_id u = packet_id s" for u
      using that assms(7) wp_mono [OF next_packet_id_run [of u]] by (auto simp: outbox_def)
    have failed: "wp (do { exec_dec; ret STATE_SYS_DEPEND_MALLOC_FAILED }) ?P u" for u
      unfolding wp_bind wp_return by (intro wp_all) simp
    show ?thesis
      unfolding core_mqtt_pub_def option.case
    proof (rule wp_ifI, goal_cases)
      case 1
      then show ?case using assms(2,3) by simp
    next
      case 2
      show ?case
        unfolding prepare prod.case wp_bind [of State_Monad.get] wp_get Let_def
      proof (rule wp_ifI, goal_cases)
        case 2
        show ?case
        proof (rule wp_ifI, goal_cases)
          case 2
          show ?case
          proof (rule wp_outbox [OF outbox_small(1)], rule wp_outbox [OF wire_log(2) [THEN wire_outbox]],
              rule wp_outbox [OF wire_log(3) [THEN wire_outbox]],
              rule wp_outbox [OF wire_sys(1) [THEN wire_outbox]], rule wp_ifI, rule failed,
              unfold wp_bind [of "if qos = 1 then _ else _"], rule wp_mono [OF pid], goal_cases)
            case 2
            then show ?case
              by (elim conjE) (simp only: if_not_P [OF assms(1)] wp_bind [of "ret _"] wp_return prod.case
                  assms(8) [symmetric], rule send, simp_all add: outbox_def)
          qed (simp add: outbox_def)
        qed (use assms(4) in simp)
      qed simp
    qed
  qed
  from wp_run [OF this assms(5)] assms(6,7) show ?thesis
    by (auto simp: published_def next_id_def simp del: set_map)
qed


definition demo_sender :: mqtt where
  "demo_sender = (demo_handle (demo_port (\<lambda>_. True) (\<lambda>_. 10) (\<lambda>_. (0, []))))\<lparr>network_handle := True\<rparr>"

lemma demo_sender_publishes:
  "wp (core_mqtt_pub (str ''/a'') (Some (str ''hi'')) 1 None) (\<lambda>r t. r = 1) demo_sender"
  by (simp add: demo_sender_def core_mqtt_pub_def pub_prepare_def eval_basic core_log_hexdump_def next_packet_id_def
      check_tx_payload_len_def pub_send_def publist_insert_def send_locked_def wp_sys_free
      pub_pkt_bytes_def pub_remainlen_def remain_len_encode.simps utf8_field_def set_utf8_encoded_str_def
      check_flow_dec_def cong: eval_congs)

theorem publish_sends_and_keeps_witness:
  "sent (trace (snd (run_state (core_mqtt_pub (str ''/a'') (Some (str ''hi'')) 1 None) demo_sender)))
     = [[0x32, 8, 0, 2, 47, 97, 0, 1, 104, 105]]"
proof -
  obtain r t where run: "run_state (core_mqtt_pub (str ''/a'') (Some (str ''hi'')) 1 None) demo_sender = (r, t)"
    by fastforce
  have "r = 1" using wp_run [OF demo_sender_publishes run] .
  then show ?thesis
    unfolding run snd_conv
    using publish_sends_and_keeps [OF _ _ _ _ run _ refl refl]
    by (simp add: demo_sender_def v5_enabled_def next_id_def pub_pkt_bytes_def pub_remainlen_def
        remain_len_encode.simps utf8_field_short put_be16_def)
qed

section \<open>Acknowledging\<close>

lemma publist_remove_run:
  assumes "distinct (map pub_packet_id (pub_list s))"
  shows "wp (publist_remove pid) (\<lambda>_ t. pub_list t = filter (\<lambda>n. pub_packet_id n \<noteq> pid) (pub_list s)
     \<and> trace t = trace s \<and> recv_handler t = recv_handler s \<and> userdata t = userdata s) s"
  using assms split_first_filter [OF assms, of pid]
  by (auto simp: publist_remove_def run_simps split_first_filter_None split: option.split)

lemma flow_inc_run:
  "wp flow_control_inc (\<lambda>_ t. pub_list t = pub_list s \<and> trace t = trace s \<and> recv_handler t = recv_handler s
     \<and> userdata t = userdata s \<and> v5_enabled t = v5_enabled s) s"
  by (simp add: flow_control_inc_def run_simps v5_enabled_def)

text \<open>
  PUBACK takes exactly the publish with its identifier off the list and reports it; a PUBACK of
  the wrong length, or without a body, is refused and changes nothing.
\<close>

theorem puback_removes_its_publish:
  assumes "distinct (map pub_packet_id (pub_list s))"
  shows "case run_state (dispatch 0x40 n input) s of (r, t) \<Rightarrow>
    (case input of
       Some d \<Rightarrow>
         if length d = 2 \<or> v5_enabled s \<and> length d > 2
         then r = STATE_SUCCESS
           \<and> pub_list t = filter (\<lambda>n. pub_packet_id n \<noteq> of_nat (get_be16 (d ! 0) (d ! 1))) (pub_list s)
           \<and> received (trace t) = received (trace s) @ (case recv_handler s of None \<Rightarrow> []
               | Some h \<Rightarrow> [(h, Pkt_pub_ack (get_be16 (d ! 0) (d ! 1)), userdata s)])
         else r = STATE_MQTT_RECV_INVALID_PUBACK_PACKET \<and> pub_list t = pub_list s
           \<and> received (trace t) = received (trace s)
     | None \<Rightarrow> r = STATE_MQTT_RECV_INVALID_PUBACK_PACKET \<and> pub_list t = pub_list s
           \<and> received (trace t) = received (trace s))"
proof -
  define ok where "ok d \<longleftrightarrow> length d = 2 \<or> v5_enabled s \<and> length d > 2" for d :: "byte list"
  define Q where "Q r t \<longleftrightarrow> (case input of
       Some d \<Rightarrow>
         if ok d
         then r = STATE_SUCCESS
           \<and> pub_list t = filter (\<lambda>n. pub_packet_id n \<noteq> of_nat (get_be16 (d ! 0) (d ! 1))) (pub_list s)
           \<and> received (trace t) = received (trace s) @ (case recv_handler s of None \<Rightarrow> []
               | Some h \<Rightarrow> [(h, Pkt_pub_ack (get_be16 (d ! 0) (d ! 1)), userdata s)])
         else r = STATE_MQTT_RECV_INVALID_PUBACK_PACKET \<and> pub_list t = pub_list s
           \<and> received (trace t) = received (trace s)
     | None \<Rightarrow> r = STATE_MQTT_RECV_INVALID_PUBACK_PACKET \<and> pub_list t = pub_list s
           \<and> received (trace t) = received (trace s))" for r :: int and t :: mqtt
  have remove: "wp (do { mutex_lock Pub_mutex;
       publist_remove (of_nat (get_be16 (d ! 0) (d ! 1)));
       mutex_unlock Pub_mutex;
       recv_notify (Pkt_pub_ack (get_be16 (d ! 0) (d ! 1)));
       ret STATE_SUCCESS }) Q u"
    if "input = Some d" "ok d" and u: "pub_list u = pub_list s" "trace u = trace s"
      "recv_handler u = recv_handler s" "userdata u = userdata s" for d u
    unfolding wp_bind wp_lock
    by (rule wp_mono [OF publist_remove_run])
      (use assms that in \<open>auto simp: Q_def recv_notify_def run_simps split: option.split\<close>)
  have "wp (dispatch 0x40 n input) Q s"
  proof (simp add: dispatch_def puback_handler_def, rule wp_mono [OF flow_inc_run], goal_cases)
    case (1 a t)
    show ?case
    proof (cases input)
      case None
      with 1 show ?thesis by (simp add: Q_def)
    next
      case (Some d)
      have cond: "(\<not> v5_enabled s \<and> length d \<noteq> 2) \<or> (v5_enabled s \<and> length d < 2) \<longleftrightarrow> \<not> ok d"
        by (auto simp: ok_def)
      show ?thesis
      proof (cases "ok d")
        case True
        with 1 remove [OF Some True, of t] show ?thesis by (simp add: Some cond Let_def del: One_nat_def)
      next
        case False
        with 1 show ?thesis by (simp add: Some cond Q_def)
      qed
    qed
  qed
  then show ?thesis unfolding wp_def Q_def ok_def .
qed

theorem puback_removes_its_publish_witness:
  "map pub_packet_id (pub_list (snd (run_state (dispatch 0x40 2 (Some [0, 8])) (demo_sender
     \<lparr>pub_list := [\<lparr>pub_packet_id = 7, pub_packet = [], pub_last_send = 0\<rparr>,
        \<lparr>pub_packet_id = 8, pub_packet = [], pub_last_send = 0\<rparr>]\<rparr>)))) = [7]"
  using puback_removes_its_publish [of "demo_sender\<lparr>pub_list := [\<lparr>pub_packet_id = 7, pub_packet = [],
     pub_last_send = 0\<rparr>, \<lparr>pub_packet_id = 8, pub_packet = [], pub_last_send = 0\<rparr>]\<rparr>" "Some [0, 8]" 2]
  by (simp add: split_beta get_be16_def)


section \<open>Repeating\<close>

text \<open>A node as the walk leaves it, and whether the walk repeats it, at the time \<open>now\<close>.\<close>

definition touched :: "64 word \<Rightarrow> pub_node \<Rightarrow> pub_node" where
  "touched now n = (if now < pub_last_send n then n\<lparr>pub_last_send := now\<rparr> else n)"

definition overdue :: "mqtt \<Rightarrow> 64 word \<Rightarrow> pub_node \<Rightarrow> bool" where
  "overdue s now n \<longleftrightarrow> now - pub_last_send (touched now n) \<ge> ucast (repub_timeout_ms s)"

text \<open>
  A walk over the nodes reads the clock once for each of them: \<open>ks\<close> are the instants of these
  readings, one after the other from the instant \<open>k\<close> on.
\<close>

definition readings :: "nat \<Rightarrow> nat list \<Rightarrow> bool" where
  "readings k ks \<longleftrightarrow> sorted_wrt (<) ks \<and> list_all (\<lambda>j. k \<le> j) ks"

definition timed :: "mqtt \<Rightarrow> nat list \<Rightarrow> pub_node list \<Rightarrow> (64 word \<times> pub_node) list" where
  "timed s ks ns = zip (map (p_time (port s)) ks) ns"

definition repeated :: "mqtt \<Rightarrow> (64 word \<times> pub_node) list \<Rightarrow> byte list list" where
  "repeated s tns = map (\<lambda>(now, n). pub_packet n) (filter (\<lambda>(now, n). overdue s now n) tns)"

lemma readings_Cons: "readings i ks \<Longrightarrow> k < i \<Longrightarrow> readings k (k # ks)"
  by (auto simp: readings_def list_all_iff)

lemma readings_mono: "readings i ks \<Longrightarrow> k \<le> i \<Longrightarrow> readings k ks"
  by (auto simp: readings_def list_all_iff)

definition walked :: "mqtt \<Rightarrow> pub_node list \<Rightarrow> int \<Rightarrow> pub_node list \<Rightarrow> mqtt \<Rightarrow> bool" where
  "walked s ns r ms t \<longleftrightarrow> repub_timeout_ms t = repub_timeout_ms s \<and> (STATE_SUCCESS \<le> r \<longrightarrow>
     (\<exists>ks. readings (tick s) ks \<and> length ks = length ns
       \<and> ms = map (\<lambda>(now, n). touched now n) (timed s ks ns)
       \<and> sent (trace t) = sent (trace s) @ repeated s (timed s ks ns)))"

lemma walked_Cons:
  assumes "walked u ns r ms t" "0 \<le> r" "repub_timeout_ms u = repub_timeout_ms s" "port u = port s" "tick s < tick u"
    and "now = p_time (port s) (tick s)"
    and "sent (trace u) = sent (trace s) @ (if overdue s now n then [pub_packet n] else [])"
  shows "walked s (n # ns) r (touched now n # ms) t"
proof -
  from assms(1,2) obtain ks where ks: "readings (tick u) ks" "length ks = length ns"
    "ms = map (\<lambda>(now, n). touched now n) (timed u ks ns)"
    "sent (trace t) = sent (trace u) @ repeated u (timed u ks ns)"
    by (auto simp: walked_def)
  have "overdue u = overdue s" using assms(3) by (simp add: overdue_def fun_eq_iff)
  with ks assms show ?thesis
    unfolding walked_def
    by (intro conjI impI exI [of _ "tick s # ks"])
      (auto simp: timed_def repeated_def intro: readings_Cons)
qed

lemma repub_nodes_run: "wp (repub_nodes ns) (\<lambda>(r, ms). walked s ns r ms) s"
proof (induction ns arbitrary: s)
  case Nil
  show ?case by (simp add: walked_def readings_def timed_def repeated_def)
next
  case (Cons n ns)
  define now where "now = p_time (port s) (tick s)"
  define u where "u = s\<lparr>tick := tick s + 1\<rparr>"
  have u: "repub_timeout_ms u = repub_timeout_ms s" "port u = port s" "tick u = tick s + 1"
    "sent (trace u) = sent (trace s)" by (simp_all add: u_def)
  have late: "overdue s now n \<longleftrightarrow> now - pub_last_send (touched now n) \<ge> ucast (repub_timeout_ms u)"
    by (simp add: overdue_def u)
  have packet: "pub_packet (touched now n) = pub_packet n" by (simp add: touched_def)
  define first :: "int mqtt_m" where "first = (if now - pub_last_send (touched now n) \<ge> ucast (repub_timeout_ms u)
             then send_locked (pub_packet (touched now n)) else ret STATE_SUCCESS)"
  have first: "wp first (\<lambda>r t. repub_timeout_ms t = repub_timeout_ms s \<and> port t = port s \<and> tick s < tick t
      \<and> (0 \<le> r \<longrightarrow> sent (trace t) = sent (trace s) @ (if overdue s now n then [pub_packet n] else []))) u"
    unfolding first_def late packet
    by (rule wp_ifI, rule wp_mono [OF send_outbox]) (simp_all add: u)
  have rest: "wp (if q < STATE_SUCCESS then ret (q, touched now n # ns)
       else do { (res, ms) \<leftarrow> repub_nodes ns; ret (res, touched now n # ms) })
     (\<lambda>(r, ms). walked s (n # ns) r ms) t"
    if t: "repub_timeout_ms t = repub_timeout_ms s" "port t = port s" "tick s < tick t"
      "0 \<le> q \<longrightarrow> sent (trace t) = sent (trace s) @ (if overdue s now n then [pub_packet n] else [])" for q :: int and t
  proof (rule wp_ifI)
    assume q: "\<not> q < STATE_SUCCESS"
    have step: "walked s (n # ns) r (touched now n # ms) v" if "walked t ns r ms v" for r ms v
    proof (cases "0 \<le> r")
      case True
      from walked_Cons [OF that this t(1-3) now_def] t(4) q show ?thesis by simp
    next
      case False
      with that t(1) show ?thesis by (simp add: walked_def)
    qed
    show "wp (do { (res, ms) \<leftarrow> repub_nodes ns; ret (res, touched now n # ms) })
      (\<lambda>(r, ms). walked s (n # ns) r ms) t"
      unfolding wp_bind by (rule wp_mono [OF Cons.IH]) (auto intro: step)
  qed (use t in \<open>simp add: walked_def\<close>)
  have "wp (repub_nodes (n # ns)) Q s = wp (first \<bind> (\<lambda>q. if q < STATE_SUCCESS then ret (q, touched now n # ns)
       else do { (res, ms) \<leftarrow> repub_nodes ns; ret (res, touched now n # ms) })) Q u" for Q
    unfolding repub_nodes.simps wp_bind [of sys_time] wp_bind [of State_Monad.get] wp_bind [of first]
      wp_sys_time wp_get now_def [symmetric] Let_def u_def [symmetric] touched_def [symmetric] first_def [symmetric] ..
  then show ?case
    unfolding wp_bind [of first] by (simp only:) (rule wp_mono [OF first], rule rest, simp_all)
qed

text \<open>A node found overdue is not given a new time, and stays overdue while the clock goes on.\<close>

lemma overdue_stays:
  assumes "overdue s now n" "now \<le> later" "repub_timeout_ms t = repub_timeout_ms s"
  shows "overdue t later (touched now n)"
proof -
  let ?l = "pub_last_send (touched now n)"
  have last: "?l \<le> now" by (auto simp: touched_def)
  then have "touched later (touched now n) = touched now n"
    using assms(2) by (simp add: touched_def [of later])
  moreover have "now - ?l \<le> later - ?l"
    using last assms(2) by (simp add: word_le_minus_mono_left)
  ultimately show ?thesis using assms(1,3) by (simp add: overdue_def)
qed

text \<open>
  C14: the periodic repetition reads the clock anew for every unacknowledged publish, in the order of
  the list. When it reports success, it has sent again exactly those whose last transmission is at
  least the timeout ago at the reading made for them, in their order, and has kept all of them; the
  time of a last transmission is changed only where it lies after the reading, which sets it to the
  reading. A repetition does not renew it, so that a publish found overdue still counts as overdue,
  in the state it leaves, at every later time.
\<close>

theorem repub_repeats_overdue:
  assumes "run_state core_mqtt_repub s = (r, t)" "STATE_SUCCESS \<le> r"
  shows "\<exists>ks. readings (tick s) ks \<and> length ks = length (pub_list s)
    \<and> (let tns = timed s ks (pub_list s) in
         sent (trace t) = sent (trace s) @ repeated s tns
         \<and> pub_list t = map (\<lambda>(now, n). touched now n) tns
         \<and> (\<forall>(now, n) \<in> set tns. overdue s now n \<longrightarrow> (\<forall>later \<ge> now. overdue t later (touched now n))))"
proof -
  let ?Q = "\<lambda>r t. STATE_SUCCESS \<le> r \<longrightarrow> walked s (pub_list s) r (pub_list t) t"
  have failed: "wp (do { send_failed q; ret q }) ?Q u" if "q < STATE_SUCCESS" for q u
    unfolding wp_bind wp_return by (intro wp_all) (use that in simp)
  have "wp core_mqtt_repub ?Q s"
    unfolding core_mqtt_repub_def wp_bind [of "mutex_lock _"] wp_lock
      wp_bind [of State_Monad.get] wp_get wp_bind [of "repub_nodes _"]
  proof (rule wp_mono [OF repub_nodes_run], clarify,
      unfold wp_bind [of "modify _"] wp_modify, rule wp_outbox [OF wire_sys(6) [THEN wire_outbox]],
      rule wp_ifI, erule failed, goal_cases)
    case (1 x v q ms w)
    then show ?case by (auto simp: outbox_def walked_def timed_def repeated_def overdue_def)
  qed
  from wp_run [OF this assms(1)] assms(2) have "walked s (pub_list s) r (pub_list t) t" by blast
  with assms(2) show ?thesis
    by (fastforce simp: walked_def Let_def intro: overdue_stays)
qed

theorem repub_repeats_overdue_witness:
  "sent (trace (snd (run_state core_mqtt_repub (demo_sender
     \<lparr>port := (demo_port (\<lambda>_. True) (\<lambda>_. 2) (\<lambda>_. (0, [])))\<lparr>p_time := \<lambda>_. 4000\<rparr>,
      pub_list := [\<lparr>pub_packet_id = 7, pub_packet = [0x32, 7], pub_last_send = 500\<rparr>,
        \<lparr>pub_packet_id = 8, pub_packet = [0x32, 8], pub_last_send = 2000\<rparr>]\<rparr>)))) = [[0x32, 7]]"
proof -
  let ?s = "demo_sender
     \<lparr>port := (demo_port (\<lambda>_. True) (\<lambda>_. 2) (\<lambda>_. (0, [])))\<lparr>p_time := \<lambda>_. 4000\<rparr>,
      pub_list := [\<lparr>pub_packet_id = 7, pub_packet = [0x32, 7], pub_last_send = 500\<rparr>,
        \<lparr>pub_packet_id = 8, pub_packet = [0x32, 8], pub_last_send = 2000\<rparr>]\<rparr>"
  obtain r t where run: "run_state core_mqtt_repub ?s = (r, t)" by fastforce
  have "wp core_mqtt_repub (\<lambda>r _. r = 0) ?s"
    by (simp add: demo_sender_def core_mqtt_repub_def send_locked_def eval_basic cong: eval_congs)
  from wp_run [OF this run] have "r = 0" .
  then show ?thesis
    unfolding run snd_conv using repub_repeats_overdue [OF run]
    by (auto simp: demo_sender_def timed_def repeated_def overdue_def touched_def Let_def length_Suc_conv)
qed

end
