(* ===== verification/Mqtt_Network.thy ===== *)
theory Mqtt_Network
  imports Mqtt_Outbox
begin

text \<open>
  Reading the remaining length of a packet from the network, byte by byte, and the times at which
  a lost connection is tried again.
\<close>

section \<open>The remaining length\<close>

text \<open>
  The next receives bring these bytes, each of them one: the client asks for one byte at a time, and
  a receive that brings none ends the read.
\<close>

definition serves :: "mqtt \<Rightarrow> byte list \<Rightarrow> bool" where
  "serves s bs \<longleftrightarrow> network_handle s \<and> (\<forall>i < length bs. p_recv (port s) (rx s + i) = (1, [bs ! i]))"

lemma serves_read:
  "serves s (b # bs) \<Longrightarrow> wp (core_mqtt_read 1) (\<lambda>r t. r = (1, [b]) \<and> serves t bs \<and> rx t = rx s + 1 \<and> port t = port s) s"
proof -
  assume s: "serves s (b # bs)"
  then have "network_handle s" "p_recv (port s) (rx s) = (1, [b])" by (auto simp: serves_def)
  moreover have "p_recv (port s) (rx s + 1 + i) = (1, [bs ! i])" if "i < length bs" for i
    using s that by (fastforce simp: serves_def)
  ultimately show ?thesis by (simp add: core_mqtt_read_def net_recv_def run_simps serves_def)
qed

lemma read_remainlen_step:
  assumes "serves s (b # bs)" "pos < 4"
    and "\<And>t. serves t bs \<Longrightarrow> rx t = rx s + 1 \<Longrightarrow> port t = port s \<Longrightarrow>
      if b AND 128 \<noteq> 0 then wp (read_remainlen_loop (Suc pos) (acc + unat (b AND 127) * 128 ^ pos)) Q t
      else Q (STATE_SUCCESS, acc + unat (b AND 127) * 128 ^ pos) t"
  shows "wp (read_remainlen_loop pos acc) Q s"
  unfolding read_remainlen_loop.simps [of pos acc] wp_bind [of "core_mqtt_read _"]
  by (rule wp_mono [OF serves_read [OF assms(1)]]) (use assms(3) vbi_multiplier [OF assms(2)] in \<open>simp add: Let_def\<close>)

lemma read_remainlen_encode:
  "n < 128 ^ (4 - pos) \<Longrightarrow> pos < 4 \<Longrightarrow> serves s (remain_len_encode n @ rest) \<Longrightarrow>
   wp (read_remainlen_loop pos acc) (\<lambda>r t. r = (STATE_SUCCESS, acc + n * 128 ^ pos) \<and> serves t rest
     \<and> rx t = rx s + length (remain_len_encode n)) s"
proof (induction n arbitrary: pos acc s rule: less_induct)
  case (less n)
  show ?case
  proof (cases "n < 128")
    case True
    have "serves s (of_nat n # rest)" using less.prems(3) True by (simp add: remain_len_encode_small)
    from read_remainlen_step [OF this less.prems(2)] True show ?thesis
      by (simp add: remain_len_encode_small vbi_byte(3,4) [OF True])
  next
    case False
    then have large: "128 \<le> n" by simp
    note enc = remain_len_encode_large [OF large] and next_ok = vbi_rest [OF less.prems(1,2) large]
    have b: "unat ((of_nat (n mod 128) OR 128 :: byte) AND 127) = n mod 128"
      "(of_nat (n mod 128) OR 128 :: byte) AND 128 \<noteq> 0" by (simp_all add: vbi_byte)
    show ?thesis
    proof (rule read_remainlen_step [OF less.prems(3) [unfolded enc append_Cons] less.prems(2)])
      fix t assume t: "serves t (remain_len_encode (n div 128) @ rest)" "rx t = rx s + 1"
      have "n div 128 < n" using large by simp
      from less.IH [OF this next_ok(2,1) t(1), of "acc + n mod 128 * 128 ^ pos"] t(2)
      show "if (of_nat (n mod 128) OR 128 :: byte) AND 128 \<noteq> 0
        then wp (read_remainlen_loop (Suc pos) (acc + unat ((of_nat (n mod 128) OR 128 :: byte) AND 127) * 128 ^ pos))
          (\<lambda>r t. r = (STATE_SUCCESS, acc + n * 128 ^ pos) \<and> serves t rest
            \<and> rx t = rx s + length (remain_len_encode n)) t
        else (STATE_SUCCESS, acc + unat ((of_nat (n mod 128) OR 128 :: byte) AND 127) * 128 ^ pos)
            = (STATE_SUCCESS, acc + n * 128 ^ pos) \<and> serves t rest
          \<and> rx t = rx s + length (remain_len_encode n)"
        unfolding if_P [OF b(2)] b(1) vbi_sum by (simp add: enc)
    qed
  qed
qed

text \<open>A receive that does not bring its byte, after bytes that announce another one.\<close>

definition read_error :: "int \<Rightarrow> int" where
  "read_error x = (if x < STATE_SUCCESS then mqtt_sysdep_return x STATE_SYS_DEPEND_NWK_RECV_ERR
     else STATE_SYS_DEPEND_NWK_READ_LESSDATA)"

lemma read_remainlen_cut:
  assumes "serves s bs" "\<forall>b \<in> set bs. b AND 128 \<noteq> 0" "pos + length bs \<le> 4"
    and "p_recv (port s) (rx s + length bs) = (x, got)" "x \<noteq> 1"
  shows "wp (read_remainlen_loop pos acc) (\<lambda>r _. r = (read_error x, 0)) s"
  using assms
proof (induction bs arbitrary: pos acc s)
  case Nil
  then have "wp (core_mqtt_read 1) (\<lambda>(r, _) _. r = read_error x \<and> r < 0) s"
    by (simp add: core_mqtt_read_def net_recv_def run_simps serves_def read_error_def mqtt_sysdep_return_def)
  then show ?case
    unfolding read_remainlen_loop.simps [of pos acc] wp_bind [of "core_mqtt_read _"]
    by (rule wp_mono) auto
next
  case (Cons b bs)
  have pos: "pos < 4" using Cons.prems(3) by simp
  show ?case
  proof (rule read_remainlen_step [OF Cons.prems(1) pos])
    fix t assume t: "serves t bs" "rx t = rx s + 1" "port t = port s"
    have "p_recv (port t) (rx t + length bs) = (x, got)" using Cons.prems(4) t by simp
    from Cons.IH [OF t(1) _ _ this Cons.prems(5), of "Suc pos"] Cons.prems(2,3)
    show "if b AND 128 \<noteq> 0
      then wp (read_remainlen_loop (Suc pos) (acc + unat (b AND 127) * 128 ^ pos)) (\<lambda>r _. r = (read_error x, 0)) t
      else (STATE_SUCCESS, acc + unat (b AND 127) * 128 ^ pos) = (read_error x, 0)"
      by simp
  qed
qed

text \<open>
  C13: the remaining length is read from the network as the client writes it, one byte by every
  receive. When each receive brings its byte, the bytes of every length below 2^28 are taken, no
  byte more, and give the length; five bytes of which the first four announce another one are
  refused as malformed. A receive that does not bring its byte, at the start or behind up to four
  bytes that announce another one, ends the read with its error, or with the code for less data.
\<close>

theorem remaining_length_read_back:
  "(n < 2 ^ 28 \<and> serves s (remain_len_encode n @ rest) \<longrightarrow>
      (case run_state core_mqtt_read_remainlen s of (r, t) \<Rightarrow>
        r = (STATE_SUCCESS, n) \<and> serves t rest \<and> rx t = rx s + length (remain_len_encode n)))
   \<and> (serves s [a, b, c, d, e] \<and> (\<forall>x \<in> {a, b, c, d}. x AND 128 \<noteq> 0) \<longrightarrow>
      fst (run_state core_mqtt_read_remainlen s) = (STATE_MQTT_MALFORMED_REMAINING_LEN, 0))
   \<and> (serves s bs \<and> (\<forall>b \<in> set bs. b AND 128 \<noteq> 0) \<and> length bs \<le> 4
        \<and> p_recv (port s) (rx s + length bs) = (x, got) \<and> x \<noteq> 1 \<longrightarrow>
      fst (run_state core_mqtt_read_remainlen s)
        = (if x < STATE_SUCCESS then mqtt_sysdep_return x STATE_SYS_DEPEND_NWK_RECV_ERR
           else STATE_SYS_DEPEND_NWK_READ_LESSDATA, 0))"
proof (intro conjI impI; elim conjE)
  assume "n < 2 ^ 28" "serves s (remain_len_encode n @ rest)"
  with read_remainlen_encode [of n 0 s rest 0]
  show "case run_state core_mqtt_read_remainlen s of (r, t) \<Rightarrow>
      r = (STATE_SUCCESS, n) \<and> serves t rest \<and> rx t = rx s + length (remain_len_encode n)"
    by (simp add: core_mqtt_read_remainlen_def wp_def)
next
  assume s: "serves s [a, b, c, d, e]" "\<forall>x \<in> {a, b, c, d}. x AND 128 \<noteq> 0"
  let ?Q = "\<lambda>r _. r = (STATE_MQTT_MALFORMED_REMAINING_LEN, 0 :: nat)"
  have more: "wp (read_remainlen_loop pos acc) ?Q t"
    if "serves t (x # xs)" "pos < 4" "x AND 128 \<noteq> 0"
      "\<And>acc u. serves u xs \<Longrightarrow> wp (read_remainlen_loop (Suc pos) acc) ?Q u" for x xs pos acc t
    using that by (intro read_remainlen_step [OF that(1,2)]) simp
  have fifth: "wp (read_remainlen_loop 4 acc) ?Q t" if "serves t [e]" for acc t
    unfolding read_remainlen_loop.simps [of 4] wp_bind [of "core_mqtt_read _"]
    by (rule wp_mono [OF serves_read [OF that]]) simp
  have fourth: "wp (read_remainlen_loop 3 acc) ?Q t" if "serves t [d, e]" for acc t
    using s(2) fifth by (intro more [OF that]) simp_all
  have third: "wp (read_remainlen_loop 2 acc) ?Q t" if "serves t [c, d, e]" for acc t
    using s(2) fourth by (intro more [OF that]) simp_all
  have "wp (read_remainlen_loop 1 acc) ?Q t" if "serves t [b, c, d, e]" for acc t
    using s(2) third by (intro more [OF that]) (simp_all add: numeral_2_eq_2)
  with s have "wp core_mqtt_read_remainlen ?Q s"
    unfolding core_mqtt_read_remainlen_def by (intro more [OF s(1)]) simp_all
  then show "fst (run_state core_mqtt_read_remainlen s) = (STATE_MQTT_MALFORMED_REMAINING_LEN, 0)"
    by (simp add: wp_def split_beta)
next
  assume "serves s bs" "\<forall>b \<in> set bs. b AND 128 \<noteq> 0" "length bs \<le> 4"
    "p_recv (port s) (rx s + length bs) = (x, got)" "x \<noteq> 1"
  with read_remainlen_cut [of s bs 0 x got 0]
  show "fst (run_state core_mqtt_read_remainlen s)
      = (if x < STATE_SUCCESS then mqtt_sysdep_return x STATE_SYS_DEPEND_NWK_RECV_ERR
         else STATE_SYS_DEPEND_NWK_READ_LESSDATA, 0)"
    by (simp add: core_mqtt_read_remainlen_def wp_def split_beta read_error_def)
qed

section \<open>Reconnecting\<close>

text \<open>
  A lost connection is not tried again before its time: with the default interval of two
  seconds the distance to the last attempt grows by two seconds with every failure counted, shifted
  by the random offset of at most half a second, up to about two minutes. Before that time the call
  reports a closed network and does nothing but ask the clock; from then on it connects.
\<close>

theorem reconnect_backs_off:
  assumes "\<not> network_handle s" "rc_backoff_enabled s" "rc_interval_ms s = 2000" "rc_counter s \<le> 60"
    and "rc_rand_ms s = rand mod 1000 - 500"
    and "now = p_time (port s) (tick s)"
    and "prev = (if now < rc_last_retry_time s then now else rc_last_retry_time s)"
    and "wait = 2000 * (rc_counter s + 1) + unat (rand mod 1000) - 500" "unat prev + wait < 2 ^ 64"
  shows "case run_state core_mqtt_reconnect s of (r, t) \<Rightarrow>
    (if unat now < unat prev + wait
     then r = STATE_SYS_DEPEND_NWK_CLOSED \<and> trace t = trace s \<and> \<not> network_handle t
       \<and> rc_counter t = rc_counter s \<and> tick t = tick s + 1
     else \<exists>ok. r = fst (run_state (do {
           core_log STATE_MQTT_LOG_RECONNECTING
             (str ''MQTT network disconnect, try to reconnecting...'' @ [13, 10]);
           core_mqtt_connect None })
         (s\<lparr>lock_ok := ok, held := [Recv_mutex, Send_mutex, Data_mutex] @ held s,
            tick := tick s + 1, rc_last_retry_time := prev\<rparr>)))"
proof -
  have rand: "unat (rand mod 1000) < 1000" by (simp add: unat_mod)
  have "wait + 500 = 2000 * (rc_counter s + 1) + unat (rand mod 1000)" using assms(8) by simp
  from arg_cong [OF this, of "of_nat :: nat \<Rightarrow> 32 word"]
  have "of_nat wait + 500 = 2000 * (of_nat (rc_counter s) + 1) + rand mod 1000" by (simp del: of_nat_mod)
  then have interval: "reconnect_interval s = of_nat wait"
    using assms(2,3,5) by (simp add: reconnect_interval_def algebra_simps)
  have wait: "wait < 2 ^ 32" using assms(4,8) rand by simp
  then have "unat (of_nat wait :: 32 word) = wait" by (simp add: unat_of_nat)
  with wait have "unat (ucast (reconnect_interval s) :: 64 word) = wait"
    by (simp add: interval unsigned_ucast_eq take_bit_nat_eq_self)
  with assms(9) have "unat (prev + ucast (reconnect_interval s)) = unat prev + wait"
    by (simp add: unat_word_ariths)
  then have due: "now \<ge> prev + ucast (reconnect_interval s) \<longleftrightarrow> \<not> unat now < unat prev + wait"
    by (simp add: word_le_nat_alt not_less)
  define connect where "connect = do {
    core_log STATE_MQTT_LOG_RECONNECTING (str ''MQTT network disconnect, try to reconnecting...'' @ [13, 10]);
    core_mqtt_connect None }"
  define rest where "rest res = do {
    t \<leftarrow> sys_time;
    modify (\<lambda>s. s\<lparr>rc_last_retry_time := t\<rparr>);
    modify (\<lambda>s. s\<lparr>rc_counter := reconnect_count res s\<rparr>);
    mutex_unlock Recv_mutex;
    mutex_unlock Send_mutex;
    mutex_unlock Data_mutex;
    ret res }" for res :: int
  let ?u = "\<lambda>ok. s\<lparr>lock_ok := ok, held := [Recv_mutex, Send_mutex, Data_mutex] @ held s,
            tick := tick s + 1, rc_last_retry_time := prev\<rparr>"
  have run: "\<exists>ok. wp core_mqtt_reconnect Q s = (if unat now < unat prev + wait
      then Q STATE_SYS_DEPEND_NWK_CLOSED (s\<lparr>tick := tick s + 1, rc_last_retry_time := prev, lock_ok := ok\<rparr>)
      else wp (connect \<bind> rest) Q (?u ok))" for Q
  proof -
    have "core_mqtt_reconnect = do {
     s \<leftarrow> State_Monad.get;
     if network_handle s then ret STATE_SUCCESS
     else do {
       mutex_lock Data_mutex;
       mutex_lock Send_mutex;
       mutex_lock Recv_mutex;
       time_now \<leftarrow> sys_time;
       modify (\<lambda>s. s\<lparr>rc_last_retry_time :=
         (if time_now < rc_last_retry_time s then time_now else rc_last_retry_time s)\<rparr>);
       v \<leftarrow> State_Monad.get;
       if time_now \<ge> rc_last_retry_time v + ucast (reconnect_interval s) then connect \<bind> rest
       else do {
         mutex_unlock Recv_mutex;
         mutex_unlock Send_mutex;
         mutex_unlock Data_mutex;
         ret STATE_SYS_DEPEND_NWK_CLOSED } } }"
      unfolding core_mqtt_reconnect_def reconnect_try_def connect_def rest_def
      by (simp add: if_distrib [of "\<lambda>m. State_Monad.bind m f" for f] cong: if_cong)
    note split = this
    have asked: "p_time (port s) (tick s) = now" using assms(6) by simp
    have last_try: "(if now < rc_last_retry_time s then now else rc_last_retry_time s) = prev"
      using assms(7) by simp
    define ok where "ok \<longleftrightarrow> ((lock_ok s \<and> (\<forall>h \<in> set (held s). mutex_rank h < mutex_rank Data_mutex))
      \<and> (\<forall>h \<in> set (Data_mutex # held s). mutex_rank h < mutex_rank Send_mutex))
      \<and> (\<forall>h \<in> set (Send_mutex # Data_mutex # held s). mutex_rank h < mutex_rank Recv_mutex)"
    show ?thesis
      by (rule exI [of _ ok])
        (simp add: split run_simps assms(1) asked last_try due ok_def del: wp_bind mutex_rank_simps
          add: wp_bind [of State_Monad.get] wp_bind [of "mutex_lock _"] wp_bind [of "mutex_unlock _"]
            wp_bind [of sys_time] wp_bind [of "modify _"] cong: if_cong)
  qed
  show ?thesis
  proof (cases "unat now < unat prev + wait")
    case True
    with run [of "\<lambda>r t. r = STATE_SYS_DEPEND_NWK_CLOSED \<and> trace t = trace s \<and> \<not> network_handle t
        \<and> rc_counter t = rc_counter s \<and> tick t = tick s + 1"] assms(1)
    show ?thesis by (auto simp: wp_def)
  next
    case False
    have same: "fst (run_state (connect \<bind> rest) u) = fst (run_state connect u)" for u
      by (simp add: rest_def split_beta)
    have "\<exists>ok. fst (run_state core_mqtt_reconnect s) = fst (run_state connect (?u ok))"
      using run [of "\<lambda>r _. r = fst (run_state core_mqtt_reconnect s)"] False
      by (simp only: if_False wp_def split_beta same) metis
    with False show ?thesis by (simp add: connect_def split_beta)
  qed
qed

theorem remaining_length_read_back_witness:
  "fst (run_state core_mqtt_read_remainlen (demo_sender\<lparr>port := demo_port (\<lambda>_. True) (\<lambda>_. 0)
       (\<lambda>n. (1, [if n = 0 then 0xC8 else 0x03]))\<rparr>)) = (0, 456)
   \<and> fst (run_state core_mqtt_read_remainlen (demo_sender\<lparr>port := demo_port (\<lambda>_. True) (\<lambda>_. 0)
       (\<lambda>n. (1, [0x80]))\<rparr>)) = (STATE_MQTT_MALFORMED_REMAINING_LEN, 0)
   \<and> fst (run_state core_mqtt_read_remainlen (demo_sender\<lparr>port := demo_port (\<lambda>_. True) (\<lambda>_. 0)
       (\<lambda>n. if n = 0 then (1, [0xC8]) else (0, []))\<rparr>)) = (STATE_SYS_DEPEND_NWK_READ_LESSDATA, 0)"
proof -
  let ?s = "demo_sender\<lparr>port := demo_port (\<lambda>_. True) (\<lambda>_. 0) (\<lambda>n. (1, [if n = 0 then 0xC8 else 0x03]))\<rparr>"
  let ?t = "demo_sender\<lparr>port := demo_port (\<lambda>_. True) (\<lambda>_. 0) (\<lambda>n. (1, [0x80]))\<rparr>"
  let ?u = "demo_sender\<lparr>port := demo_port (\<lambda>_. True) (\<lambda>_. 0) (\<lambda>n. if n = 0 then (1, [0xC8]) else (0, []))\<rparr>"
  have "remain_len_encode 456 = [0xC8, 0x03]" by (simp add: remain_len_encode.simps)
  then have "serves ?s (remain_len_encode 456 @ [])"
    by (simp add: serves_def demo_sender_def All_less_Suc2)
  moreover have "serves ?t [0x80, 0x80, 0x80, 0x80, 0x80]"
    by (simp add: serves_def demo_sender_def All_less_Suc2)
  moreover have "serves ?u [0xC8]" "p_recv (port ?u) (rx ?u + 1) = (0, [])"
    by (simp_all add: serves_def demo_sender_def)
  ultimately show ?thesis
    using remaining_length_read_back [of 456 ?s "[]"]
      remaining_length_read_back [of 0 ?t "[]" "0x80" "0x80" "0x80" "0x80" "0x80"]
      remaining_length_read_back [of 0 ?u "[]" 0 0 0 0 0 "[0xC8]" 0 "[]"]
    by (simp add: split_beta)
qed

theorem reconnect_backs_off_witness:
  "fst (run_state core_mqtt_reconnect (demo_client\<lparr>rc_last_retry_time := 1\<rparr>)) = STATE_SYS_DEPEND_NWK_CLOSED"
  using reconnect_backs_off [of "demo_client\<lparr>rc_last_retry_time := 1\<rparr>" 7 2 1 1507]
  by (simp add: demo_client_def split_beta)

end
