(* ===== verification/Core_Http.thy ===== *)
theory Core_Http
  imports Core_Log
begin

text \<open>
  The HTTP client of the link SDK, \<^verbatim>\<open>core/utils/core_http.c\<close>, with the receive handlers
  of \<^verbatim>\<open>core/aiot_http_api.c\<close> that it calls: one connection, requests with a header and a
  body, and the answer taken apart line by line. The handle extends the world of the port
  (\<^verbatim>\<open>core_http_handle_t\<close>); the local variable \<^verbatim>\<open>response\<close> of the callers, to
  which \<^verbatim>\<open>core_userdata\<close> points while they run, is a field. Texts are C strings. A loop
  that may wait for the network has fuel: the answer is \<open>None\<close> when it did not suffice.
\<close>

unbundle bit_operations_syntax

section \<open>The handle\<close>

datatype http_sm = Sm_read_header | Sm_read_body

record http_session =
  session_sm :: http_sm
  session_total_len :: "32 word"
  session_read_len :: "32 word"

definition session_0 :: http_session where
  "session_0 = \<lparr>session_sm = Sm_read_header, session_total_len = 0, session_read_len = 0\<rparr>"

text \<open>The length of the content is that of the list.\<close>

record http_response =
  rsp_code :: "32 word"
  rsp_content :: "byte list option"
  rsp_total_len :: "32 word"

definition response_0 :: http_response where
  "response_0 = \<lparr>rsp_code = 0, rsp_content = None, rsp_total_len = 0\<rparr>"

definition content_bytes :: "http_response \<Rightarrow> byte list" where
  "content_bytes p = (case rsp_content p of None \<Rightarrow> [] | Some c \<Rightarrow> c)"

text \<open>
  The functions that the code installs as \<^verbatim>\<open>core_recv_handler\<close>, or one of the user; the
  data that goes with it.
\<close>

datatype http_handler = Auth_recv_handler | Forward_recv_handler | User_recv_handler nat

datatype http_data = User_data nat | Response_data

record http = world +
  http_network :: bool
  http_host :: "byte list option"
  http_port :: nat
  http_product_key :: "byte list option"
  http_device_name :: "byte list option"
  http_device_secret :: "byte list option"
  http_extend_devinfo :: "byte list option"
  http_connect_timeout :: nat
  http_send_timeout :: nat
  http_recv_timeout :: "32 word"
  http_auth_timeout :: "32 word"
  http_deinit_timeout :: "32 word"
  http_line_max :: nat
  http_body_max :: "32 word"
  http_cred :: "nat option"
  http_token :: "byte list option"
  http_long_connection :: nat
  http_exec_enabled :: bool
  http_exec_count :: "32 word"
  http_core_enabled :: bool
  http_core_count :: "32 word"
  http_session :: http_session
  http_event_handler :: "nat option"
  http_recv_handler :: "nat option"
  http_core_handler :: "http_handler option"
  http_userdata :: nat
  http_core_userdata :: http_data
  http_response :: http_response

type_synonym 'r http_m = "(http, 'r) state"

definition http_exec_inc :: "unit http_m" where
  "http_exec_inc = do {
     mutex_lock Data_mutex;
     modify (\<lambda>s. s\<lparr>http_core_count := http_core_count s + 1\<rparr>);
     mutex_unlock Data_mutex
   }"

definition http_exec_dec :: "unit http_m" where
  "http_exec_dec = do {
     mutex_lock Data_mutex;
     modify (\<lambda>s. s\<lparr>http_core_count := http_core_count s - 1\<rparr>);
     mutex_unlock Data_mutex
   }"

definition http_sysdep_return :: "int \<Rightarrow> int \<Rightarrow> int" where
  "http_sysdep_return sysdep_code core_code =
     (if sysdep_code \<ge> STATE_PORT_BASE - 0x00FF \<and> sysdep_code < STATE_PORT_BASE
      then sysdep_code else core_code)"

section \<open>Connecting\<close>

definition http_drop :: "unit http_m" where
  "http_drop = do { net_deinit; modify (\<lambda>s. s\<lparr>http_network := False\<rparr>) }"

definition http_connect_cred :: "int http_m" where
  "http_connect_cred = do {
     s \<leftarrow> State_Monad.get;
     case http_cred s of
       None \<Rightarrow> ret STATE_SUCCESS
     | Some c \<Rightarrow> do {
         res \<leftarrow> net_setopt (Opt_cred c);
         if res < STATE_SUCCESS then do {
           http_drop;
           ret (http_sysdep_return res STATE_SYS_DEPEND_NWK_INVALID_CRED)
         } else ret STATE_SUCCESS
       }
   }"

definition http_connect_host :: "byte list \<Rightarrow> int http_m" where
  "http_connect_host host = do {
     ok \<leftarrow> net_init;
     if \<not> ok then ret STATE_SYS_DEPEND_MALLOC_FAILED
     else do {
       modify (\<lambda>s. s\<lparr>http_network := True\<rparr>);
       s \<leftarrow> State_Monad.get;
       res \<leftarrow> setopts [Opt_socket_type, Opt_host host, Opt_port (http_port s),
                         Opt_connect_timeout (http_connect_timeout s)];
       if res < STATE_SUCCESS then do {
         http_drop;
         ret (http_sysdep_return res STATE_SYS_DEPEND_NWK_INVALID_OPTION)
       } else do {
         res \<leftarrow> http_connect_cred;
         if res < STATE_SUCCESS then ret res
         else do {
           res \<leftarrow> net_establish;
           if res < STATE_SUCCESS then do {
             http_drop;
             ret (http_sysdep_return res STATE_SYS_DEPEND_NWK_EST_FAILED)
           } else ret STATE_SUCCESS
         }
       }
     }
   }"

definition http_connect :: "int http_m" where
  "http_connect = do {
     s \<leftarrow> State_Monad.get;
     on (http_network s) http_drop;
     case http_host s of
       None \<Rightarrow> ret STATE_USER_INPUT_MISSING_HOST
     | Some host \<Rightarrow> http_connect_host host
   }"

definition core_http_connect :: "int http_m" where
  "core_http_connect = do {
     s \<leftarrow> State_Monad.get;
     if \<not> http_core_enabled s then ret STATE_USER_INPUT_EXEC_DISABLED
     else do {
       http_exec_inc;
       mutex_lock Send_mutex;
       mutex_lock Recv_mutex;
       res \<leftarrow> http_connect;
       mutex_unlock Recv_mutex;
       mutex_unlock Send_mutex;
       http_exec_dec;
       ret res
     }
   }"

section \<open>Sending a request\<close>

definition http_send :: "byte list \<Rightarrow> int http_m" where
  "http_send buffer = do {
     s \<leftarrow> State_Monad.get;
     if http_network s then do {
       res \<leftarrow> net_send buffer;
       if res < STATE_SUCCESS then do {
         http_drop;
         core_log STATE_HTTP_LOG_DISCONNECT (str ''HTTP network error when sending data, disconnect'' @ [13, 10]);
         ret (http_sysdep_return res STATE_SYS_DEPEND_NWK_SEND_ERR)
       } else ret (if res \<noteq> int (length buffer) then STATE_SYS_DEPEND_NWK_WRITE_LESSDATA else res)
     } else ret STATE_SYS_DEPEND_NWK_CLOSED
   }"

definition http_send_body :: "byte list \<Rightarrow> int http_m" where
  "http_send_body content = do {
     core_log_hexdump STATE_HTTP_LOG_SEND_CONTENT 62 content;
     mutex_lock Send_mutex;
     res \<leftarrow> http_send content;
     mutex_unlock Send_mutex;
     ret res
   }"

text \<open>
  \<open>line\<close> is what stands between \<^verbatim>\<open>prev\<close> and \<^verbatim>\<open>pos\<close>; a line feed as the first byte
  of the header makes the code look at the byte before it.
\<close>

fun header_print_loop :: "byte list \<Rightarrow> byte list \<Rightarrow> byte list \<Rightarrow> unit http_m" where
  "header_print_loop prefix line [] = ret ()"
| "header_print_loop prefix line (c # rest) =
     (if c = 10 \<and> line \<noteq> [] \<and> last line = 13 then do {
        core_logn STATE_HTTP_LOG_SEND_HEADER (str ''%s %.*s'')
          [LStr (Some prefix), LUint (of_nat (length line + 1)), LStr (Some (line @ c # rest))];
        header_print_loop prefix [] rest
      } else header_print_loop prefix (line @ [c]) rest)"

definition http_header_print :: "byte list \<Rightarrow> byte list \<Rightarrow> unit http_m" where
  "http_header_print prefix header = do {
     on (take 1 header = [10]) fault;
     header_print_loop prefix [] header
   }"

record http_request =
  rq_method :: "byte list"
  rq_path :: "byte list"
  rq_header :: "byte list option"
  rq_content :: "byte list option"

definition rq_content_len :: "http_request \<Rightarrow> nat" where
  "rq_content_len r = (case rq_content r of None \<Rightarrow> 0 | Some c \<Rightarrow> length c)"

definition http_request_format :: "byte list" where
  "http_request_format = str ''%s %s HTTP/1.1'' @ [13, 10] @ str ''Host: %s'' @ [13, 10]
     @ str ''%sContent-Length: %s'' @ [13, 10, 13, 10]"

definition http_send_header ::
  "byte list \<Rightarrow> byte list \<Rightarrow> byte list \<Rightarrow> byte list option \<Rightarrow> byte list \<Rightarrow> int http_m" where
  "http_send_header meth path host header content_lenstr = do {
     (res, combine_header) \<leftarrow> core_sprintf http_request_format
       [Some meth, Some path, Some host, header, Some content_lenstr];
     if res < STATE_SUCCESS then ret res
     else do {
       http_header_print [62] combine_header;
       mutex_lock Send_mutex;
       res \<leftarrow> http_send combine_header;
       mutex_unlock Send_mutex;
       sys_free;
       ret res
     }
   }"

text \<open>The length of the body is 32 bits wide; its text is that of \<^verbatim>\<open>core_uint2str\<close>.\<close>

definition core_http_send :: "http_request \<Rightarrow> int http_m" where
  "core_http_send request = do {
     s \<leftarrow> State_Monad.get;
     case http_host s of
       None \<Rightarrow> ret STATE_USER_INPUT_MISSING_HOST
     | Some host \<Rightarrow>
         if \<not> http_network s then ret STATE_SYS_DEPEND_NWK_CLOSED
         else if \<not> http_core_enabled s then ret STATE_USER_INPUT_EXEC_DISABLED
         else do {
           modify (\<lambda>s. s\<lparr>http_session := session_0\<rparr>);
           http_exec_inc;
           (_, content_lenstr) \<leftarrow> lift_outcome [] (core_uint2str (of_nat (rq_content_len request)));
           res \<leftarrow> http_send_header (rq_method request) (rq_path request) host (rq_header request) content_lenstr;
           if res < STATE_SUCCESS then do { http_exec_dec; ret res }
           else (case rq_content request of
             Some (c # cs) \<Rightarrow> do {
               res \<leftarrow> http_send_body (c # cs);
               http_exec_dec;
               ret res
             }
           | _ \<Rightarrow> do { http_exec_dec; ret STATE_SUCCESS })
         }
   }"

section \<open>The receive handlers\<close>

text \<open>\<^verbatim>\<open>strlen\<close> of a text whose buffer may hold a NUL before its end.\<close>

definition c_strlen :: "byte list \<Rightarrow> nat" where
  "c_strlen t = length (takeWhile (\<lambda>b. b \<noteq> 0) t)"

definition content_length_of :: "byte list \<Rightarrow> 32 word \<Rightarrow> 32 word" where
  "content_length_of value old = (case core_str2uint value (of_nat (c_strlen value)) of Ret v \<Rightarrow> v | _ \<Rightarrow> old)"

definition set_content_length :: "byte list \<Rightarrow> byte list \<Rightarrow> unit http_m" where
  "set_content_length key value =
     on (take (c_strlen key) key = str ''Content-Length'')
       (modify (\<lambda>s. s\<lparr>http_response := (http_response s)\<lparr>rsp_total_len :=
          content_length_of value (rsp_total_len (http_response s))\<rparr>\<rparr>))"

definition append_content :: "byte list \<Rightarrow> unit http_m" where
  "append_content buffer = do {
     ok \<leftarrow> sys_malloc;
     on ok (do {
       s \<leftarrow> State_Monad.get;
       on (rsp_content (http_response s) \<noteq> None) sys_free;
       modify (\<lambda>s. s\<lparr>http_response := (http_response s)\<lparr>rsp_content :=
          Some (content_bytes (http_response s) @ buffer)\<rparr>\<rparr>)
     })
   }"

definition auth_recv_handler :: "http_packet \<Rightarrow> unit http_m" where
  "auth_recv_handler packet = (case packet of
     Http_status code \<Rightarrow> modify (\<lambda>s. s\<lparr>http_response := (http_response s)\<lparr>rsp_code := of_nat code\<rparr>\<rparr>)
   | Http_header key value \<Rightarrow> set_content_length key value
   | Http_body buffer \<Rightarrow> append_content buffer)"

definition forward_recv_handler :: "http_packet \<Rightarrow> unit http_m" where
  "forward_recv_handler packet = do {
     s \<leftarrow> State_Monad.get;
     case http_recv_handler s of
       None \<Rightarrow> ret ()
     | Some h \<Rightarrow> (case packet of
         Http_status code \<Rightarrow> emit (Http_recv_cb h packet (http_userdata s))
       | Http_header key value \<Rightarrow> do {
           set_content_length key value;
           emit (Http_recv_cb h packet (http_userdata s))
         }
       | Http_body buffer \<Rightarrow> append_content buffer)
   }"

text \<open>
  The call through \<^verbatim>\<open>core_recv_handler\<close>. The handlers of the SDK take the user data for a
  response; anything else there is undefined.
\<close>

definition call_core_handler :: "http_packet \<Rightarrow> unit http_m" where
  "call_core_handler packet = do {
     s \<leftarrow> State_Monad.get;
     case http_core_handler s of
       None \<Rightarrow> ret ()
     | Some (User_recv_handler h) \<Rightarrow>
         emit (Http_recv_cb h packet (case http_core_userdata s of User_data u \<Rightarrow> u | Response_data \<Rightarrow> 0))
     | Some Auth_recv_handler \<Rightarrow>
         if http_core_userdata s = Response_data then auth_recv_handler packet else fault
     | Some Forward_recv_handler \<Rightarrow>
         if http_core_userdata s = Response_data then forward_recv_handler packet else fault
   }"

section \<open>Receiving the header\<close>

definition recv_status_code :: "32 word \<Rightarrow> unit http_m" where
  "recv_status_code status_code = call_core_handler (Http_status (unat status_code))"

definition recv_header_pair :: "byte list \<Rightarrow> byte list \<Rightarrow> unit http_m" where
  "recv_header_pair key value = do {
     s \<leftarrow> State_Monad.get;
     if http_core_handler s = None then ret ()
     else do {
       ok \<leftarrow> sys_malloc;
       if \<not> ok then ret ()
       else do {
         ok \<leftarrow> sys_malloc;
         if \<not> ok then sys_free
         else do {
           call_core_handler (Http_header key value);
           sys_free;
           sys_free
         }
       }
     }
   }"

definition http_recv :: "nat \<Rightarrow> (int \<times> byte list) http_m" where
  "http_recv len = do {
     s \<leftarrow> State_Monad.get;
     if http_network s then do {
       (res, buffer) \<leftarrow> net_recv len;
       if res < STATE_SUCCESS then do {
         http_drop;
         core_log STATE_HTTP_LOG_DISCONNECT (str ''HTTP network error when receving data, disconnect'' @ [13, 10]);
         ret (http_sysdep_return res STATE_SYS_DEPEND_NWK_RECV_ERR, buffer)
       } else ret (res, buffer)
     } else ret (STATE_SYS_DEPEND_NWK_CLOSED, replicate len 0)
   }"

text \<open>
  A complete line: a status line gives the code, and every colon followed by a space makes a pair of
  what is before and behind it. The new length of the body and the status are returned.
\<close>

definition status_prefix :: "byte list" where
  "status_prefix = str ''HTTP/1.1 ''"

definition status_line :: "byte list \<Rightarrow> int \<Rightarrow> int http_m" where
  "status_line line res =
     (if length line > length status_prefix + 3 \<and> take (length status_prefix) line = status_prefix then do {
        let digits = takeWhile is_digit (drop (length status_prefix) line);
        case core_str2uint digits (of_nat (length digits)) of
          Ret status_code \<Rightarrow> do { recv_status_code status_code; ret STATE_SUCCESS }
        | Fail _ \<Rightarrow> ret STATE_HTTP_STATUS_LINE_INVALID
        | Fault \<Rightarrow> do { fault; ret STATE_HTTP_STATUS_LINE_INVALID }
      } else ret res)"

fun header_pairs :: "byte list \<Rightarrow> nat list \<Rightarrow> 32 word \<Rightarrow> (32 word) http_m" where
  "header_pairs line [] total_len = ret total_len"
| "header_pairs line (i # is) total_len =
     (if line ! i = 58 \<and> i + 1 < length line \<and> line ! (i + 1) = 32 then do {
        let value = take (length line - i - 4) (drop (i + 2) line);
        let total_len =
          (if i + 2 = 16 \<and> take 16 line = str ''Content-Length: '' then
             (case core_str2uint value (of_nat (length value)) of Ret v \<Rightarrow> v | _ \<Rightarrow> total_len)
           else total_len);
        recv_header_pair (take i line) value;
        header_pairs line is total_len
      } else header_pairs line is total_len)"

text \<open>A line with its end; the empty line is the last one. The flag says whether the loop is left.\<close>

definition header_line :: "byte list \<Rightarrow> int \<Rightarrow> 32 word \<Rightarrow> (bool \<times> int \<times> 32 word) http_m" where
  "header_line line res total_len = do {
     core_logn STATE_HTTP_LOG_RECV_HEADER (str ''< %.*s'') [LUint (of_nat (length line)), LStr (Some line)];
     if length line = 2 then ret (True, res, total_len)
     else do {
       res \<leftarrow> status_line line res;
       if res < STATE_SUCCESS then ret (True, res, total_len)
       else do {
         total_len \<leftarrow> header_pairs line [0..<length line] total_len;
         ret (False, res, total_len)
       }
     }
   }"

text \<open>
  The loop reads one byte, and one more behind a carriage return; \<open>line\<close> is what has been read
  of the current line.
\<close>

fun recv_header_loop ::
  "nat \<Rightarrow> byte list \<Rightarrow> 64 word \<Rightarrow> int \<Rightarrow> 32 word \<Rightarrow> ((int \<times> 32 word) option) http_m" where
  "recv_header_loop 0 line timenow res total_len = ret None"
| "recv_header_loop (Suc fuel) line timenow res total_len = do {
     s \<leftarrow> State_Monad.get;
     if length line \<ge> http_line_max s then ret (Some (res, total_len))
     else do {
       now \<leftarrow> sys_time;
       timenow \<leftarrow> (if timenow > now then sys_time else ret timenow);
       now \<leftarrow> sys_time;
       if now - timenow \<ge> ucast (http_recv_timeout s) then ret (Some (STATE_HTTP_HEADER_INVALID, total_len))
       else if length line + 2 > http_line_max s then ret (Some (STATE_HTTP_HEADER_BUFFER_TOO_SHORT, total_len))
       else do {
         (res, b) \<leftarrow> http_recv 1;
         if res < STATE_SUCCESS then ret (Some (res, total_len))
         else if res = 0 \<or> b \<noteq> [13] then recv_header_loop fuel (line @ b) timenow res total_len
         else do {
           (res, c) \<leftarrow> http_recv 1;
           if res < STATE_SUCCESS then ret (Some (res, total_len))
           else if res = 0 \<or> c \<noteq> [10] then recv_header_loop fuel (line @ b @ c) timenow res total_len
           else do {
             (left, res, total_len) \<leftarrow> header_line (line @ b @ c) res total_len;
             if left then ret (Some (res, total_len)) else recv_header_loop fuel [] timenow res total_len
           }
         }
       }
     }
   }"

declare recv_header_loop.simps(2) [simp del]

definition http_recv_header :: "nat \<Rightarrow> ((int \<times> 32 word) option) http_m" where
  "http_recv_header fuel = do {
     ok \<leftarrow> sys_malloc;
     if \<not> ok then ret (Some (STATE_SYS_DEPEND_MALLOC_FAILED, 0))
     else do {
       timenow \<leftarrow> sys_time;
       r \<leftarrow> recv_header_loop fuel [] timenow STATE_SUCCESS 0;
       on (r \<noteq> None) sys_free;
       ret r
     }
   }"

section \<open>Receiving the body\<close>

text \<open>More bytes than the buffer holds cannot come from a correct port.\<close>

definition body_received :: "int \<Rightarrow> byte list \<Rightarrow> unit http_m" where
  "body_received res buffer = do {
     on (res > int (length buffer)) fault;
     let data = take (nat res) buffer;
     core_log_hexdump STATE_HTTP_LOG_RECV_CONTENT 60 data;
     s \<leftarrow> State_Monad.get;
     on (http_core_handler s \<noteq> None) (do {
       modify (\<lambda>s. s\<lparr>http_session := (http_session s)\<lparr>session_read_len :=
         session_read_len (http_session s) + of_int res\<rparr>\<rparr>);
       call_core_handler (Http_body data)
     })
   }"

definition http_recv_body :: "32 word \<Rightarrow> int http_m" where
  "http_recv_body body_total_len = do {
     s \<leftarrow> State_Monad.get;
     if session_total_len (http_session s) = 0 \<and> body_total_len = 0 then ret STATE_HTTP_READ_BODY_EMPTY
     else do {
       on (body_total_len \<noteq> 0) (modify (\<lambda>s. s\<lparr>http_session :=
         (http_session s)\<lparr>session_total_len := body_total_len\<rparr>\<rparr>));
       let remaining_len = (if body_total_len \<noteq> 0 then body_total_len
         else session_total_len (http_session s) - session_read_len (http_session s));
       if remaining_len = 0 then ret STATE_HTTP_READ_BODY_FINISHED
       else do {
         ok \<leftarrow> sys_malloc;
         if \<not> ok then ret STATE_SYS_DEPEND_MALLOC_FAILED
         else do {
           mutex_lock Recv_mutex;
           (res, buffer) \<leftarrow> http_recv (unat (min remaining_len (http_body_max s)));
           mutex_unlock Recv_mutex;
           on (res > 0) (body_received res buffer);
           sys_free;
           ret res
         }
       }
     }
   }"

definition core_http_recv :: "nat \<Rightarrow> (int option) http_m" where
  "core_http_recv fuel = do {
     s \<leftarrow> State_Monad.get;
     if \<not> http_network s then ret (Some STATE_SYS_DEPEND_NWK_CLOSED)
     else if \<not> http_core_enabled s then ret (Some STATE_USER_INPUT_EXEC_DISABLED)
     else do {
       http_exec_inc;
       r \<leftarrow> (if session_sm (http_session s) = Sm_read_header then do {
                mutex_lock Recv_mutex;
                r \<leftarrow> http_recv_header fuel;
                on (r \<noteq> None) (mutex_unlock Recv_mutex);
                ret r
              } else ret (Some (STATE_SUCCESS, 0)));
       case r of
         None \<Rightarrow> ret None
       | Some (res, body_total_len) \<Rightarrow>
           if res < STATE_SUCCESS then do { http_exec_dec; ret (Some res) }
           else do {
             modify (\<lambda>s. s\<lparr>http_session := (http_session s)\<lparr>session_sm := Sm_read_body\<rparr>\<rparr>);
             res \<leftarrow> http_recv_body body_total_len;
             on (res = STATE_HTTP_READ_BODY_FINISHED \<or> res = STATE_HTTP_READ_BODY_EMPTY)
               (modify (\<lambda>s. s\<lparr>http_session := session_0\<rparr>));
             http_exec_dec;
             ret (Some res)
           }
     }
   }"

section \<open>Creating, configuring and destroying a handle\<close>

definition http_handle_0 :: "world \<Rightarrow> http" where
  "http_handle_0 w = world.extend w (http.fields False None 0 None None None None 0 0 0 0 0 0 0 None None 0
     False 0 False 0 session_0 None None None 0 (User_data 0) response_0)"

definition core_http_init :: "(world, http option) state" where
  "core_http_init = do {
     ok \<leftarrow> sys_malloc;
     if \<not> ok then ret None
     else do {
       w \<leftarrow> State_Monad.get;
       ret (Some ((http_handle_0 w)\<lparr>http_connect_timeout := 10 * 1000, http_send_timeout := 5 * 1000,
         http_recv_timeout := 5 * 1000, http_line_max := 128, http_body_max := 128,
         http_deinit_timeout := 2 * 1000, http_core_enabled := True\<rparr>))
     }
   }"

text \<open>The options that \<^verbatim>\<open>aiot_http_setopt\<close> hands through, and the two of the core.\<close>

datatype http_option = Ho_host "byte list" | Ho_port nat | Ho_network_cred nat
  | Ho_connect_timeout_ms nat | Ho_send_timeout_ms nat | Ho_recv_timeout_ms "32 word"
  | Ho_deinit_timeout_ms "32 word" | Ho_header_line_max_len nat | Ho_body_buffer_max_len "32 word"
  | Ho_event_handler nat

datatype core_http_option = Co_shared http_option | Co_userdata http_data | Co_recv_handler http_handler

definition http_value :: "(http \<Rightarrow> http) \<Rightarrow> int http_m" where
  "http_value update = do { modify update; ret STATE_SUCCESS }"

definition http_string ::
  "(http \<Rightarrow> byte list option) \<Rightarrow> (byte list option \<Rightarrow> http \<Rightarrow> http) \<Rightarrow> byte list \<Rightarrow> int http_m" where
  "http_string field update data = do {
     s \<leftarrow> State_Monad.get;
     (res, dest) \<leftarrow> core_strdup (field s) data;
     modify (update dest);
     ret res
   }"

definition http_set_cred :: "nat \<Rightarrow> int http_m" where
  "http_set_cred c = do {
     s \<leftarrow> State_Monad.get;
     on (http_cred s \<noteq> None) (do { sys_free; modify (\<lambda>s. s\<lparr>http_cred := None\<rparr>) });
     ok \<leftarrow> sys_malloc;
     if ok then do { modify (\<lambda>s. s\<lparr>http_cred := Some c\<rparr>); ret STATE_SUCCESS }
     else ret STATE_SYS_DEPEND_MALLOC_FAILED
   }"

definition http_option_switch :: "http_option \<Rightarrow> int http_m" where
  "http_option_switch opt = (case opt of
     Ho_host v \<Rightarrow> http_string http_host (\<lambda>d s. s\<lparr>http_host := d\<rparr>) v
   | Ho_port v \<Rightarrow> http_value (\<lambda>s. s\<lparr>http_port := v\<rparr>)
   | Ho_network_cred v \<Rightarrow> http_set_cred v
   | Ho_connect_timeout_ms v \<Rightarrow> http_value (\<lambda>s. s\<lparr>http_connect_timeout := v\<rparr>)
   | Ho_send_timeout_ms v \<Rightarrow> http_value (\<lambda>s. s\<lparr>http_send_timeout := v\<rparr>)
   | Ho_recv_timeout_ms v \<Rightarrow> http_value (\<lambda>s. s\<lparr>http_recv_timeout := v\<rparr>)
   | Ho_deinit_timeout_ms v \<Rightarrow> http_value (\<lambda>s. s\<lparr>http_deinit_timeout := v\<rparr>)
   | Ho_header_line_max_len v \<Rightarrow> http_value (\<lambda>s. s\<lparr>http_line_max := v\<rparr>)
   | Ho_body_buffer_max_len v \<Rightarrow> http_value (\<lambda>s. s\<lparr>http_body_max := v\<rparr>)
   | Ho_event_handler v \<Rightarrow> http_value (\<lambda>s. s\<lparr>http_event_handler := Some v\<rparr>))"

definition core_http_setopt :: "core_http_option option \<Rightarrow> int http_m" where
  "core_http_setopt data = (case data of
     None \<Rightarrow> ret STATE_USER_INPUT_NULL_POINTER
   | Some opt \<Rightarrow> do {
       s \<leftarrow> State_Monad.get;
       if \<not> http_core_enabled s then ret STATE_USER_INPUT_EXEC_DISABLED
       else do {
         http_exec_inc;
         mutex_lock Data_mutex;
         res \<leftarrow> (case opt of
             Co_shared v \<Rightarrow> http_option_switch v
           | Co_userdata v \<Rightarrow> http_value (\<lambda>s. s\<lparr>http_core_userdata := v\<rparr>)
           | Co_recv_handler v \<Rightarrow> http_value (\<lambda>s. s\<lparr>http_core_handler := Some v\<rparr>));
         mutex_unlock Data_mutex;
         http_exec_dec;
         ret res
       }
     })"

text \<open>
  The wait of \<^verbatim>\<open>core_http_deinit\<close> looks at the counter of the outer interface, and its
  condition does not change from round to round.
\<close>

fun core_deinit_wait :: "nat \<Rightarrow> (unit option) http_m" where
  "core_deinit_wait 0 = ret None"
| "core_deinit_wait (Suc fuel) = do {
     s \<leftarrow> State_Monad.get;
     if http_exec_count s = 0 then ret (Some ())
     else do {
       sys_sleep 100;
       if http_deinit_timeout s > 100 then core_deinit_wait fuel else ret (Some ())
     }
   }"

definition core_http_deinit :: "nat \<Rightarrow> (int option) http_m" where
  "core_http_deinit fuel = do {
     s \<leftarrow> State_Monad.get;
     if \<not> http_core_enabled s then ret (Some STATE_USER_INPUT_EXEC_DISABLED)
     else do {
       modify (\<lambda>s. s\<lparr>http_exec_enabled := False\<rparr>);
       waited \<leftarrow> core_deinit_wait fuel;
       case waited of
         None \<Rightarrow> ret None
       | Some _ \<Rightarrow> do {
           s \<leftarrow> State_Monad.get;
           if http_exec_count s \<noteq> 0 then ret (Some STATE_HTTP_DEINIT_TIMEOUT)
           else do {
             on (http_network s) http_drop;
             on (http_host s \<noteq> None) sys_free;
             on (http_cred s \<noteq> None) sys_free;
             sys_free;
             ret (Some STATE_SUCCESS)
           }
         }
     }
   }"

end
