(* ===== verification/Aiot_Http.thy ===== *)
theory Aiot_Http
  imports Core_Http Core_Auth
begin

text \<open>
  The interface of \<^verbatim>\<open>core/aiot_http_api.c\<close>: a device authenticates itself over HTTP,
  keeps the token of the answer, and publishes messages with it. The receive handlers of the file
  are in \<open>Core_Http\<close>.
\<close>

unbundle bit_operations_syntax

section \<open>Creating and configuring\<close>

definition aiot_http_exec_inc :: "unit http_m" where
  "aiot_http_exec_inc = do {
     mutex_lock Data_mutex;
     modify (\<lambda>s. s\<lparr>http_exec_count := http_exec_count s + 1\<rparr>);
     mutex_unlock Data_mutex
   }"

definition aiot_http_exec_dec :: "unit http_m" where
  "aiot_http_exec_dec = do {
     mutex_lock Data_mutex;
     modify (\<lambda>s. s\<lparr>http_exec_count := http_exec_count s - 1\<rparr>);
     mutex_unlock Data_mutex
   }"

definition aiot_http_init :: "(world, http option) state" where
  "aiot_http_init = do {
     h \<leftarrow> core_http_init;
     ret (map_option (\<lambda>s. s\<lparr>http_auth_timeout := 5 * 1000, http_long_connection := 1,
       http_exec_enabled := True\<rparr>) h)
   }"

datatype aiot_http_option = Ao_shared http_option | Ao_userdata nat | Ao_recv_handler nat
  | Ao_product_key "byte list" | Ao_device_name "byte list" | Ao_device_secret "byte list"
  | Ao_extend_devinfo "byte list" | Ao_auth_timeout_ms "32 word" | Ao_long_connection nat

definition aiot_http_switch :: "aiot_http_option \<Rightarrow> int http_m" where
  "aiot_http_switch opt = (case opt of
     Ao_shared v \<Rightarrow> do {
       mutex_unlock Data_mutex;
       res \<leftarrow> core_http_setopt (Some (Co_shared v));
       mutex_lock Data_mutex;
       ret res
     }
   | Ao_userdata v \<Rightarrow> http_value (\<lambda>s. s\<lparr>http_userdata := v\<rparr>)
   | Ao_recv_handler v \<Rightarrow> http_value (\<lambda>s. s\<lparr>http_recv_handler := Some v\<rparr>)
   | Ao_product_key v \<Rightarrow> http_string http_product_key (\<lambda>d s. s\<lparr>http_product_key := d\<rparr>) v
   | Ao_device_name v \<Rightarrow> http_string http_device_name (\<lambda>d s. s\<lparr>http_device_name := d\<rparr>) v
   | Ao_device_secret v \<Rightarrow> http_string http_device_secret (\<lambda>d s. s\<lparr>http_device_secret := d\<rparr>) v
   | Ao_extend_devinfo v \<Rightarrow> http_string http_extend_devinfo (\<lambda>d s. s\<lparr>http_extend_devinfo := d\<rparr>) v
   | Ao_auth_timeout_ms v \<Rightarrow> http_value (\<lambda>s. s\<lparr>http_auth_timeout := v\<rparr>)
   | Ao_long_connection v \<Rightarrow> http_value (\<lambda>s. s\<lparr>http_long_connection := v\<rparr>))"

definition aiot_http_setopt :: "aiot_http_option option \<Rightarrow> int http_m" where
  "aiot_http_setopt data = (case data of
     None \<Rightarrow> ret STATE_USER_INPUT_NULL_POINTER
   | Some opt \<Rightarrow> do {
       s \<leftarrow> State_Monad.get;
       if \<not> http_exec_enabled s then ret STATE_USER_INPUT_EXEC_DISABLED
       else do {
         aiot_http_exec_inc;
         mutex_lock Data_mutex;
         res \<leftarrow> aiot_http_switch opt;
         mutex_unlock Data_mutex;
         aiot_http_exec_dec;
         ret res
       }
     })"

section \<open>Receiving until the answer is complete\<close>

text \<open>
  The loop of \<^verbatim>\<open>_core_http_recv_auth\<close> and \<^verbatim>\<open>aiot_http_recv\<close>: until a call of
  \<^verbatim>\<open>core_http_recv\<close> fails, which is also how the end of the body is told, or the time is over.
\<close>

fun http_recv_rounds :: "nat \<Rightarrow> 64 word \<Rightarrow> 64 word \<Rightarrow> int \<Rightarrow> (int option) http_m" where
  "http_recv_rounds 0 timenow timeout res = ret None"
| "http_recv_rounds (Suc fuel) timenow timeout res = do {
     now \<leftarrow> sys_time;
     timenow \<leftarrow> (if timenow \<ge> now then sys_time else ret timenow);
     now \<leftarrow> sys_time;
     if now - timenow \<ge> timeout then ret (Some res)
     else do {
       r \<leftarrow> core_http_recv fuel;
       case r of
         None \<Rightarrow> ret None
       | Some res \<Rightarrow> if res < STATE_SUCCESS then ret (Some res) else http_recv_rounds fuel timenow timeout res
     }
   }"

text \<open>Both callers install the handler and the response before they receive.\<close>

definition http_expect :: "http_handler \<Rightarrow> int http_m" where
  "http_expect handler = do {
     modify (\<lambda>s. s\<lparr>http_response := response_0\<rparr>);
     res \<leftarrow> core_http_setopt (Some (Co_recv_handler handler));
     if res < STATE_SUCCESS then ret res
     else core_http_setopt (Some (Co_userdata Response_data))
   }"

definition http_free_content :: "unit http_m" where
  "http_free_content = do {
     s \<leftarrow> State_Monad.get;
     on (rsp_content (http_response s) \<noteq> None) sys_free
   }"

section \<open>Authentication\<close>

definition http_request_header :: "http \<Rightarrow> byte list" where
  "http_request_header s = str ''Content-Type: application/json'' @ [13, 10]
     @ (if http_long_connection s = 0 then str ''Connection: close'' @ [13, 10] else [])"

definition http_send_auth :: "byte list \<Rightarrow> byte list \<Rightarrow> byte list \<Rightarrow> int http_m" where
  "http_send_auth product_key device_name device_secret = do {
     s \<leftarrow> State_Monad.get;
     (res, content) \<leftarrow> core_auth_http_body product_key device_name device_secret;
     if res < STATE_SUCCESS then ret res
     else do {
       (res, path) \<leftarrow> core_sprintf (str ''/auth?_v=%s&%s'')
         [Some CORE_AUTH_SDK_VERSION, http_extend_devinfo s];
       if res < STATE_SUCCESS then do { sys_free; ret res }
       else do {
         res \<leftarrow> core_http_send \<lparr>rq_method = str ''POST'', rq_path = path,
           rq_header = Some (http_request_header s), rq_content = Some content\<rparr>;
         sys_free;
         sys_free;
         ret res
       }
     }
   }"

definition http_store_token :: "byte list \<Rightarrow> int http_m" where
  "http_store_token token = do {
     mutex_lock Data_mutex;
     s \<leftarrow> State_Monad.get;
     on (http_token s \<noteq> None) (do { sys_free; modify (\<lambda>s. s\<lparr>http_token := None\<rparr>) });
     ok \<leftarrow> sys_malloc;
     if \<not> ok then do { mutex_unlock Data_mutex; ret STATE_SYS_DEPEND_MALLOC_FAILED }
     else do {
       modify (\<lambda>s. s\<lparr>http_token := Some token\<rparr>);
       mutex_unlock Data_mutex;
       ret STATE_SUCCESS
     }
   }"

definition http_check_auth :: "int http_m" where
  "http_check_auth = do {
     s \<leftarrow> State_Monad.get;
     let p = http_response s;
     if rsp_code p \<noteq> 200 then ret STATE_HTTP_AUTH_CODE_FAILED
     else case rsp_content p of
       None \<Rightarrow> ret STATE_HTTP_AUTH_NOT_EXPECTED
     | Some content \<Rightarrow>
         if of_nat (length content) \<noteq> rsp_total_len p then ret STATE_HTTP_AUTH_NOT_EXPECTED
         else do {
           core_logn STATE_HTTP_LOG_AUTH (str ''%.*s'' @ [13, 10]) [LUint (of_nat (length content)), LStr (Some content)];
           (res, i, n) \<leftarrow> lift_outcome (0, 0) (core_json_value content (str ''token''));
           if res < STATE_SUCCESS then ret STATE_HTTP_AUTH_TOKEN_FAILED
           else http_store_token (take n (drop i content))
         }
   }"

definition http_recv_auth :: "nat \<Rightarrow> (int option) http_m" where
  "http_recv_auth fuel = do {
     s \<leftarrow> State_Monad.get;
     timenow \<leftarrow> sys_time;
     r \<leftarrow> http_recv_rounds fuel timenow (ucast (http_auth_timeout s)) STATE_SUCCESS;
     case r of
       None \<Rightarrow> ret None
     | Some res \<Rightarrow>
         if res \<ge> STATE_SUCCESS then ret (Some STATE_HTTP_AUTH_NOT_FINISHED)
         else if res \<noteq> STATE_HTTP_READ_BODY_FINISHED then ret (Some res)
         else do { res \<leftarrow> http_check_auth; ret (Some res) }
   }"

text \<open>A connection that is not kept is made anew for every request.\<close>

definition http_ensure_connection :: "int http_m" where
  "http_ensure_connection = do {
     s \<leftarrow> State_Monad.get;
     if \<not> http_network s \<or> http_long_connection s = 0 then core_http_connect else ret STATE_SUCCESS
   }"

definition http_auth_with :: "nat \<Rightarrow> byte list \<Rightarrow> byte list \<Rightarrow> byte list \<Rightarrow> (int option) http_m" where
  "http_auth_with fuel product_key device_name device_secret = do {
     aiot_http_exec_inc;
     res \<leftarrow> http_expect Auth_recv_handler;
     if res < STATE_SUCCESS then ret (Some res)
     else do {
       res \<leftarrow> http_ensure_connection;
       if res < STATE_SUCCESS then do { aiot_http_exec_dec; ret (Some res) }
       else do {
         res \<leftarrow> http_send_auth product_key device_name device_secret;
         if res < STATE_SUCCESS then do { aiot_http_exec_dec; ret (Some res) }
         else do {
           r \<leftarrow> http_recv_auth fuel;
           case r of
             None \<Rightarrow> ret None
           | Some res \<Rightarrow> do { http_free_content; aiot_http_exec_dec; ret (Some res) }
         }
       }
     }
   }"

definition aiot_http_auth :: "nat \<Rightarrow> (int option) http_m" where
  "aiot_http_auth fuel = do {
     s \<leftarrow> State_Monad.get;
     case http_product_key s of
       None \<Rightarrow> ret (Some STATE_USER_INPUT_MISSING_PRODUCT_KEY)
     | Some product_key \<Rightarrow> (case http_device_name s of
         None \<Rightarrow> ret (Some STATE_USER_INPUT_MISSING_DEVICE_NAME)
       | Some device_name \<Rightarrow> (case http_device_secret s of
           None \<Rightarrow> ret (Some STATE_USER_INPUT_MISSING_DEVICE_SECRET)
         | Some device_secret \<Rightarrow>
             if \<not> http_exec_enabled s then ret (Some STATE_USER_INPUT_EXEC_DISABLED)
             else http_auth_with fuel product_key device_name device_secret))
   }"

section \<open>Sending a message\<close>

definition http_post_message :: "byte list \<Rightarrow> byte list \<Rightarrow> int http_m" where
  "http_post_message topic payload = do {
     s \<leftarrow> State_Monad.get;
     (res, path) \<leftarrow> core_sprintf (str ''/topic%s'') [Some topic];
     if res < STATE_SUCCESS then ret res
     else do {
       (res, header) \<leftarrow> core_sprintf (str ''Content-Type: application/octet-stream'' @ [13, 10]
           @ str ''Password: %s'' @ [13, 10] @ str ''%s'')
         [http_token s, if http_long_connection s = 0 then Some (str ''Connection: close'' @ [13, 10]) else None];
       if res < STATE_SUCCESS then do { sys_free; ret res }
       else do {
         res \<leftarrow> core_http_send \<lparr>rq_method = str ''POST'', rq_path = path, rq_header = Some header,
           rq_content = Some payload\<rparr>;
         sys_free;
         sys_free;
         ret res
       }
     }
   }"

definition aiot_http_send :: "byte list option \<Rightarrow> byte list option \<Rightarrow> int http_m" where
  "aiot_http_send topic payload = (case (topic, payload) of
     (Some topic, Some payload) \<Rightarrow> do {
       s \<leftarrow> State_Monad.get;
       if payload = [] then ret STATE_USER_INPUT_OUT_RANGE
       else if http_token s = None then ret STATE_HTTP_NEED_AUTH
       else if \<not> http_exec_enabled s then ret STATE_USER_INPUT_EXEC_DISABLED
       else do {
         aiot_http_exec_inc;
         res \<leftarrow> http_ensure_connection;
         if res < STATE_SUCCESS then do { aiot_http_exec_dec; ret res }
         else do {
           res \<leftarrow> http_post_message topic payload;
           aiot_http_exec_dec;
           ret res
         }
       }
     }
   | _ \<Rightarrow> ret STATE_USER_INPUT_NULL_POINTER)"

section \<open>Receiving an answer\<close>

definition http_token_expired_event :: "unit http_m" where
  "http_token_expired_event = do {
     s \<leftarrow> State_Monad.get;
     let content = content_bytes (http_response s);
     (res, i, n) \<leftarrow> lift_outcome (0, 0) (core_json_value content (str ''code''));
     if res < STATE_SUCCESS then ret ()
     else do {
       (res, code) \<leftarrow> lift_outcome 0 (core_str2uint (drop i content) (of_nat n));
       if res < STATE_SUCCESS then ret ()
       else on (code = 20001 \<or> code = 20003) (case http_event_handler s of
           None \<Rightarrow> ret ()
         | Some h \<Rightarrow> emit (Http_event_cb h 0 (http_userdata s)))
     }
   }"

definition http_deliver_body :: "unit http_m" where
  "http_deliver_body = do {
     s \<leftarrow> State_Monad.get;
     case http_recv_handler s of
       None \<Rightarrow> ret ()
     | Some h \<Rightarrow> emit (Http_recv_cb h (Http_body (content_bytes (http_response s))) (http_userdata s))
   }"

definition http_finish_recv :: "int \<Rightarrow> int http_m" where
  "http_finish_recv res =
     (if res \<ge> STATE_SUCCESS then ret STATE_HTTP_RECV_NOT_FINISHED
      else if res \<noteq> STATE_HTTP_READ_BODY_FINISHED then do {
        aiot_http_exec_dec;
        http_free_content;
        ret res
      } else do {
        http_token_expired_event;
        http_deliver_body;
        http_free_content;
        aiot_http_exec_dec;
        ret STATE_SUCCESS
      })"

definition http_recv_message :: "nat \<Rightarrow> 32 word \<Rightarrow> (int option) http_m" where
  "http_recv_message fuel timeout = do {
     res \<leftarrow> http_expect Forward_recv_handler;
     if res < STATE_SUCCESS then ret (Some res)
     else do {
       timenow \<leftarrow> sys_time;
       r \<leftarrow> http_recv_rounds fuel timenow (ucast timeout) res;
       case r of
         None \<Rightarrow> ret None
       | Some res \<Rightarrow> do { res \<leftarrow> http_finish_recv res; ret (Some res) }
     }
   }"

definition aiot_http_recv :: "nat \<Rightarrow> (int option) http_m" where
  "aiot_http_recv fuel = do {
     s \<leftarrow> State_Monad.get;
     if \<not> http_network s then ret (Some STATE_SYS_DEPEND_NWK_CLOSED)
     else if \<not> http_exec_enabled s then ret (Some STATE_USER_INPUT_EXEC_DISABLED)
     else do {
       aiot_http_exec_inc;
       http_recv_message fuel (http_recv_timeout s)
     }
   }"

section \<open>Destroying a handle\<close>

fun aiot_deinit_wait :: "nat \<Rightarrow> 64 word \<Rightarrow> (unit option) http_m" where
  "aiot_deinit_wait 0 timestart = ret None"
| "aiot_deinit_wait (Suc fuel) timestart = do {
     s \<leftarrow> State_Monad.get;
     if http_exec_count s = 0 then ret (Some ())
     else do {
       sys_sleep 100;
       t \<leftarrow> sys_time;
       if t - timestart < ucast (http_deinit_timeout s) then aiot_deinit_wait fuel timestart
       else ret (Some ())
     }
   }"

definition aiot_http_deinit :: "nat \<Rightarrow> (int option) http_m" where
  "aiot_http_deinit fuel = do {
     s \<leftarrow> State_Monad.get;
     if \<not> http_exec_enabled s then ret (Some STATE_USER_INPUT_EXEC_DISABLED)
     else do {
       modify (\<lambda>s. s\<lparr>http_exec_enabled := False\<rparr>);
       t \<leftarrow> sys_time;
       waited \<leftarrow> aiot_deinit_wait fuel t;
       case waited of
         None \<Rightarrow> ret None
       | Some _ \<Rightarrow> do {
           s \<leftarrow> State_Monad.get;
           if http_exec_count s \<noteq> 0 then ret (Some STATE_HTTP_DEINIT_TIMEOUT)
           else do {
             on (http_product_key s \<noteq> None) sys_free;
             on (http_device_name s \<noteq> None) sys_free;
             on (http_device_secret s \<noteq> None) sys_free;
             on (http_extend_devinfo s \<noteq> None) sys_free;
             on (http_token s \<noteq> None) sys_free;
             r \<leftarrow> core_http_deinit fuel;
             ret (map_option (\<lambda>_. STATE_SUCCESS) r)
           }
         }
     }
   }"

end
