(* ===== verification/Http_Response.thy ===== *)
theory Http_Response
  imports Aiot_Http
begin

text \<open>
  What the HTTP client hands to its user while it takes an answer apart: routines that hand over
  nothing (\<open>silent\<close>), how far a call has come (\<open>heard\<close>), and what one packet does.
\<close>

unbundle bit_operations_syntax

section \<open>Routines that the user does not see\<close>

lemma wp_ret [simp]: "wp (ret x) Q = Q x"
  by (rule ext) simp

lemma wp_seq: "wp (m \<bind> f) Q = wp m (\<lambda>r. wp (f r) Q)"
  by (rule ext) simp

definition http_calls :: "out list \<Rightarrow> (nat \<times> http_packet \<times> nat) list" where
  "http_calls tr = List.map_filter (\<lambda>e. case e of Http_recv_cb h p ud \<Rightarrow> Some (h, p, ud) | _ \<Rightarrow> None) tr"

lemma http_calls_simps [simp]:
  "http_calls [] = []" "http_calls (tr @ tr') = http_calls tr @ http_calls tr'"
  "http_calls (Http_recv_cb h p ud # tr) = (h, p, ud) # http_calls tr"
  "(\<forall>h p ud. e \<noteq> Http_recv_cb h p ud) \<Longrightarrow> http_calls (e # tr) = http_calls tr"
  "http_calls (map (Log c) ls) = []"
  by (induction ls) (auto simp: http_calls_def map_filter_simps map_filter_def split: out.split)

definition after :: "'a world_scheme \<Rightarrow> (nat \<times> http_packet \<times> nat) list \<Rightarrow> 'a world_scheme \<Rightarrow> bool" where
  "after s es t \<longleftrightarrow> port t = port s \<and> tick s \<le> tick t \<and> rx t = rx s
     \<and> http_calls (trace t) = http_calls (trace s) @ es \<and> world.more t = world.more s"

lemma after_refl [simp]: "after s [] s"
  by (simp add: after_def)

lemma after_trans: "after s es t \<Longrightarrow> after t fs u \<Longrightarrow> after s (es @ fs) u"
  by (simp add: after_def)

definition silent :: "('a world_scheme, 'r) state \<Rightarrow> bool" where
  "silent m \<longleftrightarrow> (\<forall>s. wp m (\<lambda>_. after s []) s)"

named_theorems silent_rules \<open>routines that hand nothing to the user\<close>

lemma wp_silent:
  assumes "silent m" "\<And>r t. after s [] t \<Longrightarrow> Q r t"
  shows "wp m Q s"
  by (rule wp_mono [where Q = "\<lambda>_. after s []"]) (use assms in \<open>auto simp: silent_def\<close>)

lemma silent_bind [silent_rules]: "silent m \<Longrightarrow> (\<And>r. silent (f r)) \<Longrightarrow> silent (m \<bind> f)"
  unfolding silent_def wp_bind
proof (intro allI)
  fix s assume "\<forall>s. wp m (\<lambda>_. after s []) s" and f: "\<And>r. \<forall>s. wp (f r) (\<lambda>_. after s []) s"
  then have "wp m (\<lambda>_. after s []) s" by blast
  then show "wp m (\<lambda>r. wp (f r) (\<lambda>_. after s [])) s"
  proof (rule wp_mono)
    fix r t assume t: "after s [] t"
    from f have "wp (f r) (\<lambda>_. after t []) t" by blast
    then show "wp (f r) (\<lambda>_. after s []) t"
      by (rule wp_mono) (use after_trans [OF t, of "[]"] in simp)
  qed
qed

lemma silent_return [silent_rules]: "silent (State_Monad.return x)"
  by (simp add: silent_def)

lemma silent_get [silent_rules]: "silent State_Monad.get" "silent (gets f)"
  by (simp_all add: silent_def)

lemma silent_if [silent_rules]: "(b \<Longrightarrow> silent m) \<Longrightarrow> (\<not> b \<Longrightarrow> silent n) \<Longrightarrow> silent (if b then m else n)"
  by simp

lemma silent_case_prod [silent_rules]: "(\<And>a b. silent (f a b)) \<Longrightarrow> silent (case p of (a, b) \<Rightarrow> f a b)"
  by (simp split: prod.split)

lemma silent_case_outcome [silent_rules]:
  "silent m \<Longrightarrow> (\<And>c. silent (f c)) \<Longrightarrow> (\<And>v. silent (g v)) \<Longrightarrow>
   silent (case x of Fault \<Rightarrow> m | Fail c \<Rightarrow> f c | Ret v \<Rightarrow> g v)"
  by (cases x) simp_all

lemma silent_modify: "(\<And>s. after s [] (f s)) \<Longrightarrow> silent (modify f)"
  by (simp add: silent_def)

lemma silent_emit: "(\<forall>h p ud. e \<noteq> Http_recv_cb h p ud) \<Longrightarrow> silent (emit e)"
  by (simp add: emit_def silent_modify after_def)

lemma silent_port [silent_rules]:
  "silent fault" "silent sys_malloc" "silent sys_free" "silent sys_time" "silent (mutex_lock m)" "silent (mutex_unlock m)"
  by (simp_all add: silent_def fault_def sys_free_def run_simps after_def)

lemma silent_lift [silent_rules]: "silent (lift_outcome d r)"
  unfolding lift_outcome_def by (intro silent_rules)

lemma silent_log [silent_rules]:
  "silent (core_log c d)" "silent (core_logn c fmt ds)" "silent (core_log_hexdump c p b)"
  unfolding core_log_def core_logn_def core_log_hexdump_def core_log_append_prefix_def core_log_append_date_def
    core_log_get_timestamp_def core_sprintf_def
  by (intro silent_rules silent_modify silent_emit; simp add: after_def)+

section \<open>How far a call has come\<close>

text \<open>
  From \<open>s\<close> to \<open>t\<close>, \<open>n\<close> answers of the network have been taken, \<open>es\<close> has been handed to the
  user, the session is \<open>S\<close>, the response is \<open>R\<close>; the rest of the handle is as it was.
\<close>

definition http_frame where
  "http_frame (s :: http) =
     world.more (s\<lparr>http_response := response_0, http_session := session_0, http_core_count := 0\<rparr>)"

lemma http_frame_simps [simp]:
  "http_frame (s\<lparr>http_response := R\<rparr>) = http_frame s" "http_frame (s\<lparr>http_session := S\<rparr>) = http_frame s"
  "http_frame (s\<lparr>http_core_count := c\<rparr>) = http_frame s" "http_frame (s\<lparr>trace := tr\<rparr>) = http_frame s"
  "http_frame (s\<lparr>tick := n\<rparr>) = http_frame s" "http_frame (s\<lparr>rx := n\<rparr>) = http_frame s"
  "http_frame (s\<lparr>live := l\<rparr>) = http_frame s" "http_frame (s\<lparr>held := h\<rparr>) = http_frame s"
  "http_frame (s\<lparr>lock_ok := b\<rparr>) = http_frame s" "http_frame (s\<lparr>ub := b\<rparr>) = http_frame s"
  by (cases s, simp add: http_frame_def)+

definition heard :: "http \<Rightarrow> nat \<Rightarrow> http_session \<Rightarrow> http_response \<Rightarrow> (nat \<times> http_packet \<times> nat) list \<Rightarrow> http \<Rightarrow> bool" where
  "heard s n S R es t \<longleftrightarrow> port t = port s \<and> tick s \<le> tick t \<and> rx t = rx s + n
     \<and> http_calls (trace t) = http_calls (trace s) @ es \<and> http_session t = S \<and> http_response t = R
     \<and> http_core_count t = http_core_count s \<and> http_frame t = http_frame s"

definition moved :: "http \<Rightarrow> nat \<Rightarrow> http_response \<Rightarrow> (nat \<times> http_packet \<times> nat) list \<Rightarrow> http \<Rightarrow> bool" where
  "moved s n R es t \<longleftrightarrow> heard s n (http_session s) R es t"

lemma heard_refl: "heard s 0 (http_session s) (http_response s) [] s"
  by (simp add: heard_def)

lemma heard_trans: "heard s n S R es t \<Longrightarrow> heard t m S' R' fs u \<Longrightarrow> heard s (n + m) S' R' (es @ fs) u"
  by (simp add: heard_def)

lemmas moved_refl = heard_refl [folded moved_def]

lemma moved_trans: "moved s n R es t \<Longrightarrow> moved t m R' fs u \<Longrightarrow> moved s (n + m) R' (es @ fs) u"
  by (simp add: moved_def heard_def)

lemma http_frame_fields:
  assumes "http_frame t = http_frame s"
  shows "http_network t = http_network s" "http_line_max t = http_line_max s" "http_recv_timeout t = http_recv_timeout s"
    "http_core_handler t = http_core_handler s" "http_recv_handler t = http_recv_handler s"
    "http_core_userdata t = http_core_userdata s" "http_userdata t = http_userdata s"
    "http_body_max t = http_body_max s" "http_core_enabled t = http_core_enabled s"
    "http_exec_count t = http_exec_count s" "http_token t = http_token s"
    "http_exec_enabled t = http_exec_enabled s" "http_event_handler t = http_event_handler s"
    "http_auth_timeout t = http_auth_timeout s" "http_long_connection t = http_long_connection s"
    "http_host t = http_host s" "http_extend_devinfo t = http_extend_devinfo s"
  using assms by (cases t, cases s, simp add: http_frame_def)+

lemma moved_fields:
  assumes "moved s n R es t"
  shows "port t = port s" "rx t = rx s + n" "tick s \<le> tick t" "http_response t = R"
    "http_calls (trace t) = http_calls (trace s) @ es" "http_frame t = http_frame s"
    "http_session t = http_session s"
  using assms by (simp_all add: moved_def heard_def)

lemma wp_moved:
  assumes "wp m (\<lambda>r t. P r \<and> moved s n R es t) s" "\<And>r t. P r \<Longrightarrow> moved s n R es t \<Longrightarrow> Q r t"
  shows "wp m Q s"
  by (rule wp_mono [OF assms(1)]) (use assms(2) in blast)

lemma after_moved: "after s [] t \<Longrightarrow> moved s 0 (http_response s) [] t" for s :: http
  by (cases s, cases t) (simp add: after_def moved_def heard_def http_frame_def)

lemma wp_silently:
  fixes m :: "'r http_m"
  assumes "silent m" "\<And>r t. moved s 0 (http_response s) [] t \<Longrightarrow> Q r t"
  shows "wp m Q s"
  by (rule wp_silent [OF assms(1)]) (use assms(2) after_moved in blast)

section \<open>Handing over a packet\<close>

definition expecting :: "http_handler \<Rightarrow> http \<Rightarrow> bool" where
  "expecting H s \<longleftrightarrow> http_core_handler s = Some H \<and> http_core_userdata s = Response_data
     \<and> (H = Auth_recv_handler \<or> H = Forward_recv_handler \<and> http_recv_handler s \<noteq> None)
     \<and> (\<forall>n. p_malloc (port s) n)"

lemma moved_expecting: "moved s n R es t \<Longrightarrow> expecting H s \<Longrightarrow> expecting H t"
  using moved_fields(1) http_frame_fields(4-6) [OF moved_fields(6)] by (simp add: expecting_def)

fun packet_response :: "http_handler \<Rightarrow> http_packet \<Rightarrow> http_response \<Rightarrow> http_response" where
  "packet_response H (Http_status c) R = (if H = Auth_recv_handler then R\<lparr>rsp_code := of_nat c\<rparr> else R)"
| "packet_response H (Http_header k v) R =
     (if k = str ''Content-Length'' then R\<lparr>rsp_total_len := content_length_of v (rsp_total_len R)\<rparr> else R)"
| "packet_response H (Http_body b) R = R\<lparr>rsp_content := Some (content_bytes R @ b)\<rparr>"

fun is_body :: "http_packet \<Rightarrow> bool" where
  "is_body (Http_body b) = True"
| "is_body p = False"

definition packet_calls :: "http \<Rightarrow> http_packet \<Rightarrow> (nat \<times> http_packet \<times> nat) list" where
  "packet_calls s p = (if http_core_handler s = Some Forward_recv_handler \<and> http_recv_handler s \<noteq> None \<and> \<not> is_body p
     then [(the (http_recv_handler s), p, http_userdata s)] else [])"

fun nul_free :: "http_packet \<Rightarrow> bool" where
  "nul_free (Http_header k v) \<longleftrightarrow> 0 \<notin> set k"
| "nul_free p \<longleftrightarrow> True"

lemma c_strlen_whole [simp]: "0 \<notin> set t \<Longrightarrow> c_strlen t = length t"
  by (induction t) (auto simp: c_strlen_def)

lemma moved_packet_calls: "moved s n R es t \<Longrightarrow> packet_calls t p = packet_calls s p"
  using http_frame_fields(4,5,7) [OF moved_fields(6)] by (simp add: packet_calls_def)

lemma set_content_length_packet:
  "0 \<notin> set k \<Longrightarrow> wp (set_content_length k v) Q s = Q () (s\<lparr>http_response := packet_response H (Http_header k v) (http_response s)\<rparr>)"
  by (simp add: set_content_length_def)

lemma append_content_packet:
  "\<forall>n. p_malloc (port s) n \<Longrightarrow>
   wp (append_content b) (\<lambda>_ t. moved s 0 (packet_response H (Http_body b) (http_response s)) [] t) s"
  by (cases "rsp_content (http_response s) = None") (simp_all add: append_content_def run_simps moved_def heard_def sys_free_def)

lemma call_packet:
  assumes "expecting H s" "nul_free p"
  shows "wp (call_core_handler p) (\<lambda>_ t. moved s 0 (packet_response H p (http_response s)) (packet_calls s p) t) s"
proof -
  have mem: "\<forall>n. p_malloc (port s) n" and data: "http_core_userdata s = Response_data"
    and H: "http_core_handler s = Some H" using assms(1) by (simp_all add: expecting_def)
  consider "H = Auth_recv_handler" | h where "H = Forward_recv_handler" "http_recv_handler s = Some h"
    using assms(1) by (auto simp: expecting_def)
  then show ?thesis
  proof cases
    case 1
    then show ?thesis using data H assms(2) append_content_packet [OF mem]
      by (cases p) (simp_all add: call_core_handler_def auth_recv_handler_def packet_calls_def moved_def heard_def
          set_content_length_packet [where H = H] del: packet_response.simps(2,3))
  next
    case 2
    then show ?thesis using data H assms(2) append_content_packet [OF mem]
      by (cases p) (simp_all add: call_core_handler_def forward_recv_handler_def packet_calls_def moved_def heard_def run_simps
          set_content_length_packet [where H = H] del: packet_response.simps(2,3))
  qed
qed

lemma wp_call_packet:
  assumes "expecting H s" "nul_free p"
    "\<And>t. moved s 0 (packet_response H p (http_response s)) (packet_calls s p) t \<Longrightarrow> Q () t"
  shows "wp (call_core_handler p) Q s"
  by (rule wp_mono [OF call_packet [OF assms(1,2)]]) (use assms(3) in simp)

lemma wp_recv_header_pair:
  assumes "expecting H s" "0 \<notin> set k"
    "\<And>t. moved s 0 (packet_response H (Http_header k v) (http_response s)) (packet_calls s (Http_header k v)) t \<Longrightarrow> Q () t"
  shows "wp (recv_header_pair k v) Q s"
proof -
  let ?u = "s\<lparr>tick := tick s + 2, live := live s + 2\<rparr>"
  have u: "expecting H ?u" "http_response ?u = http_response s" "packet_calls ?u p = packet_calls s p" for p
    using assms(1) by (simp_all add: expecting_def packet_calls_def)
  have "wp (call_core_handler (Http_header k v)) (\<lambda>_ t. Q () (t\<lparr>live := live t - 2\<rparr>)) ?u"
  proof (rule wp_call_packet [OF u(1)])
    fix t assume "moved ?u 0 (packet_response H (Http_header k v) (http_response ?u)) (packet_calls ?u (Http_header k v)) t"
    then show "Q () (t\<lparr>live := live t - 2\<rparr>)"
      by (intro assms(3)) (simp add: moved_def heard_def packet_calls_def del: packet_response.simps)
  qed (simp add: assms(2))
  moreover have "http_core_handler s = Some H" "p_malloc (port s) n" for n using assms(1) by (auto simp: expecting_def)
  moreover have "wp (sys_free \<bind> (\<lambda>_. sys_free)) Q = (\<lambda>t. Q () (t\<lparr>live := live t - 2\<rparr>))"
    by (rule ext) (simp add: sys_free_def)
  ultimately show ?thesis
    by (simp add: recv_header_pair_def run_simps add.commute)
qed

text \<open>Several packets, one after the other.\<close>

definition packets_response :: "http_handler \<Rightarrow> http_packet list \<Rightarrow> http_response \<Rightarrow> http_response" where
  "packets_response H ps R = foldl (\<lambda>R p. packet_response H p R) R ps"

definition packets_calls :: "http \<Rightarrow> http_packet list \<Rightarrow> (nat \<times> http_packet \<times> nat) list" where
  "packets_calls s ps = concat (map (packet_calls s) ps)"

definition took :: "http_handler \<Rightarrow> http \<Rightarrow> nat \<Rightarrow> http_packet list \<Rightarrow> http \<Rightarrow> bool" where
  "took H s n ps t \<longleftrightarrow> moved s n (packets_response H ps (http_response s)) (packets_calls s ps) t"

lemma took_refl: "took H s 0 [] s"
  by (simp add: took_def packets_response_def packets_calls_def moved_refl)

lemma took_none: "moved s n (http_response s) [] t \<Longrightarrow> took H s n [] t"
  by (simp add: took_def packets_response_def packets_calls_def)

lemma took_one: "moved s n (packet_response H p (http_response s)) (packet_calls s p) t \<Longrightarrow> took H s n [p] t"
  by (simp add: took_def packets_response_def packets_calls_def)

lemma took_trans:
  assumes "took H s n ps t" "took H t m qs u"
  shows "took H s (n + m) (ps @ qs) u"
proof -
  have "packet_calls t = packet_calls s"
    using moved_packet_calls assms(1) by (auto simp: took_def)
  then show ?thesis using moved_trans [of s n _ _ t m] assms moved_fields(4) [of s n _ _ t]
    by (fastforce simp: took_def packets_response_def packets_calls_def)
qed

lemma took_expecting: "took H s n ps t \<Longrightarrow> expecting H s \<Longrightarrow> expecting H t"
  unfolding took_def by (rule moved_expecting)

section \<open>A client to run\<close>

text \<open>Memory is there, the clock stands still, the network gives the answers \<open>recv\<close>.\<close>

definition sample_port :: "(nat \<Rightarrow> int \<times> byte list) \<Rightarrow> port" where
  "sample_port recv = \<lparr>p_malloc = \<lambda>_. True, p_time = \<lambda>_. 0, p_rand = \<lambda>_. 0, p_init = \<lambda>_. True, p_setopt = \<lambda>_. 0,
     p_establish = \<lambda>_. 0, p_send = \<lambda>_. 0, p_recv = recv\<rparr>"

definition sample_world :: "(nat \<Rightarrow> int \<times> byte list) \<Rightarrow> world" where
  "sample_world recv = \<lparr>port = sample_port recv, tick = 0, rx = 0, live = 0, held = [], lock_ok = True, ub = False,
     trace = [], g_inited = False, g_used = 0, g_alink_id = 0, g_backup_ip = [], logcb = False, log_timestamp = 0,
     log_time_start = 0, log_time_interval = 0, log_stamp = False, log_date = False\<rparr>"

definition sample_client :: "(nat \<Rightarrow> int \<times> byte list) \<Rightarrow> http" where
  "sample_client recv = (http_handle_0 (sample_world recv))\<lparr>http_network := True, http_exec_enabled := True,
     http_core_enabled := True, http_recv_handler := Some 7, http_userdata := 3, http_recv_timeout := 5000,
     http_line_max := 128, http_body_max := 128, http_deinit_timeout := 2000\<rparr>"

lemma sample_client_fields [simp]:
  "http_network (sample_client f)" "http_exec_enabled (sample_client f)" "http_core_enabled (sample_client f)"
  "http_session (sample_client f) = session_0" "http_recv_handler (sample_client f) = Some 7"
  "http_userdata (sample_client f) = 3" "http_recv_timeout (sample_client f) = 5000"
  "http_line_max (sample_client f) = 128" "http_body_max (sample_client f) = 128"
  "http_deinit_timeout (sample_client f) = 2000" "http_exec_count (sample_client f) = 0"
  "port (sample_client f) = sample_port f" "tick (sample_client f) = 0" "rx (sample_client f) = 0"
  "trace (sample_client f) = []" "held (sample_client f) = []" "lock_ok (sample_client f)"
  "p_malloc (sample_port f) n" "p_time (sample_port f) n = 0" "p_recv (sample_port f) = f"
  by (simp_all add: sample_client_def sample_world_def sample_port_def http_handle_0_def http.defs world.defs)

end
