(* ===== verification/Http_Header.thy ===== *)
theory Http_Header
  imports Http_Response
begin

text \<open>
  The reader of the header against the text of a header: a status line and fields in any number
  are handed over in their order, and the content length that they announce is returned.
\<close>

section \<open>The lines of a header\<close>

lemma header_pairs_none:
  "\<forall>i \<in> set is. \<not> (line ! i = 58 \<and> i + 1 < length line \<and> line ! (i + 1) = 32) \<Longrightarrow>
   header_pairs line is total_len = ret total_len"
  by (induction "is") auto

lemma header_pairs_append:
  "header_pairs line (is @ js) total_len = do {
     total_len \<leftarrow> header_pairs line is total_len;
     header_pairs line js total_len }"
  by (induction line "is" total_len rule: header_pairs.induct) (simp_all add: Let_def)

text \<open>Neither part has a colon before a space; the value is a text of one line.\<close>

definition plain :: "byte list \<Rightarrow> bool" where
  "plain t \<longleftrightarrow> (\<forall>i<length t - 1. \<not> (t ! i = 58 \<and> t ! (i + 1) = 32))"

fun field_ok :: "byte list \<times> byte list \<Rightarrow> bool" where
  "field_ok (k, v) \<longleftrightarrow> 58 \<notin> set k \<and> 32 \<notin> set k \<and> 13 \<notin> set k \<and> 0 \<notin> set k \<and> plain v \<and> 13 \<notin> set v"

fun field_text :: "byte list \<times> byte list \<Rightarrow> byte list" where
  "field_text (k, v) = k @ [58, 32] @ v"

fun field_packet :: "byte list \<times> byte list \<Rightarrow> http_packet" where
  "field_packet (k, v) = Http_header k v"

fun field_total :: "byte list \<times> byte list \<Rightarrow> 32 word \<Rightarrow> 32 word" where
  "field_total (k, v) n = (if k = str ''Content-Length''
     then (case core_str2uint v (of_nat (length v)) of Ret m \<Rightarrow> m | _ \<Rightarrow> n) else n)"

lemma content_length_prefix:
  "58 \<notin> set k \<Longrightarrow> length k + 2 = 16 \<and> take 16 (k @ [58, 32] @ v) = str ''Content-Length: '' \<longleftrightarrow> k = str ''Content-Length''"
  by (auto simp: str_def take_append numeral_eq_Suc length_Suc_conv)

lemma header_pairs_field:
  assumes "field_ok (k, v)" "line = field_text (k, v) @ [13, 10]" "expecting H s"
    "\<And>t. took H s 0 [Http_header k v] t \<Longrightarrow> Q (field_total (k, v) total_len) t"
  shows "wp (header_pairs line [0..<length line] total_len) Q s"
proof -
  have len: "length line = length k + length v + 4" and line: "line = k @ 58 # 32 # v @ [13, 10]" using assms(2) by auto
  have upt: "[0..<length line] = [0..<length k] @ length k # [length k + 1..<length line]"
    using upt_add_eq_append [of 0 "length k" "length v + 4"] upt_conv_Cons [of "length k" "length line"]
    by (simp add: len add.assoc)
  have before: "header_pairs line [0..<length k] n = ret n" for n
  proof (rule header_pairs_none, safe)
    fix i assume "i \<in> set [0..<length k]" "line ! i = 58"
    then have "i < length k" "k ! i = 58" by (auto simp: line nth_append)
    with assms(1) nth_mem [of i k] show False by auto
  qed
  have behind: "header_pairs line [length k + 1..<length line] n = ret n" for n
  proof (rule header_pairs_none, safe)
    fix i assume i: "i \<in> set [length k + 1..<length line]" "line ! i = 58" "i + 1 < length line" "line ! (i + 1) = 32"
    define j where "j = i - (length k + 1)"
    have ij: "i = length k + 1 + j" using i(1) by (simp add: j_def)
    with i(2-4) have "(32 # v @ [13, 10]) ! j = 58" "(v @ [13, 10]) ! j = 32" "j < length v + 2"
      by (simp_all add: line nth_append)
    then have j: "0 < j" "j < length v" "v ! (j - 1) = 58" "v ! j = 32"
      by (auto simp: nth_Cons' nth_append less_Suc_eq split: if_splits)
    have "plain v" using assms(1) by simp
    moreover have "j - 1 < length v - 1" "j - 1 + 1 = j" using j(1,2) by simp_all
    ultimately show False using j(3,4) unfolding plain_def by metis
  qed
  have val: "take (length line - length k - 4) (drop (length k + 2) line) = v" by (simp add: line)
  have clen: "length k + 2 = 16 \<and> take 16 line = str ''Content-Length: '' \<longleftrightarrow> k = str ''Content-Length''"
    using content_length_prefix [of k "v @ [13, 10]"] assms(1) by (simp add: line)
  have colon: "line ! length k = 58 \<and> length k + 1 < length line \<and> line ! (length k + 1) = 32"
    and key: "take (length k) line = k" by (simp_all add: line nth_append)
  have pair: "header_pairs line (length k # is) n
      = recv_header_pair k v \<bind> (\<lambda>_. header_pairs line is (field_total (k, v) n))" for "is" n
    by (simp only: header_pairs.simps if_P [OF colon] Let_def val clen key field_total.simps)
  have "wp (recv_header_pair k v) (\<lambda>_ t. Q (field_total (k, v) total_len) t) s"
    by (rule wp_recv_header_pair [OF assms(3)], use assms(1) in simp, rule assms(4), erule took_one)
  then show ?thesis
    unfolding upt header_pairs_append before pair behind
    by (simp del: header_pairs.simps field_total.simps)
qed

text \<open>The status line.\<close>

fun status_ok :: "byte list \<times> byte list \<Rightarrow> bool" where
  "status_ok (code, reason) \<longleftrightarrow> length code = 3 \<and> list_all is_digit code \<and> 58 \<notin> set reason \<and> 13 \<notin> set reason"

fun status_text :: "byte list \<times> byte list \<Rightarrow> byte list" where
  "status_text (code, reason) = status_prefix @ code @ 32 # reason"

fun status_packet :: "byte list \<times> byte list \<Rightarrow> http_packet" where
  "status_packet (code, reason) = Http_status (dec_val code)"

lemma status_prefix_simps [simp]: "length status_prefix = 9" "58 \<notin> set status_prefix" "13 \<notin> set status_prefix"
  "status_prefix ! 8 = 32"
  by (simp_all add: status_prefix_def)

lemma wp_status_line:
  assumes "status_ok (code, reason)" "line = status_text (code, reason) @ [13, 10]" "expecting H s"
    "\<And>t. took H s 0 [Http_status (dec_val code)] t \<Longrightarrow> Q STATE_SUCCESS t"
  shows "wp (status_line line res) Q s"
proof -
  obtain a b c where code: "code = [a, b, c]" and d: "is_digit a" "is_digit b" "is_digit c"
    using assms(1) by (auto simp: numeral_3_eq_3 length_Suc_conv)
  have "takeWhile is_digit (drop 9 line) = code"
    using d by (simp add: assms(2) code)
  moreover have "core_str2uint code (of_nat (length code)) = Ret (of_nat (dec_val code))"
    using str2uint_loop_digits [of 3 code 0] d by (simp add: core_str2uint_def code)
  moreover have "unat (of_nat (dec_val code) :: 32 word) = dec_val code"
  proof -
    have "unat x - 48 \<le> 9" if "is_digit x" for x :: byte
    proof -
      have "unat x \<le> 57" using that by (simp add: word_le_nat_alt)
      then show ?thesis by linarith
    qed
    from this [OF d(1)] this [OF d(2)] this [OF d(3)] have "dec_val code < 2 ^ 32"
      by (simp add: code dec_val_def)
    then show ?thesis by (simp add: unat_of_nat take_bit_nat_eq_self)
  qed
  moreover have "wp (call_core_handler (Http_status (dec_val code))) (\<lambda>_ t. Q STATE_SUCCESS t) s"
    by (rule wp_call_packet [OF assms(3)], simp, rule assms(4), erule took_one)
  ultimately show ?thesis
    by (simp add: status_line_def recv_status_code_def assms(2) code)
qed

lemma header_line_status:
  assumes "status_ok st" "expecting H s" "\<And>t. took H s 0 [status_packet st] t \<Longrightarrow> Q (False, STATE_SUCCESS, total_len) t"
  shows "wp (header_line (status_text st @ [13, 10]) res total_len) Q s"
proof -
  obtain code reason where st: "st = (code, reason)" by (cases st)
  let ?L = "status_text st @ [13, 10]"
  have "58 \<notin> set ?L" using assms(1) by (auto simp: st list_all_iff)
  then have none: "header_pairs ?L [0..<length ?L] n = ret n" for n
    by (intro header_pairs_none) (metis atLeastLessThan_iff nth_mem set_upt)
  have two: "length ?L \<noteq> 2" by (simp add: st)
  have run: "wp (status_line ?L res) R u"
    if u: "took H s 0 [] u" and R: "\<And>v. took H s 0 [status_packet st] v \<Longrightarrow> R STATE_SUCCESS v" for u R
    by (rule wp_status_line [of code reason _ H])
      (use assms(1) st took_expecting [OF u assms(2)] R took_trans [OF u] in auto)
  show ?thesis
    unfolding header_line_def wp_bind [of "core_logn _ _ _"]
    by (rule wp_silently, rule silent_rules, drule took_none)
       (simp only: if_not_P [OF two] wp_bind, rule run, assumption, use none assms(3) in simp)
qed


lemma header_line_field:
  assumes "field_ok f" "expecting H s"
    "\<And>t. took H s 0 [field_packet f] t \<Longrightarrow> Q (False, res, field_total f total_len) t" "0 \<le> res"
  shows "wp (header_line (field_text f @ [13, 10]) res total_len) Q s"
proof -
  obtain k v where f: "f = (k, v)" by (cases f)
  let ?L = "field_text f @ [13, 10]"
  have two: "length ?L \<noteq> 2" by (simp add: f)
  have "take 9 ?L \<noteq> status_prefix"
  proof
    assume e: "take 9 ?L = status_prefix"
    have "32 \<in> set (take 9 ?L)" "58 \<notin> set (take 9 ?L)" unfolding e by (simp_all add: status_prefix_def)
    then show False using assms(1) by (auto simp: f take_append take_Cons' dest: in_set_takeD split: if_splits)
  qed
  then have status: "status_line ?L res = ret res" by (simp add: status_line_def)
  have run: "wp (header_pairs ?L [0..<length ?L] total_len) R u"
    if u: "took H s 0 [] u" and R: "\<And>v. took H s 0 [field_packet f] v \<Longrightarrow> R (field_total f total_len) v" for u R
    by (rule header_pairs_field [of k v _ H])
      (use assms(1) f took_expecting [OF u assms(2)] R took_trans [OF u] in auto)
  have nz: "\<not> res < STATE_SUCCESS" using assms(4) by simp
  show ?thesis
    unfolding header_line_def wp_bind [of "core_logn _ _ _"]
  proof (rule wp_silently, rule silent_rules, drule took_none [of _ _ _ H])
    fix t assume t: "took H s 0 [] t"
    show "wp (if length ?L = 2 then ret (True, res, total_len) else do {
        res \<leftarrow> status_line ?L res;
        if res < STATE_SUCCESS then ret (True, res, total_len)
        else do { total_len \<leftarrow> header_pairs ?L [0..<length ?L] total_len; ret (False, res, total_len) } }) Q t"
      unfolding if_not_P [OF two] status wp_bind wp_ret if_not_P [OF nz]
      by (rule run [OF t]) (rule assms(3))
  qed
qed

lemma header_line_end:
  assumes "\<And>t. took H s 0 [] t \<Longrightarrow> Q (True, res, total_len) t"
  shows "wp (header_line [13, 10] res total_len) Q s"
  unfolding header_line_def wp_bind [of "core_logn _ _ _"]
  by (rule wp_silently, rule silent_rules, drule took_none) (use assms in simp)

section \<open>Reading the header\<close>

text \<open>What the network will answer to the next calls that receive.\<close>

definition answers :: "'a world_scheme \<Rightarrow> (int \<times> byte list) list \<Rightarrow> bool" where
  "answers s as \<longleftrightarrow> (\<forall>i<length as. p_recv (port s) (rx s + i) = as ! i)"

lemma answers_Cons: "answers s (a # as) \<Longrightarrow> p_recv (port s) (rx s) = a"
  unfolding answers_def by (drule spec [where x = 0]) simp

lemma took_answers: "took H s n ps t \<Longrightarrow> answers s (as @ bs) \<Longrightarrow> length as = n \<Longrightarrow> answers t bs"
  unfolding answers_def took_def
proof (intro allI impI)
  fix i assume t: "moved s n (packets_response H ps (http_response s)) (packets_calls s ps) t"
    and a: "\<forall>i<length (as @ bs). p_recv (port s) (rx s + i) = (as @ bs) ! i" "length as = n" "i < length bs"
  then have "p_recv (port s) (rx s + (n + i)) = bs ! i" by (simp add: nth_append)
  then show "p_recv (port t) (rx t + i) = bs ! i" using moved_fields(1,2) [OF t] by (simp add: add.assoc)
qed

text \<open>The clock does not go back, and no waiting lasts as long as the timeout.\<close>

definition punctual :: "port \<Rightarrow> nat \<Rightarrow> 64 word \<Rightarrow> bool" where
  "punctual p n timeout \<longleftrightarrow> (\<forall>i \<ge> n. \<forall>j \<ge> i. p_time p i \<le> p_time p j \<and> p_time p j - p_time p i < timeout)"

text \<open>The state in which the header is read, \<open>start\<close> being the time when the reading began.\<close>

definition reading :: "http_handler \<Rightarrow> 64 word \<Rightarrow> http \<Rightarrow> bool" where
  "reading H start s \<longleftrightarrow> expecting H s \<and> http_network s
     \<and> (\<exists>i \<le> tick s. start = p_time (port s) i \<and> punctual (port s) i (ucast (http_recv_timeout s)))"

lemma took_reading:
  assumes "took H s n ps t" "reading H start s"
  shows "reading H start t"
proof -
  have m: "moved s n (packets_response H ps (http_response s)) (packets_calls s ps) t"
    using assms(1) by (simp add: took_def)
  show ?thesis
    using assms(2) moved_expecting [OF m] http_frame_fields(1,3) [OF moved_fields(6) [OF m]] moved_fields(1,3) [OF m]
    by (auto simp: reading_def intro: le_trans)
qed

lemma http_recv_answer:
  assumes "http_network s" "p_recv (port s) (rx s) = (k, c)" "0 \<le> k" "length c \<le> n"
    "\<And>t. moved s 1 (http_response s) [] t \<Longrightarrow> Q (k, c @ replicate (n - length c) 0) t"
  shows "wp (http_recv n) Q s"
proof -
  have "take n (c @ replicate n 0) = c @ replicate (n - length c) 0" using assms(4) by (simp add: min_absorb1)
  then show ?thesis using assms(1-3)
    by (simp add: http_recv_def net_recv_def run_simps)
       (rule assms(5), simp add: moved_def heard_def)
qed

lemma took_line_max: "took H s n ps t \<Longrightarrow> http_line_max t = http_line_max s"
  unfolding took_def by (rule http_frame_fields(2) [OF moved_fields(6)])

text \<open>The part of a round before the network is asked.\<close>

lemma header_round:
  assumes "reading H start s" "length line + 2 \<le> http_line_max s"
    "\<And>t. took H s 0 [] t \<Longrightarrow> wp (do {
         (res, b) \<leftarrow> http_recv 1;
         if res < STATE_SUCCESS then ret (Some (res, total_len))
         else if res = 0 \<or> b \<noteq> [13] then recv_header_loop fuel (line @ b) start res total_len
         else do {
           (res, c) \<leftarrow> http_recv 1;
           if res < STATE_SUCCESS then ret (Some (res, total_len))
           else if res = 0 \<or> c \<noteq> [10] then recv_header_loop fuel (line @ b @ c) start res total_len
           else do {
             (left, res, total_len) \<leftarrow> header_line (line @ b @ c) res total_len;
             if left then ret (Some (res, total_len)) else recv_header_loop fuel [] start res total_len
           }
         }
       }) Q t"
  shows "wp (recv_header_loop (Suc fuel) line start res total_len) Q s"
proof -
  obtain i where i: "i \<le> tick s" "start = p_time (port s) i" "punctual (port s) i (ucast (http_recv_timeout s))"
    using assms(1) by (auto simp: reading_def)
  then have "\<not> p_time (port s) (tick s) < start"
      "\<not> ucast (http_recv_timeout s) \<le> p_time (port s) (Suc (tick s)) - start"
    by (auto simp: punctual_def linorder_not_less linorder_not_le)
  moreover have "took H s 0 [] (s\<lparr>tick := Suc (Suc (tick s))\<rparr>)"
    by (rule took_none) (simp add: moved_def heard_def)
  ultimately show ?thesis using assms(2) assms(3) [of "s\<lparr>tick := Suc (Suc (tick s))\<rparr>"]
    by (simp add: recv_header_loop.simps(2) run_simps)
qed

lemma took_step: "took H s n [] t \<Longrightarrow> moved t m (http_response t) [] u \<Longrightarrow> took H s (n + m) [] u"
  using took_trans [OF _ took_none, of H s n "[]"] by simp

lemma header_char:
  assumes "reading H start s" "length line + 2 \<le> http_line_max s" "answers s [(1, [b])]" "b \<noteq> 13"
    "\<And>t. took H s 1 [] t \<Longrightarrow> wp (recv_header_loop fuel (line @ [b]) start 1 total_len) Q t"
  shows "wp (recv_header_loop (Suc fuel) line start res total_len) Q s"
proof (rule header_round [OF assms(1,2)], unfold wp_bind)
  fix t assume t: "took H s 0 [] t"
  have t': "http_network t" "p_recv (port t) (rx t) = (1, [b])"
    using took_reading [OF t assms(1)] answers_Cons [OF took_answers [OF t, of "[]"]] assms(3) by (simp_all add: reading_def)
  show "wp (http_recv 1) (\<lambda>r. wp (case r of (res, b) \<Rightarrow>
         if res < STATE_SUCCESS then ret (Some (res, total_len))
         else if res = 0 \<or> b \<noteq> [13] then recv_header_loop fuel (line @ b) start res total_len
         else do {
           (res, c) \<leftarrow> http_recv 1;
           if res < STATE_SUCCESS then ret (Some (res, total_len))
           else if res = 0 \<or> c \<noteq> [10] then recv_header_loop fuel (line @ b @ c) start res total_len
           else do {
             (left, res, total_len) \<leftarrow> header_line (line @ b @ c) res total_len;
             if left then ret (Some (res, total_len)) else recv_header_loop fuel [] start res total_len
           }
         }) Q) t"
    by (rule http_recv_answer [OF t'])
      (use assms(4) assms(5) took_step [OF t, of 1] in simp_all)
qed

lemma header_text:
  assumes "reading H start s" "length line + length cs + 2 \<le> http_line_max s"
    "answers s (map (\<lambda>b. (1, [b])) cs)" "13 \<notin> set cs"
    "\<And>t res. took H s (length cs) [] t \<Longrightarrow> 0 \<le> res \<Longrightarrow>
       wp (recv_header_loop fuel (line @ cs) start res total_len) Q t" "0 \<le> res"
  shows "wp (recv_header_loop (fuel + length cs) line start res total_len) Q s"
  using assms
proof (induction cs arbitrary: line s res)
  case Nil
  then show ?case using took_refl by simp
next
  case (Cons b cs)
  show ?case unfolding add_Suc_right length_Cons
  proof (rule header_char [OF Cons.prems(1)])
    show "length line + 2 \<le> http_line_max s" "b \<noteq> 13" "answers s [(1, [b])]"
      using Cons.prems(2-4) by (auto simp: answers_def)
    fix t assume t: "took H s 1 [] t"
    show "wp (recv_header_loop (fuel + length cs) (line @ [b]) start 1 total_len) Q t"
    proof (rule Cons.IH [OF took_reading [OF t Cons.prems(1)]])
      show "length (line @ [b]) + length cs + 2 \<le> http_line_max t"
        using Cons.prems(2) took_line_max [OF t] by simp
      show "answers t (map (\<lambda>b. (1, [b])) cs)"
        by (rule took_answers [OF t, of "[(1, [b])]"]) (use Cons.prems(3) in simp_all)
      fix u res assume u: "took H t (length cs) [] u" "0 \<le> (res :: int)"
      show "wp (recv_header_loop fuel ((line @ [b]) @ cs) start res total_len) Q u"
        using Cons.prems(5) [OF _ u(2)] took_trans [OF t u(1)] by simp
    qed (use Cons.prems(4) in simp_all)
  qed
qed

lemma header_crlf:
  assumes "reading H start s" "length line + 2 \<le> http_line_max s" "answers s [(1, [13]), (1, [10])]"
    "\<And>t. took H s 2 [] t \<Longrightarrow> wp (header_line (line @ [13, 10]) 1 total_len)
       (\<lambda>(left, res, total_len). wp (if left then ret (Some (res, total_len)) else recv_header_loop fuel [] start res total_len) Q) t"
  shows "wp (recv_header_loop (Suc fuel) line start res total_len) Q s"
proof (rule header_round [OF assms(1,2)], unfold wp_bind)
  fix t assume t: "took H s 0 [] t"
  have t': "http_network t" "p_recv (port t) (rx t) = (1, [13])" "answers t [(1, [13]), (1, [10])]"
    using took_reading [OF t assms(1)] answers_Cons [of t "(1, [13])" "[(1, [10])]"] took_answers [OF t, of "[]"] assms(3)
    by (simp_all add: reading_def)
  have second: "wp (http_recv 1) (\<lambda>r. wp (case r of (res, c) \<Rightarrow>
       if res < STATE_SUCCESS then ret (Some (res, total_len))
       else if res = 0 \<or> c \<noteq> [10] then recv_header_loop fuel (line @ [13] @ c) start res total_len
       else do {
         (left, res, total_len) \<leftarrow> header_line (line @ [13] @ c) res total_len;
         if left then ret (Some (res, total_len)) else recv_header_loop fuel [] start res total_len
       }) Q) u" if u: "took H t 1 [] u" for u
  proof -
    have u': "http_network u" "p_recv (port u) (rx u) = (1, [10])"
      using took_reading [OF u took_reading [OF t assms(1)]] answers_Cons [OF took_answers [OF u, of "[(1, [13])]"]] t'(3)
      by (simp_all add: reading_def)
    show ?thesis
      by (rule http_recv_answer [OF u'])
        (use assms(4) took_step [OF took_trans [OF t u, simplified], of 1] in \<open>simp_all add: split_def numeral_2_eq_2\<close>)
  qed
  show "wp (http_recv 1) (\<lambda>r. wp (case r of (res, b) \<Rightarrow>
         if res < STATE_SUCCESS then ret (Some (res, total_len))
         else if res = 0 \<or> b \<noteq> [13] then recv_header_loop fuel (line @ b) start res total_len
         else do {
           (res, c) \<leftarrow> http_recv 1;
           if res < STATE_SUCCESS then ret (Some (res, total_len))
           else if res = 0 \<or> c \<noteq> [10] then recv_header_loop fuel (line @ b @ c) start res total_len
           else do {
             (left, res, total_len) \<leftarrow> header_line (line @ b @ c) res total_len;
             if left then ret (Some (res, total_len)) else recv_header_loop fuel [] start res total_len
           }
         }) Q) t"
    by (rule http_recv_answer [OF t'(1,2)]) (use second [OF took_none] in simp_all)
qed

text \<open>A whole line, as the network delivers it.\<close>

definition delivered :: "byte list \<Rightarrow> (int \<times> byte list) list" where
  "delivered bs = map (\<lambda>b. (1, [b])) bs"

lemma delivered_simps [simp]: "delivered [] = []" "delivered (b # bs) = (1, [b]) # delivered bs" "length (delivered bs) = length bs" "delivered (as @ bs) = delivered as @ delivered bs"
  by (simp_all add: delivered_def)

lemma answers_append: "answers s (as @ bs) \<Longrightarrow> answers s as"
  unfolding answers_def by (metis length_append nth_append trans_less_add1)

lemma header_one_line:
  assumes "reading H start s" "length cs + 2 \<le> http_line_max s" "answers s (delivered (cs @ [13, 10]))" "13 \<notin> set cs"
    "\<And>t. took H s (length cs + 2) [] t \<Longrightarrow> wp (header_line (cs @ [13, 10]) 1 total_len)
       (\<lambda>(left, res, total_len). wp (if left then ret (Some (res, total_len)) else recv_header_loop fuel [] start res total_len) Q) t"
    "0 \<le> res"
  shows "wp (recv_header_loop (Suc fuel + length cs) [] start res total_len) Q s"
proof (rule header_text [OF assms(1)])
  show "answers s (map (\<lambda>b. (1, [b])) cs)"
    using assms(3) answers_append by (fastforce simp: delivered_def)
  fix t res assume t: "took H s (length cs) [] t"
  show "wp (recv_header_loop (Suc fuel) ([] @ cs) start res total_len) Q t"
  proof (rule header_crlf [OF took_reading [OF t assms(1)]])
    show "length ([] @ cs) + 2 \<le> http_line_max t" using assms(2) took_line_max [OF t] by simp
    show "answers t [(1, [13]), (1, [10])]"
      by (rule took_answers [OF t, of "delivered cs"]) (use assms(3) in \<open>simp_all add: delivered_def\<close>)
    fix u assume u: "took H t 2 [] u"
    show "wp (header_line (([] @ cs) @ [13, 10]) 1 total_len)
       (\<lambda>(left, res, total_len). wp (if left then ret (Some (res, total_len)) else recv_header_loop fuel [] start res total_len) Q) u"
      using assms(5) took_trans [OF t u] by simp
  qed
qed (use assms in simp_all)

definition header_text_of :: "byte list \<times> byte list \<Rightarrow> (byte list \<times> byte list) list \<Rightarrow> byte list" where
  "header_text_of st fs = status_text st @ [13, 10] @ concat (map (\<lambda>f. field_text f @ [13, 10]) fs) @ [13, 10]"

definition announced :: "(byte list \<times> byte list) list \<Rightarrow> 32 word" where
  "announced fs = foldl (\<lambda>n f. field_total f n) 0 fs"

lemma header_fields:
  assumes "reading H start s" "\<forall>f \<in> set fs. field_ok f \<and> length (field_text f) + 2 \<le> http_line_max s"
    "2 \<le> http_line_max s"
    "answers s (delivered (concat (map (\<lambda>f. field_text f @ [13, 10]) fs) @ [13, 10]))"
    "\<And>t. took H s (length (concat (map (\<lambda>f. field_text f @ [13, 10]) fs)) + 2) (map field_packet fs) t \<Longrightarrow>
       Q (Some (1, foldl (\<lambda>n f. field_total f n) total_len fs)) t"
    "0 \<le> res"
  shows "wp (recv_header_loop (Suc fuel + length (concat (map (\<lambda>f. field_text f @ [13, 10]) fs))) [] start res total_len) Q s"
  using assms
proof (induction fs arbitrary: s res total_len fuel)
  case Nil
  have "wp (recv_header_loop (Suc fuel + length ([] :: byte list)) [] start res total_len) Q s"
  proof (rule header_one_line [OF Nil.prems(1)])
    fix t assume t: "took H s (length ([] :: byte list) + 2) [] t"
    show "wp (header_line ([] @ [13, 10]) 1 total_len) (\<lambda>(left, res, total_len).
        wp (if left then ret (Some (res, total_len)) else recv_header_loop fuel [] start res total_len) Q) t"
      unfolding append_Nil
      by (rule header_line_end [of H]) (use Nil.prems(5) took_trans [OF t, of 0 "[]"] in simp)
  qed (use Nil.prems in simp_all)
  then show ?case by simp
next
  case (Cons f fs)
  let ?rest = "concat (map (\<lambda>f. field_text f @ [13, 10]) fs)"
  have f: "field_ok f" "length (field_text f) + 2 \<le> http_line_max s" using Cons.prems(2) by simp_all
  have cr: "13 \<notin> set (field_text f)" using f(1) by (cases f) auto
  have "wp (recv_header_loop (Suc (Suc (Suc fuel) + length ?rest) + length (field_text f)) [] start res total_len) Q s"
  proof (rule header_one_line [OF Cons.prems(1) f(2) _ cr])
    show "answers s (delivered (field_text f @ [13, 10]))"
      by (rule answers_append [of _ _ "delivered (?rest @ [13, 10])"]) (use Cons.prems(4) in simp)
    fix t assume t: "took H s (length (field_text f) + 2) [] t"
    show "wp (header_line (field_text f @ [13, 10]) 1 total_len) (\<lambda>(left, res, total_len).
        wp (if left then ret (Some (res, total_len)) else recv_header_loop (Suc (Suc fuel) + length ?rest) [] start res total_len) Q) t"
    proof (rule header_line_field [OF f(1) took_expecting [OF t]])
      show "expecting H s" using Cons.prems(1) by (simp add: reading_def)
      fix u assume u': "took H t 0 [field_packet f] u"
      note u = took_trans [OF t u', simplified]
      show "(case (False, 1, field_total f total_len) of (left, res, total_len) \<Rightarrow>
        wp (if left then ret (Some (res, total_len)) else recv_header_loop (Suc (Suc fuel) + length ?rest) [] start res total_len) Q) u"
        unfolding prod.case if_False
      proof (rule Cons.IH [OF took_reading [OF u Cons.prems(1)]])
        show "\<forall>g \<in> set fs. field_ok g \<and> length (field_text g) + 2 \<le> http_line_max u" "2 \<le> http_line_max u"
          using Cons.prems(2,3) took_line_max [OF u] by simp_all
        show "answers u (delivered (?rest @ [13, 10]))"
          by (rule took_answers [OF u, of "delivered (field_text f @ [13, 10])"]) (use Cons.prems(4) in simp_all)
        fix v assume "took H u (length ?rest + 2) (map field_packet fs) v"
        from Cons.prems(5) [of v] took_trans [OF u this]
        show "Q (Some (1, foldl (\<lambda>n f. field_total f n) (field_total f total_len) fs)) v"
          by (simp add: algebra_simps)
      qed simp
    qed simp
  qed (use Cons.prems(6) in simp)
  then show ?case by (simp add: algebra_simps)
qed

lemma punctual_later: "punctual p n timeout \<Longrightarrow> n \<le> m \<Longrightarrow> punctual p m timeout"
  by (simp add: punctual_def)

definition lines_fit :: "nat \<Rightarrow> byte list \<times> byte list \<Rightarrow> (byte list \<times> byte list) list \<Rightarrow> bool" where
  "lines_fit n st fs \<longleftrightarrow> length (status_text st) + 2 \<le> n \<and> (\<forall>f \<in> set fs. length (field_text f) + 2 \<le> n)"

lemma recv_header_whole:
  assumes "expecting H s" "http_network s" "punctual (port s) (tick s) (ucast (http_recv_timeout s))"
    "status_ok st" "\<forall>f \<in> set fs. field_ok f" "lines_fit (http_line_max s) st fs"
    "answers s (delivered (header_text_of st fs))"
    "\<And>t. took H s (length (header_text_of st fs)) (status_packet st # map field_packet fs) t \<Longrightarrow> Q (Some (1, announced fs)) t"
  shows "wp (http_recv_header (fuel + length (header_text_of st fs))) Q s"
proof -
  define u where "u = s\<lparr>live := live s + 1, tick := tick s + 2\<rparr>"
  let ?start = "p_time (port s) (tick s + 1)"
  let ?rest = "concat (map (\<lambda>f. field_text f @ [13, 10]) fs)"
  have u: "took H s 0 [] u" by (rule took_none) (simp add: moved_def heard_def u_def)
  have reads: "reading H ?start u"
    using assms(1,2) punctual_later [OF assms(3), of "tick s + 1"]
    by (auto simp: reading_def expecting_def u_def intro!: exI [where x = "Suc (tick s)"])
  have fit: "length (status_text st) + 2 \<le> http_line_max s" "\<forall>f \<in> set fs. field_ok f \<and> length (field_text f) + 2 \<le> http_line_max s"
    using assms(5,6) by (simp_all add: lines_fit_def)
  have cr: "13 \<notin> set (status_text st)" using assms(4) by (cases st) (auto simp: list_all_iff)
  let ?Q = "\<lambda>r t. r \<noteq> None \<and> Q r (t\<lparr>live := live t - 1\<rparr>)"
  have "wp (recv_header_loop (Suc (Suc (fuel + 2) + length ?rest) + length (status_text st)) [] ?start 0 0) ?Q u"
  proof (rule header_one_line [OF reads _ _ cr])
    show "length (status_text st) + 2 \<le> http_line_max u" using fit(1) by (simp add: u_def)
    show "answers u (delivered (status_text st @ [13, 10]))"
      by (rule answers_append [of _ _ "delivered (?rest @ [13, 10])"])
        (use assms(7) in \<open>simp add: answers_def header_text_of_def u_def\<close>)
    fix t assume t: "took H u (length (status_text st) + 2) [] t"
    show "wp (header_line (status_text st @ [13, 10]) 1 0) (\<lambda>(left, res, total_len).
        wp (if left then ret (Some (res, total_len)) else recv_header_loop (Suc (fuel + 2) + length ?rest) [] ?start res total_len) ?Q) t"
    proof (rule header_line_status [OF assms(4) took_expecting [OF t]])
      show "expecting H u" using assms(1) by (simp add: expecting_def u_def)
      fix v assume v: "took H t 0 [status_packet st] v"
      note v' = took_trans [OF t v, unfolded append_Nil add_0_right]
      show "(case (False, STATE_SUCCESS, 0) of (left, res, total_len) \<Rightarrow>
        wp (if left then ret (Some (res, total_len)) else recv_header_loop (Suc (fuel + 2) + length ?rest) [] ?start res total_len) ?Q) v"
        unfolding prod.case if_False
      proof (rule header_fields [OF took_reading [OF v' reads]])
        show "\<forall>f \<in> set fs. field_ok f \<and> length (field_text f) + 2 \<le> http_line_max v" "2 \<le> http_line_max v"
          using fit took_line_max [OF v'] by (simp_all add: u_def)
        show "answers v (delivered (?rest @ [13, 10]))"
          by (rule took_answers [OF v', of "delivered (status_text st @ [13, 10])"])
            (use assms(7) in \<open>simp_all add: answers_def header_text_of_def u_def\<close>)
        fix w assume w: "took H v (length ?rest + 2) (map field_packet fs) w"
        have "took H s (length (header_text_of st fs)) (status_packet st # map field_packet fs) (w\<lparr>live := live w - 1\<rparr>)"
          using took_trans [OF u took_trans [OF v' w]]
          by (simp add: took_def moved_def heard_def header_text_of_def algebra_simps)
        then show "?Q (Some (1, foldl (\<lambda>n f. field_total f n) 0 fs)) w"
          using assms(8) by (simp add: announced_def)
      qed simp
    qed
  qed simp
  then have "wp (recv_header_loop (fuel + length (header_text_of st fs)) [] ?start 0 0) ?Q u"
    by (simp add: header_text_of_def algebra_simps)
  then have "wp (recv_header_loop (fuel + length (header_text_of st fs)) [] ?start 0 0)
      (\<lambda>r. wp (do { on (r \<noteq> None) sys_free; ret r }) Q) u"
    by (rule wp_mono) (simp add: sys_free_def)
  moreover have "p_malloc (port s) (tick s)" using assms(1) by (simp add: expecting_def)
  ultimately show ?thesis
    by (simp add: http_recv_header_def run_simps u_def)
qed

end
