(* ===== verification/Http_Exchange.thy ===== *)
theory Http_Exchange
  imports Http_Header
begin

text \<open>
  The reader of the body and the loop around the core receive, up to the interface: a whole
  answer is handed to the user, whatever pieces the network delivers its body in.
\<close>

unbundle bit_operations_syntax

section \<open>Packets and the session\<close>

definition got :: "http_handler \<Rightarrow> http \<Rightarrow> nat \<Rightarrow> http_session \<Rightarrow> http_packet list \<Rightarrow> http \<Rightarrow> bool" where
  "got H s n S ps t \<longleftrightarrow> heard s n S (packets_response H ps (http_response s)) (packets_calls s ps) t"

lemma took_got: "took H s n ps t \<longleftrightarrow> got H s n (http_session s) ps t"
  by (simp add: took_def got_def moved_def)

lemma got_refl: "got H s 0 (http_session s) [] s"
  using took_refl by (simp add: took_got)

lemma got_frame:
  assumes "got H s n S ps t"
  shows "port t = port s" "rx t = rx s + n" "tick s \<le> tick t" "http_session t = S" "http_frame t = http_frame s"
    "http_calls (trace t) = http_calls (trace s) @ packets_calls s ps"
    "http_response t = packets_response H ps (http_response s)"
  using assms by (simp_all add: got_def heard_def)

lemmas got_fields = http_frame_fields [OF got_frame(5)]

lemma got_expecting: "got H s n S ps t \<Longrightarrow> expecting H s \<Longrightarrow> expecting H t"
  using got_frame(1) got_fields by (simp add: expecting_def)

lemma got_trans:
  assumes "got H s n S ps t" "got H t m S' qs u"
  shows "got H s (n + m) S' (ps @ qs) u"
proof -
  have "packet_calls t = packet_calls s"
    using got_fields [OF assms(1)] by (intro ext) (simp add: packet_calls_def)
  then show ?thesis using assms heard_trans [of s n _ _ _ t m] got_frame(7) [OF assms(1)]
    by (fastforce simp: got_def packets_response_def packets_calls_def)
qed

lemma got_answers: "got H s n S ps t \<Longrightarrow> answers s (as @ bs) \<Longrightarrow> length as = n \<Longrightarrow> answers t bs"
  unfolding answers_def
proof (intro allI impI)
  fix i assume t: "got H s n S ps t"
    and a: "\<forall>i<length (as @ bs). p_recv (port s) (rx s + i) = (as @ bs) ! i" "length as = n" "i < length bs"
  then have "p_recv (port s) (rx s + (n + i)) = bs ! i" by (simp add: nth_append)
  then show "p_recv (port t) (rx t + i) = bs ! i" using got_frame(1,2) [OF t] by (simp add: add.assoc)
qed

text \<open>Steps from a state that has been reached.\<close>

lemma wp_got_silent:
  assumes "got H s n S ps t" "silent m" "\<And>r u. got H s n S ps u \<Longrightarrow> Q r u"
  shows "wp m Q t"
proof (rule wp_silently [OF assms(2)])
  fix r u assume "moved t 0 (http_response t) [] u"
  then have "got H t 0 S [] u" using took_none [of t 0 u H] got_frame(4) [OF assms(1)] by (simp add: took_got)
  then show "Q r u" using assms(3) got_trans [OF assms(1)] by fastforce
qed

lemma wp_got_malloc:
  assumes "got H s n S ps t" "expecting H s" "\<And>u. got H s n S ps u \<Longrightarrow> Q True u"
  shows "wp sys_malloc Q t"
proof -
  have "p_malloc (port t) (tick t)" using got_expecting [OF assms(1,2)] by (simp add: expecting_def)
  moreover have "got H s n S ps (t\<lparr>tick := tick t + 1, live := live t + 1\<rparr>)"
    using assms(1) by (simp add: got_def heard_def)
  ultimately show ?thesis using assms(3) by (simp add: run_simps)
qed

lemma got_session: "got H s n S ps t \<Longrightarrow> got H s n S' ps (t\<lparr>http_session := S'\<rparr>)"
  by (simp add: got_def heard_def)

lemma wp_got_packet:
  assumes "got H s n S ps t" "expecting H s" "nul_free p" "\<And>u. got H s n S (ps @ [p]) u \<Longrightarrow> Q () u"
  shows "wp (call_core_handler p) Q t"
proof (rule wp_call_packet [OF got_expecting [OF assms(1,2)] assms(3)])
  fix u assume "moved t 0 (packet_response H p (http_response t)) (packet_calls t p) u"
  then have "got H t 0 S [p] u" using took_one [of t 0 H p u] got_frame(4) [OF assms(1)] by (simp add: took_got)
  then show "Q () u" using assms(4) got_trans [OF assms(1)] by fastforce
qed

lemma wp_got_recv:
  assumes "got H s n S ps t" "http_network s" "answers s (as @ [(int (length c), c)])" "length as = n" "length c \<le> m"
    "\<And>u. got H s (n + 1) S ps u \<Longrightarrow> Q (int (length c), c @ replicate (m - length c) 0) u"
  shows "wp (http_recv m) Q t"
proof (rule http_recv_answer)
  show "http_network t" using assms(2) got_fields(1) [OF assms(1)] by simp
  show "p_recv (port t) (rx t) = (int (length c), c)"
    using answers_Cons [OF got_answers [OF assms(1,3,4)]] .
  fix u assume "moved t 1 (http_response t) [] u"
  then have "got H t 1 S [] u" using took_none [of t 1 u H] got_frame(4) [OF assms(1)] by (simp add: took_got)
  then show "Q (int (length c), c @ replicate (m - length c) 0) u"
    using assms(6) got_trans [OF assms(1)] by fastforce
qed (use assms(5) in simp_all)

section \<open>A piece of the body\<close>

lemma wp_body_received:
  assumes "got H s n S ps t" "expecting H s" "c \<noteq> []"
    "\<And>u. got H s n (S\<lparr>session_read_len := session_read_len S + of_nat (length c)\<rparr>) (ps @ [Http_body c]) u \<Longrightarrow> Q () u"
  shows "wp (body_received (int (length c)) (c @ replicate k 0)) Q t"
proof -
  have len: "\<not> int (length c) > int (length (c @ replicate k 0))" and data: "take (nat (int (length c))) (c @ replicate k 0) = c"
    by simp_all
  let ?S = "S\<lparr>session_read_len := session_read_len S + of_nat (length c)\<rparr>"
  have "wp (do { s \<leftarrow> State_Monad.get;
      on (http_core_handler s \<noteq> None) (do {
        modify (\<lambda>s. s\<lparr>http_session := (http_session s)\<lparr>session_read_len :=
          session_read_len (http_session s) + of_int (int (length c))\<rparr>\<rparr>);
        call_core_handler (Http_body c) }) }) Q u" if u: "got H s n S ps u" for u
  proof -
    have "wp (call_core_handler (Http_body c)) Q (u\<lparr>http_session := ?S\<rparr>)"
      by (rule wp_got_packet [OF got_session [OF u] assms(2)]) (use assms(4) in simp_all)
    moreover have "http_core_handler u = Some H" using got_expecting [OF u assms(2)] by (simp add: expecting_def)
    ultimately show ?thesis using got_frame(4) [OF u] by simp
  qed
  then show ?thesis
    unfolding body_received_def if_not_P [OF len] data Let_def wp_bind [of "core_log_hexdump _ _ _"] wp_bind [of "ret ()"] wp_ret
    by (intro wp_got_silent [OF assms(1) silent_log(3)]) simp
qed

lemma wp_recv_body:
  assumes "got H s n S ps t" "expecting H s" "http_network s" "answers s (as @ [(int (length c), c)])" "length as = n"
    "tot \<noteq> 0" "rest \<noteq> 0" "body_total_len = tot \<and> rest = tot \<or> body_total_len = 0 \<and> session_total_len S = tot \<and> rest = tot - session_read_len S"
    "c \<noteq> []" "length c \<le> unat (min rest (http_body_max s))"
    "\<And>u. got H s (n + 1) (S\<lparr>session_total_len := tot, session_read_len := session_read_len S + of_nat (length c)\<rparr>)
       (ps @ [Http_body c]) u \<Longrightarrow> Q (int (length c)) u"
  shows "wp (http_recv_body body_total_len) Q t"
proof -
  let ?S = "S\<lparr>session_total_len := tot\<rparr>"
  let ?m = "unat (min rest (http_body_max s))"
  have pos: "int (length c) > 0" using assms(9) by simp
  have chunk: "wp (do {
       mutex_lock Recv_mutex;
       (res, buffer) \<leftarrow> http_recv ?m;
       mutex_unlock Recv_mutex;
       on (res > 0) (body_received res buffer);
       sys_free;
       ret res }) Q u" if u: "got H s n ?S ps u" for u
    unfolding wp_bind split_def
  proof (rule wp_got_silent [OF u silent_port(5)], rule wp_got_recv [OF _ assms(3-5,10)], assumption,
      unfold fst_conv snd_conv wp_bind, rule wp_got_silent [OF _ silent_port(6)], assumption)
    fix v assume v: "got H s (n + 1) ?S ps v"
    show "wp (on (int (length c) > 0) (body_received (int (length c)) (c @ replicate (?m - length c) 0)))
       (\<lambda>r. wp sys_free (\<lambda>r. wp (ret (int (length c))) Q)) v"
      unfolding if_P [OF pos]
    proof (rule wp_body_received [OF v assms(2,9)], rule wp_got_silent [OF _ silent_port(3)], assumption, unfold wp_ret)
      fix w assume "got H s (n + 1) (?S\<lparr>session_read_len := session_read_len ?S + of_nat (length c)\<rparr>) (ps @ [Http_body c]) w"
      then show "Q (int (length c)) w" using assms(11) by simp
    qed
  qed
  have S: "http_session t = S" and m: "?m = unat (min rest (http_body_max t))"
    using got_frame(4) got_fields(8) assms(1) by auto
  have alloc: "wp sys_malloc (\<lambda>ok. wp (if \<not> ok then ret STATE_SYS_DEPEND_MALLOC_FAILED else do {
       mutex_lock Recv_mutex;
       (res, buffer) \<leftarrow> http_recv ?m;
       mutex_unlock Recv_mutex;
       on (res > 0) (body_received res buffer);
       sys_free;
       ret res }) Q) u" if "got H s n ?S ps u" for u
    by (rule wp_got_malloc [OF that assms(2)]) (simp only: not_True_eq_False if_False chunk)
  from assms(8) show ?thesis
  proof (elim disjE conjE)
    assume "body_total_len = tot" and rest: "rest = tot"
    then show ?thesis using alloc [OF got_session [OF assms(1)], unfolded m, unfolded rest] assms(6) S
      by (simp add: http_recv_body_def Let_def)
  next
    assume "body_total_len = 0" "session_total_len S = tot" "rest = tot - session_read_len S"
    note rest = this(3)
    have "got H s n ?S ps t" using \<open>session_total_len S = tot\<close> assms(1) by (cases S) simp
    with \<open>body_total_len = 0\<close> \<open>session_total_len S = tot\<close> show ?thesis
      using alloc [of t, unfolded m, unfolded rest] assms(6,7) S rest
      by (simp add: http_recv_body_def Let_def)
  qed
qed

section \<open>A call of the core\<close>

text \<open>The count of the running calls goes up and down again around it.\<close>

definition counting :: "http \<Rightarrow> http" where
  "counting s = s\<lparr>http_core_count := http_core_count s + 1\<rparr>"

lemma counting_simps [simp]:
  "port (counting s) = port s" "tick (counting s) = tick s" "rx (counting s) = rx s" "trace (counting s) = trace s"
  "http_network (counting s) = http_network s" "http_session (counting s) = http_session s"
  "http_response (counting s) = http_response s" "http_frame (counting s) = http_frame s"
  "http_core_count (counting s) = http_core_count s + 1"
  "http_recv_timeout (counting s) = http_recv_timeout s"
  "http_line_max (counting s) = http_line_max s" "http_body_max (counting s) = http_body_max s"
  "answers (counting s) as = answers s as" "expecting H (counting s) = expecting H s"
  "packet_calls (counting s) = packet_calls s"
  by (simp_all add: counting_def answers_def expecting_def packet_calls_def fun_eq_iff)

lemma wp_exec_inc:
  assumes "\<And>u. got H (counting s) 0 (http_session s) [] u \<Longrightarrow> Q () u"
  shows "wp http_exec_inc Q s"
  unfolding http_exec_inc_def
  by (simp add: run_simps)
    (rule assms, simp add: got_def heard_def packets_response_def packets_calls_def)

lemma wp_exec_dec:
  assumes "got H (counting s) n S ps t" "\<And>u. got H s n S ps u \<Longrightarrow> Q () u"
  shows "wp http_exec_dec Q t"
  unfolding http_exec_dec_def
  by (simp add: run_simps)
    (rule assms(2), use assms(1) in \<open>simp add: got_def heard_def packets_calls_def\<close>)

text \<open>The part behind the header.\<close>

lemma wp_core_body:
  assumes "got H (counting s) n S ps t"
    "\<And>u. got H (counting s) n (S\<lparr>session_sm := Sm_read_body\<rparr>) ps u \<Longrightarrow>
       wp (http_recv_body body_total_len) (\<lambda>res v. \<exists>m S' qs. got H (counting s) m S' qs v \<and>
         (\<forall>w. got H s m (if res = STATE_HTTP_READ_BODY_FINISHED \<or> res = STATE_HTTP_READ_BODY_EMPTY then session_0 else S') qs w
            \<longrightarrow> Q (Some res) w)) u"
  shows "wp (do {
     modify (\<lambda>s. s\<lparr>http_session := (http_session s)\<lparr>session_sm := Sm_read_body\<rparr>\<rparr>);
     res \<leftarrow> http_recv_body body_total_len;
     on (res = STATE_HTTP_READ_BODY_FINISHED \<or> res = STATE_HTTP_READ_BODY_EMPTY)
       (modify (\<lambda>s. s\<lparr>http_session := session_0\<rparr>));
     http_exec_dec;
     ret (Some res) }) Q t"
proof -
  let ?F = "\<lambda>res. res = STATE_HTTP_READ_BODY_FINISHED \<or> res = STATE_HTTP_READ_BODY_EMPTY"
  have "wp (http_recv_body body_total_len)
      (\<lambda>res. wp (do { on (?F res) (modify (\<lambda>s. s\<lparr>http_session := session_0\<rparr>)); http_exec_dec; ret (Some res) }) Q)
      (t\<lparr>http_session := S\<lparr>session_sm := Sm_read_body\<rparr>\<rparr>)"
  proof (rule wp_mono [OF assms(2) [OF got_session [OF assms(1)]]], elim exE conjE)
    fix res v m S' qs
    assume v: "got H (counting s) m S' qs v"
      and Q: "\<forall>w. got H s m (if ?F res then session_0 else S') qs w \<longrightarrow> Q (Some res) w"
    have "wp http_exec_dec (\<lambda>_. Q (Some res)) (if ?F res then v\<lparr>http_session := session_0\<rparr> else v)"
      by (rule wp_exec_dec [where S = "if ?F res then session_0 else S'"]) (use v got_session [OF v] Q in auto)
    then show "wp (do { on (?F res) (modify (\<lambda>s. s\<lparr>http_session := session_0\<rparr>)); http_exec_dec; ret (Some res) }) Q v"
      by (cases "?F res") (simp_all only: if_P if_not_P if_True if_False wp_bind wp_modify wp_ret wp_return)
  qed
  then show ?thesis using got_frame(4) [OF assms(1)] by simp
qed

text \<open>The first call reads the header and the first piece of the body.\<close>

abbreviation body_session :: "32 word \<Rightarrow> nat \<Rightarrow> http_session" where
  "body_session tot n \<equiv> \<lparr>session_sm = Sm_read_body, session_total_len = tot, session_read_len = of_nat n\<rparr>"

abbreviation header_packets :: "byte list \<times> byte list \<Rightarrow> (byte list \<times> byte list) list \<Rightarrow> http_packet list" where
  "header_packets st fs \<equiv> status_packet st # map field_packet fs"

lemma core_recv_first:
  assumes "expecting H s" "http_network s" "http_core_enabled s" "http_session s = session_0"
    "punctual (port s) (tick s) (ucast (http_recv_timeout s))"
    "status_ok st" "\<forall>f \<in> set fs. field_ok f" "lines_fit (http_line_max s) st fs"
    "answers s (delivered (header_text_of st fs) @ [(int (length c), c)])"
    "announced fs \<noteq> 0" "c \<noteq> []" "length c \<le> unat (min (announced fs) (http_body_max s))"
    "\<And>t. got H s (length (header_text_of st fs) + 1) (body_session (announced fs) (length c))
       (header_packets st fs @ [Http_body c]) t \<Longrightarrow> Q (Some (int (length c))) t"
  shows "wp (core_http_recv (fuel + length (header_text_of st fs))) Q s"
proof -
  let ?n = "length (header_text_of st fs)" and ?c = "counting s"
  have body: "wp (do {
     modify (\<lambda>s. s\<lparr>http_session := (http_session s)\<lparr>session_sm := Sm_read_body\<rparr>\<rparr>);
     res \<leftarrow> http_recv_body (announced fs);
     on (res = STATE_HTTP_READ_BODY_FINISHED \<or> res = STATE_HTTP_READ_BODY_EMPTY)
       (modify (\<lambda>s. s\<lparr>http_session := session_0\<rparr>));
     http_exec_dec;
     ret (Some res) }) Q t" if t: "got H ?c ?n session_0 (header_packets st fs) t" for t
  proof (rule wp_core_body [OF t])
    fix u assume u: "got H ?c ?n (session_0\<lparr>session_sm := Sm_read_body\<rparr>) (header_packets st fs) u"
    show "wp (http_recv_body (announced fs)) (\<lambda>res v. \<exists>m S' qs. got H ?c m S' qs v \<and>
        (\<forall>w. got H s m (if res = STATE_HTTP_READ_BODY_FINISHED \<or> res = STATE_HTTP_READ_BODY_EMPTY then session_0 else S') qs w
            \<longrightarrow> Q (Some res) w)) u"
    proof (rule wp_recv_body [OF u, where as = "delivered (header_text_of st fs)" and c = c and tot = "announced fs" and rest = "announced fs"])
      fix v assume v: "got H ?c (?n + 1) (session_0\<lparr>session_sm := Sm_read_body, session_total_len := announced fs,
          session_read_len := session_read_len (session_0\<lparr>session_sm := Sm_read_body\<rparr>) + of_nat (length c)\<rparr>)
          (header_packets st fs @ [Http_body c]) v"
      show "\<exists>m S' qs. got H ?c m S' qs v \<and>
        (\<forall>w. got H s m (if int (length c) = STATE_HTTP_READ_BODY_FINISHED \<or> int (length c) = STATE_HTTP_READ_BODY_EMPTY then session_0 else S') qs w
            \<longrightarrow> Q (Some (int (length c))) w)"
      proof (intro exI conjI)
        show "got H ?c (?n + 1) (body_session (announced fs) (length c)) (header_packets st fs @ [Http_body c]) v"
          using v by (simp add: session_0_def)
      qed (use assms(13) in simp)
    qed (use assms in simp_all)
  qed
  have "wp (http_recv_header (fuel + ?n)) (\<lambda>r. wp (do { on (r \<noteq> None) (mutex_unlock Recv_mutex); ret r })
      (\<lambda>r. wp (case r of None \<Rightarrow> ret None
       | Some (res, body_total_len) \<Rightarrow>
           if res < STATE_SUCCESS then do { http_exec_dec; ret (Some res) }
           else do {
             modify (\<lambda>s. s\<lparr>http_session := (http_session s)\<lparr>session_sm := Sm_read_body\<rparr>\<rparr>);
             res \<leftarrow> http_recv_body body_total_len;
             on (res = STATE_HTTP_READ_BODY_FINISHED \<or> res = STATE_HTTP_READ_BODY_EMPTY)
               (modify (\<lambda>s. s\<lparr>http_session := session_0\<rparr>));
             http_exec_dec;
             ret (Some res)
           }) Q)) u" if u: "got H ?c 0 session_0 [] u" for u
  proof (rule recv_header_whole)
    show "expecting H u" "http_network u" "punctual (port u) (tick u) (ucast (http_recv_timeout u))"
      "lines_fit (http_line_max u) st fs" "answers u (delivered (header_text_of st fs))"
      using assms(1,2,8) got_expecting [OF u] got_fields [OF u] got_frame [OF u] punctual_later [OF assms(5)]
        got_answers [OF u, of "[]"] answers_append [OF assms(9)] by auto
    fix t assume "took H u ?n (header_packets st fs) t"
    then have "got H ?c ?n session_0 (header_packets st fs) t"
      using got_trans [OF u] got_frame(4) [OF u] by (fastforce simp: took_got)
    then show "wp (do { on (Some (1, announced fs) \<noteq> None) (mutex_unlock Recv_mutex); ret (Some (1, announced fs)) })
      (\<lambda>r. wp (case r of None \<Rightarrow> ret None
       | Some (res, body_total_len) \<Rightarrow>
           if res < STATE_SUCCESS then do { http_exec_dec; ret (Some res) }
           else do {
             modify (\<lambda>s. s\<lparr>http_session := (http_session s)\<lparr>session_sm := Sm_read_body\<rparr>\<rparr>);
             res \<leftarrow> http_recv_body body_total_len;
             on (res = STATE_HTTP_READ_BODY_FINISHED \<or> res = STATE_HTTP_READ_BODY_EMPTY)
               (modify (\<lambda>s. s\<lparr>http_session := session_0\<rparr>));
             http_exec_dec;
             ret (Some res)
           }) Q) t"
      using wp_got_silent [OF _ silent_port(6)] body by simp
  qed (use assms(6,7) in simp_all)
  then have "wp (do { mutex_lock Recv_mutex; r \<leftarrow> http_recv_header (fuel + ?n); on (r \<noteq> None) (mutex_unlock Recv_mutex); ret r })
      (\<lambda>r. wp (case r of None \<Rightarrow> ret None
       | Some (res, body_total_len) \<Rightarrow>
           if res < STATE_SUCCESS then do { http_exec_dec; ret (Some res) }
           else do {
             modify (\<lambda>s. s\<lparr>http_session := (http_session s)\<lparr>session_sm := Sm_read_body\<rparr>\<rparr>);
             res \<leftarrow> http_recv_body body_total_len;
             on (res = STATE_HTTP_READ_BODY_FINISHED \<or> res = STATE_HTTP_READ_BODY_EMPTY)
               (modify (\<lambda>s. s\<lparr>http_session := session_0\<rparr>));
             http_exec_dec;
             ret (Some res)
           }) Q) u" if "got H ?c 0 session_0 [] u" for u
    unfolding wp_bind [of "mutex_lock _"] by (intro wp_got_silent [OF that silent_port(5)]) simp
  then have "wp http_exec_inc (\<lambda>_. wp (do {
       r \<leftarrow> do { mutex_lock Recv_mutex; r \<leftarrow> http_recv_header (fuel + ?n); on (r \<noteq> None) (mutex_unlock Recv_mutex); ret r };
       case r of None \<Rightarrow> ret None
       | Some (res, body_total_len) \<Rightarrow>
           if res < STATE_SUCCESS then do { http_exec_dec; ret (Some res) }
           else do {
             modify (\<lambda>s. s\<lparr>http_session := (http_session s)\<lparr>session_sm := Sm_read_body\<rparr>\<rparr>);
             res \<leftarrow> http_recv_body body_total_len;
             on (res = STATE_HTTP_READ_BODY_FINISHED \<or> res = STATE_HTTP_READ_BODY_EMPTY)
               (modify (\<lambda>s. s\<lparr>http_session := session_0\<rparr>));
             http_exec_dec;
             ret (Some res)
           } }) Q) s"
    unfolding wp_bind [of "do { _; _ }"] by (intro wp_exec_inc) (simp add: assms(4))
  then show ?thesis
    using assms(2-4) by (simp add: core_http_recv_def session_0_def)
qed

text \<open>The calls that follow read from the body only; the last one finds nothing left.\<close>

lemma core_recv_body:
  assumes "expecting H s" "http_network s" "http_core_enabled s" "session_sm (http_session s) = Sm_read_body"
    "\<And>t. got H (counting s) 0 (http_session s) [] t \<Longrightarrow>
       wp (http_recv_body 0) (\<lambda>res v. \<exists>m S' qs. got H (counting s) m S' qs v \<and>
         (\<forall>w. got H s m (if res = STATE_HTTP_READ_BODY_FINISHED \<or> res = STATE_HTTP_READ_BODY_EMPTY then session_0 else S') qs w
            \<longrightarrow> Q (Some res) w)) t"
  shows "wp (core_http_recv fuel) Q s"
proof -
  let ?B = "\<lambda>n. do {
     modify (\<lambda>s. s\<lparr>http_session := (http_session s)\<lparr>session_sm := Sm_read_body\<rparr>\<rparr>);
     res \<leftarrow> http_recv_body n;
     on (res = STATE_HTTP_READ_BODY_FINISHED \<or> res = STATE_HTTP_READ_BODY_EMPTY)
       (modify (\<lambda>s. s\<lparr>http_session := session_0\<rparr>));
     http_exec_dec;
     ret (Some res) }"
  have S: "(http_session s)\<lparr>session_sm := Sm_read_body\<rparr> = http_session s"
    using assms(4) by (cases "http_session s") simp
  have "wp http_exec_inc (\<lambda>_. wp (?B 0) Q) s"
  proof (rule wp_exec_inc [of H])
    fix u assume u: "got H (counting s) 0 (http_session s) [] u"
    show "wp (?B 0) Q u"
      by (rule wp_core_body [OF u]) (use assms(5) S in auto)
  qed
  then show ?thesis using assms(2-4) by (simp add: core_http_recv_def)
qed

lemma core_recv_next:
  assumes "expecting H s" "http_network s" "http_core_enabled s" "http_session s = body_session tot n"
    "answers s [(int (length c), c)]" "tot \<noteq> 0" "tot - of_nat n \<noteq> 0" "c \<noteq> []"
    "length c \<le> unat (min (tot - of_nat n) (http_body_max s))"
    "\<And>t. got H s 1 (body_session tot (n + length c)) [Http_body c] t \<Longrightarrow> Q (Some (int (length c))) t"
  shows "wp (core_http_recv fuel) Q s"
proof (rule core_recv_body [OF assms(1-3)])
  fix t assume t: "got H (counting s) 0 (http_session s) [] t"
  show "wp (http_recv_body 0) (\<lambda>res v. \<exists>m S' qs. got H (counting s) m S' qs v \<and>
         (\<forall>w. got H s m (if res = STATE_HTTP_READ_BODY_FINISHED \<or> res = STATE_HTTP_READ_BODY_EMPTY then session_0 else S') qs w
            \<longrightarrow> Q (Some res) w)) t"
  proof (rule wp_recv_body [OF t, where as = "[]" and c = c and tot = tot and rest = "tot - of_nat n"])
    fix v assume v: "got H (counting s) (0 + 1) ((http_session s)\<lparr>session_total_len := tot,
        session_read_len := session_read_len (http_session s) + of_nat (length c)\<rparr>) ([] @ [Http_body c]) v"
    show "\<exists>m S' qs. got H (counting s) m S' qs v \<and>
         (\<forall>w. got H s m (if int (length c) = STATE_HTTP_READ_BODY_FINISHED \<or> int (length c) = STATE_HTTP_READ_BODY_EMPTY then session_0 else S') qs w
            \<longrightarrow> Q (Some (int (length c))) w)"
    proof (intro exI conjI)
      show "got H (counting s) 1 (body_session tot (n + length c)) [Http_body c] v"
        using v assms(4) by simp
    qed (use assms(10) in simp)
  qed (use assms in simp_all)
qed (use assms(4) in simp)

lemma core_recv_last:
  assumes "expecting H s" "http_network s" "http_core_enabled s" "http_session s = body_session tot n"
    "tot \<noteq> 0" "tot - of_nat n = 0"
    "\<And>t. got H s 0 session_0 [] t \<Longrightarrow> Q (Some STATE_HTTP_READ_BODY_FINISHED) t"
  shows "wp (core_http_recv fuel) Q s"
proof (rule core_recv_body [OF assms(1-3)])
  fix t assume t: "got H (counting s) 0 (http_session s) [] t"
  moreover have "http_session t = body_session tot n" using got_frame(4) [OF t] assms(4) by simp
  ultimately show "wp (http_recv_body 0) (\<lambda>res v. \<exists>m S' qs. got H (counting s) m S' qs v \<and>
         (\<forall>w. got H s m (if res = STATE_HTTP_READ_BODY_FINISHED \<or> res = STATE_HTTP_READ_BODY_EMPTY then session_0 else S') qs w
            \<longrightarrow> Q (Some res) w)) t"
    using assms(5-7) by (auto simp: http_recv_body_def)
qed (use assms(4) in simp)

section \<open>The rounds of the interface\<close>

definition in_time :: "http \<Rightarrow> 64 word \<Rightarrow> 64 word \<Rightarrow> bool" where
  "in_time s start timeout \<longleftrightarrow> (\<exists>i \<le> tick s. start = p_time (port s) i \<and> punctual (port s) i timeout)"

lemma got_in_time: "got H s n S ps t \<Longrightarrow> in_time s start timeout \<Longrightarrow> in_time t start timeout"
  using got_frame(1,3) [of H s n S ps t] by (auto simp: in_time_def intro: le_trans)

lemma wp_round:
  assumes "in_time s start timeout"
    "\<And>t start'. got H s 0 (http_session s) [] t \<Longrightarrow> in_time t start' timeout \<Longrightarrow>
       wp (core_http_recv fuel) (\<lambda>r. wp (case r of None \<Rightarrow> ret None
         | Some res \<Rightarrow> if res < STATE_SUCCESS then ret (Some res) else http_recv_rounds fuel start' timeout res) Q) t"
  shows "wp (http_recv_rounds (Suc fuel) start timeout res) Q s"
proof -
  obtain i where i: "i \<le> tick s" "start = p_time (port s) i" "punctual (port s) i timeout"
    using assms(1) by (auto simp: in_time_def)
  have reached: "got H s 0 (http_session s) [] (s\<lparr>tick := tick s + k\<rparr>)" for k
    by (simp add: got_def heard_def packets_response_def packets_calls_def)
  have early: "\<not> timeout \<le> p_time (port s) j - start" if "i \<le> j" for j
    using i(2,3) that by (auto simp: punctual_def linorder_not_le)
  have later: "\<not> timeout \<le> p_time (port s) (tick s + 2) - p_time (port s) (tick s + 1)"
    using i by (auto simp: punctual_def linorder_not_le)
  show ?thesis
  proof (cases "p_time (port s) (tick s) \<le> start")
    case True
    have "in_time (s\<lparr>tick := tick s + 3\<rparr>) (p_time (port s) (tick s + 1)) timeout"
      using i(1,3) punctual_later [of _ i timeout "tick s + 1"] by (auto simp: in_time_def intro!: exI [where x = "tick s + 1"])
    from assms(2) [OF reached [of 3] this] show ?thesis using True later
      by (simp add: run_simps numeral_2_eq_2 numeral_3_eq_3 cong: option.case_cong if_cong)
  next
    case False
    have "in_time (s\<lparr>tick := tick s + 2\<rparr>) start timeout"
      using i by (auto simp: in_time_def intro!: exI [where x = i])
    from assms(2) [OF reached [of 2] this] show ?thesis using False early [of "tick s + 1"] i(1)
      by (simp add: run_simps numeral_2_eq_2)
  qed
qed

text \<open>How the network may cut a body of \<open>n\<close> bytes, at most \<open>m\<close> at a time.\<close>

fun pieces :: "nat \<Rightarrow> nat \<Rightarrow> byte list list \<Rightarrow> bool" where
  "pieces m n [] \<longleftrightarrow> n = 0"
| "pieces m n (c # cs) \<longleftrightarrow> c \<noteq> [] \<and> length c \<le> n \<and> length c \<le> m \<and> pieces m (n - length c) cs"

lemma pieces_length: "pieces m n cs \<Longrightarrow> length (concat cs) = n"
  by (induction m n cs rule: pieces.induct) auto

lemma unat_rest: "n \<le> unat w \<Longrightarrow> unat (w - of_nat n) = unat w - n" for w :: "32 word"
proof -
  assume n: "n \<le> unat w"
  then have "w - of_nat n = of_nat (unat w - n)" by (simp add: of_nat_diff)
  then show ?thesis using unsigned_less [of w, where 'a = nat]
    by (simp add: unat_of_nat take_bit_nat_eq_self)
qed

lemma rounds_body:
  assumes "expecting H s" "http_network s" "http_core_enabled s" "in_time s start timeout"
    "http_session s = body_session tot n" "tot \<noteq> 0" "n \<le> unat tot"
    "pieces (unat (http_body_max s)) (unat tot - n) cs" "answers s (map (\<lambda>c. (int (length c), c)) cs)"
    "\<And>t. got H s (length cs) session_0 (map Http_body cs) t \<Longrightarrow> Q (Some STATE_HTTP_READ_BODY_FINISHED) t"
  shows "wp (http_recv_rounds (fuel + length cs + 1) start timeout res) Q s"
  using assms
proof (induction cs arbitrary: s n start res)
  case Nil
  have "tot - of_nat n = 0" using unat_rest [OF Nil.prems(7)] Nil.prems(8) by (simp flip: unat_eq_0)
  have "wp (http_recv_rounds (Suc fuel) start timeout res) Q s"
  proof (rule wp_round [OF Nil.prems(4)])
    fix t start' assume t: "got H s 0 (http_session s) [] t"
    show "wp (core_http_recv fuel) (\<lambda>r. wp (case r of None \<Rightarrow> ret None
         | Some res \<Rightarrow> if res < STATE_SUCCESS then ret (Some res) else http_recv_rounds fuel start' timeout res) Q) t"
    proof (rule core_recv_last [OF got_expecting [OF t Nil.prems(1)] _ _ _ Nil.prems(6) \<open>tot - of_nat n = 0\<close>])
      show "http_network t" "http_core_enabled t" "http_session t = body_session tot n"
        using Nil.prems(2,3,5) got_fields(1,9) [OF t] got_frame(4) [OF t] by simp_all
      fix u assume "got H t 0 session_0 [] u"
      then show "wp (case Some STATE_HTTP_READ_BODY_FINISHED of None \<Rightarrow> ret None
         | Some res \<Rightarrow> if res < STATE_SUCCESS then ret (Some res) else http_recv_rounds fuel start' timeout res) Q u"
        using Nil.prems(10) got_trans [OF t] by fastforce
    qed
  qed
  then show ?case by simp
next
  case (Cons c cs)
  have piece: "c \<noteq> []" "length c \<le> unat tot - n" "length c \<le> unat (http_body_max s)"
    "pieces (unat (http_body_max s)) (unat tot - (n + length c)) cs" using Cons.prems(8) by simp_all
  have rest: "tot - of_nat n \<noteq> 0" "length c \<le> unat (min (tot - of_nat n) (http_body_max s))"
    using unat_rest [OF Cons.prems(7)] piece(1-3) by (auto simp: min_def)
  have "wp (http_recv_rounds (Suc (fuel + length cs + 1)) start timeout res) Q s"
  proof (rule wp_round [OF Cons.prems(4)])
    fix t start' assume t: "got H s 0 (http_session s) [] t" and start': "in_time t start' timeout"
    show "wp (core_http_recv (fuel + length cs + 1)) (\<lambda>r. wp (case r of None \<Rightarrow> ret None
         | Some res \<Rightarrow> if res < STATE_SUCCESS then ret (Some res) else http_recv_rounds (fuel + length cs + 1) start' timeout res) Q) t"
    proof (rule core_recv_next [OF got_expecting [OF t Cons.prems(1)] _ _ _ _ Cons.prems(6) rest(1) piece(1)])
      show t': "http_network t" "http_core_enabled t" "http_session t = body_session tot n"
        "length c \<le> unat (min (tot - of_nat n) (http_body_max t))"
        using Cons.prems(2,3,5) got_fields(1,8,9) [OF t] got_frame(4) [OF t] rest(2) by simp_all
      have a: "answers t ([(int (length c), c)] @ map (\<lambda>c. (int (length c), c)) cs)"
        using got_answers [OF t, of "[]"] Cons.prems(9) by simp
      then show "answers t [(int (length c), c)]" by (rule answers_append)
      fix u assume u: "got H t 1 (body_session tot (n + length c)) [Http_body c] u"
      have "wp (http_recv_rounds (fuel + length cs + 1) start' timeout (int (length c))) Q u"
      proof (rule Cons.IH [OF got_expecting [OF u] _ _ got_in_time [OF u start'] _ Cons.prems(6)])
        show "expecting H t" by (rule got_expecting [OF t Cons.prems(1)])
        show "http_network u" "http_core_enabled u" "http_session u = body_session tot (n + length c)" "n + length c \<le> unat tot"
          "pieces (unat (http_body_max u)) (unat tot - (n + length c)) cs"
          using t' got_fields(1,8,9) [OF u] got_fields(8) [OF t] got_frame(4) [OF u] piece Cons.prems(7) by simp_all
        show "answers u (map (\<lambda>c. (int (length c), c)) cs)"
          by (rule got_answers [OF u a]) simp
        fix v assume "got H u (length cs) session_0 (map Http_body cs) v"
        from got_trans [OF t got_trans [OF u this]] show "Q (Some STATE_HTTP_READ_BODY_FINISHED) v"
          by (intro Cons.prems(10)) simp
      qed
      then show "wp (case Some (int (length c)) of None \<Rightarrow> ret None
         | Some res \<Rightarrow> if res < STATE_SUCCESS then ret (Some res) else http_recv_rounds (fuel + length cs + 1) start' timeout res) Q u"
        by simp
    qed
  qed
  then show ?case by simp
qed

section \<open>The whole answer\<close>

text \<open>What the network delivers: the header byte by byte, the body in pieces.\<close>

definition answer_of :: "byte list \<times> byte list \<Rightarrow> (byte list \<times> byte list) list \<Rightarrow> byte list list \<Rightarrow> (int \<times> byte list) list" where
  "answer_of st fs cs = delivered (header_text_of st fs) @ map (\<lambda>c. (int (length c), c)) cs"

definition answer_ok :: "nat \<Rightarrow> nat \<Rightarrow> byte list \<times> byte list \<Rightarrow> (byte list \<times> byte list) list \<Rightarrow> byte list list \<Rightarrow> bool" where
  "answer_ok line_max body_max st fs cs \<longleftrightarrow> status_ok st \<and> (\<forall>f \<in> set fs. field_ok f) \<and> lines_fit line_max st fs
     \<and> announced fs \<noteq> 0 \<and> pieces body_max (unat (announced fs)) cs"

lemma rounds_answer:
  assumes "expecting H s" "http_network s" "http_core_enabled s" "in_time s start timeout" "http_session s = session_0"
    "punctual (port s) (tick s) (ucast (http_recv_timeout s))"
    "answer_ok (http_line_max s) (unat (http_body_max s)) st fs cs" "answers s (answer_of st fs cs)"
    "\<And>t. got H s (length (answer_of st fs cs)) session_0 (header_packets st fs @ map Http_body cs) t \<Longrightarrow>
       Q (Some STATE_HTTP_READ_BODY_FINISHED) t"
  shows "wp (http_recv_rounds (fuel + length (answer_of st fs cs) + 1) start timeout res) Q s"
proof -
  have ok: "status_ok st" "\<forall>f \<in> set fs. field_ok f" "lines_fit (http_line_max s) st fs" "announced fs \<noteq> 0"
    "pieces (unat (http_body_max s)) (unat (announced fs)) cs"
    using assms(7) by (simp_all add: answer_ok_def)
  let ?hd = "header_text_of st fs" and ?tot = "announced fs"
  obtain c cs' where cs: "cs = c # cs'" using ok(4,5) by (cases cs) (auto simp flip: unat_eq_0)
  have c: "c \<noteq> []" "length c \<le> unat ?tot" "length c \<le> unat (http_body_max s)"
    "pieces (unat (http_body_max s)) (unat ?tot - length c) cs'" using ok(5) by (simp_all add: cs)
  let ?f = "fuel + length cs' + 1 + length ?hd"
  have a: "answers s ((delivered ?hd @ [(int (length c), c)]) @ map (\<lambda>c. (int (length c), c)) cs')"
    using assms(8) by (simp add: answer_of_def cs)
  have "wp (http_recv_rounds (Suc ?f) start timeout res) Q s"
  proof (rule wp_round [OF assms(4)])
    fix t start' assume t: "got H s 0 (http_session s) [] t" and start': "in_time t start' timeout"
    note t' = got_fields [OF t] got_frame [OF t]
    show "wp (core_http_recv ?f) (\<lambda>r. wp (case r of None \<Rightarrow> ret None
         | Some res \<Rightarrow> if res < STATE_SUCCESS then ret (Some res) else http_recv_rounds ?f start' timeout res) Q) t"
    proof (rule core_recv_first [OF got_expecting [OF t assms(1)] _ _ _ _ ok(1,2) _ _ ok(4) c(1)])
      show "http_network t" "http_core_enabled t" "http_session t = session_0" "lines_fit (http_line_max t) st fs"
        "length c \<le> unat (min ?tot (http_body_max t))" "punctual (port t) (tick t) (ucast (http_recv_timeout t))"
        using assms(2,3,5) t' ok(3) c(2,3) punctual_later [OF assms(6)] by (auto simp: min_def)
      have at: "answers t ((delivered ?hd @ [(int (length c), c)]) @ map (\<lambda>c. (int (length c), c)) cs')"
        using got_answers [OF t, of "[]"] a by simp
      then show "answers t (delivered ?hd @ [(int (length c), c)])" by (rule answers_append)
      fix u assume u: "got H t (length ?hd + 1) (body_session ?tot (length c)) (header_packets st fs @ [Http_body c]) u"
      have "wp (http_recv_rounds ((fuel + length ?hd) + length cs' + 1) start' timeout (int (length c))) Q u"
      proof (rule rounds_body [OF got_expecting [OF u] _ _ got_in_time [OF u start'] _ ok(4) c(2)])
        show "expecting H t" by (rule got_expecting [OF t assms(1)])
        show "http_network u" "http_core_enabled u" "http_session u = body_session ?tot (length c)"
          "pieces (unat (http_body_max u)) (unat ?tot - length c) cs'"
          using assms(2,3) t' got_fields [OF u] got_frame [OF u] c(4) by simp_all
        show "answers u (map (\<lambda>c. (int (length c), c)) cs')"
          by (rule got_answers [OF u at]) simp
        fix v assume "got H u (length cs') session_0 (map Http_body cs') v"
        from got_trans [OF t got_trans [OF u this]] show "Q (Some STATE_HTTP_READ_BODY_FINISHED) v"
          by (intro assms(9)) (simp add: answer_of_def cs)
      qed
      then show "wp (case Some (int (length c)) of None \<Rightarrow> ret None
         | Some res \<Rightarrow> if res < STATE_SUCCESS then ret (Some res) else http_recv_rounds ?f start' timeout res) Q u"
        by (simp add: algebra_simps)
    qed
  qed
  then show ?thesis by (simp add: answer_of_def cs algebra_simps)
qed

text \<open>What a handler of the user sees of it.\<close>

lemma packets_response_append: "packets_response H (ps @ qs) R = packets_response H qs (packets_response H ps R)"
  by (simp add: packets_response_def)

lemma header_content: "\<forall>p \<in> set ps. \<not> is_body p \<Longrightarrow> rsp_content (packets_response H ps R) = rsp_content R"
proof (induction ps arbitrary: R)
  case (Cons p ps)
  have "rsp_content (packet_response H p R) = rsp_content R" using Cons.prems by (cases p) simp_all
  then show ?case using Cons by (simp add: packets_response_def)
qed (simp add: packets_response_def)

lemma body_content: "content_bytes (packets_response H (map Http_body cs) R) = content_bytes R @ concat cs"
  by (induction cs arbitrary: R) (simp_all add: packets_response_def content_bytes_def)

lemma header_packets_no_body: "\<forall>p \<in> set (header_packets st fs). \<not> is_body p"
  by (cases st) auto

lemma user_sees_header:
  assumes "http_core_handler s = Some Forward_recv_handler" "http_recv_handler s = Some h"
  shows "packets_calls s (header_packets st fs @ map Http_body cs)
    = map (\<lambda>p. (h, p, http_userdata s)) (header_packets st fs)"
proof -
  have hd: "packets_calls s ps = map (\<lambda>p. (h, p, http_userdata s)) ps" if "\<forall>p \<in> set ps. \<not> is_body p" for ps
    using that by (induction ps) (simp_all add: packets_calls_def packet_calls_def assms)
  have body: "packets_calls s (map Http_body cs) = []"
    by (induction cs) (simp_all add: packets_calls_def packet_calls_def)
  have append: "packets_calls s (ps @ qs) = packets_calls s ps @ packets_calls s qs" for ps qs
    by (simp add: packets_calls_def)
  show ?thesis
    by (simp only: append body hd [OF header_packets_no_body] append_Nil2)
qed

section \<open>The interface\<close>

lemma silent_case_option [silent_rules]:
  "silent m \<Longrightarrow> (\<And>y. silent (f y)) \<Longrightarrow> silent (case x of None \<Rightarrow> m | Some y \<Rightarrow> f y)"
  by (cases x) simp_all

lemma silent_free_content: "silent http_free_content"
  unfolding http_free_content_def by (intro silent_rules)

lemma silent_token_event: "silent http_token_expired_event"
  unfolding http_token_expired_event_def Let_def
  by (intro silent_rules silent_emit) simp

text \<open>The state in which the answer is awaited.\<close>

definition awaiting :: "http_handler \<Rightarrow> http \<Rightarrow> http \<Rightarrow> bool" where
  "awaiting H s u \<longleftrightarrow> port u = port s \<and> tick s \<le> tick u \<and> rx u = rx s \<and> trace u = trace s
     \<and> http_core_handler u = Some H \<and> http_core_userdata u = Response_data \<and> http_response u = response_0
     \<and> http_session u = http_session s \<and> http_network u = http_network s \<and> http_core_enabled u = http_core_enabled s
     \<and> http_recv_handler u = http_recv_handler s \<and> http_userdata u = http_userdata s
     \<and> http_recv_timeout u = http_recv_timeout s \<and> http_line_max u = http_line_max s
     \<and> http_body_max u = http_body_max s \<and> http_exec_count u = http_exec_count s"

lemma wp_http_expect:
  assumes "http_core_enabled s" "\<And>u. awaiting H s u \<Longrightarrow> Q STATE_SUCCESS u"
  shows "wp (http_expect H) Q s"
  using assms(1)
  by (simp add: http_expect_def core_http_setopt_def http_exec_inc_def http_exec_dec_def http_value_def run_simps
      assms(2) awaiting_def)

definition handed :: "http \<Rightarrow> nat \<Rightarrow> nat \<Rightarrow> http_packet list \<Rightarrow> int option \<Rightarrow> http \<Rightarrow> bool" where
  "handed s h n ps r t \<longleftrightarrow> r = Some STATE_SUCCESS
     \<and> http_calls (trace t) = http_calls (trace s) @ map (\<lambda>p. (h, p, http_userdata s)) ps
     \<and> rx t = rx s + n \<and> http_session t = session_0 \<and> http_network t \<and> http_exec_count t + 1 = http_exec_count s"

text \<open>After the answer has been read: the body goes to the handler in one piece.\<close>

lemma wp_delivery:
  assumes "awaiting Forward_recv_handler s u" "http_recv_handler s = Some h" "http_network s"
    "got Forward_recv_handler u n session_0 (header_packets st fs @ map Http_body cs) t"
  shows "wp (http_finish_recv STATE_HTTP_READ_BODY_FINISHED)
    (\<lambda>res. handed s h n (header_packets st fs @ [Http_body (concat cs)]) (Some res)) t"
proof -
  let ?ps = "header_packets st fs @ map Http_body cs"
  let ?Q = "\<lambda>res. handed s h n (header_packets st fs @ [Http_body (concat cs)]) (Some res)"
  have u: "http_response u = response_0" "http_core_handler u = Some Forward_recv_handler" "http_recv_handler u = Some h"
    "http_userdata u = http_userdata s" "trace u = trace s" "rx u = rx s" "http_network u" "http_exec_count u = http_exec_count s"
    using assms(1-3) by (simp_all add: awaiting_def)
  have "wp (do { http_deliver_body; http_free_content; aiot_http_exec_dec; ret STATE_SUCCESS }) ?Q v"
    if v: "got Forward_recv_handler u n session_0 ?ps v" for v
  proof -
    have content: "content_bytes (http_response v) = concat cs"
      using got_frame(7) [OF v] header_content [OF header_packets_no_body, of _ st fs response_0] u(1)
      by (simp only: packets_response_append body_content) (simp add: content_bytes_def response_0_def)
    have "http_calls (trace v) = http_calls (trace s) @ map (\<lambda>p. (h, p, http_userdata s)) (header_packets st fs)"
      using got_frame(6) [OF v] user_sees_header [OF u(2,3)] u(4,5) by simp
    then show ?thesis
      using got_frame(2,4) [OF v] got_fields(1,5,7,10) [OF v] u content
      by (simp add: handed_def http_deliver_body_def http_free_content_def sys_free_def aiot_http_exec_dec_def run_simps)
  qed
  then have "wp (do { http_token_expired_event; http_deliver_body; http_free_content; aiot_http_exec_dec; ret STATE_SUCCESS }) ?Q t"
    unfolding wp_bind [of http_token_expired_event] by (rule wp_got_silent [OF assms(4) silent_token_event])
  then show ?thesis by (simp add: http_finish_recv_def)
qed

lemma wp_answer:
  assumes "awaiting H s u" "http_network s" "http_core_enabled s" "http_session s = session_0"
    "H = Auth_recv_handler \<or> http_recv_handler s \<noteq> None" "H = Auth_recv_handler \<or> H = Forward_recv_handler"
    "\<forall>n. p_malloc (port s) n" "punctual (port s) (tick s) timeout" "punctual (port s) (tick s) (ucast (http_recv_timeout s))"
    "answer_ok (http_line_max s) (unat (http_body_max s)) st fs cs" "answers s (answer_of st fs cs)"
    "fuel > length (answer_of st fs cs)"
    "\<And>u t. awaiting H s u \<Longrightarrow> got H u (length (answer_of st fs cs)) session_0 (header_packets st fs @ map Http_body cs) t \<Longrightarrow>
       Q (Some STATE_HTTP_READ_BODY_FINISHED) t"
  shows "wp (do { timenow \<leftarrow> sys_time; http_recv_rounds fuel timenow timeout res }) Q u"
proof -
  let ?n = "length (answer_of st fs cs)" and ?u = "u\<lparr>tick := Suc (tick u)\<rparr>"
  obtain k where k: "fuel = k + ?n + 1" using assms(12) by (auto dest: less_imp_Suc_add simp: algebra_simps)
  have u: "awaiting H s ?u" using assms(1) by (simp add: awaiting_def)
  have later: "tick s \<le> tick u" "tick s \<le> tick ?u" using assms(1) by (simp_all add: awaiting_def)
  have "punctual (port s) (tick ?u) (ucast (http_recv_timeout s))" by (rule punctual_later [OF assms(9) later(2)])
  moreover have "in_time ?u (p_time (port u) (tick u)) timeout"
    using punctual_later [OF assms(8) later(1)] assms(1) by (auto simp: in_time_def awaiting_def intro!: exI [where x = "tick u"])
  ultimately have "wp (http_recv_rounds (k + ?n + 1) (p_time (port u) (tick u)) timeout res) Q ?u"
    using assms(2-7,10,11) u
    by (intro rounds_answer [where H = H and st = st and fs = fs and cs = cs] assms(13) [OF u])
      (auto simp: awaiting_def expecting_def answers_def)
  then show ?thesis by (simp add: k run_simps)
qed

lemma wp_receive:
  assumes v: "http_network v" "http_core_enabled v" "http_session v = session_0" "http_recv_handler v = Some h"
      "\<forall>n. p_malloc (port v) n" "punctual (port v) (tick v) (ucast (http_recv_timeout v))"
      "answer_ok (http_line_max v) (unat (http_body_max v)) st fs cs" "answers v (answer_of st fs cs)"
    and fuel: "fuel > length (answer_of st fs cs)"
  shows "wp (http_recv_message fuel (http_recv_timeout v))
    (handed v h (length (answer_of st fs cs)) (header_packets st fs @ [Http_body (concat cs)])) v"
proof -
  let ?n = "length (answer_of st fs cs)" and ?ps = "header_packets st fs @ [Http_body (concat cs)]"
  let ?rest = "\<lambda>r. case r of None \<Rightarrow> ret None | Some res \<Rightarrow> do { res \<leftarrow> http_finish_recv res; ret (Some res) }"
  show ?thesis
    unfolding http_recv_message_def wp_bind [of "http_expect _"]
  proof (rule wp_http_expect [OF v(2)])
    fix u assume u: "awaiting Forward_recv_handler v u"
    have "wp (do { timenow \<leftarrow> sys_time; http_recv_rounds fuel timenow (ucast (http_recv_timeout v)) STATE_SUCCESS })
        (\<lambda>r. wp (?rest r) (handed v h ?n ?ps)) u"
    proof (rule wp_answer [OF u v(1-3) _ _ v(5,6,6,7,8) fuel])
      fix u t
      assume u: "awaiting Forward_recv_handler v u"
        and t: "got Forward_recv_handler u ?n session_0 (header_packets st fs @ map Http_body cs) t"
      from wp_delivery [OF u v(4,1) t]
      show "wp (?rest (Some STATE_HTTP_READ_BODY_FINISHED)) (handed v h ?n ?ps) t" by simp
    qed (use v(4) in simp_all)
    then show "wp (if STATE_SUCCESS < STATE_SUCCESS then ret (Some STATE_SUCCESS) else do {
         timenow \<leftarrow> sys_time;
         r \<leftarrow> http_recv_rounds fuel timenow (ucast (http_recv_timeout v)) STATE_SUCCESS;
         ?rest r }) (handed v h ?n ?ps) u"
      by (simp add: wp_seq)
  qed
qed

lemma wp_aiot_exec_inc:
  assumes "\<And>v. port v = port s \<Longrightarrow> tick v = tick s \<Longrightarrow> rx v = rx s \<Longrightarrow> trace v = trace s \<Longrightarrow>
    http_network v = http_network s \<Longrightarrow> http_core_enabled v = http_core_enabled s \<Longrightarrow> http_session v = http_session s \<Longrightarrow>
    http_recv_handler v = http_recv_handler s \<Longrightarrow> http_userdata v = http_userdata s \<Longrightarrow>
    http_recv_timeout v = http_recv_timeout s \<Longrightarrow> http_line_max v = http_line_max s \<Longrightarrow>
    http_body_max v = http_body_max s \<Longrightarrow> http_exec_count v = http_exec_count s + 1 \<Longrightarrow> Q () v"
  shows "wp aiot_http_exec_inc Q s"
  by (simp add: aiot_http_exec_inc_def run_simps assms)

text \<open>
  C7: an answer of the server that meets \<open>answer_ok\<close> is handed to the handler of the user as it was
  sent, however the network cuts its body: the status, the fields in their order, and one body of
  all the pieces; the call returns with success and gives back its count. Memory is there, the clock
  shows no timeout, and the conditions on the answer are: the status is three digits and a reason
  without colon and CR; a name of a field has no colon, space,
  CR or NUL, a value no CR and no colon before a space (the reader would make another field of what
  follows it); every line fits the line buffer; the fields announce a \<open>Content-Length\<close> that is not
  zero, which the pieces, none of them empty or larger than the body buffer, fill exactly.
\<close>

theorem http_response_delivered:
  assumes "http_network s" "http_exec_enabled s" "http_core_enabled s" "http_session s = session_0"
    "http_recv_handler s = Some h" "\<forall>n. p_malloc (port s) n"
    "punctual (port s) (tick s) (ucast (http_recv_timeout s))"
    "answer_ok (http_line_max s) (unat (http_body_max s)) st fs cs" "answers s (answer_of st fs cs)"
    "fuel > length (answer_of st fs cs)"
  shows "wp (aiot_http_recv fuel) (\<lambda>r t. r = Some STATE_SUCCESS
    \<and> http_calls (trace t) = http_calls (trace s)
        @ map (\<lambda>p. (h, p, http_userdata s)) (status_packet st # map field_packet fs @ [Http_body (concat cs)])
    \<and> rx t = rx s + length (answer_of st fs cs)
    \<and> http_session t = session_0 \<and> http_network t \<and> http_exec_count t = http_exec_count s) s"
proof -
  let ?P = "\<lambda>r t. r = Some STATE_SUCCESS
    \<and> http_calls (trace t) = http_calls (trace s)
        @ map (\<lambda>p. (h, p, http_userdata s)) (status_packet st # map field_packet fs @ [Http_body (concat cs)])
    \<and> rx t = rx s + length (answer_of st fs cs)
    \<and> http_session t = session_0 \<and> http_network t \<and> http_exec_count t = http_exec_count s"
  have "wp aiot_http_exec_inc (\<lambda>_. wp (http_recv_message fuel (http_recv_timeout s)) ?P) s"
  proof (rule wp_aiot_exec_inc)
    fix v :: http
    assume v: "port v = port s" "tick v = tick s" "rx v = rx s" "trace v = trace s" "http_network v = http_network s"
      "http_core_enabled v = http_core_enabled s" "http_session v = http_session s"
      "http_recv_handler v = http_recv_handler s" "http_userdata v = http_userdata s"
      "http_recv_timeout v = http_recv_timeout s" "http_line_max v = http_line_max s" "http_body_max v = http_body_max s"
      "http_exec_count v = http_exec_count s + 1"
    have "answers v (answer_of st fs cs)" using assms(9) v by (simp add: answers_def)
    with assms have "wp (http_recv_message fuel (http_recv_timeout v))
        (handed v h (length (answer_of st fs cs)) (header_packets st fs @ [Http_body (concat cs)])) v"
      by (intro wp_receive) (simp_all add: v)
    then have "wp (http_recv_message fuel (http_recv_timeout v)) ?P v"
      by (rule wp_mono) (auto simp: handed_def v)
    then show "wp (http_recv_message fuel (http_recv_timeout s)) ?P v" by (simp only: v(10))
  qed
  then show ?thesis using assms(1,2) by (simp add: aiot_http_recv_def)
qed

definition sample_answer :: "(int \<times> byte list) list" where
  "sample_answer = answer_of (str ''200'', str ''OK'') [(str ''Content-Length'', str ''5'')] [str ''he'', str ''llo'']"

theorem http_response_delivered_witness:
  "wp (aiot_http_recv 100) (\<lambda>r t. r = Some STATE_SUCCESS \<and> http_calls (trace t)
     = [(7, Http_status 200, 3), (7, Http_header (str ''Content-Length'') (str ''5''), 3), (7, Http_body (str ''hello''), 3)])
     (sample_client (\<lambda>i. sample_answer ! i))"
proof -
  let ?s = "sample_client (\<lambda>i. sample_answer ! i)"
  have clock: "punctual (sample_port (\<lambda>i. sample_answer ! i)) 0 (ucast (5000 :: 32 word))" by (simp add: punctual_def)
  have ok: "answer_ok 128 (unat (128 :: 32 word)) (str ''200'', str ''OK'') [(str ''Content-Length'', str ''5'')] [str ''he'', str ''llo'']"
    by code_simp
  have len: "length sample_answer < 100" by code_simp
  have net: "answers ?s sample_answer" by (simp add: answers_def)
  have "wp (aiot_http_recv 100) (\<lambda>r t. r = Some STATE_SUCCESS
      \<and> http_calls (trace t) = http_calls (trace ?s)
          @ map (\<lambda>p. (7, p, http_userdata ?s)) (status_packet (str ''200'', str ''OK'')
              # map field_packet [(str ''Content-Length'', str ''5'')] @ [Http_body (concat [str ''he'', str ''llo''])])
      \<and> rx t = rx ?s + length sample_answer
      \<and> http_session t = session_0 \<and> http_network t \<and> http_exec_count t = http_exec_count ?s) ?s"
    unfolding sample_answer_def
    by (rule http_response_delivered) (use clock ok len net in \<open>simp_all add: sample_answer_def\<close>)
  moreover have "dec_val (str ''200'') = 200" by code_simp
  ultimately show ?thesis
    by (elim wp_mono) simp
qed

end
