(* ===== verification/Http_Token.thy ===== *)
theory Http_Token
  imports Http_Exchange
begin

text \<open>
  The answer to an authentication: the token of its body is stored for the messages that follow.
\<close>

unbundle bit_operations_syntax

text \<open>The response after the packets of an answer.\<close>

lemma response_code:
  "rsp_code (packets_response Auth_recv_handler (status_packet st # map field_packet fs @ map Http_body cs) R)
     = (case status_packet st of Http_status c \<Rightarrow> of_nat c | _ \<Rightarrow> rsp_code R)"
proof -
  have keep: "rsp_code (packets_response H (map field_packet fs @ map Http_body cs) R) = rsp_code R" for R H
  proof (induction fs arbitrary: R)
    case Nil
    show ?case by (induction cs arbitrary: R) (simp_all add: packets_response_def)
  next
    case (Cons f fs)
    then show ?case by (cases f) (simp add: packets_response_def)
  qed
  have "packets_response H (p # ps) R = packets_response H ps (packet_response H p R)" for H p ps R
    by (simp add: packets_response_def)
  then show ?thesis by (cases st) (simp add: keep)
qed

text \<open>For values without a NUL the two places that read the content length agree.\<close>

lemma response_total:
  assumes "\<forall>(k, v) \<in> set fs. 0 \<notin> set v"
  shows "rsp_total_len (packets_response H (status_packet st # map field_packet fs @ map Http_body cs) R)
     = foldl (\<lambda>n f. field_total f n) (rsp_total_len R) fs"
proof -
  have bodies: "rsp_total_len (packets_response H (map Http_body cs) R) = rsp_total_len R" for R
    by (induction cs arbitrary: R) (simp_all add: packets_response_def)
  have fields: "rsp_total_len (packets_response H (map field_packet fs @ map Http_body cs) R)
      = foldl (\<lambda>n f. field_total f n) (rsp_total_len R) fs" for R
    using assms
  proof (induction fs arbitrary: R)
    case Nil
    show ?case by (simp add: bodies)
  next
    case (Cons f fs)
    obtain k v where f: "f = (k, v)" by (cases f)
    have "rsp_total_len (packet_response H (field_packet f) R) = field_total f (rsp_total_len R)"
      using Cons.prems by (simp add: f content_length_of_def)
    moreover have "packets_response H (p # ps) R = packets_response H ps (packet_response H p R)" for p ps R
      by (simp add: packets_response_def)
    ultimately show ?case using Cons by simp
  qed
  have "rsp_total_len (packet_response H (status_packet st) R) = rsp_total_len R"
    by (cases st) simp
  with fields show ?thesis by (simp add: packets_response_def)
qed

lemma wp_store_token: "p_malloc (port s) (tick s) \<Longrightarrow>
  wp (http_store_token tok) (\<lambda>r t. r = STATE_SUCCESS \<and> http_token t = Some tok) s"
  by (cases "http_token s = None") (simp_all add: http_store_token_def run_simps sys_free_def)

lemma wp_check_auth:
  assumes "rsp_code (http_response s) = 200" "rsp_content (http_response s) = Some b"
    "of_nat (length b) = rsp_total_len (http_response s)" "core_json_value b (str ''token'') = Ret (i, n)"
    "\<forall>n. p_malloc (port s) n"
  shows "wp http_check_auth (\<lambda>r t. r = STATE_SUCCESS \<and> http_token t = Some (take n (drop i b))) s"
proof -
  let ?rest = "do {
           (res, i, n) \<leftarrow> lift_outcome (0, 0) (core_json_value b (str ''token''));
           if res < STATE_SUCCESS then ret STATE_HTTP_AUTH_TOKEN_FAILED
           else http_store_token (take n (drop i b)) }"
  have "wp ?rest (\<lambda>r t. r = STATE_SUCCESS \<and> http_token t = Some (take n (drop i b))) t"
    if "\<forall>n. p_malloc (port t) n" for t
    using wp_store_token that by (simp add: assms(4) lift_outcome_def del: str_simps)
  then have "wp (core_logn STATE_HTTP_LOG_AUTH fmt ds) (\<lambda>_. wp ?rest (\<lambda>r t. r = STATE_SUCCESS \<and> http_token t = Some (take n (drop i b)))) s" for fmt ds
    by (intro wp_silently [OF silent_log(2)]) (use assms(5) moved_fields(1) in metis)
  then show ?thesis using assms(1-3) by (simp add: http_check_auth_def Let_def del: str_simps)
qed


definition token_body :: "byte list" where
  "token_body = [123, 34, 116, 111, 107, 101, 110, 34, 58, 34, 97, 98, 99, 34, 125]"

definition token_answer :: "(int \<times> byte list) list" where
  "token_answer = answer_of (str ''200'', str ''OK'') [(str ''Content-Length'', str ''15'')] [take 9 token_body, drop 9 token_body]"


end
