(* ===== verification/Http_Discipline.thy ===== *)
theory Http_Discipline
  imports Http_Response
begin

text \<open>
  Mutexes and counts of the HTTP client: what every call of the interface gives back, the one
  answer after which it does not, and what that does to the calls that destroy the handle.
\<close>

unbundle bit_operations_syntax

section \<open>Routines that take no mutex and count nothing\<close>

definition duty :: "http \<Rightarrow> mutex list \<times> bool \<times> 32 word \<times> 32 word \<times> bool \<times> bool" where
  "duty s = (held s, lock_ok s, http_exec_count s, http_core_count s, http_core_enabled s, http_exec_enabled s)"

lemma wp_idle:
  assumes "keeps duty m" "\<And>r t. duty t = duty s \<Longrightarrow> Q r t"
  shows "wp m Q s"
  using keepsD [OF assms(1), of s] assms(2) by (simp add: wp_def split_beta)

named_theorems idle_rules \<open>routines that take no mutex and count nothing\<close>

lemma idle_modify: "(\<And>s. duty (f s) = duty s) \<Longrightarrow> keeps duty (modify f)"
  by (rule keeps_modify)

lemma ask_idle [idle_rules]: "keeps duty (ask q)"
  by (rule keepsI) (simp add: ask_def duty_def)

lemma emit_idle [idle_rules]: "keeps duty (emit e)"
  by (simp add: emit_def keeps_modify duty_def)

lemma port_idle [idle_rules]:
  "keeps duty fault" "keeps duty sys_malloc" "keeps duty sys_free" "keeps duty sys_time" "keeps duty (sys_sleep ms)"
  "keeps duty net_init" "keeps duty (net_setopt opt)" "keeps duty net_establish" "keeps duty net_deinit"
  "keeps duty (net_send pkt)" "keeps duty (net_recv n)" "keeps duty (lift_outcome d r)"
  unfolding fault_def sys_malloc_def sys_free_def sys_time_def sys_sleep_def net_init_def net_setopt_def
    net_establish_def net_deinit_def net_send_def net_recv_def lift_outcome_def Let_def
  by (intro keeps_rules idle_rules idle_modify; simp add: duty_def)+

lemma setopts_idle [idle_rules]: "keeps duty (setopts opts)"
  by (induction opts) (auto intro!: keeps_rules idle_rules)

lemma log_idle [idle_rules]:
  "keeps duty (core_sprintf fmt src)" "keeps duty (core_log c d)" "keeps duty (core_logn c fmt ds)"
  "keeps duty (core_log_hexdump c p b)" "keeps duty (core_strdup dest v)"
  unfolding core_sprintf_def core_log_def core_logn_def core_log_hexdump_def core_log_append_prefix_def
    core_log_append_date_def core_log_get_timestamp_def core_strdup_def
  by (intro keeps_rules idle_rules idle_modify; simp add: duty_def)+

lemma auth_idle [idle_rules]: "keeps duty (core_auth_http_body pk dn ds)"
  unfolding core_auth_http_body_def Let_def
  by (intro keeps_rules idle_rules)

lemma connect_idle [idle_rules]: "keeps duty http_drop" "keeps duty http_connect"
  unfolding http_drop_def http_connect_def http_connect_host_def http_connect_cred_def
  by (intro keeps_rules idle_rules idle_modify; simp add: duty_def)+

lemma send_idle [idle_rules]: "keeps duty (http_send b)"
  unfolding http_send_def by (intro keeps_rules idle_rules)

lemma header_print_loop_idle: "keeps duty (header_print_loop p l h)"
  by (induction p l h rule: header_print_loop.induct) (auto intro!: keeps_rules idle_rules)

lemma header_print_idle [idle_rules]: "keeps duty (http_header_print p h)"
  unfolding http_header_print_def by (intro keeps_rules idle_rules header_print_loop_idle)

lemma packet_idle: "keeps duty (case p of Http_status c \<Rightarrow> f c | Http_header k v \<Rightarrow> g k v | Http_body b \<Rightarrow> h b)"
  if "\<And>c. keeps duty (f c)" "\<And>k v. keeps duty (g k v)" "\<And>b. keeps duty (h b)"
  using that by (cases p) simp_all

lemma handlers_idle [idle_rules]:
  "keeps duty (set_content_length k v)" "keeps duty (append_content b)"
  unfolding set_content_length_def append_content_def
  by (intro keeps_rules idle_rules idle_modify; simp add: duty_def)+

lemma handler_idle: "keeps duty (case y of Auth_recv_handler \<Rightarrow> m | Forward_recv_handler \<Rightarrow> n | User_recv_handler h \<Rightarrow> f h)"
  if "keeps duty m" "keeps duty n" "\<And>h. keeps duty (f h)"
  using that by (cases y) simp_all

lemma call_handler_idle [idle_rules]: "keeps duty (call_core_handler p)"
  unfolding call_core_handler_def auth_recv_handler_def forward_recv_handler_def
  by (intro keeps_rules idle_rules packet_idle handler_idle idle_modify; simp add: duty_def)

lemma recv_idle [idle_rules]:
  "keeps duty (recv_status_code c)" "keeps duty (recv_header_pair k v)" "keeps duty (http_recv n)"
  "keeps duty (status_line line res)"
  unfolding recv_status_code_def recv_header_pair_def http_recv_def status_line_def Let_def
  by (intro keeps_rules idle_rules)+

lemma header_pairs_idle [idle_rules]: "keeps duty (header_pairs line is n)"
  by (induction line "is" n rule: header_pairs.induct) (auto simp: Let_def intro!: keeps_rules idle_rules)

lemma header_line_idle [idle_rules]: "keeps duty (header_line line res n)"
  unfolding header_line_def by (intro keeps_rules idle_rules)

lemma header_loop_idle [idle_rules]: "keeps duty (recv_header_loop fuel line start res n)"
proof (induction fuel arbitrary: line start res n)
  case (Suc fuel)
  then show ?case unfolding recv_header_loop.simps(2) by (intro keeps_rules idle_rules)
qed (simp add: keeps_return)

lemma receive_idle [idle_rules]: "keeps duty (http_recv_header fuel)" "keeps duty (body_received res b)"
  unfolding http_recv_header_def body_received_def Let_def
  by (intro keeps_rules idle_rules idle_modify; simp add: duty_def)+

lemma interface_idle [idle_rules]:
  "keeps duty http_free_content" "keeps duty http_token_expired_event" "keeps duty http_deliver_body"
  unfolding http_free_content_def http_token_expired_event_def http_deliver_body_def Let_def
  by (intro keeps_rules idle_rules)+

section \<open>What a routine takes and gives back\<close>

text \<open>
  The mutexes that are held, in the order of their ranks, and how far the two counts are from
  those of a state before.
\<close>

definition duties :: "mutex list \<Rightarrow> 32 word \<Rightarrow> 32 word \<Rightarrow> http \<Rightarrow> http \<Rightarrow> bool" where
  "duties H e c s0 t \<longleftrightarrow> duty t = (H, True, http_exec_count s0 + e, http_core_count s0 + c, True, http_exec_enabled s0)"

definition tidy ::
  "mutex list \<Rightarrow> 32 word \<Rightarrow> 32 word \<Rightarrow> 'r http_m \<Rightarrow> ('r \<Rightarrow> bool) \<Rightarrow> mutex list \<Rightarrow> 32 word \<Rightarrow> 32 word \<Rightarrow> bool" where
  "tidy H e c m R H' e' c' \<longleftrightarrow> (\<forall>s0 s. duties H e c s0 s \<longrightarrow> wp m (\<lambda>r t. R r \<longrightarrow> duties H' e' c' s0 t) s)"

named_theorems tidy_rules \<open>what the routines take and give back\<close>

lemma tidyD: "tidy H e c m R H' e' c' \<Longrightarrow> duties H e c s0 s \<Longrightarrow> wp m (\<lambda>r t. R r \<longrightarrow> duties H' e' c' s0 t) s"
  by (simp add: tidy_def)

lemma tidy_idle: "keeps duty m \<Longrightarrow> tidy H e c m R H e c"
  unfolding tidy_def by (auto intro!: wp_idle [of m] simp: duties_def)

text \<open>
  After a first routine whose result may leave the rest open; what is known of its result with an
  enabled core may be used behind it.
\<close>

lemma tidy_bind_gen:
  assumes "tidy H e c m R0 H' e' c'" "\<And>s. http_core_enabled s \<Longrightarrow> P (fst (run_state m s))"
    "\<And>r. R0 r \<Longrightarrow> P r \<Longrightarrow> tidy H' e' c' (f r) R H2 e2 c2" "\<And>r s. \<not> R0 r \<Longrightarrow> wp (f r) (\<lambda>x _. \<not> R x) s"
  shows "tidy H e c (m \<bind> f) R H2 e2 c2"
  unfolding tidy_def
proof (intro allI impI)
  fix s0 s assume s: "duties H e c s0 s"
  have "wp m (\<lambda>r _. P r) s" using assms(2) [of s] s by (simp add: wp_def split_beta duties_def duty_def)
  from wp_conj [OF this tidyD [OF assms(1) s]]
  show "wp (m \<bind> f) (\<lambda>r t. R r \<longrightarrow> duties H2 e2 c2 s0 t) s"
    unfolding wp_bind
  proof (rule wp_mono)
    fix r t assume r: "P r \<and> (R0 r \<longrightarrow> duties H' e' c' s0 t)"
    show "wp (f r) (\<lambda>r t. R r \<longrightarrow> duties H2 e2 c2 s0 t) t"
    proof (cases "R0 r")
      case True
      then show ?thesis using tidyD [OF assms(3)] r by simp
    next
      case False
      then show ?thesis by (intro wp_mono [OF assms(4)]) simp_all
    qed
  qed
qed

lemma tidy_bind [tidy_rules]:
  assumes "tidy H e c m (\<lambda>_. True) H' e' c'" "\<And>r. tidy H' e' c' (f r) R H2 e2 c2"
  shows "tidy H e c (m \<bind> f) R H2 e2 c2"
  by (rule tidy_bind_gen [OF assms(1), of "\<lambda>_. True"]) (use assms(2) in simp_all)

lemma tidy_bind_fuel:
  fixes m :: "'r option http_m"
  assumes "tidy H e c m (\<lambda>r. r \<noteq> None) H' e' c'" "\<And>x. tidy H' e' c' (f (Some x)) R H2 e2 c2" "\<And>s. wp (f None) (\<lambda>r _. \<not> R r) s"
  shows "tidy H e c (m \<bind> f) R H2 e2 c2"
  by (rule tidy_bind_gen [OF assms(1), of "\<lambda>_. True"]) (use assms(2,3) in auto)

lemma tidy_return [tidy_rules]: "tidy H e c (State_Monad.return x) R H e c"
  by (simp add: tidy_def)

lemma tidy_get [tidy_rules]: "tidy H e c State_Monad.get R H e c"
  by (simp add: tidy_def)

lemma tidy_if [tidy_rules]:
  "(b \<Longrightarrow> tidy H e c m R H' e' c') \<Longrightarrow> (\<not> b \<Longrightarrow> tidy H e c n R H' e' c') \<Longrightarrow> tidy H e c (if b then m else n) R H' e' c'"
  by simp

lemma tidy_case_option [tidy_rules]:
  "(x = None \<Longrightarrow> tidy H e c m R H' e' c') \<Longrightarrow> (\<And>y. x = Some y \<Longrightarrow> tidy H e c (f y) R H' e' c') \<Longrightarrow>
   tidy H e c (case x of None \<Rightarrow> m | Some y \<Rightarrow> f y) R H' e' c'"
  by (cases x) auto

lemma tidy_case_prod [tidy_rules]:
  "(\<And>a b. x = (a, b) \<Longrightarrow> tidy H e c (f a b) R H' e' c') \<Longrightarrow> tidy H e c (case x of (a, b) \<Rightarrow> f a b) R H' e' c'"
  by (cases x) auto

lemma tidy_case_list [tidy_rules]:
  "(x = [] \<Longrightarrow> tidy H e c m R H' e' c') \<Longrightarrow> (\<And>y ys. x = y # ys \<Longrightarrow> tidy H e c (f y ys) R H' e' c') \<Longrightarrow>
   tidy H e c (case x of [] \<Rightarrow> m | y # ys \<Rightarrow> f y ys) R H' e' c'"
  by (cases x) auto

lemma tidy_modify: "(\<And>s. duty (f s) = duty s) \<Longrightarrow> tidy H e c (modify f) R H e c"
  by (rule tidy_idle [OF idle_modify])

lemma tidy_locks [tidy_rules]:
  "(\<And>h. h \<in> set H \<Longrightarrow> mutex_rank h < mutex_rank M) \<Longrightarrow> tidy H e c (mutex_lock M) R (M # H) e c"
  "tidy (M # H) e c (mutex_unlock M) R H e c"
  by (simp_all add: tidy_def run_simps duties_def duty_def)

lemma tidy_counts [tidy_rules]:
  "tidy [] e c http_exec_inc R [] e (c + 1)" "tidy [] e (c + 1) http_exec_dec R [] e c"
  "tidy [] e c aiot_http_exec_inc R [] (e + 1) c" "tidy [] (e + 1) c aiot_http_exec_dec R [] e c"
  by (simp_all add: tidy_def run_simps duties_def duty_def http_exec_inc_def http_exec_dec_def
      aiot_http_exec_inc_def aiot_http_exec_dec_def)

lemmas [tidy_rules] = idle_rules [THEN tidy_idle]

section \<open>The calls of the core\<close>

lemma tidy_core_connect [tidy_rules]: "tidy [] e c core_http_connect R [] e c"
  unfolding core_http_connect_def by (rule tidy_rules | simp add: mutex_rank_def; fail)+

lemma tidy_send_body [tidy_rules]: "tidy [] e c (http_send_body b) R [] e c"
  unfolding http_send_body_def by (rule tidy_rules | simp; fail)+

lemma tidy_send_header [tidy_rules]: "tidy [] e c (http_send_header m p h hdr l) R [] e c"
  unfolding http_send_header_def by (rule tidy_rules | simp; fail)+

lemma tidy_core_send [tidy_rules]: "tidy [] e c (core_http_send rq) R [] e c"
  unfolding core_http_send_def by (rule tidy_rules tidy_modify | simp add: duty_def; fail)+

lemma option_idle [idle_rules]: "keeps duty (http_option_switch opt)"
proof (cases opt)
  case (Ho_host v)
  then show ?thesis unfolding http_option_switch_def http_string_def
    by (simp, intro keeps_rules idle_rules idle_modify) (simp add: duty_def)
next
  case (Ho_network_cred v)
  then show ?thesis unfolding http_option_switch_def http_set_cred_def
    by (simp, intro keeps_rules idle_rules idle_modify; simp add: duty_def)
qed (simp_all add: http_option_switch_def http_value_def, (intro keeps_rules idle_modify; simp add: duty_def)+)

lemma tidy_core_setopt [tidy_rules]: "tidy [] e c (core_http_setopt opt) R [] e c"
proof -
  have "keeps duty (case v of Co_shared v \<Rightarrow> http_option_switch v
       | Co_userdata v \<Rightarrow> http_value (\<lambda>s. s\<lparr>http_core_userdata := v\<rparr>)
       | Co_recv_handler v \<Rightarrow> http_value (\<lambda>s. s\<lparr>http_core_handler := Some v\<rparr>))" for v
    by (cases v) (simp_all add: http_value_def, (intro keeps_rules idle_rules idle_modify; simp add: duty_def)+)
  note [tidy_rules] = tidy_idle [OF this]
  show ?thesis unfolding core_http_setopt_def by (rule tidy_rules | simp; fail)+
qed

lemma tidy_recv_body [tidy_rules]: "tidy [] e c (http_recv_body n) R [] e c"
  unfolding http_recv_body_def Let_def by (rule tidy_rules tidy_modify | simp add: duty_def; fail)+

lemma tidy_locked_header: "tidy [] e c (do { mutex_lock Recv_mutex; r \<leftarrow> http_recv_header fuel; on (r \<noteq> None) (mutex_unlock Recv_mutex); ret r })
    (\<lambda>r. r \<noteq> None) [] e c"
proof -
  have "tidy [Recv_mutex] e c (do { on (r \<noteq> None) (mutex_unlock Recv_mutex); ret r }) (\<lambda>r. r \<noteq> None) [] e c" for r :: "(int \<times> 32 word) option"
    by (cases r) (simp_all add: tidy_def run_simps duties_def duty_def)
  note [tidy_rules] = this
  show ?thesis by (rule tidy_rules | simp; fail)+
qed

lemma tidy_core_recv: "tidy [] e c (core_http_recv fuel) (\<lambda>r. r \<noteq> None) [] e c"
proof -
  let ?rest = "\<lambda>r. case r of None \<Rightarrow> ret None
       | Some (res, body_total_len) \<Rightarrow>
           if res < STATE_SUCCESS then do { http_exec_dec; ret (Some res) }
           else do {
             modify (\<lambda>s. s\<lparr>http_session := (http_session s)\<lparr>session_sm := Sm_read_body\<rparr>\<rparr>);
             res \<leftarrow> http_recv_body body_total_len;
             on (res = STATE_HTTP_READ_BODY_FINISHED \<or> res = STATE_HTTP_READ_BODY_EMPTY)
               (modify (\<lambda>s. s\<lparr>http_session := session_0\<rparr>));
             http_exec_dec;
             ret (Some res)
           }"
  have "tidy [] e (c + 1) (?rest (Some x)) (\<lambda>r. r \<noteq> None) [] e c" for x
    by (cases x, simp only: option.case prod.case)
      (rule tidy_rules tidy_modify | simp add: duty_def; fail)+
  note body = this
  have header: "tidy [] e (c + 1) (if b then do {
      mutex_lock Recv_mutex;
      r \<leftarrow> http_recv_header fuel;
      on (r \<noteq> None) (mutex_unlock Recv_mutex);
      ret r } else ret (Some (STATE_SUCCESS, 0))) (\<lambda>r. r \<noteq> None) [] e (c + 1)" for b
    by (rule tidy_if tidy_locked_header tidy_return)+
  have "tidy [] e (c + 1) (do {
      r \<leftarrow> (if b then do {
          mutex_lock Recv_mutex;
          r \<leftarrow> http_recv_header fuel;
          on (r \<noteq> None) (mutex_unlock Recv_mutex);
          ret r } else ret (Some (STATE_SUCCESS, 0)));
      ?rest r }) (\<lambda>r. r \<noteq> None) [] e c" for b
    by (rule tidy_bind_fuel, rule header, rule body, simp)
  note [tidy_rules] = this
  show ?thesis
    unfolding core_http_recv_def by (rule tidy_rules | simp; fail)+
qed

lemma tidy_rounds: "tidy [] e c (http_recv_rounds fuel timenow timeout res) (\<lambda>r. r \<noteq> None) [] e c"
proof (induction fuel arbitrary: timenow res)
  case (Suc fuel)
  have "tidy [] e c (do { r \<leftarrow> core_http_recv fuel; case r of None \<Rightarrow> ret None
      | Some res \<Rightarrow> if res < STATE_SUCCESS then ret (Some res) else http_recv_rounds fuel timenow timeout res })
      (\<lambda>r. r \<noteq> None) [] e c" for timenow
    by (rule tidy_bind_fuel [OF tidy_core_recv], simp only: option.case, (rule tidy_rules Suc.IH)+, simp)
  note [tidy_rules] = this
  show ?case unfolding http_recv_rounds.simps by (rule tidy_rules | simp; fail)+
qed (simp add: tidy_def)

section \<open>Results of the core\<close>

text \<open>\<open>STATE_HTTP_RECV_NOT_FINISHED\<close> is the answer of the interface alone.\<close>

definition gives :: "'r http_m \<Rightarrow> ('r \<Rightarrow> bool) \<Rightarrow> bool" where
  "gives m P \<longleftrightarrow> (\<forall>s. P (fst (run_state m s)))"

lemma gives_bind: "(\<And>r. gives (f r) P) \<Longrightarrow> gives (m \<bind> f) P"
  by (simp add: gives_def split_beta)

lemma gives_bind_when: "gives m Q \<Longrightarrow> (\<And>r. Q r \<Longrightarrow> gives (f r) P) \<Longrightarrow> gives (m \<bind> f) P"
  by (simp add: gives_def split_beta)

lemma gives_return: "P x \<Longrightarrow> gives (ret x) P"
  by (simp add: gives_def)

lemma gives_if: "(b \<Longrightarrow> gives m P) \<Longrightarrow> (\<not> b \<Longrightarrow> gives n P) \<Longrightarrow> gives (if b then m else n) P"
  by simp

lemma gives_option: "gives m P \<Longrightarrow> (\<And>y. x = Some y \<Longrightarrow> gives (f y) P) \<Longrightarrow> gives (case x of None \<Rightarrow> m | Some y \<Rightarrow> f y) P"
  by (cases x) auto

lemma gives_prod: "(\<And>a b. x = (a, b) \<Longrightarrow> gives (f a b) P) \<Longrightarrow> gives (case x of (a, b) \<Rightarrow> f a b) P"
  by (cases x) auto

abbreviation core_code :: "int \<Rightarrow> bool" where
  "core_code res \<equiv> res \<noteq> STATE_HTTP_RECV_NOT_FINISHED"

lemma gives_http_recv: "gives (http_recv n) (\<lambda>r. core_code (fst r))"
  unfolding http_recv_def http_sysdep_return_def
  by (rule gives_bind gives_if gives_prod gives_return | simp; fail)+

lemma gives_header_line: "core_code res \<Longrightarrow> gives (header_line line res n) (\<lambda>r. core_code (fst (snd r)))"
proof -
  assume res: "core_code res"
  have "gives (status_line line res) core_code"
    unfolding status_line_def Let_def using res
    by (auto intro!: gives_bind gives_return split: outcome.split)
  then show ?thesis unfolding header_line_def using res
    by (intro gives_bind [of _ _ "core_logn _ _ _"] gives_if gives_return gives_bind_when [of "status_line line res"]
        gives_bind [of _ _ "header_pairs _ _ _"]) simp_all
qed

abbreviation core_result :: "(int \<times> 'x) option \<Rightarrow> bool" where
  "core_result r \<equiv> (\<forall>x. r = Some x \<longrightarrow> core_code (fst x))"

lemma gives_header_loop: "core_code res \<Longrightarrow> gives (recv_header_loop fuel line start res n) core_result"
proof (induction fuel arbitrary: line start res n)
  case (Suc fuel)
  note bind = gives_bind [of _ _ State_Monad.get] gives_bind [of _ _ sys_time] gives_bind [of _ _ "if _ then sys_time else ret _"]
    gives_bind_when [OF gives_http_recv] gives_bind_when [OF gives_header_line]
  show ?case
    unfolding recv_header_loop.simps(2)
    by (rule bind gives_if gives_prod gives_return Suc.IH | simp add: Suc.prems; fail)+
qed (simp add: gives_def)

lemma gives_http_recv_header: "gives (http_recv_header fuel) core_result"
proof -
  have "gives (do { r \<leftarrow> recv_header_loop fuel [] start STATE_SUCCESS 0; on (r \<noteq> None) sys_free; ret r }) core_result" for start
    by (rule gives_bind_when [OF gives_header_loop], simp, rule gives_bind, rule gives_return)
  then show ?thesis
    unfolding http_recv_header_def
    by (intro gives_bind [of _ _ sys_malloc] gives_bind [of _ _ sys_time] gives_if gives_return) simp_all
qed

lemma gives_http_recv_body: "gives (http_recv_body n) core_code"
proof -
  have "gives (do {
      (res, buffer) \<leftarrow> http_recv k;
      mutex_unlock Recv_mutex;
      on (res > 0) (body_received res buffer);
      sys_free;
      ret res }) core_code" for k
    by (rule gives_bind_when [OF gives_http_recv], rule gives_prod, (rule gives_bind)+, rule gives_return, simp)
  then show ?thesis
    unfolding http_recv_body_def Let_def
    by (auto intro!: gives_bind [of _ _ State_Monad.get] gives_bind [of _ _ sys_malloc] gives_bind [of _ _ "mutex_lock _"]
        gives_bind [of _ _ "on _ _"] gives_bind [of _ _ "modify _"] gives_return)
qed

abbreviation not_unfinished :: "int option \<Rightarrow> bool" where
  "not_unfinished r \<equiv> r \<noteq> Some STATE_HTTP_RECV_NOT_FINISHED"

lemma gives_core_recv: "gives (core_http_recv fuel) not_unfinished"
proof -
  have header: "gives (if b then do {
      mutex_lock Recv_mutex;
      r \<leftarrow> http_recv_header fuel;
      on (r \<noteq> None) (mutex_unlock Recv_mutex);
      ret r } else ret (Some (STATE_SUCCESS, 0))) core_result" for b
    by (rule gives_if, rule gives_bind, rule gives_bind_when [OF gives_http_recv_header], rule gives_bind,
        (rule gives_return, simp)+)
  have "gives (case r of None \<Rightarrow> ret None
       | Some (res, body_total_len) \<Rightarrow>
           if res < STATE_SUCCESS then do { http_exec_dec; ret (Some res) }
           else do {
             modify (\<lambda>s. s\<lparr>http_session := (http_session s)\<lparr>session_sm := Sm_read_body\<rparr>\<rparr>);
             res \<leftarrow> http_recv_body body_total_len;
             on (res = STATE_HTTP_READ_BODY_FINISHED \<or> res = STATE_HTTP_READ_BODY_EMPTY)
               (modify (\<lambda>s. s\<lparr>http_session := session_0\<rparr>));
             http_exec_dec;
             ret (Some res)
           }) not_unfinished" if "core_result r" for r
    using that
    by (auto split: option.split intro!: gives_bind [of _ _ http_exec_dec] gives_bind [of _ _ "modify _"]
        gives_bind [of _ _ "on _ _"] gives_bind_when [OF gives_http_recv_body] gives_return)
  note rest = gives_bind_when [OF header this]
  show ?thesis
    unfolding core_http_recv_def
    by (intro gives_bind [of _ _ State_Monad.get] gives_bind [of _ _ http_exec_inc] gives_if gives_return rest) simp_all
qed

lemma gives_rounds: "core_code res \<Longrightarrow> gives (http_recv_rounds fuel start timeout res) not_unfinished"
proof (induction fuel arbitrary: start res)
  case (Suc fuel)
  have "gives (do { r \<leftarrow> core_http_recv fuel; case r of None \<Rightarrow> ret None
      | Some res \<Rightarrow> if res < STATE_SUCCESS then ret (Some res) else http_recv_rounds fuel start timeout res }) not_unfinished" for start
    by (rule gives_bind_when [OF gives_core_recv]) (auto split: option.split intro!: gives_return Suc.IH)
  then show ?case
    unfolding http_recv_rounds.simps
    by (intro gives_bind [of _ _ sys_time] gives_bind [of _ _ "if _ then _ else _"] gives_if gives_return)
      (simp_all add: Suc.prems)
qed (simp add: gives_def)

section \<open>The calls of the interface\<close>

lemma tidy_finish:
  "tidy [] (e + 1) c (http_finish_recv res) (\<lambda>r. r \<noteq> STATE_HTTP_RECV_NOT_FINISHED) [] e c"
  "core_code res \<Longrightarrow> tidy [] (e + 1) c (http_finish_recv res) (\<lambda>r. r = STATE_HTTP_RECV_NOT_FINISHED) [] (e + 1) c"
proof -
  have unfinished: "tidy [] (e + 1) c (ret STATE_HTTP_RECV_NOT_FINISHED) (\<lambda>r. r \<noteq> STATE_HTTP_RECV_NOT_FINISHED) [] e c"
    by (simp add: tidy_def)
  show "tidy [] (e + 1) c (http_finish_recv res) (\<lambda>r. r \<noteq> STATE_HTTP_RECV_NOT_FINISHED) [] e c"
    unfolding http_finish_recv_def by (rule tidy_if unfinished | rule tidy_rules | simp; fail)+
  assume res: "core_code res"
  have "fst (run_state (http_finish_recv res) s) = (if res \<ge> STATE_SUCCESS then STATE_HTTP_RECV_NOT_FINISHED
      else if res \<noteq> STATE_HTTP_READ_BODY_FINISHED then res else STATE_SUCCESS)" for s
    by (simp add: http_finish_recv_def split_beta)
  then have other: "res < STATE_SUCCESS \<Longrightarrow> wp (http_finish_recv res) (\<lambda>r _. r \<noteq> STATE_HTTP_RECV_NOT_FINISHED) s" for s
    using res by (simp add: wp_def split_beta)
  show "tidy [] (e + 1) c (http_finish_recv res) (\<lambda>r. r = STATE_HTTP_RECV_NOT_FINISHED) [] (e + 1) c"
  proof (cases "res < STATE_SUCCESS")
    case True
    show ?thesis unfolding tidy_def by (intro allI impI wp_mono [OF other [OF True]]) simp
  next
    case False
    then show ?thesis by (simp add: http_finish_recv_def tidy_return)
  qed
qed

lemma http_expect_succeeds: "http_core_enabled s \<Longrightarrow> fst (run_state (http_expect H) s) = STATE_SUCCESS"
  by (simp add: http_expect_def core_http_setopt_def http_exec_inc_def http_exec_dec_def http_value_def split_beta
      mutex_lock_def mutex_unlock_def)

lemma tidy_expect [tidy_rules]: "tidy [] e c (http_expect H) R [] e c"
  unfolding http_expect_def by (rule tidy_rules tidy_modify | simp add: duty_def; fail)+

lemma tidy_recv_message:
  "tidy [] (e + 1) c (http_recv_message fuel timeout) (\<lambda>r. r \<noteq> None \<and> not_unfinished r) [] e c"
  "tidy [] (e + 1) c (http_recv_message fuel timeout) (\<lambda>r. \<not> not_unfinished r) [] (e + 1) c"
proof -
  have code: "core_code STATE_SUCCESS" by simp
  have rounds: "fst (run_state (http_recv_rounds fuel start timeout' STATE_SUCCESS) s) \<noteq> Some STATE_HTTP_RECV_NOT_FINISHED" for start timeout' s
    using gives_rounds [OF code] by (simp add: gives_def)
  have rest: "tidy [] (e + 1) c (do {
      timenow \<leftarrow> sys_time;
      r \<leftarrow> http_recv_rounds fuel timenow (ucast timeout) STATE_SUCCESS;
      case r of None \<Rightarrow> ret None | Some res \<Rightarrow> do { res \<leftarrow> http_finish_recv res; ret (Some res) } }) R [] e' c"
    if R: "\<not> R None" and finish: "\<And>res. core_code res \<Longrightarrow> tidy [] (e + 1) c (http_finish_recv res) (\<lambda>r. R (Some r)) [] e' c" for R e'
  proof (rule tidy_bind [OF tidy_idle [OF port_idle(4)]])
    have final: "tidy [] (e + 1) c (do { res \<leftarrow> http_finish_recv res; ret (Some res) }) R [] e' c" if "core_code res" for res
      using finish [OF that] by (simp add: tidy_def)
    show "tidy [] (e + 1) c (do {
      r \<leftarrow> http_recv_rounds fuel timenow (ucast timeout) STATE_SUCCESS;
      case r of None \<Rightarrow> ret None | Some res \<Rightarrow> do { res \<leftarrow> http_finish_recv res; ret (Some res) } }) R [] e' c" for timenow
      by (rule tidy_bind_gen [OF tidy_rounds, where P = not_unfinished])
        (use rounds final R in \<open>auto split: option.splits\<close>)
  qed
  have message: "tidy [] (e + 1) c (http_recv_message fuel timeout) R [] e' c"
    if "\<not> R None" "\<And>res. core_code res \<Longrightarrow> tidy [] (e + 1) c (http_finish_recv res) (\<lambda>r. R (Some r)) [] e' c" for R e'
    unfolding http_recv_message_def
    by (rule tidy_bind_gen [OF tidy_expect, where P = "\<lambda>r. r = STATE_SUCCESS" and ?R0.0 = "\<lambda>_. True"])
      (use http_expect_succeeds rest [OF that] in simp_all)
  show "tidy [] (e + 1) c (http_recv_message fuel timeout) (\<lambda>r. r \<noteq> None \<and> not_unfinished r) [] e c"
    by (rule message) (use tidy_finish(1) in simp_all)
  show "tidy [] (e + 1) c (http_recv_message fuel timeout) (\<lambda>r. \<not> not_unfinished r) [] (e + 1) c"
    by (rule message) (use tidy_finish(2) in simp_all)
qed

lemma tidy_ensure [tidy_rules]: "tidy [] e c http_ensure_connection R [] e c"
  unfolding http_ensure_connection_def by (rule tidy_rules | simp; fail)+

lemma tidy_send_auth [tidy_rules]: "tidy [] e c (http_send_auth pk dn ds) R [] e c"
  unfolding http_send_auth_def by (rule tidy_rules | simp; fail)+

lemma tidy_store_token [tidy_rules]: "tidy [] e c (http_store_token tok) R [] e c"
  unfolding http_store_token_def by (rule tidy_rules tidy_modify | simp add: duty_def; fail)+

lemma tidy_check_auth [tidy_rules]: "tidy [] e c http_check_auth R [] e c"
  unfolding http_check_auth_def Let_def by (rule tidy_rules | simp; fail)+

lemma tidy_recv_auth: "tidy [] e c (http_recv_auth fuel) (\<lambda>r. r \<noteq> None) [] e c"
proof -
  have "tidy [] e c (do { r \<leftarrow> http_recv_rounds fuel start timeout res;
      case r of None \<Rightarrow> ret None
      | Some res \<Rightarrow>
         if res \<ge> STATE_SUCCESS then ret (Some STATE_HTTP_AUTH_NOT_FINISHED)
         else if res \<noteq> STATE_HTTP_READ_BODY_FINISHED then ret (Some res)
         else do { res \<leftarrow> http_check_auth; ret (Some res) } }) (\<lambda>r. r \<noteq> None) [] e c" for start timeout res
    by (rule tidy_bind_fuel [OF tidy_rounds], simp only: option.case, (rule tidy_rules)+, simp)
  note [tidy_rules] = this
  show ?thesis unfolding http_recv_auth_def by (rule tidy_rules | simp; fail)+
qed

lemma tidy_auth_with: "tidy [] e c (http_auth_with fuel pk dn ds) (\<lambda>r. r \<noteq> None) [] e c"
proof -
  have "tidy [] (e + 1) c (do { r \<leftarrow> http_recv_auth fuel;
      case r of None \<Rightarrow> ret None
      | Some res \<Rightarrow> do { http_free_content; aiot_http_exec_dec; ret (Some res) } }) (\<lambda>r. r \<noteq> None) [] e c"
    by (rule tidy_bind_fuel [OF tidy_recv_auth], simp only: option.case, (rule tidy_rules)+, simp)
  note [tidy_rules] = this
  have "tidy [] (e + 1) c (do {
      res \<leftarrow> http_ensure_connection;
      if res < STATE_SUCCESS then do { aiot_http_exec_dec; ret (Some res) }
      else do {
        res \<leftarrow> http_send_auth pk dn ds;
        if res < STATE_SUCCESS then do { aiot_http_exec_dec; ret (Some res) }
        else do {
          r \<leftarrow> http_recv_auth fuel;
          case r of None \<Rightarrow> ret None
          | Some res \<Rightarrow> do { http_free_content; aiot_http_exec_dec; ret (Some res) } } } }) (\<lambda>r. r \<noteq> None) [] e c"
    by (rule tidy_rules)+
  then have "tidy [] (e + 1) c (do {
      res \<leftarrow> http_expect Auth_recv_handler;
      if res < STATE_SUCCESS then ret (Some res)
      else do {
        res \<leftarrow> http_ensure_connection;
        if res < STATE_SUCCESS then do { aiot_http_exec_dec; ret (Some res) }
        else do {
          res \<leftarrow> http_send_auth pk dn ds;
          if res < STATE_SUCCESS then do { aiot_http_exec_dec; ret (Some res) }
          else do {
            r \<leftarrow> http_recv_auth fuel;
            case r of None \<Rightarrow> ret None
            | Some res \<Rightarrow> do { http_free_content; aiot_http_exec_dec; ret (Some res) } } } } }) (\<lambda>r. r \<noteq> None) [] e c"
    by (intro tidy_bind_gen [OF tidy_expect, where P = "\<lambda>r. r = STATE_SUCCESS" and ?R0.0 = "\<lambda>_. True"])
      (use http_expect_succeeds in simp_all)
  note [tidy_rules] = this
  show ?thesis unfolding http_auth_with_def by (rule tidy_rules | simp; fail)+
qed

lemma tidy_auth: "tidy [] e c (aiot_http_auth fuel) (\<lambda>r. r \<noteq> None) [] e c"
  unfolding aiot_http_auth_def by (rule tidy_auth_with tidy_rules)+

lemma tidy_send: "tidy [] e c (aiot_http_send topic payload) R [] e c"
proof -
  have "tidy [] e c (http_post_message t p) R [] e c" for e c t p and R :: "int \<Rightarrow> bool"
    unfolding http_post_message_def by (rule tidy_rules | simp; fail)+
  note [tidy_rules] = this
  show ?thesis unfolding aiot_http_send_def by (rule tidy_rules | simp; fail)+
qed

lemma tidy_setopt: "tidy [] e c (aiot_http_setopt opt) R [] e c"
proof -
  have "tidy [Data_mutex] e c (aiot_http_switch v) R [Data_mutex] e c" for e c v and R :: "int \<Rightarrow> bool"
  proof (cases v)
    case (Ao_shared w)
    then show ?thesis unfolding aiot_http_switch_def by simp (rule tidy_rules | simp; fail)+
  qed (simp_all add: aiot_http_switch_def http_value_def http_string_def,
       (rule tidy_rules tidy_modify | simp add: duty_def; fail)+)
  note [tidy_rules] = this
  show ?thesis unfolding aiot_http_setopt_def by (rule tidy_rules | simp; fail)+
qed

text \<open>The calls of the interface that a client makes between creating and destroying a handle.\<close>

datatype http_call = Call_setopt "aiot_http_option option" | Call_auth nat
  | Call_send "byte list option" "byte list option" | Call_recv nat

definition run_http_call :: "http_call \<Rightarrow> (int option) http_m" where
  "run_http_call call = (case call of
     Call_setopt opt \<Rightarrow> do { res \<leftarrow> aiot_http_setopt opt; ret (Some res) }
   | Call_auth fuel \<Rightarrow> aiot_http_auth fuel
   | Call_send topic payload \<Rightarrow> do { res \<leftarrow> aiot_http_send topic payload; ret (Some res) }
   | Call_recv fuel \<Rightarrow> aiot_http_recv fuel)"

definition left_open :: "http_call \<Rightarrow> int option \<Rightarrow> bool" where
  "left_open call r \<longleftrightarrow> (\<exists>fuel. call = Call_recv fuel) \<and> r = Some STATE_HTTP_RECV_NOT_FINISHED"

lemma run_call_duties:
  assumes "duties [] 0 0 s s"
  shows "wp (run_http_call call) (\<lambda>r t. r \<noteq> None \<longrightarrow> duties [] (if left_open call r then 1 else 0) 0 s t) s"
proof (cases call)
  case (Call_setopt opt)
  then show ?thesis using tidyD [OF tidy_setopt [where R = "\<lambda>_. True"] assms]
    by (simp add: run_http_call_def left_open_def)
next
  case (Call_auth fuel)
  then show ?thesis using tidyD [OF tidy_auth assms] by (simp add: run_http_call_def left_open_def)
next
  case (Call_send topic payload)
  then show ?thesis using tidyD [OF tidy_send [where R = "\<lambda>_. True"] assms]
    by (simp add: run_http_call_def left_open_def)
next
  case (Call_recv fuel)
  have message: "wp (http_recv_message fuel timeout) (\<lambda>r t. r \<noteq> None \<longrightarrow> duties [] (if left_open call r then 1 else 0) 0 s t) u"
    if u: "duties [] (0 + 1) 0 s u" for timeout u
    by (rule wp_mono [OF wp_conj [OF tidyD [OF tidy_recv_message(1) u] tidyD [OF tidy_recv_message(2) u]]])
      (auto simp: left_open_def Call_recv)
  have "wp aiot_http_exec_inc (\<lambda>_. wp (http_recv_message fuel (http_recv_timeout s))
      (\<lambda>r t. r \<noteq> None \<longrightarrow> duties [] (if left_open call r then 1 else 0) 0 s t)) s"
    by (rule wp_mono [OF tidyD [OF tidy_counts(3) [where R = "\<lambda>_. True"] assms]]) (use message in simp)
  then show ?thesis using assms by (simp add: Call_recv run_http_call_def aiot_http_recv_def left_open_def)
qed

text \<open>
  C11: every call of the HTTP interface that returns has given back its mutexes, taken them in the
  order of their ranks, and given back its counts, with one exception: a receive that ends before
  the answer is complete (\<^verbatim>\<open>STATE_HTTP_RECV_NOT_FINISHED\<close>) stays counted.
\<close>

theorem http_calls_counted:
  assumes "held s = []" "lock_ok s" "http_core_enabled s"
  shows "wp (run_http_call call) (\<lambda>r t. r \<noteq> None \<longrightarrow> held t = [] \<and> lock_ok t \<and> http_core_enabled t
    \<and> http_core_count t = http_core_count s
    \<and> http_exec_count t = http_exec_count s + (if left_open call r then 1 else 0)) s"
  by (rule wp_mono [OF run_call_duties]) (use assms in \<open>auto simp: duties_def duty_def\<close>)

theorem http_calls_counted_witness:
  "wp (run_http_call (Call_setopt (Some (Ao_userdata 5)))) (\<lambda>r t. r \<noteq> None \<longrightarrow> held t = [] \<and> http_exec_count t = 0)
     (sample_client (\<lambda>_. (0, [])))"
  by (rule wp_mono [OF http_calls_counted]) (simp_all add: left_open_def)

section \<open>Destroying the handle\<close>

lemma wait_frame:
  "keeps (\<lambda>s. (live s, http_exec_count s)) (aiot_deinit_wait fuel start)"
proof (induction fuel)
  case (Suc fuel)
  have "keeps (\<lambda>s. (live s, http_exec_count s)) (sys_sleep ms)" "keeps (\<lambda>s. (live s, http_exec_count s)) sys_time" for ms
    unfolding sys_sleep_def sys_time_def emit_def
    by (auto intro: keepsI keeps_modify simp: ask_def)
  then show ?case by (simp, intro keeps_rules Suc)
qed (simp add: keeps_return)

lemma aiot_deinit_busy:
  assumes "http_exec_count s \<noteq> 0" "http_exec_enabled s"
  shows "wp (aiot_http_deinit fuel) (\<lambda>r t. r \<in> {None, Some STATE_HTTP_DEINIT_TIMEOUT} \<and> live t = live s) s"
proof -
  let ?u = "s\<lparr>http_exec_enabled := False, tick := tick s + 1\<rparr>"
  have "wp (aiot_deinit_wait fuel t) (\<lambda>_ v. live v = live ?u \<and> http_exec_count v = http_exec_count ?u) ?u" for t
    using keepsD [OF wait_frame [of fuel t], of ?u] by (simp add: wp_def split_beta)
  note waits = this
  let ?after_wait = "\<lambda>waited. case waited of
       None \<Rightarrow> ret None
     | Some _ \<Rightarrow> do {
         s \<leftarrow> State_Monad.get;
         if http_exec_count s \<noteq> 0 then ret (Some STATE_HTTP_DEINIT_TIMEOUT)
         else do {
           on (http_product_key s \<noteq> None) sys_free;
           on (http_device_name s \<noteq> None) sys_free;
           on (http_device_secret s \<noteq> None) sys_free;
           on (http_extend_devinfo s \<noteq> None) sys_free;
           on (http_token s \<noteq> None) sys_free;
           r \<leftarrow> core_http_deinit fuel;
           ret (map_option (\<lambda>_. STATE_SUCCESS) r)
         }
       }"
  let ?Q = "\<lambda>r t. r \<in> {None, Some STATE_HTTP_DEINIT_TIMEOUT} \<and> live t = live s"
  have "wp (?after_wait w) ?Q v" if "live v = live ?u \<and> http_exec_count v = http_exec_count ?u" for w v
    using that assms(1) by (cases w) simp_all
  then have "wp (aiot_deinit_wait fuel t) (\<lambda>w. wp (?after_wait w) ?Q) ?u" for t
    by (intro wp_mono [OF waits])
  then show ?thesis using assms(2)
    by (simp add: aiot_http_deinit_def run_simps)
qed

text \<open>
  After a receive that ended before the answer was complete, the handle can not be destroyed
  any more: the destruction waits for a call that nobody makes and gives up, and gives no memory
  back.
\<close>

theorem unfinished_answer_blocks_deinit:
  assumes "held s = []" "lock_ok s" "http_core_enabled s" "http_exec_count s = 0"
    "run_state (aiot_http_recv fuel) s = (Some STATE_HTTP_RECV_NOT_FINISHED, t)"
  shows "\<forall>n. case run_state (aiot_http_deinit n) t of (r, u) \<Rightarrow>
    r \<in> {None, Some STATE_HTTP_DEINIT_TIMEOUT} \<and> live u = live t"
proof -
  have "wp (run_http_call (Call_recv fuel)) (\<lambda>r t. r \<noteq> None \<longrightarrow> duties [] (if left_open (Call_recv fuel) r then 1 else 0) 0 s t) s"
    by (rule run_call_duties) (use assms in \<open>simp add: duties_def duty_def\<close>)
  with assms(5) have "duties [] 1 0 s t" by (simp add: wp_def run_http_call_def left_open_def)
  moreover have "http_exec_enabled s"
    using assms(5) by (cases "http_exec_enabled s") (auto simp: aiot_http_recv_def split: if_splits)
  ultimately have "http_exec_count t \<noteq> 0" "http_exec_enabled t"
    using assms(4) by (simp_all add: duties_def duty_def)
  then show ?thesis using aiot_deinit_busy by (simp add: wp_def split_beta)
qed

lemma core_wait_ends:
  "fst (run_state (core_deinit_wait fuel) s) = Some ()
     \<longleftrightarrow> fuel \<noteq> 0 \<and> (http_exec_count s = 0 \<or> http_deinit_timeout s \<le> 100)"
proof (induction fuel arbitrary: s)
  case (Suc fuel)
  have "http_exec_count (snd (run_state (sys_sleep 100) s)) = http_exec_count s"
    "http_deinit_timeout (snd (run_state (sys_sleep 100) s)) = http_deinit_timeout s"
    by (simp_all add: sys_sleep_def emit_def)
  then show ?case by (auto simp: Suc split_beta linorder_not_less)
qed simp

theorem unfinished_answer_blocks_deinit_witness:
  "case run_state (aiot_http_recv 2) ((sample_client (\<lambda>_. (0, [])))\<lparr>http_recv_timeout := 0\<rparr>) of (r, t) \<Rightarrow>
     r = Some STATE_HTTP_RECV_NOT_FINISHED \<and> fst (run_state (aiot_http_deinit 3) t) \<noteq> Some STATE_SUCCESS"
proof -
  let ?s = "(sample_client (\<lambda>_. (0, [])))\<lparr>http_recv_timeout := 0\<rparr>"
  obtain r t where run: "run_state (aiot_http_recv 2) ?s = (r, t)" by fastforce
  have "r = Some STATE_HTTP_RECV_NOT_FINISHED"
  proof -
    have "wp (aiot_http_recv 2) (\<lambda>r t. r = Some STATE_HTTP_RECV_NOT_FINISHED) ?s"
      by (simp add: aiot_http_recv_def aiot_http_exec_inc_def http_recv_message_def http_expect_def core_http_setopt_def
          http_exec_inc_def http_exec_dec_def http_value_def run_simps numeral_2_eq_2 http_finish_recv_def)
    with run show ?thesis by (simp add: wp_def)
  qed
  with run unfinished_answer_blocks_deinit [of ?s 2 t] show ?thesis
    by (auto simp: split_beta dest: spec [where x = 3])
qed

text \<open>
  C34: the destruction of the core never returns, whatever the fuel, exactly when the counter of
  the outer interface is not zero and the timeout is more than one round of its wait, for nothing
  in the loop changes its condition; in every other case it returns.
\<close>

theorem core_deinit_returns_iff:
  "(\<forall>fuel. fst (run_state (core_http_deinit fuel) s) = None)
     \<longleftrightarrow> http_core_enabled s \<and> http_exec_count s \<noteq> 0 \<and> http_deinit_timeout s > 100"
proof -
  have "fst (run_state (core_http_deinit fuel) s) = None
      \<longleftrightarrow> http_core_enabled s \<and> fst (run_state (core_deinit_wait fuel) (s\<lparr>http_exec_enabled := False\<rparr>)) \<noteq> Some ()" for fuel
    by (simp add: core_http_deinit_def split_beta split: option.split)
  then have "fst (run_state (core_http_deinit fuel) s) = None
      \<longleftrightarrow> http_core_enabled s \<and> (fuel = 0 \<or> http_exec_count s \<noteq> 0 \<and> http_deinit_timeout s > 100)" for fuel
    by (simp add: core_wait_ends not_le)
  then show ?thesis by (metis One_nat_def zero_neq_one)
qed

end
