(* ===== verification/Md5.thy ===== *)
theory Md5
  imports MD_Hash
begin

text \<open>
  \<^verbatim>\<open>src/Demo/MD5\<close>: the context of MD5, its rounds with the shortened boolean functions of
  \<^verbatim>\<open>md5_local.h\<close>, and the update and final routines that \<^verbatim>\<open>md32_common.h\<close> generates
  for a little-endian hash. The rounds are compared with those of RFC 1321, the streaming
  interface with the digest of the whole message.
\<close>

section \<open>The context and the block function\<close>

record md5_ctx =
  md_A :: "32 word"
  md_B :: "32 word"
  md_C :: "32 word"
  md_D :: "32 word"
  md_Nl :: "32 word"
  md_Nh :: "32 word"
  md_data :: "byte list"
  md_num :: "32 word"

type_synonym md5_regs = "32 word \<times> 32 word \<times> 32 word \<times> 32 word"

definition MD5_Init :: md5_ctx where
  "MD5_Init = \<lparr>md_A = 0x67452301, md_B = 0xefcdab89, md_C = 0x98badcfe, md_D = 0x10325476,
     md_Nl = 0, md_Nh = 0, md_data = replicate 64 0, md_num = 0\<rparr>"

definition MD5_ROTATE :: "32 word \<Rightarrow> nat \<Rightarrow> 32 word" where
  "MD5_ROTATE a n = push_bit n a OR drop_bit (32 - n) (a AND 0xffffffff)"

text \<open>Four bytes as a number and back, the least significant byte first.\<close>

definition HOST_c2l :: "byte list \<Rightarrow> nat \<Rightarrow> 32 word" where
  "HOST_c2l c i = ucast (c ! i) OR push_bit 8 (ucast (c ! (i + 1)))
     OR push_bit 16 (ucast (c ! (i + 2))) OR push_bit 24 (ucast (c ! (i + 3)))"

definition HOST_l2c :: "32 word \<Rightarrow> byte list" where
  "HOST_l2c l = [ucast (l AND 0xff), ucast (drop_bit 8 l AND 0xff),
     ucast (drop_bit 16 l AND 0xff), ucast (drop_bit 24 l AND 0xff)]"

definition md5_F :: "32 word \<Rightarrow> 32 word \<Rightarrow> 32 word \<Rightarrow> 32 word" where
  "md5_F b c d = ((c XOR d) AND b) XOR d"

definition md5_G :: "32 word \<Rightarrow> 32 word \<Rightarrow> 32 word \<Rightarrow> 32 word" where
  "md5_G b c d = ((b XOR c) AND d) XOR c"

definition md5_H :: "32 word \<Rightarrow> 32 word \<Rightarrow> 32 word \<Rightarrow> 32 word" where
  "md5_H b c d = b XOR c XOR d"

definition md5_I :: "32 word \<Rightarrow> 32 word \<Rightarrow> 32 word \<Rightarrow> 32 word" where
  "md5_I b c d = ((NOT d) OR b) XOR c"

text \<open>
  The macros \<^verbatim>\<open>R0\<close> to \<^verbatim>\<open>R3\<close> give their first argument a new value.
\<close>

definition R0 :: "32 word \<Rightarrow> 32 word \<Rightarrow> 32 word \<Rightarrow> 32 word \<Rightarrow> 32 word \<Rightarrow> nat \<Rightarrow> 32 word \<Rightarrow> 32 word" where
  "R0 a b c d k s t = MD5_ROTATE (a + (k + t + md5_F b c d)) s + b"

definition R1 :: "32 word \<Rightarrow> 32 word \<Rightarrow> 32 word \<Rightarrow> 32 word \<Rightarrow> 32 word \<Rightarrow> nat \<Rightarrow> 32 word \<Rightarrow> 32 word" where
  "R1 a b c d k s t = MD5_ROTATE (a + (k + t + md5_G b c d)) s + b"

definition R2 :: "32 word \<Rightarrow> 32 word \<Rightarrow> 32 word \<Rightarrow> 32 word \<Rightarrow> 32 word \<Rightarrow> nat \<Rightarrow> 32 word \<Rightarrow> 32 word" where
  "R2 a b c d k s t = MD5_ROTATE (a + (k + t + md5_H b c d)) s + b"

definition R3 :: "32 word \<Rightarrow> 32 word \<Rightarrow> 32 word \<Rightarrow> 32 word \<Rightarrow> 32 word \<Rightarrow> nat \<Rightarrow> 32 word \<Rightarrow> 32 word" where
  "R3 a b c d k s t = MD5_ROTATE (a + (k + t + md5_I b c d)) s + b"

text \<open>
  The 64 steps come in groups of four, in which the variables change their roles:
  \<^verbatim>\<open>R(A,B,C,D)\<close>, \<^verbatim>\<open>R(D,A,B,C)\<close>, \<^verbatim>\<open>R(C,D,A,B)\<close>, \<^verbatim>\<open>R(B,C,D,A)\<close>; all groups of a
  round have the same shifts. A row lists the index of the message word and the constant of each
  step of a group.
\<close>

type_synonym md5_row = "(nat \<times> 32 word) \<times> (nat \<times> 32 word) \<times> (nat \<times> 32 word) \<times> (nat \<times> 32 word)"

definition md5_rows0 :: "md5_row list" where
  "md5_rows0 =
    [((0, 0xd76aa478), (1, 0xe8c7b756), (2, 0x242070db), (3, 0xc1bdceee)),
     ((4, 0xf57c0faf), (5, 0x4787c62a), (6, 0xa8304613), (7, 0xfd469501)),
     ((8, 0x698098d8), (9, 0x8b44f7af), (10, 0xffff5bb1), (11, 0x895cd7be)),
     ((12, 0x6b901122), (13, 0xfd987193), (14, 0xa679438e), (15, 0x49b40821))]"

definition md5_rows1 :: "md5_row list" where
  "md5_rows1 =
    [((1, 0xf61e2562), (6, 0xc040b340), (11, 0x265e5a51), (0, 0xe9b6c7aa)),
     ((5, 0xd62f105d), (10, 0x02441453), (15, 0xd8a1e681), (4, 0xe7d3fbc8)),
     ((9, 0x21e1cde6), (14, 0xc33707d6), (3, 0xf4d50d87), (8, 0x455a14ed)),
     ((13, 0xa9e3e905), (2, 0xfcefa3f8), (7, 0x676f02d9), (12, 0x8d2a4c8a))]"

definition md5_rows2 :: "md5_row list" where
  "md5_rows2 =
    [((5, 0xfffa3942), (8, 0x8771f681), (11, 0x6d9d6122), (14, 0xfde5380c)),
     ((1, 0xa4beea44), (4, 0x4bdecfa9), (7, 0xf6bb4b60), (10, 0xbebfbc70)),
     ((13, 0x289b7ec6), (0, 0xeaa127fa), (3, 0xd4ef3085), (6, 0x04881d05)),
     ((9, 0xd9d4d039), (12, 0xe6db99e5), (15, 0x1fa27cf8), (2, 0xc4ac5665))]"

definition md5_rows3 :: "md5_row list" where
  "md5_rows3 =
    [((0, 0xf4292244), (7, 0x432aff97), (14, 0xab9423a7), (5, 0xfc93a039)),
     ((12, 0x655b59c3), (3, 0x8f0ccc92), (10, 0xffeff47d), (1, 0x85845dd1)),
     ((8, 0x6fa87e4f), (15, 0xfe2ce6e0), (6, 0xa3014314), (13, 0x4e0811a1)),
     ((4, 0xf7537e82), (11, 0xbd3af235), (2, 0x2ad7d2bb), (9, 0xeb86d391))]"

fun md5_group ::
  "(32 word \<Rightarrow> 32 word \<Rightarrow> 32 word \<Rightarrow> 32 word \<Rightarrow> 32 word \<Rightarrow> nat \<Rightarrow> 32 word \<Rightarrow> 32 word) \<Rightarrow> nat \<times> nat \<times> nat \<times> nat
     \<Rightarrow> 32 word list \<Rightarrow> md5_regs \<Rightarrow> md5_row \<Rightarrow> md5_regs"
where
  "md5_group R (s0, s1, s2, s3) X (A, B, C, D) ((k0, t0), (k1, t1), (k2, t2), (k3, t3)) =
     (let A = R A B C D (X ! k0) s0 t0;
          D = R D A B C (X ! k1) s1 t1;
          C = R C D A B (X ! k2) s2 t2;
          B = R B C D A (X ! k3) s3 t3
      in (A, B, C, D))"

definition md5_rounds :: "32 word list \<Rightarrow> md5_regs \<Rightarrow> md5_regs" where
  "md5_rounds X v =
     (let v = foldl (md5_group R0 (7, 12, 17, 22) X) v md5_rows0;
          v = foldl (md5_group R1 (5, 9, 14, 20) X) v md5_rows1;
          v = foldl (md5_group R2 (4, 11, 16, 23) X) v md5_rows2
      in foldl (md5_group R3 (6, 10, 15, 21) X) v md5_rows3)"

fun md5_block_data_order :: "md5_ctx \<Rightarrow> byte list \<Rightarrow> nat \<Rightarrow> md5_ctx" where
  "md5_block_data_order c data 0 = c"
| "md5_block_data_order c data (Suc num) =
     (let X = map (\<lambda>i. HOST_c2l data (4 * i)) [0..<16];
          (A, B, C, D) = md5_rounds X (md_A c, md_B c, md_C c, md_D c)
      in md5_block_data_order
           (c\<lparr>md_A := md_A c + A, md_B := md_B c + B, md_C := md_C c + C, md_D := md_D c + D\<rparr>)
           (drop 64 data) num)"

declare md5_block_data_order.simps [simp del]

section \<open>Update and final\<close>

text \<open>The whole blocks of the input and the rest, which is kept for the next call.\<close>

definition md5_whole_blocks :: "md5_ctx \<Rightarrow> byte list \<Rightarrow> md5_ctx" where
  "md5_whole_blocks c data =
     (let n = length data div 64;
          (c, data) = (if n > 0 then (md5_block_data_order c data n, drop (n * 64) data) else (c, data))
      in if length data \<noteq> 0
         then c\<lparr>md_num := of_nat (length data), md_data := write_at (md_data c) 0 data\<rparr>
         else c)"

definition MD5_Update :: "md5_ctx \<Rightarrow> byte list \<Rightarrow> md5_ctx" where
  "MD5_Update c data =
     (if length data = 0 then c
      else let len = of_nat (length data) :: 64 word;
               l = (md_Nl c + push_bit 3 (ucast len)) AND 0xffffffff;
               c = (if l < md_Nl c then c\<lparr>md_Nh := md_Nh c + 1\<rparr> else c);
               c = c\<lparr>md_Nh := md_Nh c + ucast (drop_bit 29 len)\<rparr>;
               c = c\<lparr>md_Nl := l\<rparr>;
               n = unat (md_num c)
           in if n \<noteq> 0
              then if length data \<ge> 64 \<or> length data + n \<ge> 64
                then let p = write_at (md_data c) n (take (64 - n) data);
                         c = md5_block_data_order (c\<lparr>md_data := p\<rparr>) p 1;
                         c = c\<lparr>md_num := 0\<rparr>;
                         c = c\<lparr>md_data := replicate 64 0\<rparr>
                     in md5_whole_blocks c (drop (64 - n) data)
                else c\<lparr>md_data := write_at (md_data c) n data, md_num := md_num c + ucast len\<rparr>
              else md5_whole_blocks c data)"

definition MD5_Transform :: "md5_ctx \<Rightarrow> byte list \<Rightarrow> md5_ctx" where
  "MD5_Transform c data = md5_block_data_order c data 1"

definition md5_make_string :: "md5_ctx \<Rightarrow> byte list" where
  "md5_make_string c = HOST_l2c (md_A c) @ HOST_l2c (md_B c) @ HOST_l2c (md_C c) @ HOST_l2c (md_D c)"

definition MD5_Final :: "md5_ctx \<Rightarrow> byte list \<times> md5_ctx" where
  "MD5_Final c =
     (let n = unat (md_num c);
          p = (md_data c)[n := 0x80];
          n = n + 1;
          (c, p, n) =
            (if n > 64 - 8
             then let p = write_at p n (replicate (64 - n) 0) in (md5_block_data_order c p 1, p, 0)
             else (c, p, n));
          p = write_at p n (replicate (64 - 8 - n) 0);
          p = write_at p (64 - 8) (HOST_l2c (md_Nl c) @ HOST_l2c (md_Nh c));
          c = md5_block_data_order c p 1;
          c = c\<lparr>md_num := 0, md_data := replicate 64 0\<rparr>
      in (md5_make_string c, c))"

definition MD5 :: "byte list \<Rightarrow> byte list" where
  "MD5 d = fst (MD5_Final (MD5_Update MD5_Init d))"

section \<open>RFC 1321\<close>

text \<open>
  The functions of section 3.4 of the RFC, one loop over the 64 steps in which the registers are
  renamed after each, and the tables of the message words, the shifts and the constants
  (\<open>rfc_T ! i\<close> is the integer part of \<open>2 ^ 32\<close> times the absolute value of the sine of \<open>i + 1\<close>).
\<close>

definition rfc_fun :: "nat \<Rightarrow> 32 word \<Rightarrow> 32 word \<Rightarrow> 32 word \<Rightarrow> 32 word" where
  "rfc_fun r x y z =
     (if r = 0 then (x AND y) OR (NOT x AND z)
      else if r = 1 then (x AND z) OR (y AND NOT z)
      else if r = 2 then x XOR y XOR z
      else y XOR (x OR NOT z))"

definition rfc_word :: "nat \<Rightarrow> nat" where
  "rfc_word i =
     (if i div 16 = 0 then i
      else if i div 16 = 1 then (5 * i + 1) mod 16
      else if i div 16 = 2 then (3 * i + 5) mod 16
      else (7 * i) mod 16)"

definition rfc_shift :: "nat \<Rightarrow> nat" where
  "rfc_shift i = [[7, 12, 17, 22], [5, 9, 14, 20], [4, 11, 16, 23], [6, 10, 15, 21]] ! (i div 16) ! (i mod 4)"

definition rfc_T :: "32 word list" where
  "rfc_T =
    [0xd76aa478, 0xe8c7b756, 0x242070db, 0xc1bdceee,
     0xf57c0faf, 0x4787c62a, 0xa8304613, 0xfd469501,
     0x698098d8, 0x8b44f7af, 0xffff5bb1, 0x895cd7be,
     0x6b901122, 0xfd987193, 0xa679438e, 0x49b40821,
     0xf61e2562, 0xc040b340, 0x265e5a51, 0xe9b6c7aa,
     0xd62f105d, 0x02441453, 0xd8a1e681, 0xe7d3fbc8,
     0x21e1cde6, 0xc33707d6, 0xf4d50d87, 0x455a14ed,
     0xa9e3e905, 0xfcefa3f8, 0x676f02d9, 0x8d2a4c8a,
     0xfffa3942, 0x8771f681, 0x6d9d6122, 0xfde5380c,
     0xa4beea44, 0x4bdecfa9, 0xf6bb4b60, 0xbebfbc70,
     0x289b7ec6, 0xeaa127fa, 0xd4ef3085, 0x04881d05,
     0xd9d4d039, 0xe6db99e5, 0x1fa27cf8, 0xc4ac5665,
     0xf4292244, 0x432aff97, 0xab9423a7, 0xfc93a039,
     0x655b59c3, 0x8f0ccc92, 0xffeff47d, 0x85845dd1,
     0x6fa87e4f, 0xfe2ce6e0, 0xa3014314, 0x4e0811a1,
     0xf7537e82, 0xbd3af235, 0x2ad7d2bb, 0xeb86d391]"

fun rfc_step :: "32 word list \<Rightarrow> md5_regs \<Rightarrow> nat \<Rightarrow> md5_regs" where
  "rfc_step X (a, b, c, d) i =
     (d, b + word_rotl (rfc_shift i) (a + rfc_fun (i div 16) b c d + X ! rfc_word i + rfc_T ! i), b, c)"

definition le_bytes :: "nat \<Rightarrow> 'w::len word \<Rightarrow> byte list" where
  "le_bytes k w = map (\<lambda>j. ucast (drop_bit (8 * j) w)) [0..<k]"

definition rfc_words :: "byte list \<Rightarrow> 32 word list" where
  "rfc_words M = map (\<lambda>i. \<Sum>j\<leftarrow>[0..<4]. ucast (M ! (4 * i + j)) * 256 ^ j) [0..<16]"

definition rfc_compress :: "md5_regs \<Rightarrow> byte list \<Rightarrow> md5_regs" where
  "rfc_compress h M =
     (let (a, b, c, d) = h; (a', b', c', d') = foldl (rfc_step (rfc_words M)) h [0..<64]
      in (a + a', b + b', c + c', d + d'))"

definition rfc_iv :: md5_regs where
  "rfc_iv = (0x67452301, 0xefcdab89, 0x98badcfe, 0x10325476)"

fun rfc_out :: "md5_regs \<Rightarrow> byte list" where
  "rfc_out (a, b, c, d) = concat (map (\<lambda>w. le_bytes 4 w) [a, b, c, d])"

definition rfc_md5 :: "byte list \<Rightarrow> byte list" where
  "rfc_md5 = md_digest rfc_compress rfc_iv (\<lambda>n. le_bytes 8 (of_nat (8 * n) :: 64 word)) rfc_out"

section \<open>The rounds\<close>

lemma md5_functions:
  "md5_F = rfc_fun 0" "md5_G = rfc_fun 1" "md5_H = rfc_fun 2" "md5_I = rfc_fun 3"
  by (intro ext bit_word_eqI, auto simp: rfc_fun_def md5_F_def md5_G_def md5_H_def md5_I_def bit_simps)+

lemma MD5_ROTATE_rotl: "s < 32 \<Longrightarrow> MD5_ROTATE a s = word_rotl s a"
  using rotl_shifts [of s a] by (simp add: MD5_ROTATE_def)

text \<open>One step with explicit operands.\<close>

fun gstep :: "nat \<Rightarrow> 32 word list \<Rightarrow> md5_regs \<Rightarrow> nat \<times> nat \<times> 32 word \<Rightarrow> md5_regs" where
  "gstep r X (a, b, c, d) (k, s, t) = (d, b + word_rotl s (a + rfc_fun r b c d + X ! k + t), b, c)"

lemma md5_group_steps:
  assumes "\<And>a b c d k s t. s < 32 \<Longrightarrow> R a b c d k s t = b + word_rotl s (a + rfc_fun r b c d + k + t)"
    "s0 < 32" "s1 < 32" "s2 < 32" "s3 < 32"
  shows "md5_group R (s0, s1, s2, s3) X v ((k0, t0), (k1, t1), (k2, t2), (k3, t3))
    = foldl (gstep r X) v [(k0, s0, t0), (k1, s1, t1), (k2, s2, t2), (k3, s3, t3)]"
  by (cases v) (simp add: assms Let_def)

lemma md5_R_steps:
  assumes "s < 32"
  shows "R0 a b c d k s t = b + word_rotl s (a + rfc_fun 0 b c d + k + t)"
    "R1 a b c d k s t = b + word_rotl s (a + rfc_fun 1 b c d + k + t)"
    "R2 a b c d k s t = b + word_rotl s (a + rfc_fun 2 b c d + k + t)"
    "R3 a b c d k s t = b + word_rotl s (a + rfc_fun 3 b c d + k + t)"
  by (simp_all only: R0_def R1_def R2_def R3_def MD5_ROTATE_rotl [OF assms] md5_functions ac_simps)

definition rfc_round :: "nat \<Rightarrow> (nat \<times> nat \<times> 32 word) list" where
  "rfc_round r = map (\<lambda>i. (rfc_word i, rfc_shift i, rfc_T ! i)) [16 * r ..< 16 * r + 16]"

lemma rfc_round_steps:
  "foldl (rfc_step X) v [16 * r ..< 16 * r + 16] = foldl (gstep r X) v (rfc_round r)"
proof -
  have "foldl (rfc_step X) v is = foldl (gstep r X) v (map (\<lambda>i. (rfc_word i, rfc_shift i, rfc_T ! i)) is)"
    if "\<forall>i \<in> set is. i div 16 = r" for "is" :: "nat list"
    using that
  proof (induction "is" arbitrary: v)
    case (Cons i "is")
    have "rfc_step X v i = gstep r X v (rfc_word i, rfc_shift i, rfc_T ! i)"
      using Cons.prems by (cases v) simp
    with Cons show ?case by simp
  qed simp
  moreover have "\<forall>i \<in> set [16 * r ..< 16 * r + 16]. i div 16 = r" by auto
  ultimately show ?thesis by (simp only: rfc_round_def)
qed

lemma rfc_rounds:
  "rfc_round 0 = concat (map (\<lambda>((k0, t0), (k1, t1), (k2, t2), (k3, t3)). [(k0, 7, t0), (k1, 12, t1), (k2, 17, t2), (k3, 22, t3)]) md5_rows0)"
  "rfc_round 1 = concat (map (\<lambda>((k0, t0), (k1, t1), (k2, t2), (k3, t3)). [(k0, 5, t0), (k1, 9, t1), (k2, 14, t2), (k3, 20, t3)]) md5_rows1)"
  "rfc_round 2 = concat (map (\<lambda>((k0, t0), (k1, t1), (k2, t2), (k3, t3)). [(k0, 4, t0), (k1, 11, t1), (k2, 16, t2), (k3, 23, t3)]) md5_rows2)"
  "rfc_round 3 = concat (map (\<lambda>((k0, t0), (k1, t1), (k2, t2), (k3, t3)). [(k0, 6, t0), (k1, 10, t1), (k2, 15, t2), (k3, 21, t3)]) md5_rows3)"
  by (simp_all add: rfc_round_def rfc_word_def rfc_shift_def rfc_T_def
      md5_rows0_def md5_rows1_def md5_rows2_def md5_rows3_def upt_conv_Cons)

lemma md5_groups_steps:
  assumes "\<And>a b c d k s t. s < 32 \<Longrightarrow> R a b c d k s t = b + word_rotl s (a + rfc_fun r b c d + k + t)"
    "s0 < 32" "s1 < 32" "s2 < 32" "s3 < 32"
  shows "foldl (md5_group R (s0, s1, s2, s3) X) v rows = foldl (gstep r X) v
     (concat (map (\<lambda>((k0, t0), (k1, t1), (k2, t2), (k3, t3)). [(k0, s0, t0), (k1, s1, t1), (k2, s2, t2), (k3, s3, t3)]) rows))"
proof (induction rows arbitrary: v)
  case (Cons row rows)
  obtain k0 t0 k1 t1 k2 t2 k3 t3 where "row = ((k0, t0), (k1, t1), (k2, t2), (k3, t3))" by (metis surj_pair)
  then show ?case using Cons by (simp only: md5_group_steps [OF assms] list.map concat.simps foldl_append foldl_Cons prod.case)
qed simp

lemma md5_rounds_rfc: "md5_rounds X v = foldl (rfc_step X) v [0..<64]"
proof -
  have "[0..<64] = [16 * 0 ..< 16 * 0 + 16] @ [16 * 1 ..< 16 * 1 + 16] @ [16 * 2 ..< 16 * 2 + 16] @ [16 * 3 ..< 16 * 3 + (16::nat)]"
    by (simp add: upt_conv_Cons)
  then show ?thesis
    unfolding md5_rounds_def Let_def
    by (simp only: foldl_append rfc_round_steps rfc_rounds md5_groups_steps [OF md5_R_steps(1)]
        md5_groups_steps [OF md5_R_steps(2)] md5_groups_steps [OF md5_R_steps(3)] md5_groups_steps [OF md5_R_steps(4)]
        rel_simps)
qed

lemma bytes_plus_or:
  assumes "\<And>j. bit a j \<Longrightarrow> j < n"
  shows "a + push_bit n b = a OR push_bit n (b :: 'w::len word)"
proof (rule disjunctive_add_eq_or)
  show "a AND push_bit n b = 0" using assms by (intro bit_word_eqI) (auto simp: bit_simps dest: leD)
qed

lemma HOST_c2l_sum: "HOST_c2l M i = (\<Sum>j\<leftarrow>[0..<4]. ucast (M ! (i + j)) * 256 ^ j)"
proof -
  have byte: "bit (ucast b :: 32 word) j \<Longrightarrow> j < 8" for b :: byte and j
    by (auto simp: bit_simps dest: bit_imp_le_length)
  have "(\<Sum>j\<leftarrow>[0..<4]. ucast (M ! (i + j)) * 256 ^ j) = (ucast (M ! i) + push_bit 8 (ucast (M ! (i + 1)))
      + push_bit 16 (ucast (M ! (i + 2))) + push_bit 24 (ucast (M ! (i + 3))) :: 32 word)"
    by (simp add: push_bit_eq_mult upt_conv_Cons numeral_3_eq_3)
  also have "\<dots> = ((ucast (M ! i) OR push_bit 8 (ucast (M ! (i + 1)))) + push_bit 16 (ucast (M ! (i + 2))))
      + push_bit 24 (ucast (M ! (i + 3)))"
    by (subst bytes_plus_or [OF byte]) simp_all
  also have "\<dots> = ((ucast (M ! i) OR push_bit 8 (ucast (M ! (i + 1)))) OR push_bit 16 (ucast (M ! (i + 2))))
      + push_bit 24 (ucast (M ! (i + 3)))"
    by (subst bytes_plus_or) (auto simp: bit_simps dest: byte bit_imp_le_length)
  also have "\<dots> = HOST_c2l M i"
    by (subst bytes_plus_or) (auto simp: HOST_c2l_def or.assoc bit_simps dest: byte bit_imp_le_length)
  finally show ?thesis ..
qed

lemma HOST_l2c_bytes: "HOST_l2c w = le_bytes 4 w"
proof -
  have "ucast (x AND 0xff) = (ucast x :: byte)" for x :: "32 word"
  proof -
    have "(0xff :: 32 word) = mask 8" by (simp add: mask_eq_exp_minus_1)
    show ?thesis unfolding \<open>0xff = mask 8\<close> by (intro bit_word_eqI) (simp add: bit_simps)
  qed
  then show ?thesis by (simp add: HOST_l2c_def le_bytes_def upt_conv_Cons)
qed

lemma le_bytes_words:
  "le_bytes 4 (of_nat n :: 32 word) @ le_bytes 4 (of_nat (n div 2 ^ 32) :: 32 word) = le_bytes 8 (of_nat n :: 64 word)"
proof -
  have "ucast (drop_bit j (of_nat n :: 32 word)) = (ucast (drop_bit j (of_nat n :: 64 word)) :: byte)" if "j \<le> 24" for j
    using that by (intro bit_word_eqI) (auto simp: bit_simps)
  note low = this
  have "ucast (drop_bit j (of_nat (n div 2 ^ 32) :: 32 word)) = (ucast (drop_bit (j + 32) (of_nat n :: 64 word)) :: byte)" if "j \<le> 24" for j
  proof (rule bit_word_eqI)
    fix i assume "i < LENGTH(8)"
    moreover have "n div 2 ^ 32 = drop_bit 32 n" by (simp add: drop_bit_eq_div)
    ultimately show "bit (ucast (drop_bit j (of_nat (n div 2 ^ 32) :: 32 word)) :: byte) i
        = bit (ucast (drop_bit (j + 32) (of_nat n :: 64 word)) :: byte) i"
      using that by (simp only: bit_simps) (simp add: ac_simps bit_simps)
  qed
  note high = this
  show ?thesis using low [of 0] high [of 0] high [of 8] high [of 16] high [of 24]
    by (simp add: le_bytes_def upt_conv_Cons low)
qed

section \<open>Blocks\<close>

definition md5_regs :: "md5_ctx \<Rightarrow> md5_regs" where
  "md5_regs c = (md_A c, md_B c, md_C c, md_D c)"

definition md5_with :: "md5_regs \<Rightarrow> md5_ctx \<Rightarrow> md5_ctx" where
  "md5_with h c = (let (a, b, c', d) = h in c\<lparr>md_A := a, md_B := b, md_C := c', md_D := d\<rparr>)"

lemma md5_with_simps [simp]:
  "md5_regs (md5_with h c) = h" "md5_with h (md5_with g c) = md5_with h c" "md5_with (md5_regs c) c = c"
  "md_Nl (md5_with h c) = md_Nl c" "md_Nh (md5_with h c) = md_Nh c"
  "md_data (md5_with h c) = md_data c" "md_num (md5_with h c) = md_num c"
  "md5_regs (c\<lparr>md_Nl := l\<rparr>) = md5_regs c" "md5_regs (c\<lparr>md_Nh := l\<rparr>) = md5_regs c"
  "md5_regs (c\<lparr>md_data := p\<rparr>) = md5_regs c" "md5_regs (c\<lparr>md_num := k\<rparr>) = md5_regs c"
  by (simp_all add: md5_regs_def md5_with_def split: prod.split)

lemma rfc_words_code: "map (\<lambda>i. HOST_c2l M (4 * i)) [0..<16] = rfc_words M"
  by (simp only: rfc_words_def HOST_c2l_sum)

lemma md5_block_one: "md5_block_data_order c M (Suc n)
    = md5_block_data_order (md5_with (rfc_compress (md5_regs c) M) c) (drop 64 M) n"
  by (simp only: md5_block_data_order.simps(2) rfc_words_code md5_rounds_rfc rfc_compress_def md5_regs_def
      md5_with_def Let_def split: prod.split) simp

lemma rfc_words_take: "64 \<le> length M \<Longrightarrow> rfc_words (take 64 M) = rfc_words M"
  by (simp add: rfc_words_def upt_conv_Cons)

lemma rfc_compress_take: "64 \<le> length M \<Longrightarrow> rfc_compress h (take 64 M) = rfc_compress h M"
  by (simp add: rfc_compress_def rfc_words_take)

lemma md5_block_absorb:
  "64 * n \<le> length M \<Longrightarrow>
   md5_block_data_order c M n = md5_with (absorb rfc_compress (md5_regs c) (take (64 * n) M)) c"
proof (induction n arbitrary: c M)
  case 0
  then show ?case by (simp add: md5_block_data_order.simps absorb_short)
next
  case (Suc n)
  have "take (64 * Suc n) M = take 64 M @ take (64 * n) (drop 64 M)"
    by (simp only: mult_Suc_right take_add)
  moreover have "length (take 64 M) = 64" using Suc.prems by simp
  ultimately have "absorb rfc_compress h (take (64 * Suc n) M)
      = absorb rfc_compress (rfc_compress h M) (take (64 * n) (drop 64 M))" for h
    using Suc.prems by (simp only: absorb_block) (simp add: rfc_compress_take)
  moreover have "64 * n \<le> length (drop 64 M)" using Suc.prems by simp
  ultimately show ?case
    by (simp add: md5_block_one Suc.IH del: md5_block_data_order.simps mult_Suc_right length_drop)
qed

lemma md5_block_1: "length p = 64 \<Longrightarrow> md5_block_data_order c p 1 = md5_with (rfc_compress (md5_regs c) p) c"
  using md5_block_absorb [of 1 p c] absorb_block [of p rfc_compress "md5_regs c" "[]"]
  by (simp add: absorb_short)

lemma md5_whole_blocks_absorb:
  "md5_whole_blocks c M = (let c' = md5_with (absorb rfc_compress (md5_regs c) M) c
     in if tail64 M = [] then c'
        else c'\<lparr>md_num := of_nat (length (tail64 M)), md_data := write_at (md_data c) 0 (tail64 M)\<rparr>)"
proof -
  let ?n = "length M div 64"
  have all: "(if ?n > 0 then (md5_block_data_order c M ?n, drop (?n * 64) M) else (c, M))
      = (md5_with (absorb rfc_compress (md5_regs c) M) c, tail64 M)"
  proof (cases "?n > 0")
    case True
    then show ?thesis
      using md5_block_absorb [of ?n M c] absorb_take_blocks [of rfc_compress "md5_regs c" M]
      by (simp add: tail64_def mult.commute)
  next
    case False
    then show ?thesis by (simp add: absorb_short tail64_short not_less div_eq_0_iff)
  qed
  show ?thesis unfolding md5_whole_blocks_def all Let_def prod.case by simp
qed

section \<open>The streaming interface\<close>

text \<open>The number of bits in the two words of the context.\<close>

definition bits_lo :: "nat \<Rightarrow> 32 word" where
  "bits_lo n = of_nat (8 * n)"

definition bits_hi :: "nat \<Rightarrow> 32 word" where
  "bits_hi n = of_nat (8 * n div 2 ^ 32)"

definition md5_rep :: "md5_ctx \<Rightarrow> byte list \<Rightarrow> bool" where
  "md5_rep c m \<longleftrightarrow> md5_regs c = absorb rfc_compress rfc_iv m
     \<and> md_Nl c = bits_lo (length m) \<and> md_Nh c = bits_hi (length m)
     \<and> md_num c = of_nat (length m mod 64) \<and> length (md_data c) = 64
     \<and> take (length m mod 64) (md_data c) = tail64 m"

lemma md5_regs_Init: "md5_regs MD5_Init = rfc_iv"
  by (simp add: MD5_Init_def md5_regs_def rfc_iv_def)

lemma md5_rep_init: "md5_rep MD5_Init []"
  by (simp add: md5_rep_def MD5_Init_def md5_regs_def rfc_iv_def bits_lo_def bits_hi_def absorb_short tail64_short)

lemma md5_count:
  "bits_lo m + push_bit 3 (ucast (of_nat n :: 64 word)) = bits_lo (m + n)"
  "(if bits_lo (m + n) < bits_lo m then bits_hi m + 1 else bits_hi m) + ucast (drop_bit 29 (of_nat n :: 64 word))
    = bits_hi (m + n)"
proof -
  have "push_bit 3 (ucast (of_nat n :: 64 word)) = (of_nat (8 * n) :: 32 word)"
  proof -
    have "8 * n = push_bit 3 n" by (simp add: push_bit_eq_mult)
    then show ?thesis by (simp only:) (intro bit_word_eqI, auto simp: bit_simps)
  qed
  then show "bits_lo m + push_bit 3 (ucast (of_nat n :: 64 word)) = bits_lo (m + n)"
    by (simp add: bits_lo_def distrib_left)
  define q r where "q = 8 * m div 2 ^ 32" and "r = 8 * m mod 2 ^ 32"
  have m: "8 * m = 2 ^ 32 * q + r" unfolding q_def r_def by (rule mult_div_mod_eq [symmetric])
  have r: "r < 2 ^ 32" unfolding r_def by (rule mod_less_divisor) simp
  have zero: "(of_nat (2 ^ 32 * q + k) :: 32 word) = of_nat k" for k
    by (simp only: word_of_nat_eq_iff take_bit_eq_mod) simp
  have "8 * (m + n) = 2 ^ 32 * q + (8 * n + r)" using m by (simp add: distrib_left)
  then have w: "bits_lo m = of_nat r" "bits_lo (m + n) = of_nat (8 * n) + of_nat r"
    unfolding bits_lo_def by (simp_all only: m zero) (simp only: of_nat_add)
  have "ucast (drop_bit 29 (of_nat n :: 64 word)) = (of_nat (8 * n div 2 ^ 32) :: 32 word)"
  proof -
    have "8 * n div 2 ^ 32 = drop_bit 29 n" by (simp add: drop_bit_eq_div)
    then show ?thesis by (simp only:) (intro bit_word_eqI, auto simp: bit_simps)
  qed
  moreover have "8 * (m + n) div 2 ^ 32 = q + (8 * n + r) div 2 ^ 32"
    using m by (simp add: distrib_left)
  ultimately show "(if bits_lo (m + n) < bits_lo m then bits_hi m + 1 else bits_hi m)
      + ucast (drop_bit 29 (of_nat n :: 64 word)) = bits_hi (m + n)"
    unfolding w bits_hi_def q_def [symmetric] using count_carry [OF r, of "8 * n"] by auto
qed

lemma ucast_count: "ucast (of_nat n :: 64 word) = (of_nat n :: 32 word)"
  by (intro bit_word_eqI) (auto simp: bit_simps)

lemma md5_num: "unat (of_nat (n mod 64) :: 32 word) = n mod 64"
proof -
  have "n mod 64 < 64" by simp
  then have "n mod 64 < 2 ^ 32" by (rule less_trans) simp
  then show ?thesis by (simp only: unsigned_of_nat take_bit_eq_mod) (simp add: mod_less)
qed

text \<open>The last part of an update, on a context that holds nothing back.\<close>

lemma md5_whole_blocks_rep:
  assumes "md_num c = 0" "length (md_data c) = 64" "md5_regs c = absorb rfc_compress rfc_iv p"
    "tail64 p = []" "md_Nl c = bits_lo (length (p @ d))" "md_Nh c = bits_hi (length (p @ d))"
  shows "md5_rep (md5_whole_blocks c d) (p @ d)"
proof -
  have "length (p @ d) mod 64 = length (tail64 d)"
    using assms(4) tail64_append [of p d] length_tail64 [of "p @ d"] by simp
  moreover have "absorb rfc_compress rfc_iv (p @ d) = absorb rfc_compress (md5_regs c) d"
    using assms(3,4) absorb_append [of rfc_compress rfc_iv p d] by simp
  moreover have "tail64 (p @ d) = tail64 d" using assms(4) tail64_append [of p d] by simp
  ultimately show ?thesis
    using assms(1,2,5,6) by (simp add: md5_whole_blocks_absorb md5_rep_def Let_def take_write_at_more less_imp_le
        del: length_append)
qed

lemma md5_rep_update:
  assumes rep: "md5_rep c m"
  shows "md5_rep (MD5_Update c d) (m @ d)"
proof (cases "d = []")
  case True
  with rep show ?thesis by (simp add: MD5_Update_def)
next
  case False
  let ?n = "length m mod 64"
  define c1 where "c1 = c\<lparr>md_Nl := bits_lo (length (m @ d)), md_Nh := bits_hi (length (m @ d))\<rparr>"
  have c: "md5_regs c = absorb rfc_compress rfc_iv m" "md_Nl c = bits_lo (length m)"
      "md_Nh c = bits_hi (length m)" "unat (md_num c) = ?n" "length (md_data c) = 64"
      "take ?n (md_data c) = tail64 m"
    using rep by (simp_all add: md5_rep_def md5_num)
  have len: "length (tail64 m) = ?n" by (rule length_tail64)
  let ?l = "(md_Nl c + push_bit 3 (ucast (of_nat (length d) :: 64 word))) AND 0xffffffff"
  have l: "?l = bits_lo (length (m @ d))"
    by (simp add: c md5_count(1))
  have counts: "(let c = (if ?l < md_Nl c then c\<lparr>md_Nh := md_Nh c + 1\<rparr> else c);
      c = c\<lparr>md_Nh := md_Nh c + ucast (drop_bit 29 (of_nat (length d) :: 64 word))\<rparr> in c\<lparr>md_Nl := ?l\<rparr>) = c1"
    using md5_count(2) [of "length m" "length d"] unfolding l by (auto simp: c1_def c Let_def)
  have upd: "MD5_Update c d =
     (if ?n \<noteq> 0
      then if length d \<ge> 64 \<or> length d + ?n \<ge> 64
        then let p = write_at (md_data c1) ?n (take (64 - ?n) d);
                 c = md5_block_data_order (c1\<lparr>md_data := p\<rparr>) p 1
             in md5_whole_blocks (c\<lparr>md_num := 0, md_data := replicate 64 0\<rparr>) (drop (64 - ?n) d)
        else c1\<lparr>md_data := write_at (md_data c1) ?n d, md_num := md_num c1 + ucast (of_nat (length d) :: 64 word)\<rparr>
      else md5_whole_blocks c1 d)"
    using False unfolding MD5_Update_def counts [symmetric] by (simp add: Let_def c)
  have c1: "md5_regs c1 = absorb rfc_compress rfc_iv m" "md_num c1 = of_nat ?n" "length (md_data c1) = 64"
      "take ?n (md_data c1) = tail64 m" "md_Nl c1 = bits_lo (length (m @ d))"
      "md_Nh c1 = bits_hi (length (m @ d))"
    using rep by (simp_all add: md5_rep_def c1_def)
  consider "?n = 0" | "?n \<noteq> 0" "length d + ?n < 64" | "?n \<noteq> 0" "64 \<le> length d + ?n" by linarith
  then show ?thesis
  proof cases
    case 1
    then have "md5_rep (md5_whole_blocks c1 d) (m @ d)"
      using c1 len by (intro md5_whole_blocks_rep) simp_all
    with 1 show ?thesis by (simp add: upd)
  next
    case 2
    have "length (m @ d) mod 64 = ?n + length d"
      using 2 by (metis add.commute length_append mod_add_left_eq mod_less)
    with 2 c1 len absorb_append [of rfc_compress rfc_iv m d] tail64_append [of m d] show ?thesis
      by (simp add: upd md5_rep_def absorb_held take_write_at_more add.commute ucast_count)
  next
    case 3
    let ?a = "take (64 - ?n) d" and ?b = "drop (64 - ?n) d"
    have n: "?n < 64" by simp
    have p: "write_at (md_data c1) ?n ?a = tail64 m @ ?a"
      using 3 n c1 by (simp add: write_at_def)
    have "length (tail64 m @ ?a) = 64" using 3 n len by simp
    note block = md5_block_1 [OF this]
    have "absorb rfc_compress rfc_iv (m @ ?a) = rfc_compress (md5_regs c1) (tail64 m @ ?a)"
      "tail64 (m @ ?a) = []"
      using \<open>length (tail64 m @ ?a) = 64\<close> absorb_block [of "tail64 m @ ?a" rfc_compress "md5_regs c1" "[]"]
        absorb_append [of rfc_compress rfc_iv m ?a] tail64_append [of m ?a] tail64_block [of "tail64 m @ ?a" "[]"]
      by (simp_all add: c1 absorb_short tail64_short)
    then have "md5_rep (md5_whole_blocks ((md5_with (rfc_compress (md5_regs c1) (tail64 m @ ?a))
        (c1\<lparr>md_data := tail64 m @ ?a\<rparr>))\<lparr>md_num := 0, md_data := replicate 64 0\<rparr>) ?b) ((m @ ?a) @ ?b)"
      using c1 by (intro md5_whole_blocks_rep) simp_all
    moreover have "MD5_Update c d = md5_whole_blocks ((md5_with (rfc_compress (md5_regs c1) (tail64 m @ ?a))
        (c1\<lparr>md_data := tail64 m @ ?a\<rparr>))\<lparr>md_num := 0, md_data := replicate 64 0\<rparr>) ?b"
      using 3 by (simp only: upd p Let_def block if_True if_False) simp
    ultimately show ?thesis by simp
  qed
qed

lemma write_at_rest: "n + length ys = length xs \<Longrightarrow> write_at xs n ys = take n xs @ ys"
  by (simp add: write_at_def)

lemma md5_make_string_out: "md5_make_string c = rfc_out (md5_regs c)"
  by (simp add: md5_make_string_def md5_regs_def HOST_l2c_bytes)

lemma md5_final_rep:
  assumes rep: "md5_rep c m"
  shows "fst (MD5_Final c) = rfc_md5 m"
proof -
  define r where "r = length m mod 64"
  define p where "p = (md_data c)[r := 0x80]"
  define size where "size = HOST_l2c (md_Nl c) @ HOST_l2c (md_Nh c)"
  define h where "h = absorb rfc_compress rfc_iv m"
  have r: "r < 64" "length (tail64 m) = r" by (simp_all add: r_def length_tail64)
  have c: "md5_regs c = h" "unat (md_num c) = r" "length p = 64"
    using rep by (simp_all add: md5_rep_def md5_num r_def h_def p_def)
  have p1: "take (r + 1) p = tail64 m @ [0x80]"
    using rep r by (simp add: md5_rep_def p_def r_def take_Suc_conv_app_nth)
  have size: "size = le_bytes 8 (of_nat (8 * length m) :: 64 word)" "length size = 8"
    using rep le_bytes_words [of "8 * length m"]
    by (simp_all add: size_def md5_rep_def HOST_l2c_bytes bits_lo_def bits_hi_def le_bytes_def)
  have digest: "rfc_md5 m = rfc_out (absorb rfc_compress h
      (tail64 m @ [0x80] @ replicate ((119 - r) mod 64) 0 @ size))"
    unfolding rfc_md5_def md_digest_def pad64_def size(1) [symmetric] r_def [symmetric] h_def
    by (simp only: absorb_append [of _ _ m])
  show ?thesis
  proof (cases "r < 56")
    case True
    have one: "write_at (write_at p (r + 1) (replicate (56 - (r + 1)) 0)) 56 size
        = tail64 m @ [0x80] @ replicate (55 - r) 0 @ size"
      using True c p1 size(2) by (simp add: write_at_rest take_write_at_more)
    have "length (tail64 m @ [0x80] @ replicate (55 - r) 0 @ size) = 64" using True r size(2) by simp
    note block = md5_block_1 [OF this]
      absorb_block [OF this, where m = "[]" and f = rfc_compress]
    have "fst (MD5_Final c) = rfc_out (rfc_compress h (tail64 m @ [0x80] @ replicate (55 - r) 0 @ size))"
      using True c one block(1) [of c]
      by (simp add: MD5_Final_def Let_def p_def [symmetric] size_def [symmetric] md5_make_string_out)
    with True block(2) [of h] show ?thesis by (simp add: digest pad_zeros r absorb_short)
  next
    case False
    let ?p = "write_at p (r + 1) (replicate (64 - (r + 1)) 0)"
    have first: "?p = tail64 m @ [0x80] @ replicate (63 - r) 0"
      using False c p1 r by (simp add: write_at_rest)
    have second: "write_at (write_at ?p 0 (replicate 56 0)) 56 size = replicate 56 0 @ size"
      using c size(2) r by (simp add: write_at_rest take_write_at_more)
    have "length ?p = 64" using c r by simp
    note block1 = md5_block_1 [OF this] absorb_block [OF this, where f = rfc_compress]
    have "length (replicate 56 0 @ size) = 64" using size(2) by simp
    note block2 = md5_block_1 [OF this] absorb_block [OF this, where m = "[]" and f = rfc_compress]
    have "fst (MD5_Final c) = rfc_out (rfc_compress (rfc_compress h ?p) (replicate 56 0 @ size))"
      using False c second block1(1) [of c] block2(1)
      by (simp add: MD5_Final_def Let_def p_def [symmetric] size_def [symmetric] md5_make_string_out)
    moreover have padded: "tail64 m @ [0x80] @ replicate ((119 - r) mod 64) 0 @ size = ?p @ (replicate 56 0 @ size)"
      using False r unfolding first by (simp add: pad_zeros replicate_add [symmetric])
    ultimately show ?thesis unfolding digest padded block1(2) using block2(2) by (simp add: absorb_short)
  qed
qed

interpretation md5: streaming_hash rfc_md5 MD5_Init MD5_Update "\<lambda>c. fst (MD5_Final c)" md5_rep "2 ^ 64"
  by unfold_locales (simp_all add: md5_rep_init md5_rep_update md5_final_rep)

section \<open>Properties\<close>

text \<open>
  Over any number of whole blocks, \<^verbatim>\<open>md5_block_data_order\<close> with its unrolled rounds and
  shortened boolean functions is the 64-step loop of RFC 1321 applied block by block, and changes
  nothing but the four registers.
\<close>

theorem md5_blocks_rfc:
  assumes "64 * num \<le> length data"
  shows "md5_block_data_order c data num
    = md5_with (absorb rfc_compress (md5_regs c) (take (64 * num) data)) c"
  using assms by (rule md5_block_absorb)

theorem md5_blocks_rfc_witness:
  "md5_block_data_order MD5_Init (replicate 64 0) 1
     = md5_with (absorb rfc_compress rfc_iv (replicate 64 0)) MD5_Init"
  using md5_blocks_rfc [of 1 "replicate 64 0" MD5_Init] by (simp add: md5_regs_Init)

text \<open>
  C23: however a message is cut into pieces for \<^verbatim>\<open>MD5_Update\<close>, the digest that
  \<^verbatim>\<open>MD5_Final\<close> writes is the MD5 of RFC 1321 of the whole message, for the two-word bit
  counter, the buffered bytes and the padding of every length; so is that of the one-shot
  \<^verbatim>\<open>MD5\<close>.
\<close>

theorem md5_streaming:
  assumes "list_all (\<lambda>d. length d < 2 ^ 64) ds" "length (concat ds) < 2 ^ 64"
  shows "fst (MD5_Final (foldl MD5_Update MD5_Init ds)) = rfc_md5 (concat ds)
    \<and> MD5 (concat ds) = rfc_md5 (concat ds)"
  using md5.digest_of_pieces [of ds] md5.digest_one [of "concat ds"] assms by (simp add: list_all_iff MD5_def)

text \<open>The test vector of the RFC for the message \<open>abc\<close>.\<close>

definition abc_block :: "byte list" where
  "abc_block = [0x61, 0x62, 0x63, 0x80] @ replicate 52 0 @ [24, 0, 0, 0, 0, 0, 0, 0]"

definition abc_digest :: "byte list" where
  "abc_digest = [0x90, 0x01, 0x50, 0x98, 0x3c, 0xd2, 0x4f, 0xb0, 0xd6, 0x96, 0x3f, 0x7d, 0x28, 0xe1, 0x7f, 0x72]"

lemma abc_block_digest: "md5_make_string (md5_block_data_order MD5_Init abc_block 1) = abc_digest"
  by code_simp

lemma abc_padded: "pad64 (\<lambda>n. le_bytes 8 (of_nat (8 * n) :: 64 word)) (str ''abc'') = abc_block"
  by (simp add: pad64_def abc_block_def le_bytes_def upt_conv_Cons)

lemma rfc_md5_abc: "rfc_md5 (str ''abc'') = abc_digest"
proof -
  have "length abc_block = 64" by (simp add: abc_block_def)
  note block = md5_block_1 [OF this, of MD5_Init] absorb_block [OF this, where m = "[]" and f = rfc_compress]
  have "rfc_md5 (str ''abc'') = rfc_out (rfc_compress rfc_iv abc_block)"
    unfolding rfc_md5_def md_digest_def abc_padded using block(2) [of rfc_iv] by (simp add: absorb_short)
  also have "\<dots> = md5_make_string (md5_block_data_order MD5_Init abc_block 1)"
    by (simp only: block(1) md5_make_string_out md5_with_simps md5_regs_Init)
  finally show ?thesis by (simp only: abc_block_digest)
qed

theorem md5_streaming_witness:
  "fst (MD5_Final (foldl MD5_Update MD5_Init [str ''a'', [], str ''bc''])) = abc_digest"
  using md5_streaming [of "[str ''a'', [], str ''bc'']"] rfc_md5_abc by simp

end
