(* ===== verification/Mpi.thy ===== *)
theory Mpi
  imports Prelude
begin

text \<open>
  Numbers of 256 bits with a sign, \<^verbatim>\<open>agreement/mpi.c\<close>: assignment, addition and subtraction,
  comparison, multiplication and squaring, shifts, and the conversions from and to bytes. A
  number holds eight words, the least significant first, of which the first
  \<^verbatim>\<open>m_iLengthInInts\<close> count; the words behind them keep what was there before. A local variable of
  the code that is not initialised is a parameter \<open>g\<close> (or \<open>g1\<close>, \<open>g2\<close>) of the model. The
  routines get values, not pointers: the operands of a call are different variables, or the
  same variable read before it is written. A predicate that the code returns as
  \<^verbatim>\<open>int\<close> is a \<open>bool\<close>.
\<close>

section \<open>Numbers\<close>

record cmpi =
  m_aiMyInt :: "32 word list"
  m_iCarry :: "32 word"
  m_iMySign :: int
  m_iLengthInInts :: nat

record cmpl =
  mpl_h :: cmpi
  mpl_l :: cmpi

abbreviation MPI_LENGTH :: nat where
  "MPI_LENGTH \<equiv> 8"

abbreviation POSITIVE :: int where
  "POSITIVE \<equiv> 1"

abbreviation NEGTIVE :: int where
  "NEGTIVE \<equiv> - 1"

definition CMpi_Assign_d :: "cmpi \<Rightarrow> 32 word \<Rightarrow> cmpi" where
  "CMpi_Assign_d n iInitial =
     n\<lparr>m_iMySign := POSITIVE, m_iLengthInInts := (if iInitial = 0 then 0 else 1),
       m_aiMyInt := (m_aiMyInt n)[0 := iInitial], m_iCarry := 0\<rparr>"

text \<open>\<open>b = a\<close>: only the words that count are copied.\<close>

definition CMpi_Assign :: "cmpi \<Rightarrow> cmpi \<Rightarrow> cmpi" where
  "CMpi_Assign a b =
     b\<lparr>m_iMySign := m_iMySign a, m_iLengthInInts := m_iLengthInInts a, m_iCarry := 0,
       m_aiMyInt := foldl (\<lambda>w i. w[i := m_aiMyInt a ! i]) (m_aiMyInt b) (rev [0..<m_iLengthInInts a])\<rparr>"

definition CMpi_Negate :: "cmpi \<Rightarrow> cmpi \<Rightarrow> cmpi" where
  "CMpi_Negate a b =
     (let b = CMpi_Assign a b
      in b\<lparr>m_iMySign := (if m_iMySign a = POSITIVE then NEGTIVE else POSITIVE)\<rparr>)"

definition CMpi_ChangeSign :: "cmpi \<Rightarrow> cmpi" where
  "CMpi_ChangeSign n = n\<lparr>m_iMySign := m_iMySign n * -1\<rparr>"

definition CMpi_IsNegative :: "cmpi \<Rightarrow> bool" where
  "CMpi_IsNegative n \<longleftrightarrow> m_iMySign n = NEGTIVE"

text \<open>The words down from an index that are zero.\<close>

fun top_word :: "32 word list \<Rightarrow> nat \<Rightarrow> nat" where
  "top_word w 0 = 0"
| "top_word w (Suc i) = (if w ! i \<noteq> 0 then Suc i else top_word w i)"

definition CMpi_Regularize :: "cmpi \<Rightarrow> cmpi" where
  "CMpi_Regularize n = n\<lparr>m_iLengthInInts := top_word (m_aiMyInt n) (m_iLengthInInts n)\<rparr>"

section \<open>Comparison\<close>

fun larger_abs_loop :: "cmpi \<Rightarrow> cmpi \<Rightarrow> nat \<Rightarrow> bool" where
  "larger_abs_loop a b 0 = False"
| "larger_abs_loop a b (Suc i) =
     (if m_iLengthInInts a > i \<and> m_iLengthInInts b > i then
        if m_aiMyInt a ! i > m_aiMyInt b ! i then True
        else if m_aiMyInt a ! i < m_aiMyInt b ! i then False
        else larger_abs_loop a b i
      else if m_iLengthInInts a \<le> i then
        if m_aiMyInt b ! i \<noteq> 0 then False else larger_abs_loop a b i
      else if m_aiMyInt a ! i \<noteq> 0 then True else larger_abs_loop a b i)"

definition CMpi_LargerThan_abs :: "cmpi \<Rightarrow> cmpi \<Rightarrow> bool" where
  "CMpi_LargerThan_abs a b = larger_abs_loop a b (max (m_iLengthInInts a) (m_iLengthInInts b))"

fun equals_loop :: "cmpi \<Rightarrow> cmpi \<Rightarrow> nat \<Rightarrow> bool" where
  "equals_loop a b 0 = True"
| "equals_loop a b (Suc i) =
     (if m_iLengthInInts a > i \<and> m_iLengthInInts b > i then
        if m_aiMyInt a ! i \<noteq> m_aiMyInt b ! i then False else equals_loop a b i
      else if m_iLengthInInts a \<le> i then
        if m_aiMyInt b ! i \<noteq> 0 then False else equals_loop a b i
      else if m_aiMyInt a ! i \<noteq> 0 then False else equals_loop a b i)"

definition CMpi_EqualsTo :: "cmpi \<Rightarrow> cmpi \<Rightarrow> bool" where
  "CMpi_EqualsTo a b = equals_loop a b (max (m_iLengthInInts a) (m_iLengthInInts b))"

definition CMpi_EqualsTo_d :: "cmpi \<Rightarrow> 32 word \<Rightarrow> bool" where
  "CMpi_EqualsTo_d a n =
     (if m_iLengthInInts a = 1 \<and> n = m_aiMyInt a ! 0 then True
      else if m_iLengthInInts a = 0 \<and> n = 0 then True
      else if list_ex (\<lambda>i. m_aiMyInt a ! i \<noteq> 0) [1..<m_iLengthInInts a] then False
      else n = m_aiMyInt a ! 0)"

definition CMpi_LargerThan :: "cmpi \<Rightarrow> cmpi \<Rightarrow> bool" where
  "CMpi_LargerThan a b =
     (if m_iMySign a \<noteq> NEGTIVE then
        if m_iMySign b = NEGTIVE then True
        else if m_iMySign a = POSITIVE then
          if m_iMySign b = POSITIVE then CMpi_LargerThan_abs a b else False
        else False
      else if m_iMySign b \<noteq> NEGTIVE then False
      else CMpi_LargerThan_abs a b)"

definition CMpi_ComparesTo :: "cmpi \<Rightarrow> cmpi \<Rightarrow> int" where
  "CMpi_ComparesTo a b =
     (if CMpi_EqualsTo a b then 0 else if CMpi_LargerThan a b then 1 else -1)"

section \<open>Addition and subtraction\<close>

text \<open>One round of the additions: the sum so far in 64 bits, its lower half stored.\<close>

fun add_word :: "(32 word list \<Rightarrow> nat \<Rightarrow> 64 word) \<Rightarrow> 32 word list \<times> 64 word \<Rightarrow> nat \<Rightarrow> 32 word list \<times> 64 word" where
  "add_word operand (w, direg) i =
     (let direg = direg + operand w i in (w[i := ucast direg], drop_bit 32 direg))"

text \<open>\<^verbatim>\<open>CMpi_Add\<close> behind the tests of the signs.\<close>

definition add_words :: "cmpi \<Rightarrow> cmpi \<Rightarrow> cmpi" where
  "add_words a b =
     (let j = min (m_iLengthInInts a) (m_iLengthInInts b);
          (w, direg) = foldl (add_word (\<lambda>w i. ucast (w ! i) + ucast (m_aiMyInt b ! i)))
            (m_aiMyInt a, 0) [0..<j];
          (w, direg, j) =
            (if m_iLengthInInts a > m_iLengthInInts b then
               let (w, direg) = foldl (add_word (\<lambda>w i. ucast (w ! i))) (w, direg) [j..<m_iLengthInInts a]
               in (w, direg, m_iLengthInInts a)
             else
               let (w, direg) = foldl (add_word (\<lambda>w i. ucast (m_aiMyInt b ! i))) (w, direg) [j..<m_iLengthInInts b]
               in (w, direg, m_iLengthInInts b))
      in if j = MPI_LENGTH then a\<lparr>m_aiMyInt := w, m_iCarry := ucast direg, m_iLengthInInts := j\<rparr>
         else let w = w[j := ucast direg]
              in a\<lparr>m_aiMyInt := w, m_iLengthInInts := (if w ! j \<noteq> 0 then j + 1 else j)\<rparr>)"

text \<open>
  One round of the subtraction: \<open>direg\<close> holds \<open>2 ^ 32\<close> and the word of the minuend less the borrow.
  The word behind the array, which the last round reads and which is not used, is the
  next member of the structure.
\<close>

definition word_at :: "cmpi \<Rightarrow> nat \<Rightarrow> 32 word" where
  "word_at n i = (if i < length (m_aiMyInt n) then m_aiMyInt n ! i else m_iCarry n)"

fun sub_word :: "cmpi \<Rightarrow> (nat \<Rightarrow> 64 word) \<Rightarrow> 32 word list \<times> 64 word \<Rightarrow> nat \<Rightarrow> 32 word list \<times> 64 word" where
  "sub_word pm1 operand (w, direg) i =
     (let direg = direg - operand i
      in (w[i := ucast direg], drop_bit 32 direg + ucast (word_at pm1 (i + 1)) + 0xffffffff))"

text \<open>\<^verbatim>\<open>CMpi_Substract\<close> behind the test of the signs.\<close>

definition sub_words :: "cmpi \<Rightarrow> cmpi \<Rightarrow> cmpi" where
  "sub_words a b =
     (let (pm1, pm2, sign) =
            (if CMpi_LargerThan_abs b a
             then (b, a, if m_iMySign b = POSITIVE then NEGTIVE else POSITIVE)
             else (a, b, m_iMySign a));
          len2 = m_iLengthInInts pm2;
          j = max (m_iLengthInInts a) (m_iLengthInInts b);
          direg = 0x100000000 + ucast (word_at pm1 0);
          (w, direg) = foldl (sub_word pm1 (\<lambda>i. ucast (m_aiMyInt pm2 ! i))) (m_aiMyInt a, direg) [0..<len2];
          (w, direg) = foldl (sub_word pm1 (\<lambda>i. 0)) (w, direg) [len2..<j]
      in a\<lparr>m_aiMyInt := w, m_iMySign := sign, m_iLengthInInts := top_word w j\<rparr>)"

text \<open>
  The tests of the signs turn the one into the other, at most twice. \<open>g1\<close> and \<open>g2\<close> are the
  uninitialised local variables \<^verbatim>\<open>temp\<close> of the subtraction and the addition.
\<close>

function CMpi_Add :: "cmpi \<Rightarrow> cmpi \<Rightarrow> cmpi \<Rightarrow> cmpi \<Rightarrow> cmpi"
  and CMpi_Substract :: "cmpi \<Rightarrow> cmpi \<Rightarrow> cmpi \<Rightarrow> cmpi \<Rightarrow> cmpi"
where
  "CMpi_Add g1 g2 a b =
     (let a = a\<lparr>m_iCarry := 0\<rparr>
      in if m_iMySign a = POSITIVE \<and> m_iMySign b \<noteq> POSITIVE then CMpi_Substract g1 g2 a (CMpi_Negate b g2)
         else if m_iMySign a \<noteq> POSITIVE \<and> m_iMySign b = POSITIVE
         then CMpi_Substract g1 g2 (CMpi_Assign b a) (CMpi_Negate a g2)
         else add_words a b)"
| "CMpi_Substract g1 g2 a b =
     (let a = a\<lparr>m_iCarry := 0\<rparr>
      in if m_iMySign a \<noteq> m_iMySign b then CMpi_Add g1 g2 a (CMpi_Negate b g1)
         else sub_words a b)"
  by pat_completeness auto

termination
  by (relation "measure (case_sum
      (\<lambda>(g1, g2, a, b). if m_iMySign a = POSITIVE \<longleftrightarrow> m_iMySign b = POSITIVE then 0 else 1)
      (\<lambda>(g1, g2, a, b). if m_iMySign a = m_iMySign b then 0 else 2))")
    (auto simp: CMpi_Negate_def CMpi_Assign_def Let_def)

declare CMpi_Add.simps [simp del] CMpi_Substract.simps [simp del]

definition CMpi_Add2 :: "cmpi \<Rightarrow> cmpi \<Rightarrow> cmpi \<Rightarrow> cmpi \<Rightarrow> cmpi \<Rightarrow> cmpi" where
  "CMpi_Add2 g1 g2 a b c = CMpi_Add g1 g2 (CMpi_Assign a c) b"

definition CMpi_Substract2 :: "cmpi \<Rightarrow> cmpi \<Rightarrow> cmpi \<Rightarrow> cmpi \<Rightarrow> cmpi \<Rightarrow> cmpi" where
  "CMpi_Substract2 g1 g2 a b c = CMpi_Substract g1 g2 (CMpi_Assign a c) b"

section \<open>Multiplication\<close>

text \<open>A loop whose body may leave the arrays.\<close>

fun for_each :: "('s \<Rightarrow> 'x \<Rightarrow> 's outcome) \<Rightarrow> 'x list \<Rightarrow> 's \<Rightarrow> 's outcome" where
  "for_each f [] s = Ret s"
| "for_each f (x # xs) s = obind (f s x) (for_each f xs)"

definition CMpi_Multiply_d :: "cmpi \<Rightarrow> 32 word \<Rightarrow> cmpi" where
  "CMpi_Multiply_d a n =
     (let a = a\<lparr>m_iCarry := 0\<rparr>
      in if n = 0 then a\<lparr>m_iMySign := POSITIVE, m_iLengthInInts := 0, m_aiMyInt := (m_aiMyInt a)[0 := 0]\<rparr>
         else let i = m_iLengthInInts a;
                  (w, icarry) = foldl (\<lambda>(w, icarry :: 32 word) i.
                       let direg = ucast (w ! i) * ucast n + ucast icarry :: 64 word
                       in (w[i := ucast direg], ucast (drop_bit 32 direg)))
                     (m_aiMyInt a, 0) [0..<i]
              in if i = MPI_LENGTH then a\<lparr>m_aiMyInt := w, m_iCarry := icarry\<rparr>
                 else let w = w[i := icarry]
                      in a\<lparr>m_aiMyInt := w, m_iLengthInInts := (if w ! i \<noteq> 0 then i + 1 else i)\<rparr>)"

text \<open>\<^verbatim>\<open>while (sum)\<close>: the carry runs up the words of the product.\<close>

function mul_carry :: "32 word list \<Rightarrow> nat \<Rightarrow> 64 word \<Rightarrow> 32 word list outcome" where
  "mul_carry r j s =
     (if s = 0 then Ret r
      else if j < length r then
        let s = s + ucast (r ! j) in mul_carry (r[j := ucast s]) (j + 1) (drop_bit 32 s)
      else Fault)"
  by pat_completeness auto
termination by (relation "measure (\<lambda>(r, j, s). length r - j)") auto

declare mul_carry.simps [simp del]

definition mul_word :: "cmpi \<Rightarrow> cmpi \<Rightarrow> nat \<Rightarrow> 32 word list \<Rightarrow> nat \<Rightarrow> 32 word list outcome" where
  "mul_word a b k r i =
     (let n = k - i
      in if m_iLengthInInts a > i \<and> m_iLengthInInts b > n then
           if k + 1 < length r then
             let direg = ucast (m_aiMyInt a ! i) * ucast (m_aiMyInt b ! n) :: 64 word;
                 s = direg + ucast (r ! k);
                 r = r[k := ucast s];
                 s = drop_bit 32 s + ucast (r ! (k + 1));
                 r = r[k + 1 := ucast s]
             in mul_carry r (k + 2) (drop_bit 32 s)
           else Fault
         else Ret r)"

text \<open>The words of the product in two numbers, without the zeros at its end.\<close>

definition mul_store :: "32 word list \<Rightarrow> cmpl \<Rightarrow> cmpl" where
  "mul_store r c =
     (let rlen = top_word r (MPI_LENGTH * 2);
          h = mpl_h c; l = mpl_l c;
          (h, l) =
            (if rlen > MPI_LENGTH
             then (h\<lparr>m_iLengthInInts := rlen - MPI_LENGTH,
                     m_aiMyInt := foldl (\<lambda>w i. w[i := r ! (i + MPI_LENGTH)]) (m_aiMyInt h) [0..<rlen - MPI_LENGTH]\<rparr>,
                   l\<lparr>m_iLengthInInts := MPI_LENGTH\<rparr>)
             else (h\<lparr>m_iLengthInInts := 0\<rparr>, l\<lparr>m_iLengthInInts := rlen\<rparr>));
          l = l\<lparr>m_aiMyInt := foldl (\<lambda>w i. w[i := r ! i]) (m_aiMyInt l) [0..<m_iLengthInInts l]\<rparr>
      in c\<lparr>mpl_h := h, mpl_l := l\<rparr>)"

definition CMpi_Multiply :: "cmpi \<Rightarrow> cmpi \<Rightarrow> cmpl \<Rightarrow> cmpl outcome" where
  "CMpi_Multiply a b c =
     (let len = m_iLengthInInts a + m_iLengthInInts b
      in obind (for_each (\<lambda>r k. for_each (mul_word a b k) [0..<k + 1] r) [0..<len] (replicate (MPI_LENGTH * 2) 0))
           (\<lambda>r. let c = mul_store r c;
                     sign = (if m_iMySign a = m_iMySign b then POSITIVE else NEGTIVE)
                 in Ret (c\<lparr>mpl_h := (mpl_h c)\<lparr>m_iMySign := sign, m_iCarry := 0\<rparr>,
                           mpl_l := (mpl_l c)\<lparr>m_iMySign := sign, m_iCarry := 0\<rparr>\<rparr>)))"

definition CMpi_Truncate :: "cmpl \<Rightarrow> cmpi \<Rightarrow> cmpi" where
  "CMpi_Truncate a b = (CMpi_Assign (mpl_l a) b)\<lparr>m_iCarry := 0\<rparr>"

section \<open>Bytes\<close>

text \<open>The number of bytes of a word that count; the loops of the code run down from the last.\<close>

fun top_byte :: "32 word \<Rightarrow> nat \<Rightarrow> nat" where
  "top_byte u 0 = 0"
| "top_byte u (Suc i) = (if u AND push_bit (i * 8) 0xff \<noteq> 0 then Suc i else top_byte u i)"

text \<open>\<^verbatim>\<open>CMpi_GetLengthInBytes\<close> also drops the leading zero words of its argument.\<close>

definition CMpi_GetLengthInBytes :: "cmpi \<Rightarrow> nat \<times> cmpi" where
  "CMpi_GetLengthInBytes n =
     (let n = CMpi_Regularize n
      in if m_iLengthInInts n = 0 then (0, n)
         else (top_byte (m_aiMyInt n ! (m_iLengthInInts n - 1)) 4 + (m_iLengthInInts n - 1) * 4, n))"

text \<open>One byte of the import: the words, their number, the place of the byte in its word.\<close>

fun import_byte :: "32 word list \<times> nat \<times> nat \<Rightarrow> byte \<Rightarrow> 32 word list \<times> nat \<times> nat" where
  "import_byte (w, len, j) b =
     (let w = w[len := w ! len + push_bit (8 * j) (ucast b)]; j = j + 1
      in if j \<ge> 4 then (if len + 1 \<noteq> MPI_LENGTH then w[len + 1 := 0] else w, len + 1, 0)
         else (w, len, j))"

definition CMpi_Import :: "cmpi \<Rightarrow> byte list \<Rightarrow> nat \<times> cmpi" where
  "CMpi_Import n abContent =
     (let n = n\<lparr>m_iCarry := 0, m_iLengthInInts := 0, m_iMySign := POSITIVE\<rparr>
      in if length abContent > MPI_LENGTH * 4 then (0, n)
         else let (w, len, j) = foldl import_byte ((m_aiMyInt n)[0 := 0], 0, 0) (rev abContent);
                  len = (if j \<noteq> 0 then len + 1 else len)
              in (len, n\<lparr>m_aiMyInt := w, m_iLengthInInts := len\<rparr>))"

text \<open>
  The export returns the bytes it writes; their number is the result of the code. The read of
  the word before the first one, whose value is not used, is left out.
\<close>

definition word_bytes :: "32 word \<Rightarrow> nat \<Rightarrow> byte list" where
  "word_bytes u k = map (\<lambda>k. ucast (drop_bit (k * 8) u)) (rev [0..<k])"

text \<open>\<^verbatim>\<open>while (0 == (u >> (k*8))) k--\<close>\<close>

fun export_top :: "32 word \<Rightarrow> nat \<Rightarrow> nat" where
  "export_top u 0 = 0"
| "export_top u (Suc k) = (if drop_bit (k * 8) u = 0 then export_top u k else Suc k)"

definition CMpi_Export :: "cmpi \<Rightarrow> int \<Rightarrow> byte list" where
  "CMpi_Export n iMinLength =
     (let t = top_word (m_aiMyInt n) (m_iLengthInInts n)
      in if t = 0 then []
         else let j = t - 1;
                  u = m_aiMyInt n ! j;
                  k = export_top u 4;
                  iOut = j * 4 + k
              in replicate (nat (iMinLength - int iOut)) 0 @ word_bytes u k
                 @ concat (map (\<lambda>j. word_bytes (m_aiMyInt n ! j) 4) (rev [0..<j])))"

text \<open>\<^verbatim>\<open>for (i = 0; ...) if (UNSIGNEDLEFTBIT & (k << i)) break;\<close>\<close>

fun left_bit :: "32 word \<Rightarrow> nat \<Rightarrow> nat \<Rightarrow> nat" where
  "left_bit k i 0 = i"
| "left_bit k i (Suc rest) = (if 0x80000000 AND push_bit i k \<noteq> 0 then i else left_bit k (i + 1) rest)"

text \<open>For zero the code reads the word before the first one.\<close>

definition CMpi_GetLengthInBits :: "cmpi \<Rightarrow> nat outcome" where
  "CMpi_GetLengthInBits n =
     (let t = top_word (m_aiMyInt n) (m_iLengthInInts n)
      in if t = 0 then Fault
         else Ret (t * 8 * 4 - left_bit (m_aiMyInt n ! (t - 1)) 0 32))"

end
