(* ===== verification/Mpi_Value.thy ===== *)
theory Mpi_Value
  imports Mpi
begin

text \<open>
  What the numbers of \<open>Mpi\<close> stand for, and the addition, subtraction and comparison against the
  integers.
\<close>

section \<open>Values\<close>

text \<open>The value of the first \<open>i\<close> words of a sequence.\<close>

definition wsum :: "(nat \<Rightarrow> 32 word) \<Rightarrow> nat \<Rightarrow> nat" where
  "wsum f i = (\<Sum>k<i. unat (f k) * 2 ^ (32 * k))"

definition mpi_abs :: "cmpi \<Rightarrow> nat" where
  "mpi_abs n = wsum ((!) (m_aiMyInt n)) (m_iLengthInInts n)"

definition mpi_int :: "cmpi \<Rightarrow> int" where
  "mpi_int n = m_iMySign n * int (mpi_abs n)"

text \<open>With the word that an operation carried out of the eight.\<close>

definition mpi_full :: "cmpi \<Rightarrow> int" where
  "mpi_full n = m_iMySign n * int (mpi_abs n + unat (m_iCarry n) * 2 ^ 256)"

definition mpi_shape :: "cmpi \<Rightarrow> bool" where
  "mpi_shape n \<longleftrightarrow> length (m_aiMyInt n) = MPI_LENGTH \<and> m_iLengthInInts n \<le> MPI_LENGTH
     \<and> m_iMySign n \<in> {POSITIVE, NEGTIVE}"

text \<open>The last word that counts is not zero.\<close>

definition mpi_regular :: "cmpi \<Rightarrow> bool" where
  "mpi_regular n \<longleftrightarrow> (m_iLengthInInts n = 0 \<or> m_aiMyInt n ! (m_iLengthInInts n - 1) \<noteq> 0)"

lemma wsum_simps [simp]:
  "wsum f 0 = 0" "wsum f (Suc i) = wsum f i + unat (f i) * 2 ^ (32 * i)"
  by (simp_all add: wsum_def)

lemma wsum_cong: "(\<And>k. k < i \<Longrightarrow> f k = g k) \<Longrightarrow> wsum f i = wsum g i"
  by (simp add: wsum_def)

lemma wsum_less: "wsum f i < 2 ^ (32 * i)"
proof (induction i)
  case (Suc i)
  have "unat (f i) + 1 \<le> 2 ^ 32" using unsigned_less [of "f i", where 'a = nat] by simp
  then have "(unat (f i) + 1) * 2 ^ (32 * i) \<le> 2 ^ 32 * 2 ^ (32 * i)" by (rule mult_le_mono1)
  also have "\<dots> = 2 ^ (32 * Suc i)" by (simp add: power_add)
  finally show ?case using Suc unfolding wsum_simps distrib_right by linarith
qed simp

lemma wsum_mono: "i \<le> j \<Longrightarrow> wsum f i \<le> wsum f j"
  by (auto simp: wsum_def intro: sum_mono2)

lemma wsum_extend: "i \<le> j \<Longrightarrow> (\<And>k. i \<le> k \<Longrightarrow> k < j \<Longrightarrow> f k = 0) \<Longrightarrow> wsum f j = wsum f i"
proof (induction j)
  case (Suc j)
  then show ?case by (cases "i = Suc j") auto
qed simp

text \<open>The word at an index, zero behind those that count.\<close>

definition mpi_word :: "cmpi \<Rightarrow> nat \<Rightarrow> 32 word" where
  "mpi_word n k = (if k < m_iLengthInInts n then m_aiMyInt n ! k else 0)"

lemma mpi_abs_word: "m_iLengthInInts n \<le> j \<Longrightarrow> wsum (mpi_word n) j = mpi_abs n"
proof -
  assume "m_iLengthInInts n \<le> j"
  then have "wsum (mpi_word n) j = wsum (mpi_word n) (m_iLengthInInts n)"
    by (rule wsum_extend) (simp add: mpi_word_def)
  also have "\<dots> = mpi_abs n" unfolding mpi_abs_def by (rule wsum_cong) (simp add: mpi_word_def)
  finally show ?thesis .
qed

lemma wsum_top_less:
  assumes "unat (f i) < unat (g i)"
  shows "wsum f (Suc i) < wsum g (Suc i)"
proof -
  have "(unat (f i) + 1) * 2 ^ (32 * i) \<le> unat (g i) * 2 ^ (32 * i)"
    using assms by (intro mult_le_mono1) simp
  then show ?thesis using wsum_less [of f i] by simp
qed

lemma wsum_eq_zero: "wsum f i = 0 \<longleftrightarrow> (\<forall>k < i. f k = 0)"
  by (auto simp: wsum_def unat_eq_zero)

section \<open>Comparison\<close>

lemma larger_abs_loop_wsum:
  "i \<le> max (m_iLengthInInts a) (m_iLengthInInts b) \<Longrightarrow>
   larger_abs_loop a b i \<longleftrightarrow> wsum (mpi_word a) i > wsum (mpi_word b) i"
proof (induction i)
  case (Suc i)
  consider "mpi_word a i = mpi_word b i" | "mpi_word a i < mpi_word b i" | "mpi_word a i > mpi_word b i"
    by (meson linorder_less_linear)
  then show ?case
  proof cases
    case 1
    then have "larger_abs_loop a b (Suc i) = larger_abs_loop a b i"
      using Suc.prems by (auto simp: mpi_word_def split: if_splits)
    with 1 Suc show ?thesis by simp
  next
    case 2
    then have "wsum (mpi_word a) (Suc i) < wsum (mpi_word b) (Suc i)"
      by (intro wsum_top_less) (simp add: word_less_nat_alt)
    moreover have "\<not> larger_abs_loop a b (Suc i)"
      using 2 Suc.prems by (auto simp: mpi_word_def split: if_splits)
    ultimately show ?thesis by simp
  next
    case 3
    then have "wsum (mpi_word b) (Suc i) < wsum (mpi_word a) (Suc i)"
      by (intro wsum_top_less) (simp add: word_less_nat_alt)
    moreover have "larger_abs_loop a b (Suc i)"
      using 3 Suc.prems by (auto simp: mpi_word_def word_neq_0_conv split: if_splits)
    ultimately show ?thesis by simp
  qed
qed simp

lemma larger_abs_iff: "CMpi_LargerThan_abs a b \<longleftrightarrow> mpi_abs a > mpi_abs b"
  by (simp add: CMpi_LargerThan_abs_def larger_abs_loop_wsum mpi_abs_word)

lemma equals_loop_words:
  "i \<le> max (m_iLengthInInts a) (m_iLengthInInts b) \<Longrightarrow>
   equals_loop a b i \<longleftrightarrow> (\<forall>k < i. mpi_word a k = mpi_word b k)"
proof (induction i)
  case (Suc i)
  have "equals_loop a b (Suc i) \<longleftrightarrow> mpi_word a i = mpi_word b i \<and> equals_loop a b i"
    using Suc.prems by (auto simp: mpi_word_def)
  with Suc show ?case by (auto simp: less_Suc_eq)
qed simp

lemma wsum_inject: "wsum f i = wsum g i \<Longrightarrow> k < i \<Longrightarrow> f k = g k"
proof (induction i)
  case (Suc i)
  have "f i = g i"
    using Suc.prems(1) wsum_top_less [of f i g] wsum_top_less [of g i f]
    by (metis less_irrefl linorder_neqE_nat word_unat_eq_iff)
  with Suc show ?case by (auto simp: less_Suc_eq)
qed simp

lemma equals_iff: "CMpi_EqualsTo a b \<longleftrightarrow> mpi_abs a = mpi_abs b"
proof -
  let ?j = "max (m_iLengthInInts a) (m_iLengthInInts b)"
  have "CMpi_EqualsTo a b \<longleftrightarrow> wsum (mpi_word a) ?j = wsum (mpi_word b) ?j"
    unfolding CMpi_EqualsTo_def equals_loop_words [OF order_refl]
    by (auto intro: wsum_cong dest: wsum_inject)
  then show ?thesis by (simp add: mpi_abs_word)
qed

section \<open>Addition\<close>

lemma split_word: "x mod c * p + x div c * (c * p) = x * p" for x c p :: nat
proof -
  have "x mod c * p + x div c * (c * p) = (x mod c + x div c * c) * p"
    by (simp only: distrib_right mult.assoc)
  then show ?thesis by (simp only: mod_div_mult_eq)
qed

lemma add_loop:
  assumes "i \<le> j" "j \<le> length w" "unat d \<le> 1"
    and "\<And>k u. i \<le> k \<Longrightarrow> k < j \<Longrightarrow> length u = length w \<Longrightarrow> drop k u = drop k w \<Longrightarrow> operand u k = v k"
    and "\<And>k. i \<le> k \<Longrightarrow> k < j \<Longrightarrow> unat (v k) < 2 ^ 33 - 1"
  shows "case foldl (add_word operand) (w, d) [i..<j] of (u, e) \<Rightarrow>
      length u = length w \<and> drop j u = drop j w \<and> unat e \<le> 1
      \<and> wsum ((!) u) j + unat e * 2 ^ (32 * j)
        = wsum ((!) w) i + unat d * 2 ^ (32 * i) + (\<Sum>k=i..<j. unat (v k) * 2 ^ (32 * k))"
  using assms
proof (induction j)
  case (Suc j)
  show ?case
  proof (cases "i = Suc j")
    case False
    then have ij: "i \<le> j" using Suc.prems by simp
    obtain u e where u: "foldl (add_word operand) (w, d) [i..<j] = (u, e)" by fastforce
    have IH: "length u = length w" "drop j u = drop j w" "unat e \<le> 1"
        "wsum ((!) u) j + unat e * 2 ^ (32 * j)
          = wsum ((!) w) i + unat d * 2 ^ (32 * i) + (\<Sum>k=i..<j. unat (v k) * 2 ^ (32 * k))"
      using Suc.IH [OF ij] Suc.prems u by auto
    define s where "s = e + v j"
    have op: "operand u j = v j" using Suc.prems ij IH by simp
    have s: "unat s = unat e + unat (v j)" "unat s < 2 ^ 33"
    proof -
      have "unat e + unat (v j) < 2 ^ 33" using IH(3) Suc.prems(5) [of j] ij by simp
      moreover from this have "unat e + unat (v j) < 2 ^ LENGTH(64)" by (rule less_trans) simp
      ultimately show "unat s = unat e + unat (v j)" "unat s < 2 ^ 33"
        by (simp_all add: s_def unat_plus_if')
    qed
    have step: "foldl (add_word operand) (w, d) [i..<Suc j] = (u[j := ucast s], drop_bit 32 s)"
      using ij u op by (simp add: s_def Let_def)
    have hi: "unat (drop_bit 32 s) = unat s div 2 ^ 32"
      by (simp add: drop_bit_eq_div unat_div)
    have lo: "unat (ucast s :: 32 word) = unat s mod 2 ^ 32"
      by (simp add: unsigned_ucast_eq take_bit_eq_mod)
    have "unat s div 2 ^ 32 \<le> 1" using s(2) by simp
    moreover have "drop (Suc j) (u[j := ucast s]) = drop (Suc j) w"
      using IH(2) by (metis drop_Suc drop_update_cancel drop_drop lessI plus_1_eq_Suc add.commute)
    moreover have "wsum ((!) (u[j := ucast s])) j = wsum ((!) u) j"
      by (rule wsum_cong) simp
    moreover have "unat (ucast s :: 32 word) * 2 ^ (32 * j) + unat (drop_bit 32 s) * 2 ^ (32 * Suc j)
        = unat s * 2 ^ (32 * j)"
      unfolding hi lo using split_word [of "unat s" "2 ^ 32" "2 ^ (32 * j)"] by (simp add: power_add)
    ultimately show ?thesis
      using IH Suc.prems ij s(1) hi unfolding step by (simp add: distrib_right)
  qed (use Suc.prems in simp)
qed simp

lemma wsum_pieces:
  "i \<le> j \<Longrightarrow> wsum f j = wsum f i + (\<Sum>k=i..<j. unat (f k) * 2 ^ (32 * k))"
  by (simp add: wsum_def sum.atLeastLessThan_concat flip: atLeast0LessThan)

lemma ucast_64 [simp]: "unat (ucast (w :: 32 word) :: 64 word) = unat w"
  by (simp add: unsigned_ucast_eq take_bit_nat_eq_self_iff) (rule less_trans [OF unsigned_less], simp)

lemma unat_word_bound: "unat (w :: 32 word) < 2 ^ 32"
  using unsigned_less [of w, where 'a = nat] by simp

lemma nth_via_drop_eq: "drop k u = drop k w \<Longrightarrow> length u = length w \<Longrightarrow> k < length w \<Longrightarrow> u ! k = w ! k"
  by (metis hd_drop_conv_nth)

text \<open>The second loop of the addition carries on over the longer number.\<close>

lemma add_words_value:
  assumes a: "mpi_shape a" and b: "mpi_shape b" and "m_iCarry a = 0"
  shows "mpi_shape (add_words a b) \<and> m_iMySign (add_words a b) = m_iMySign a
    \<and> mpi_abs (add_words a b) + unat (m_iCarry (add_words a b)) * 2 ^ 256 = mpi_abs a + mpi_abs b"
proof -
  let ?la = "m_iLengthInInts a" and ?lb = "m_iLengthInInts b"
  let ?wa = "m_aiMyInt a" and ?wb = "m_aiMyInt b"
  define j where "j = min ?la ?lb"
  define l where "l = max ?la ?lb"
  have len: "length ?wa = 8" "?la \<le> 8" "?lb \<le> 8" "j \<le> l" "l \<le> 8"
    using a b by (auto simp: mpi_shape_def j_def l_def)
  obtain u d where u: "foldl (add_word (\<lambda>w i. ucast (w ! i) + ucast (?wb ! i))) (?wa, 0) [0..<j] = (u, d)"
    by fastforce
  have sum2: "unat (ucast x + ucast y :: 64 word) = unat x + unat y" for x y :: "32 word"
  proof -
    have "unat x + unat y < 2 ^ LENGTH(64)"
      using unat_word_bound [of x] unat_word_bound [of y] by simp
    then show ?thesis by (simp add: unat_plus_if')
  qed
  have bound: "unat (ucast x + ucast y :: 64 word) < 2 ^ 33 - 1" "unat (ucast x :: 64 word) < 2 ^ 33 - 1" for x y :: "32 word"
    using unat_word_bound [of x] unat_word_bound [of y] by (simp_all add: sum2)
  have first: "length u = 8" "drop j u = drop j ?wa" "unat d \<le> 1"
    "wsum ((!) u) j + unat d * 2 ^ (32 * j) = wsum ((!) ?wa) j + wsum ((!) ?wb) j"
  proof -
    have "case foldl (add_word (\<lambda>w i. ucast (w ! i) + ucast (?wb ! i))) (?wa, 0) [0..<j] of (u, e) \<Rightarrow>
        length u = length ?wa \<and> drop j u = drop j ?wa \<and> unat e \<le> 1 \<and> wsum ((!) u) j + unat e * 2 ^ (32 * j)
        = wsum ((!) ?wa) 0 + unat (0 :: 64 word) * 2 ^ (32 * 0)
          + (\<Sum>k=0..<j. unat (ucast (?wa ! k) + ucast (?wb ! k) :: 64 word) * 2 ^ (32 * k))"
    proof (rule add_loop)
      fix k v assume "k < j" "length v = length ?wa" "drop k v = drop k ?wa"
      then show "ucast (v ! k) + ucast (?wb ! k) = (ucast (?wa ! k) + ucast (?wb ! k) :: 64 word)"
        using len nth_via_drop_eq [of k v ?wa] by simp
    qed (use len bound(1) in simp_all)
    then have *: "length u = length ?wa \<and> drop j u = drop j ?wa \<and> unat d \<le> 1 \<and> wsum ((!) u) j + unat d * 2 ^ (32 * j)
        = wsum ((!) ?wa) 0 + unat (0 :: 64 word) * 2 ^ (32 * 0)
          + (\<Sum>k=0..<j. unat (ucast (?wa ! k) + ucast (?wb ! k) :: 64 word) * 2 ^ (32 * k))"
      unfolding u prod.case .
    then show "length u = 8" "drop j u = drop j ?wa" "unat d \<le> 1" using len by simp_all
    show "wsum ((!) u) j + unat d * 2 ^ (32 * j) = wsum ((!) ?wa) j + wsum ((!) ?wb) j"
      using * by (simp add: sum2 wsum_def sum.distrib distrib_right atLeast0LessThan)
  qed
  let ?f = "\<lambda>k. if ?la > ?lb then ?wa ! k else ?wb ! k"
  obtain x e where x: "foldl (add_word (\<lambda>w i. ucast (if ?la > ?lb then w ! i else ?wb ! i))) (u, d) [j..<l] = (x, e)"
    by fastforce
  have second: "length x = 8" "unat e \<le> 1"
    "wsum ((!) x) l + unat e * 2 ^ (32 * l)
      = wsum ((!) u) j + unat d * 2 ^ (32 * j) + (\<Sum>k=j..<l. unat (?f k) * 2 ^ (32 * k))"
  proof -
    have "case foldl (add_word (\<lambda>w i. ucast (if ?la > ?lb then w ! i else ?wb ! i))) (u, d) [j..<l] of (v, e) \<Rightarrow>
        length v = length u \<and> drop l v = drop l u \<and> unat e \<le> 1 \<and> wsum ((!) v) l + unat e * 2 ^ (32 * l)
        = wsum ((!) u) j + unat d * 2 ^ (32 * j) + (\<Sum>k=j..<l. unat (ucast (?f k) :: 64 word) * 2 ^ (32 * k))"
    proof (rule add_loop)
      fix k v assume k: "j \<le> k" "k < l" "length v = length u" "drop k v = drop k u"
      have "drop k u = drop k ?wa"
        using k(1) first(2) by (metis drop_drop le_add_diff_inverse2)
      with k len first(1) nth_via_drop_eq [of k v ?wa]
      show "ucast (if ?la > ?lb then v ! k else ?wb ! k) = (ucast (?f k) :: 64 word)" by simp
    qed (use len first bound(2) in simp_all)
    then show "length x = 8" "unat e \<le> 1" "wsum ((!) x) l + unat e * 2 ^ (32 * l)
      = wsum ((!) u) j + unat d * 2 ^ (32 * j) + (\<Sum>k=j..<l. unat (?f k) * 2 ^ (32 * k))"
      unfolding x prod.case ucast_64 using first(1) by (simp_all only:)
  qed
  have total: "wsum ((!) x) l + unat e * 2 ^ (32 * l) = mpi_abs a + mpi_abs b"
  proof (cases "?la > ?lb")
    case True
    then show ?thesis using second(3) first(4) wsum_pieces [of j l "(!) ?wa"]
      by (simp add: mpi_abs_def j_def l_def)
  next
    case False
    then show ?thesis using second(3) first(4) wsum_pieces [of j l "(!) ?wb"]
      by (simp add: mpi_abs_def j_def l_def)
  qed
  have e: "unat (ucast e :: 32 word) = unat e"
    using second(2) by (simp add: unsigned_ucast_eq take_bit_nat_eq_self_iff)
  have res: "add_words a b = (if l = 8 then a\<lparr>m_aiMyInt := x, m_iCarry := ucast e, m_iLengthInInts := l\<rparr>
      else a\<lparr>m_aiMyInt := x[l := ucast e], m_iLengthInInts := (if x[l := ucast e] ! l \<noteq> 0 then l + 1 else l)\<rparr>)"
  proof (cases "?la > ?lb")
    case True
    then have "l = ?la" by (simp add: l_def)
    with u x True show ?thesis unfolding add_words_def j_def [symmetric] by (simp add: Let_def)
  next
    case False
    then have "l = ?lb" by (simp add: l_def)
    with u x False show ?thesis unfolding add_words_def j_def [symmetric] by (simp add: Let_def)
  qed
  show ?thesis
  proof (cases "l = 8")
    case True
    then show ?thesis using total second a e unfolding res by (simp add: mpi_shape_def mpi_abs_def)
  next
    case False
    then have l: "l < 8" using len by simp
    have "wsum ((!) (x[l := ucast e])) l = wsum ((!) x) l" by (rule wsum_cong) simp
    then show ?thesis using l total second a e assms(3) unfolding res
      by (auto simp: mpi_shape_def mpi_abs_def)
  qed
qed

section \<open>Subtraction\<close>

lemma sub_loop:
  assumes "i \<le> j" "j \<le> length w" "unat d + b = 2 ^ 32 + unat (word_at n i)" "b \<le> 1"
    and "\<And>k. i \<le> k \<Longrightarrow> k < j \<Longrightarrow> unat (operand k) < 2 ^ 32"
  shows "case foldl (sub_word n operand) (w, d) [i..<j] of (u, e) \<Rightarrow>
      length u = length w \<and> drop j u = drop j w
      \<and> (\<exists>c. c \<le> 1 \<and> unat e + c = 2 ^ 32 + unat (word_at n j)
           \<and> wsum ((!) u) j + (\<Sum>k=i..<j. unat (operand k) * 2 ^ (32 * k)) + b * 2 ^ (32 * i)
             = wsum ((!) w) i + (\<Sum>k=i..<j. unat (word_at n k) * 2 ^ (32 * k)) + c * 2 ^ (32 * j))"
  using assms
proof (induction j)
  case (Suc j)
  show ?case
  proof (cases "i = Suc j")
    case False
    then have ij: "i \<le> j" using Suc.prems by simp
    obtain u e where u: "foldl (sub_word n operand) (w, d) [i..<j] = (u, e)" by fastforce
    have "case foldl (sub_word n operand) (w, d) [i..<j] of (u, e) \<Rightarrow>
      length u = length w \<and> drop j u = drop j w
      \<and> (\<exists>c. c \<le> 1 \<and> unat e + c = 2 ^ 32 + unat (word_at n j)
           \<and> wsum ((!) u) j + (\<Sum>k=i..<j. unat (operand k) * 2 ^ (32 * k)) + b * 2 ^ (32 * i)
             = wsum ((!) w) i + (\<Sum>k=i..<j. unat (word_at n k) * 2 ^ (32 * k)) + c * 2 ^ (32 * j))"
      using Suc.IH [OF ij] Suc.prems by simp
    then obtain c where IH: "length u = length w" "drop j u = drop j w" "c \<le> 1"
        "unat e + c = 2 ^ 32 + unat (word_at n j)"
        "wsum ((!) u) j + (\<Sum>k=i..<j. unat (operand k) * 2 ^ (32 * k)) + b * 2 ^ (32 * i)
             = wsum ((!) w) i + (\<Sum>k=i..<j. unat (word_at n k) * 2 ^ (32 * k)) + c * 2 ^ (32 * j)"
      unfolding u prod.case by blast
    define s where "s = e - operand j"
    define h where "h = unat s div 2 ^ 32"
    have q: "unat (operand j) < 2 ^ 32" using Suc.prems(5) ij by simp
    have s: "unat s + unat (operand j) = unat e"
    proof -
      have "unat (operand j) \<le> unat e" using q IH(3,4) by simp
      then show ?thesis unfolding s_def by (simp add: unat_sub word_le_nat_alt)
    qed
    have h: "h \<le> 1" using s IH(4) unat_word_bound [of "word_at n j"] by (simp add: h_def div_le_dividend less_Suc_eq_le [symmetric] div_less_iff_less_mult)
    define x where "x = drop_bit 32 s + ucast (word_at n (Suc j)) + (0xffffffff :: 64 word)"
    have x: "unat x + (1 - h) = 2 ^ 32 + unat (word_at n (Suc j))"
    proof -
      have "unat (drop_bit 32 s) = h" by (simp add: h_def drop_bit_eq_div unat_div)
      moreover have "h + unat (word_at n (Suc j)) + 0xffffffff < 2 ^ LENGTH(64)"
        using h unat_word_bound [of "word_at n (Suc j)"] by simp
      ultimately have "unat x = h + unat (word_at n (Suc j)) + 0xffffffff"
        unfolding x_def by (simp add: unat_word_ariths ucast_64)
      then show ?thesis using h by simp
    qed
    have step: "foldl (sub_word n operand) (w, d) [i..<Suc j] = (u[j := ucast s], x)"
      using ij u by (simp add: s_def x_def Let_def)
    have lo: "unat (ucast s :: 32 word) = unat s mod 2 ^ 32"
      by (simp add: unsigned_ucast_eq take_bit_eq_mod)
    have "drop (Suc j) (u[j := ucast s]) = drop (Suc j) w"
      using IH(2) by (metis drop_Suc drop_update_cancel drop_drop lessI plus_1_eq_Suc add.commute)
    moreover have "wsum ((!) (u[j := ucast s])) j = wsum ((!) u) j"
      by (rule wsum_cong) simp
    moreover have "unat (ucast s :: 32 word) * 2 ^ (32 * j) + unat (operand j) * 2 ^ (32 * j) + c * 2 ^ (32 * j)
        = unat (word_at n j) * 2 ^ (32 * j) + (1 - h) * 2 ^ (32 * Suc j)"
    proof -
      have "unat (ucast s :: 32 word) + unat (operand j) + c = unat (word_at n j) + (1 - h) * 2 ^ 32"
      proof -
        have "unat s = 2 ^ 32 * h + unat s mod 2 ^ 32" unfolding h_def by simp
        then show ?thesis using s IH(4) h lo by (cases "h = 0") simp_all
      qed
      then have "(unat (ucast s :: 32 word) + unat (operand j) + c) * 2 ^ (32 * j)
          = (unat (word_at n j) + (1 - h) * 2 ^ 32) * 2 ^ (32 * j)" by (rule arg_cong)
      then show ?thesis by (simp add: distrib_right power_add)
    qed
    ultimately show ?thesis
      using IH(1,5) Suc.prems(2) ij x unfolding step prod.case
      by (intro conjI exI [of _ "1 - h"]) (simp_all add: algebra_simps)
  qed (use Suc.prems in auto)
qed auto

lemma top_word_le: "top_word w j \<le> j"
  by (induction j) auto

lemma top_word_zero: "top_word w j \<le> k \<Longrightarrow> k < j \<Longrightarrow> w ! k = 0"
  by (induction j) (auto simp: less_Suc_eq split: if_splits)

lemma top_word_regular: "top_word w j = 0 \<or> w ! (top_word w j - 1) \<noteq> 0"
  by (induction j) auto

lemma wsum_top_word: "wsum ((!) w) (top_word w j) = wsum ((!) w) j"
  by (rule wsum_extend [symmetric]) (simp_all add: top_word_le top_word_zero)

lemma word_at_in: "mpi_shape n \<Longrightarrow> k < 8 \<Longrightarrow> word_at n k = m_aiMyInt n ! k"
  by (simp add: word_at_def mpi_shape_def)

text \<open>A regular number with more words is larger.\<close>

lemma regular_length_mono:
  assumes "mpi_regular a" "mpi_abs b \<ge> mpi_abs a"
  shows "m_iLengthInInts a \<le> m_iLengthInInts b"
proof (rule ccontr)
  let ?l = "m_iLengthInInts a"
  assume less: "\<not> ?l \<le> m_iLengthInInts b"
  then obtain k where k: "?l = Suc k" by (cases ?l) auto
  have "1 * 2 ^ (32 * k) \<le> unat (m_aiMyInt a ! k) * 2 ^ (32 * k)"
    using assms(1) k by (intro mult_le_mono1) (simp add: mpi_regular_def Suc_le_eq unat_gt_0)
  also have "\<dots> \<le> mpi_abs a" by (simp add: mpi_abs_def k)
  finally have "2 ^ (32 * k) \<le> mpi_abs a" by simp
  moreover have "mpi_abs b < 2 ^ (32 * m_iLengthInInts b)" by (simp add: mpi_abs_def wsum_less)
  moreover have "(2::nat) ^ (32 * m_iLengthInInts b) \<le> 2 ^ (32 * k)"
    using less k by (intro power_increasing) simp_all
  ultimately show False using assms(2) by simp
qed

lemma sub_words_value:
  assumes a: "mpi_shape a" "mpi_regular a" and b: "mpi_shape b" "mpi_regular b"
    and sign: "m_iMySign a = m_iMySign b" and carry: "m_iCarry a = 0"
  shows "mpi_shape (sub_words a b) \<and> mpi_regular (sub_words a b) \<and> m_iCarry (sub_words a b) = 0
    \<and> mpi_int (sub_words a b) = mpi_int a - mpi_int b"
proof -
  define big small where "big = (if mpi_abs b > mpi_abs a then b else a)"
    and "small = (if mpi_abs b > mpi_abs a then a else b)"
  define s where "s = (if mpi_abs b > mpi_abs a then - m_iMySign b else m_iMySign a)"
  define l where "l = m_iLengthInInts big"
  define k where "k = m_iLengthInInts small"
  let ?op = "\<lambda>i. ucast (m_aiMyInt small ! i) :: 64 word"
  have big: "mpi_shape big" "mpi_regular big" and small: "mpi_shape small" "mpi_regular small"
    using a b by (simp_all add: big_def small_def)
  have le: "mpi_abs small \<le> mpi_abs big" by (simp add: big_def small_def)
  then have kl: "k \<le> l" using regular_length_mono [OF small(2)] by (simp add: k_def l_def)
  have l8: "l \<le> 8" "length (m_aiMyInt a) = 8" using big a by (simp_all add: mpi_shape_def l_def)
  have max: "max (m_iLengthInInts a) (m_iLengthInInts b) = l"
    using kl by (auto simp: l_def k_def big_def small_def split: if_splits)
  obtain u d where u: "foldl (sub_word big ?op) (m_aiMyInt a, 0x100000000 + ucast (word_at big 0)) [0..<k] = (u, d)"
    by fastforce
  obtain v e where v: "foldl (sub_word big (\<lambda>i. 0)) (u, d) [k..<l] = (v, e)" by fastforce
  have start: "unat (0x100000000 + ucast (word_at big 0) :: 64 word) = 2 ^ 32 + unat (word_at big 0)"
    using unat_word_bound [of "word_at big 0"] by (simp add: unat_word_ariths ucast_64)
  have lt: "unat (m_aiMyInt small ! i) < 4294967296" for i
    using unat_word_bound [of "m_aiMyInt small ! i"] by simp
  from sub_loop [of 0 k "m_aiMyInt a" "0x100000000 + ucast (word_at big 0)" 0 big ?op]
  obtain c where first: "length u = 8" "c \<le> 1" "unat d + c = 2 ^ 32 + unat (word_at big k)"
    "wsum ((!) u) k + (\<Sum>i=0..<k. unat (m_aiMyInt small ! i) * 2 ^ (32 * i))
      = (\<Sum>i=0..<k. unat (word_at big i) * 2 ^ (32 * i)) + c * 2 ^ (32 * k)"
    using kl l8 start unfolding u prod.case ucast_64 by (auto simp: lt)
  from sub_loop [of k l u d c big "\<lambda>i. 0"]
  obtain c' where second: "length v = 8" "c' \<le> 1"
    "wsum ((!) v) l + c * 2 ^ (32 * k)
      = wsum ((!) u) k + (\<Sum>i=k..<l. unat (word_at big i) * 2 ^ (32 * i)) + c' * 2 ^ (32 * l)"
    using kl l8 first unfolding v prod.case by auto
  have "(\<Sum>i=0..<l. unat (word_at big i) * 2 ^ (32 * i)) = mpi_abs big"
    using big l8 by (simp add: mpi_abs_def wsum_def l_def word_at_in atLeast0LessThan)
  then have total: "wsum ((!) v) l + mpi_abs small = mpi_abs big + c' * 2 ^ (32 * l)"
    using first(4) second(3) sum.atLeastLessThan_concat [of 0 k l "\<lambda>i. unat (word_at big i) * 2 ^ (32 * i)"] kl
    by (simp add: mpi_abs_def wsum_def k_def atLeast0LessThan)
  have "c' = 0"
  proof (rule ccontr)
    assume "c' \<noteq> 0"
    with second(2) have "c' = 1" by simp
    with total le wsum_less [of "(!) v" l] show False by simp
  qed
  with total le have diff: "mpi_abs big - mpi_abs small = wsum ((!) v) l" by simp
  have res: "sub_words a b = a\<lparr>m_aiMyInt := v, m_iMySign := s, m_iLengthInInts := top_word v l\<rparr>"
  proof (cases "mpi_abs b > mpi_abs a")
    case True
    have "(if m_iMySign b = POSITIVE then NEGTIVE else POSITIVE) = - m_iMySign b"
      using b by (auto simp: mpi_shape_def)
    with True u v max show ?thesis
      by (simp add: sub_words_def larger_abs_iff Let_def big_def small_def s_def k_def)
  next
    case False
    with u v max show ?thesis
      by (simp add: sub_words_def larger_abs_iff Let_def big_def small_def s_def k_def)
  qed
  have "mpi_abs (sub_words a b) = mpi_abs big - mpi_abs small"
    using diff by (simp add: res mpi_abs_def wsum_top_word)
  moreover have "mpi_shape (sub_words a b)"
    using a b second(1) l8 top_word_le [of v l] by (auto simp: res mpi_shape_def s_def)
  ultimately show ?thesis
    using carry sign le top_word_regular [of v l]
    by (auto simp: res mpi_regular_def mpi_int_def s_def big_def small_def of_nat_diff algebra_simps)
qed


section \<open>Signs\<close>

lemma copy_words:
  "l \<le> length w \<Longrightarrow> foldl (\<lambda>w i. w[i := x ! i]) w (rev [0..<l]) = map (\<lambda>k. if k < l then x ! k else w ! k) [0..<length w]"
proof (induction l arbitrary: w)
  case 0
  then show ?case by (simp add: map_nth)
next
  case (Suc l)
  have "foldl (\<lambda>w i. w[i := x ! i]) w (rev [0..<Suc l]) = foldl (\<lambda>w i. w[i := x ! i]) (w[l := x ! l]) (rev [0..<l])"
    by simp
  also have "\<dots> = map (\<lambda>k. if k < l then x ! k else w[l := x ! l] ! k) [0..<length w]"
    using Suc by simp
  finally show ?case using Suc.prems by (auto simp: nth_list_update less_Suc_eq)
qed

lemma assign_value:
  assumes "mpi_shape a" "length (m_aiMyInt b) = 8"
  shows "mpi_shape (CMpi_Assign a b)" "mpi_regular (CMpi_Assign a b) = mpi_regular a"
    "mpi_abs (CMpi_Assign a b) = mpi_abs a" "mpi_int (CMpi_Assign a b) = mpi_int a"
    "m_iMySign (CMpi_Assign a b) = m_iMySign a" "m_iCarry (CMpi_Assign a b) = 0"
proof -
  have words: "m_aiMyInt (CMpi_Assign a b) = map (\<lambda>k. if k < m_iLengthInInts a then m_aiMyInt a ! k else m_aiMyInt b ! k) [0..<8]"
    using assms copy_words [of "m_iLengthInInts a" "m_aiMyInt b" "m_aiMyInt a"]
    by (simp add: CMpi_Assign_def mpi_shape_def)
  have len: "m_iLengthInInts (CMpi_Assign a b) = m_iLengthInInts a" "m_iLengthInInts a \<le> 8"
    using assms by (simp_all add: CMpi_Assign_def mpi_shape_def)
  show sign: "m_iMySign (CMpi_Assign a b) = m_iMySign a" and "m_iCarry (CMpi_Assign a b) = 0"
    by (simp_all add: CMpi_Assign_def)
  show "mpi_shape (CMpi_Assign a b)"
    using assms sign len words by (simp add: mpi_shape_def)
  show "mpi_regular (CMpi_Assign a b) = mpi_regular a"
    using len words by (cases "m_iLengthInInts a") (auto simp: mpi_regular_def)
  show "mpi_abs (CMpi_Assign a b) = mpi_abs a"
    unfolding mpi_abs_def len(1) using len(2) by (intro wsum_cong) (simp add: words)
  with sign show "mpi_int (CMpi_Assign a b) = mpi_int a" by (simp add: mpi_int_def)
qed

lemma sign_change:
  "mpi_shape (n\<lparr>m_iMySign := s\<rparr>) \<longleftrightarrow> length (m_aiMyInt n) = 8 \<and> m_iLengthInInts n \<le> 8 \<and> s \<in> {POSITIVE, NEGTIVE}"
  "mpi_regular (n\<lparr>m_iMySign := s\<rparr>) = mpi_regular n" "mpi_abs (n\<lparr>m_iMySign := s\<rparr>) = mpi_abs n"
  "mpi_shape (n\<lparr>m_iCarry := c\<rparr>) = mpi_shape n" "mpi_regular (n\<lparr>m_iCarry := c\<rparr>) = mpi_regular n"
  "mpi_abs (n\<lparr>m_iCarry := c\<rparr>) = mpi_abs n" "mpi_int (n\<lparr>m_iCarry := c\<rparr>) = mpi_int n"
  by (simp_all add: mpi_shape_def mpi_regular_def mpi_abs_def mpi_int_def)

lemma negate_value:
  assumes "mpi_shape a" "length (m_aiMyInt b) = 8"
  shows "mpi_shape (CMpi_Negate a b)" "mpi_regular (CMpi_Negate a b) = mpi_regular a"
    "mpi_int (CMpi_Negate a b) = - mpi_int a" "m_iMySign (CMpi_Negate a b) = - m_iMySign a"
  using assms assign_value [OF assms]
  by (auto simp: CMpi_Negate_def Let_def mpi_shape_def mpi_regular_def mpi_int_def mpi_abs_def)

abbreviation mpi_ok :: "cmpi \<Rightarrow> bool" where
  "mpi_ok n \<equiv> mpi_shape n \<and> mpi_regular n"

lemma add_words_full:
  assumes "mpi_shape a" "mpi_shape b" "m_iMySign a = m_iMySign b" "m_iCarry a = 0"
  shows "mpi_shape (add_words a b) \<and> mpi_full (add_words a b) = mpi_int a + mpi_int b"
  using add_words_value [OF assms(1,2,4)] assms(3)
  by (simp add: mpi_full_def mpi_int_def flip: distrib_left of_nat_add)

lemma sub_words_full:
  assumes "mpi_ok a" "mpi_ok b" "m_iMySign a = m_iMySign b" "m_iCarry a = 0"
  shows "mpi_shape (sub_words a b) \<and> mpi_full (sub_words a b) = mpi_int a - mpi_int b"
  using sub_words_value [of a b] assms by (simp add: mpi_full_def mpi_int_def)

lemma same_sign_or:
  "mpi_shape a \<Longrightarrow> m_iMySign a = POSITIVE \<or> m_iMySign a = NEGTIVE"
  by (simp add: mpi_shape_def)

lemma mpi_sub_same:
  assumes "mpi_ok a" "mpi_ok b" "m_iMySign a = m_iMySign b"
  shows "mpi_shape (CMpi_Substract g1 g2 a b) \<and> mpi_full (CMpi_Substract g1 g2 a b) = mpi_int a - mpi_int b"
  using sub_words_full [of "a\<lparr>m_iCarry := 0\<rparr>" b] assms
  by (simp add: CMpi_Substract.simps Let_def sign_change)

lemma mpi_add_value:
  assumes "mpi_ok a" "mpi_ok b" "length (m_aiMyInt g2) = 8"
  shows "mpi_shape (CMpi_Add g1 g2 a b) \<and> mpi_full (CMpi_Add g1 g2 a b) = mpi_int a + mpi_int b"
proof -
  define a' where "a' = a\<lparr>m_iCarry := 0\<rparr>"
  have a': "mpi_ok a'" "m_iMySign a' = m_iMySign a" "mpi_int a' = mpi_int a" "m_iCarry a' = 0" "length (m_aiMyInt a') = 8"
    using assms(1) by (simp_all add: a'_def sign_change mpi_shape_def)
  note signs = same_sign_or [of a] same_sign_or [of b]
  consider "m_iMySign a = m_iMySign b" | "m_iMySign a = POSITIVE" "m_iMySign b = NEGTIVE"
    | "m_iMySign a = NEGTIVE" "m_iMySign b = POSITIVE" using assms signs by metis
  then show ?thesis
  proof cases
    case 1
    then have "CMpi_Add g1 g2 a b = add_words a' b"
      by (subst CMpi_Add.simps) (simp add: a'_def Let_def)
    then show ?thesis using 1 add_words_full [of a' b] assms a' by simp
  next
    case 2
    then have "CMpi_Add g1 g2 a b = CMpi_Substract g1 g2 a' (CMpi_Negate b g2)"
      by (subst CMpi_Add.simps) (simp add: a'_def Let_def)
    then show ?thesis
      using 2 mpi_sub_same [of a' "CMpi_Negate b g2" g1 g2] negate_value [of b g2] assms a' by simp
  next
    case 3
    then have "CMpi_Add g1 g2 a b = CMpi_Substract g1 g2 (CMpi_Assign b a') (CMpi_Negate a' g2)"
      by (subst CMpi_Add.simps) (simp add: a'_def Let_def)
    then show ?thesis
      using 3 mpi_sub_same [of "CMpi_Assign b a'" "CMpi_Negate a' g2" g1 g2] negate_value [of a' g2]
        assign_value [of b a'] assms a' by simp
  qed
qed

lemma mpi_sub_value:
  assumes "mpi_ok a" "mpi_ok b" "length (m_aiMyInt g1) = 8" "length (m_aiMyInt g2) = 8"
  shows "mpi_shape (CMpi_Substract g1 g2 a b) \<and> mpi_full (CMpi_Substract g1 g2 a b) = mpi_int a - mpi_int b"
proof (cases "m_iMySign a = m_iMySign b")
  case True
  then show ?thesis using mpi_sub_same assms by blast
next
  case False
  then have "CMpi_Substract g1 g2 a b = CMpi_Add g1 g2 (a\<lparr>m_iCarry := 0\<rparr>) (CMpi_Negate b g1)"
    by (subst CMpi_Substract.simps) (simp add: Let_def)
  then show ?thesis
    using mpi_add_value [of "a\<lparr>m_iCarry := 0\<rparr>" "CMpi_Negate b g1" g2 g1] negate_value [of b g1] assms
    by (simp add: sign_change)
qed

lemma compares_value:
  assumes "mpi_shape a" "mpi_shape b"
  shows "CMpi_ComparesTo a b =
     (if mpi_abs a = mpi_abs b then 0
      else if m_iMySign a = m_iMySign b then sgn (int (mpi_abs a) - int (mpi_abs b))
      else m_iMySign a)"
  using assms
  by (auto simp: CMpi_ComparesTo_def equals_iff CMpi_LargerThan_def larger_abs_iff mpi_shape_def sgn_if)

section \<open>Properties\<close>

text \<open>
  For numbers of either sign without leading zero words, addition and subtraction give the sum
  and the difference of the integers, with the word carried out of the eight in
  \<^verbatim>\<open>m_iCarry\<close>, whatever the uninitialised variables hold.
\<close>

theorem mpi_add_subtract:
  assumes "mpi_ok a" "mpi_ok b" "length (m_aiMyInt g1) = 8" "length (m_aiMyInt g2) = 8"
  shows "mpi_shape (CMpi_Add g1 g2 a b) \<and> mpi_full (CMpi_Add g1 g2 a b) = mpi_int a + mpi_int b
    \<and> mpi_shape (CMpi_Substract g1 g2 a b) \<and> mpi_full (CMpi_Substract g1 g2 a b) = mpi_int a - mpi_int b"
  using mpi_add_value mpi_sub_value assms by blast

definition mpi_blank :: cmpi where
  "mpi_blank = \<lparr>m_aiMyInt = replicate 8 7, m_iCarry = 0, m_iMySign = POSITIVE, m_iLengthInInts = 3\<rparr>"

definition mpi_small :: "int \<Rightarrow> 32 word \<Rightarrow> cmpi" where
  "mpi_small s w = (CMpi_Assign_d mpi_blank w)\<lparr>m_iMySign := s\<rparr>"

lemma mpi_small_value:
  "w \<noteq> 0 \<Longrightarrow> s \<in> {POSITIVE, NEGTIVE} \<Longrightarrow> mpi_ok (mpi_small s w)"
  "w \<noteq> 0 \<Longrightarrow> mpi_int (mpi_small s w) = s * int (unat w)"
  "w \<noteq> 0 \<Longrightarrow> mpi_abs (mpi_small s w) = unat w" "m_iMySign (mpi_small s w) = s"
  "length (m_aiMyInt mpi_blank) = 8"
  by (simp_all add: mpi_small_def mpi_blank_def CMpi_Assign_d_def mpi_shape_def mpi_regular_def mpi_int_def mpi_abs_def)

theorem mpi_add_subtract_witness:
  "mpi_full (CMpi_Add mpi_blank mpi_blank (mpi_small 1 5) (mpi_small (- 1) 7)) = - 2
   \<and> mpi_full (CMpi_Substract mpi_blank mpi_blank (mpi_small 1 5) (mpi_small (- 1) 7)) = 12"
  using mpi_add_subtract [of "mpi_small 1 5" "mpi_small (- 1) 7" mpi_blank mpi_blank]
  by (simp add: mpi_small_value)

text \<open>
  The comparison of \<^verbatim>\<open>CMpi_ComparesTo\<close>: it orders numbers that are not negative as the
  integers, two negative numbers by their magnitudes (the other way round), and a number and its
  negation count as equal.
\<close>

theorem mpi_compares:
  assumes "mpi_shape a" "mpi_shape b"
  shows "CMpi_ComparesTo a b =
     (if mpi_abs a = mpi_abs b then 0
      else if m_iMySign a = m_iMySign b then sgn (int (mpi_abs a) - int (mpi_abs b))
      else m_iMySign a)"
  using assms by (rule compares_value)

theorem mpi_compares_witness:
  "CMpi_ComparesTo (mpi_small 1 5) (mpi_small 1 3) = 1 \<and> CMpi_ComparesTo (mpi_small (- 1) 5) (mpi_small (- 1) 3) = 1
   \<and> CMpi_ComparesTo (mpi_small 1 5) (mpi_small (- 1) 5) = 0"
  using mpi_compares [of "mpi_small 1 5" "mpi_small 1 3"] mpi_compares [of "mpi_small (- 1) 5" "mpi_small (- 1) 3"]
    mpi_compares [of "mpi_small 1 5" "mpi_small (- 1) 5"]
  by (simp add: mpi_small_value)

end
