(* ===== verification/Mpi_Bytes.thy ===== *)
theory Mpi_Bytes
  imports Mpi_Value
begin

text \<open>
  Numbers as bytes, the most significant first: the import, the export and the lengths of a
  number.
\<close>

definition be_val :: "byte list \<Rightarrow> nat" where
  "be_val bs = foldl (\<lambda>v b. 256 * v + unat b) 0 bs"

lemma be_val_simps [simp]: "be_val [] = 0" "be_val (bs @ [b]) = 256 * be_val bs + unat b"
  by (simp_all add: be_val_def)

lemma be_val_append: "be_val (xs @ ys) = be_val xs * 256 ^ length ys + be_val ys"
proof (induction ys rule: rev_induct)
  case (snoc y ys)
  have "be_val (xs @ ys @ [y]) = 256 * be_val (xs @ ys) + unat y"
    using be_val_simps(2) [of "xs @ ys" y] by (simp only: append_assoc)
  then show ?case using snoc by (simp add: distrib_left)
qed simp

lemma be_val_Cons: "be_val (b # bs) = unat b * 256 ^ length bs + be_val bs"
  using be_val_append [of "[b]" bs] be_val_simps(2) [of "[]" b] by simp

lemma unat_ucast_byte: "unat (ucast (b :: byte) :: 32 word) = unat b"
  by (simp add: unsigned_ucast_eq take_bit_nat_eq_self_iff) (rule less_trans [OF unsigned_less], simp)

lemma pow256: "(256::nat) ^ k = 2 ^ (8 * k)"
  using power_mult [of "2::nat" 8 k] by simp

lemma unat_drop_byte: "unat (drop_bit (k * 8) u) = unat u div 256 ^ k"
proof -
  have "(256::nat) ^ k = 2 ^ (k * 8)" using power_mult [of "2::nat" 8 k] by (simp add: mult.commute)
  then show ?thesis unfolding unat_drop_bit_eq by (simp only: drop_bit_eq_div)
qed

lemma unat_byte_bound: "unat (b :: byte) < 256"
  using unsigned_less [of b, where 'a = nat] by simp

lemma be_val_less: "be_val bs < 256 ^ length bs"
proof (induction bs)
  case (Cons b bs)
  have "be_val (b # bs) < (unat b + 1) * 256 ^ length bs"
    using Cons by (simp add: be_val_Cons distrib_right)
  also have "\<dots> \<le> 256 * 256 ^ length bs"
    using unat_byte_bound [of b] by (intro mult_le_mono1) simp
  finally show ?case by simp
qed simp

lemma be_val_inject: "length xs = length ys \<Longrightarrow> be_val xs = be_val ys \<Longrightarrow> xs = ys"
proof (induction xs ys rule: list_induct2)
  case (Cons x xs y ys)
  have "unat x = unat y"
  proof -
    have top: "(n * p + r) div p = n" if "r < p" for n p r :: nat using that by simp
    have "be_val (x # xs) div 256 ^ length xs = unat x" "be_val (y # ys) div 256 ^ length ys = unat y"
      unfolding be_val_Cons by (rule top, rule be_val_less)+
    then show ?thesis using Cons.prems Cons.hyps by simp
  qed
  then show ?case using Cons by (simp add: be_val_Cons word_unat_eq_iff)
qed simp

lemma be_val_zeros [simp]: "be_val (replicate n 0 @ bs) = be_val bs"
  by (induction n) (simp_all add: be_val_Cons)

lemma be_val_replicate [simp]: "be_val (replicate n 0) = 0"
  using be_val_zeros [of n "[]"] by simp

lemma be_val_eq_0: "be_val bs = 0 \<longleftrightarrow> (\<forall>b \<in> set bs. b = 0)"
  by (induction bs) (auto simp: be_val_Cons unat_eq_zero)

section \<open>Import\<close>

text \<open>After \<open>m\<close> bytes: the word that is being filled has only bits of the bytes it has received.\<close>

definition import_state :: "32 word list \<times> nat \<times> nat \<Rightarrow> nat \<Rightarrow> nat \<Rightarrow> bool" where
  "import_state st m v = (case st of (w, len, j) \<Rightarrow>
     length w = 8 \<and> 4 * len + j = m \<and> j < 4 \<and> m \<le> 32
     \<and> (len < 8 \<longrightarrow> unat (w ! len) < 2 ^ (8 * j) \<and> wsum ((!) w) (Suc len) = v)
     \<and> (len = 8 \<longrightarrow> wsum ((!) w) 8 = v))"

lemma import_byte_state:
  assumes "import_state st m v" "m < 32"
  shows "import_state (import_byte st b) (Suc m) (v + unat b * 256 ^ m)"
proof (cases st)
  case (fields w len j)
  have st: "length w = 8" "4 * len + j = m" "j < 4" "len < 8" "unat (w ! len) < 2 ^ (8 * j)" "wsum ((!) w) (Suc len) = v"
    using assms by (auto simp: import_state_def fields)
  define x where "x = w ! len + push_bit (8 * j) (ucast b)"
  have shifted: "unat (push_bit (8 * j) (ucast b) :: 32 word) = unat b * 2 ^ (8 * j)"
  proof -
    have "unat b * 2 ^ (8 * j) < 2 ^ 8 * 2 ^ (8 * j)" using unat_byte_bound [of b] by simp
    also have "\<dots> = 2 ^ (8 * Suc j)" by (simp add: power_add)
    also have "\<dots> \<le> 2 ^ 32" using st(3) by (intro power_increasing) simp_all
    finally show ?thesis
      unfolding unsigned_push_bit_eq unat_ucast_byte by (simp add: push_bit_eq_mult take_bit_nat_eq_self)
  qed
  have x: "unat x = unat (w ! len) + unat b * 2 ^ (8 * j)" "unat x < 2 ^ (8 * Suc j)"
  proof -
    have "unat (w ! len) + unat b * 2 ^ (8 * j) < (unat b + 1) * 2 ^ (8 * j)"
      using st(5) by (simp add: distrib_right)
    also have "\<dots> \<le> 2 ^ 8 * 2 ^ (8 * j)"
      using unat_byte_bound [of b] by (intro mult_le_mono1) simp
    also have "\<dots> = 2 ^ (8 * Suc j)" by (simp add: power_add)
    finally have less: "unat (w ! len) + unat b * 2 ^ (8 * j) < 2 ^ (8 * Suc j)" .
    also have "(2::nat) ^ (8 * Suc j) \<le> 2 ^ 32" using st(3) by (intro power_increasing) simp_all
    finally show "unat x = unat (w ! len) + unat b * 2 ^ (8 * j)"
      by (simp add: x_def unat_word_ariths shifted)
    with less show "unat x < 2 ^ (8 * Suc j)" by simp
  qed
  define w1 where "w1 = w[len := x]"
  have w1: "length w1 = 8" "w1 ! len = x" "wsum ((!) w1) (Suc len) = v + unat b * 256 ^ m"
  proof -
    show "length w1 = 8" "w1 ! len = x" using st by (simp_all add: w1_def)
    have "wsum ((!) w1) len = wsum ((!) w) len" by (rule wsum_cong) (simp add: w1_def)
    moreover have "(256::nat) ^ m = 2 ^ (8 * j) * 2 ^ (32 * len)"
      by (simp only: pow256 st(2) [symmetric] flip: power_add) (simp add: algebra_simps)
    ultimately show "wsum ((!) w1) (Suc len) = v + unat b * 256 ^ m"
      using st by (simp add: w1_def x(1) distrib_right)
  qed
  show ?thesis
  proof (cases "j = 3")
    case False
    then have "import_byte st b = (w1, len, Suc j)"
      using st(3) by (simp add: fields w1_def x_def)
    then show ?thesis using False st assms(2) w1 x(2) by (simp add: import_state_def)
  next
    case True
    then have res: "import_byte st b = (if len + 1 \<noteq> 8 then w1[len + 1 := 0] else w1, len + 1, 0)"
      by (simp add: fields w1_def x_def)
    have "wsum ((!) (w1[len + 1 := 0])) (Suc len) = wsum ((!) w1) (Suc len)"
      by (rule wsum_cong) simp
    moreover have "wsum ((!) w1) 8 = v + unat b * 256 ^ m" if "len = 7"
      using w1(3) that by (simp del: wsum_simps)
    ultimately show ?thesis using True st(1-4) assms(2) w1 unfolding res
      by (cases "len = 7") (simp_all add: import_state_def)
  qed
qed

lemma import_bytes:
  "length bs \<le> 32 \<Longrightarrow> import_state st 0 0 \<Longrightarrow>
   import_state (foldl import_byte st (rev bs)) (length bs) (be_val bs)"
proof (induction bs)
  case (Cons b bs)
  then show ?case
    using import_byte_state [of "foldl import_byte st (rev bs)" "length bs" "be_val bs" b]
    by (simp add: be_val_Cons add.commute)
qed simp

lemma import_value:
  assumes "length bs \<le> 32" "length (m_aiMyInt n) = 8"
  shows "mpi_shape (snd (CMpi_Import n bs)) \<and> mpi_int (snd (CMpi_Import n bs)) = int (be_val bs)
    \<and> m_iMySign (snd (CMpi_Import n bs)) = POSITIVE \<and> (bs \<noteq> [] \<longrightarrow> m_iLengthInInts (snd (CMpi_Import n bs)) > 0)"
proof -
  have "import_state ((m_aiMyInt n)[0 := 0], 0, 0) 0 0"
    using assms(2) by (simp add: import_state_def)
  note state = import_bytes [OF assms(1) this]
  obtain w len j where fold: "foldl import_byte ((m_aiMyInt n)[0 := 0], 0, 0) (rev bs) = (w, len, j)"
    by (metis surj_pair)
  define l where "l = (if j \<noteq> 0 then len + 1 else len)"
  have st: "length w = 8" "4 * len + j = length bs" "len < 8 \<Longrightarrow> unat (w ! len) < 2 ^ (8 * j)"
    "len < 8 \<Longrightarrow> wsum ((!) w) (Suc len) = be_val bs" "len = 8 \<Longrightarrow> wsum ((!) w) 8 = be_val bs"
    using state by (simp_all add: fold import_state_def)
  have "l \<le> 8" "len \<le> 8" using st(2) assms(1) by (auto simp: l_def)
  have "wsum ((!) w) l = be_val bs"
  proof (cases "j = 0")
    case True
    with st(3-5) \<open>len \<le> 8\<close> show ?thesis by (cases "len = 8") (auto simp: l_def)
  next
    case False
    then have "len < 8" using st(2) assms(1) by simp
    with False st(4) show ?thesis by (simp add: l_def)
  qed
  moreover have "snd (CMpi_Import n bs) = n\<lparr>m_iCarry := 0, m_iLengthInInts := l, m_iMySign := POSITIVE, m_aiMyInt := w\<rparr>"
    using assms(1) fold by (simp add: CMpi_Import_def Let_def l_def)
  moreover have "bs \<noteq> [] \<longrightarrow> l > 0" using st(2) by (cases "len = 0") (auto simp: l_def)
  ultimately show ?thesis using st(1) \<open>l \<le> 8\<close>
    by (simp add: mpi_shape_def mpi_int_def mpi_abs_def)
qed

section \<open>Export\<close>

lemma length_word_bytes [simp]: "length (word_bytes u k) = k"
  by (simp add: word_bytes_def)

lemma word_bytes_value: "be_val (word_bytes u k) = unat u mod 256 ^ k"
proof (induction k)
  case (Suc k)
  have "word_bytes u (Suc k) = ucast (drop_bit (k * 8) u) # word_bytes u k"
    by (simp add: word_bytes_def)
  moreover have "unat (ucast (drop_bit (k * 8) u) :: byte) = unat u div 256 ^ k mod 256"
    by (simp only: unsigned_ucast_eq take_bit_eq_mod unat_drop_byte) simp
  moreover have "unat u mod 256 ^ Suc k = unat u div 256 ^ k mod 256 * 256 ^ k + unat u mod 256 ^ k"
    using mod_mult2_eq [of "unat u" "256 ^ k" 256] by (simp add: mult.commute)
  ultimately show ?case using Suc by (simp add: be_val_Cons)
qed (simp add: word_bytes_def)

lemma export_words:
  "be_val (concat (map (\<lambda>j. word_bytes (w ! j) 4) (rev [0..<j]))) = wsum ((!) w) j"
  "length (concat (map (\<lambda>j. word_bytes (w ! j) 4) (rev [0..<j]))) = 4 * j"
proof (induction j)
  case (Suc j)
  {
    case 1
    have "unat (w ! j) mod 256 ^ 4 = unat (w ! j)" using unat_word_bound [of "w ! j"] by simp
    then show ?case using Suc by (simp add: be_val_append word_bytes_value power_mult)
  next
    case 2
    show ?case using Suc by simp
  }
qed simp_all

lemma export_top_bounds:
  assumes "unat u < 256 ^ k" "u \<noteq> 0"
  shows "0 < export_top u k \<and> export_top u k \<le> k \<and> 256 ^ (export_top u k - 1) \<le> unat u \<and> unat u < 256 ^ export_top u k"
  using assms
proof (induction k)
  case 0
  then show ?case by (simp add: unat_eq_zero)
next
  case (Suc k)
  have "drop_bit (k * 8) u = 0 \<longleftrightarrow> unat u div 256 ^ k = 0"
    by (simp only: unat_eq_zero [symmetric] unat_drop_byte)
  then have "drop_bit (k * 8) u = 0 \<longleftrightarrow> unat u < 256 ^ k"
    by (simp add: div_eq_0_iff)
  with Suc show ?case by (auto simp: not_less)
qed

lemma top_word_pos: "wsum ((!) w) l \<noteq> 0 \<longleftrightarrow> top_word w l \<noteq> 0"
proof
  show "wsum ((!) w) l \<noteq> 0 \<Longrightarrow> top_word w l \<noteq> 0" using wsum_top_word [of w l] by (metis wsum_simps(1))
  assume "top_word w l \<noteq> 0"
  then have "w ! (top_word w l - 1) \<noteq> 0" "top_word w l - 1 < l"
    using top_word_regular [of w l] top_word_le [of w l] by auto
  then show "wsum ((!) w) l \<noteq> 0" unfolding wsum_eq_zero by blast
qed

lemma export_value:
  assumes "mpi_shape n" "mpi_abs n \<noteq> 0"
  shows "be_val (CMpi_Export n m) = mpi_abs n"
    "\<exists>l. length (CMpi_Export n m) = max l (nat m) \<and> 0 < l \<and> 256 ^ (l - 1) \<le> mpi_abs n \<and> mpi_abs n < 256 ^ l"
proof -
  define w where "w = m_aiMyInt n"
  define t where "t = top_word w (m_iLengthInInts n)"
  define u where "u = w ! (t - 1)"
  define k where "k = export_top u 4"
  have abs: "mpi_abs n = wsum ((!) w) t" by (simp add: mpi_abs_def w_def t_def wsum_top_word)
  have t: "t \<noteq> 0" using assms(2) top_word_pos [of w "m_iLengthInInts n"] by (simp add: mpi_abs_def w_def t_def)
  then obtain j where j: "t = Suc j" by (cases t) auto
  have "u \<noteq> 0" using t top_word_regular [of w "m_iLengthInInts n"] by (simp add: u_def t_def)
  moreover have "unat u < 256 ^ 4" using unat_word_bound [of u] by simp
  ultimately have k: "0 < k" "k \<le> 4" "256 ^ (k - 1) \<le> unat u" "unat u < 256 ^ k"
    using export_top_bounds [of u 4] by (simp_all add: k_def)
  have wsum: "mpi_abs n = unat u * 256 ^ (4 * j) + wsum ((!) w) j" "wsum ((!) w) j < 256 ^ (4 * j)"
    using wsum_less [of "(!) w" j] by (simp_all add: abs j u_def power_mult)
  have exp: "CMpi_Export n m = replicate (nat (m - int (j * 4 + k))) 0 @ word_bytes u k
      @ concat (map (\<lambda>j. word_bytes (w ! j) 4) (rev [0..<j]))"
    using j by (simp add: CMpi_Export_def w_def [symmetric] t_def [symmetric] k_def u_def Let_def)
  show "be_val (CMpi_Export n m) = mpi_abs n"
    unfolding exp be_val_zeros be_val_append word_bytes_value export_words wsum(1)
    using k(4) by simp
  have "length (CMpi_Export n m) = max (4 * j + k) (nat m)"
    unfolding exp by (simp add: export_words)
  moreover have "256 ^ (4 * j + k - 1) \<le> mpi_abs n"
  proof -
    have "(256::nat) ^ (4 * j + k - 1) = 256 ^ (k - 1) * 256 ^ (4 * j)"
      using k(1) by (simp flip: power_add)
    also have "\<dots> \<le> unat u * 256 ^ (4 * j)" using k(3) by (rule mult_le_mono1)
    finally show ?thesis using wsum(1) by simp
  qed
  moreover have "mpi_abs n < 256 ^ (4 * j + k)"
  proof -
    have "mpi_abs n < (unat u + 1) * 256 ^ (4 * j)" using wsum by (simp add: distrib_right)
    also have "\<dots> \<le> 256 ^ k * 256 ^ (4 * j)" using k(4) by (intro mult_le_mono1) simp
    finally show ?thesis by (simp add: power_add mult.commute)
  qed
  ultimately show "\<exists>l. length (CMpi_Export n m) = max l (nat m) \<and> 0 < l \<and> 256 ^ (l - 1) \<le> mpi_abs n \<and> mpi_abs n < 256 ^ l"
    using k(1) by (intro exI [of _ "4 * j + k"]) simp
qed

section \<open>Properties\<close>

text \<open>
  Bytes that are imported and exported again with their number come back as they were, when
  not all of them are zero, and the number imported is the value of the bytes.
\<close>

theorem mpi_bytes_roundtrip:
  assumes "length bs \<le> 32" "length (m_aiMyInt n) = 8" "list_ex (\<lambda>b. b \<noteq> 0) bs"
  shows "mpi_int (snd (CMpi_Import n bs)) = int (be_val bs)
    \<and> CMpi_Export (snd (CMpi_Import n bs)) (int (length bs)) = bs"
proof -
  let ?n = "snd (CMpi_Import n bs)"
  have n: "mpi_shape ?n" "mpi_int ?n = int (be_val bs)" using import_value [OF assms(1,2)] by simp_all
  have "m_iMySign ?n = POSITIVE"
    by (auto simp: CMpi_Import_def Let_def split: prod.split)
  then have abs: "mpi_abs ?n = be_val bs" using n(2) by (simp add: mpi_int_def)
  moreover have "be_val bs \<noteq> 0" using assms(3) by (auto simp: be_val_eq_0 list_ex_iff)
  ultimately obtain l where l: "length (CMpi_Export ?n (int (length bs))) = max l (length bs)" "0 < l"
      "256 ^ (l - 1) \<le> be_val bs"
    using export_value(2) [OF n(1), of "int (length bs)"] by auto
  have "l \<le> length bs"
  proof (rule ccontr)
    assume "\<not> l \<le> length bs"
    then have "(256::nat) ^ length bs \<le> 256 ^ (l - 1)" by (intro power_increasing) simp_all
    then show False using l(3) be_val_less [of bs] by (meson leD le_less_trans le_trans)
  qed
  then have "CMpi_Export ?n (int (length bs)) = bs"
    using l(1) abs \<open>be_val bs \<noteq> 0\<close> export_value(1) [OF n(1), of "int (length bs)"]
    by (intro be_val_inject) simp_all
  with n(2) show ?thesis by simp
qed

theorem mpi_bytes_roundtrip_witness:
  "mpi_int (snd (CMpi_Import mpi_blank [0, 1, 2, 3, 4])) = 0x01020304
   \<and> CMpi_Export (snd (CMpi_Import mpi_blank [0, 1, 2, 3, 4])) 5 = [0, 1, 2, 3, 4]"
  using mpi_bytes_roundtrip [of "[0, 1, 2, 3, 4]" mpi_blank] by (simp add: mpi_blank_def be_val_def)

end
