(* ===== verification/Mpi_Multiply.thy ===== *)
theory Mpi_Multiply
  imports Mpi_Value
begin

text \<open>
  The product of two numbers: column by column into sixteen words, which the carries never leave.
\<close>

definition mpl_abs :: "cmpl \<Rightarrow> nat" where
  "mpl_abs c = mpi_abs (mpl_l c) + 2 ^ 256 * mpi_abs (mpl_h c)"

lemma wsum_update:
  "i < n \<Longrightarrow> i < length r \<Longrightarrow> wsum ((!) (r[i := v])) n + unat (r ! i) * 2 ^ (32 * i)
     = wsum ((!) r) n + unat v * 2 ^ (32 * i)"
proof (induction n)
  case (Suc n)
  show ?case
  proof (cases "i = n")
    case True
    moreover have "wsum ((!) (r[n := v])) n = wsum ((!) r) n" by (rule wsum_cong) simp
    ultimately show ?thesis using Suc.prems by simp
  next
    case False
    then show ?thesis using Suc by simp
  qed
qed simp

text \<open>A sum of 64 bits stored: its lower half at the index, its upper half to be carried on.\<close>

lemma store_carry:
  fixes s :: "64 word"
  assumes "k < n" "k < length r" "unat s = x + unat (r ! k)"
  shows "wsum ((!) (r[k := ucast s])) n + unat (drop_bit 32 s) * 2 ^ (32 * Suc k)
    = wsum ((!) r) n + x * 2 ^ (32 * k)"
proof -
  have hi: "unat (drop_bit 32 s) = unat s div 2 ^ 32" by (simp add: drop_bit_eq_div unat_div)
  have lo: "unat (ucast s :: 32 word) = unat s mod 2 ^ 32"
    by (simp add: unsigned_ucast_eq take_bit_eq_mod)
  have "unat (ucast s :: 32 word) * 2 ^ (32 * k) + unat (drop_bit 32 s) * 2 ^ (32 * Suc k)
      = (x + unat (r ! k)) * 2 ^ (32 * k)"
    unfolding hi lo assms(3) [symmetric] using split_word [of "unat s" "2 ^ 32" "2 ^ (32 * k)"] by (simp add: power_add)
  then show ?thesis
    using wsum_update [OF assms(1,2), of "ucast s"] by (simp add: distrib_right)
qed

lemma mul_carry_value:
  assumes "length r = 16" "j \<le> 16" "unat s < 2 ^ 32" "wsum ((!) r) 16 + unat s * 2 ^ (32 * j) < 2 ^ 512"
  shows "\<exists>r'. mul_carry r j s = Ret r' \<and> length r' = 16 \<and> wsum ((!) r') 16 = wsum ((!) r) 16 + unat s * 2 ^ (32 * j)"
  using assms
proof (induction r j s rule: mul_carry.induct)
  case (1 r j s)
  show ?case
  proof (cases "s = 0")
    case True
    then show ?thesis using 1(2) by (simp add: mul_carry.simps [of r j 0])
  next
    case False
    have "j < 16"
    proof (rule ccontr)
      assume "\<not> j < 16"
      with 1(3) have "j = 16" by simp
      moreover have "1 \<le> unat s" using False by (simp add: Suc_le_eq unat_gt_0)
      ultimately show False using 1(5) by simp
    qed
    define u where "u = s + ucast (r ! j)"
    have u: "unat u = unat s + unat (r ! j)"
      using 1(4) unat_word_bound [of "r ! j"] by (simp add: u_def unat_word_ariths)
    have hi: "unat (drop_bit 32 u) < 2 ^ 32"
      using u 1(4) unat_word_bound [of "r ! j"] by (simp add: drop_bit_eq_div unat_div less_mult_imp_div_less)
    have sum: "wsum ((!) (r[j := ucast u])) 16 + unat (drop_bit 32 u) * 2 ^ (32 * (j + 1))
        = wsum ((!) r) 16 + unat s * 2 ^ (32 * j)"
      using store_carry [of j 16 r u "unat s"] \<open>j < 16\<close> 1(2) u by simp
    have "mul_carry r j s = mul_carry (r[j := ucast u]) (j + 1) (drop_bit 32 u)"
      using False \<open>j < 16\<close> 1(2) by (subst mul_carry.simps) (simp add: u_def Let_def)
    moreover have "\<exists>r'. mul_carry (r[j := ucast u]) (j + 1) (drop_bit 32 u) = Ret r' \<and> length r' = 16
        \<and> wsum ((!) r') 16 = wsum ((!) (r[j := ucast u])) 16 + unat (drop_bit 32 u) * 2 ^ (32 * (j + 1))"
      using False \<open>j < 16\<close> 1(2,5) hi sum by (intro 1(1) [OF _ _ u_def]) simp_all
    ultimately show ?thesis by (simp only: sum)
  qed
qed

text \<open>What one round adds.\<close>

definition mul_term :: "cmpi \<Rightarrow> cmpi \<Rightarrow> nat \<Rightarrow> nat \<Rightarrow> nat" where
  "mul_term a b k i = unat (mpi_word a i) * unat (mpi_word b (k - i)) * 2 ^ (32 * k)"

lemma mul_word_value:
  assumes "mpi_shape a" "mpi_shape b" "length r = 16" "i \<le> k" "wsum ((!) r) 16 + mul_term a b k i < 2 ^ 512"
  shows "\<exists>r'. mul_word a b k r i = Ret r' \<and> length r' = 16 \<and> wsum ((!) r') 16 = wsum ((!) r) 16 + mul_term a b k i"
proof (cases "m_iLengthInInts a > i \<and> m_iLengthInInts b > k - i")
  case False
  then show ?thesis using assms by (auto simp: mul_word_def mul_term_def mpi_word_def Let_def)
next
  case True
  define x where "x = m_aiMyInt a ! i"
  define y where "y = m_aiMyInt b ! (k - i)"
  have "i < 8" "k - i < 8" using True assms(1,2) by (auto simp: mpi_shape_def)
  then have k: "k + 1 < 16" using assms(4) by simp
  have xy: "unat x * unat y \<le> (2 ^ 32 - 1) * (2 ^ 32 - 1)"
    using unat_word_bound [of x] unat_word_bound [of y] by (intro mult_le_mono) simp_all
  define s where "s = ucast x * ucast y + (ucast (r ! k) :: 64 word)"
  define r1 where "r1 = r[k := ucast s]"
  define t where "t = drop_bit 32 s + ucast (r1 ! (k + 1))"
  define r2 where "r2 = r1[k + 1 := ucast t]"
  have s: "unat s = unat x * unat y + unat (r ! k)"
    using xy unat_word_bound [of "r ! k"] by (simp add: s_def unat_word_ariths)
  have s32: "unat (drop_bit 32 s) < 2 ^ 32"
    using unsigned_less [of s, where 'a = nat] by (simp add: drop_bit_eq_div unat_div less_mult_imp_div_less)
  have t: "unat t = unat (drop_bit 32 s) + unat (r1 ! (k + 1))"
    using s32 unat_word_bound [of "r1 ! (k + 1)"] by (simp add: t_def unat_word_ariths)
  have t32: "unat (drop_bit 32 t) < 2 ^ 32"
    using unsigned_less [of t, where 'a = nat] by (simp add: drop_bit_eq_div unat_div less_mult_imp_div_less)
  have one: "wsum ((!) r1) 16 + unat (drop_bit 32 s) * 2 ^ (32 * (k + 1)) = wsum ((!) r) 16 + unat x * unat y * 2 ^ (32 * k)"
    using store_carry [of k 16 r s "unat x * unat y"] k assms(3) s by (simp add: r1_def)
  have two: "wsum ((!) r2) 16 + unat (drop_bit 32 t) * 2 ^ (32 * (k + 2)) = wsum ((!) r1) 16 + unat (drop_bit 32 s) * 2 ^ (32 * (k + 1))"
    using store_carry [of "k + 1" 16 r1 t "unat (drop_bit 32 s)"] k assms(3) t by (simp add: r1_def r2_def)
  have "mul_term a b k i = unat x * unat y * 2 ^ (32 * k)"
    using True by (simp add: mul_term_def mpi_word_def x_def y_def)
  moreover have "mul_word a b k r i = mul_carry r2 (k + 2) (drop_bit 32 t)"
    using True k assms(3) unfolding mul_word_def
    by (simp add: Let_def r2_def t_def r1_def s_def x_def y_def)
  moreover have "length r2 = 16" using assms(3) by (simp add: r1_def r2_def)
  ultimately show ?thesis
    using mul_carry_value [of r2 "k + 2" "drop_bit 32 t"] k t32 one two assms(5) by simp
qed

lemma for_each_sum:
  assumes "\<And>r x. x \<in> set xs \<Longrightarrow> length r = 16 \<Longrightarrow> wsum ((!) r) 16 + g x < 2 ^ 512 \<Longrightarrow>
      \<exists>r'. f r x = Ret r' \<and> length r' = 16 \<and> wsum ((!) r') 16 = wsum ((!) r) 16 + g x"
    and "length r = 16" "wsum ((!) r) 16 + sum_list (map g xs) < 2 ^ 512"
  shows "\<exists>r'. for_each f xs r = Ret r' \<and> length r' = 16 \<and> wsum ((!) r') 16 = wsum ((!) r) 16 + sum_list (map g xs)"
  using assms
proof (induction xs arbitrary: r)
  case (Cons x xs)
  obtain r1 where r1: "f r x = Ret r1" "length r1 = 16" "wsum ((!) r1) 16 = wsum ((!) r) 16 + g x"
    using Cons.prems(1) [of x r] Cons.prems(2,3) by auto
  show ?case using Cons.IH [of r1] Cons.prems r1 by (simp add: add.assoc)
qed simp

lemma mul_total:
  "sum_list (map (\<lambda>k. sum_list (map (mul_term a b k) [0..<k + 1])) [0..<m_iLengthInInts a + m_iLengthInInts b])
    = mpi_abs a * mpi_abs b"
proof -
  let ?la = "m_iLengthInInts a" and ?lb = "m_iLengthInInts b"
  let ?A = "\<lambda>k. unat (mpi_word a k)" and ?B = "\<lambda>k. unat (mpi_word b k)"
  let ?x = "2 ^ 32 :: nat"
  let ?c = "\<lambda>r. (\<Sum>k\<le>r. ?A k * ?B (r - k)) * ?x ^ r"
  have abs: "mpi_abs n = (\<Sum>i\<le>m_iLengthInInts n. unat (mpi_word n i) * ?x ^ i)" for n
    using mpi_abs_word [OF le_SucI [OF order_refl], of n]
    by (simp only: wsum_def lessThan_Suc_atMost power_mult)
  have "?c (?la + ?lb) = 0"
    by (auto simp: mpi_word_def)
  moreover have "int (mpi_abs a * mpi_abs b) = int (\<Sum>r\<le>?la + ?lb. ?c r)"
    using polynomial_product [of ?la "\<lambda>k. int (?A k)" ?lb "\<lambda>k. int (?B k)" "int ?x"]
    unfolding abs by (simp add: mpi_word_def)
  then have "mpi_abs a * mpi_abs b = (\<Sum>r\<le>?la + ?lb. ?c r)" by (simp only: of_nat_eq_iff)
  ultimately have "mpi_abs a * mpi_abs b = (\<Sum>r<?la + ?lb. ?c r)"
    by (simp only: lessThan_Suc_atMost [symmetric] sum.lessThan_Suc)
  moreover have "?c r = sum_list (map (mul_term a b r) [0..<r + 1])" for r
    unfolding mul_term_def power_mult
    by (simp add: interv_sum_list_conv_sum_set_nat sum_distrib_right atLeastLessThanSuc_atLeastAtMost atMost_atLeast0 del: upt_Suc)
  ultimately show ?thesis
    by (simp add: interv_sum_list_conv_sum_set_nat atLeast0LessThan del: upt_Suc)
qed

lemma mpi_abs_less: "mpi_shape n \<Longrightarrow> mpi_abs n < 2 ^ 256"
proof -
  assume "mpi_shape n"
  then have "(2::nat) ^ (32 * m_iLengthInInts n) \<le> 2 ^ (32 * 8)"
    by (intro power_increasing) (simp_all add: mpi_shape_def)
  then show ?thesis using wsum_less [of "(!) (m_aiMyInt n)" "m_iLengthInInts n"] by (simp add: mpi_abs_def)
qed

lemma mul_columns:
  assumes "mpi_shape a" "mpi_shape b"
  shows "\<exists>r. for_each (\<lambda>r k. for_each (mul_word a b k) [0..<k + 1] r) [0..<m_iLengthInInts a + m_iLengthInInts b] (replicate 16 0)
      = Ret r \<and> length r = 16 \<and> wsum ((!) r) 16 = mpi_abs a * mpi_abs b"
proof -
  let ?g = "\<lambda>k. sum_list (map (mul_term a b k) [0..<k + 1])"
  have "mpi_abs a * mpi_abs b < 2 ^ 256 * 2 ^ 256"
    using assms by (intro mult_strict_mono mpi_abs_less) simp_all
  then have small: "sum_list (map ?g [0..<m_iLengthInInts a + m_iLengthInInts b]) < 2 ^ 512"
    unfolding mul_total by simp
  have zero: "wsum ((!) (replicate 16 0)) 16 = 0" by (simp add: wsum_eq_zero)
  have "\<exists>r. for_each (\<lambda>r k. for_each (mul_word a b k) [0..<k + 1] r) [0..<m_iLengthInInts a + m_iLengthInInts b] (replicate 16 0) = Ret r
      \<and> length r = 16 \<and> wsum ((!) r) 16 = wsum ((!) (replicate 16 0)) 16 + sum_list (map ?g [0..<m_iLengthInInts a + m_iLengthInInts b])"
  proof (rule for_each_sum)
    fix r k assume "length r = 16" "wsum ((!) r) 16 + ?g k < 2 ^ 512"
    then show "\<exists>r'. for_each (mul_word a b k) [0..<k + 1] r = Ret r' \<and> length r' = 16 \<and> wsum ((!) r') 16 = wsum ((!) r) 16 + ?g k"
      by (intro for_each_sum mul_word_value [OF assms]) auto
  qed (use small zero in simp_all)
  then show ?thesis unfolding zero mul_total by simp
qed


section \<open>The product in two numbers\<close>

lemma store_words:
  "l \<le> length w \<Longrightarrow> foldl (\<lambda>w i. w[i := f i]) w [0..<l] = map (\<lambda>k. if k < l then f k else w ! k) [0..<length w]"
proof (induction l)
  case 0
  then show ?case by (simp add: map_nth)
next
  case (Suc l)
  then have "foldl (\<lambda>w i. w[i := f i]) w [0..<Suc l] = (map (\<lambda>k. if k < l then f k else w ! k) [0..<length w])[l := f l]"
    by simp
  also have "\<dots> = map (\<lambda>k. if k < Suc l then f k else w ! k) [0..<length w]"
    by (rule nth_equalityI) (auto simp: nth_list_update less_Suc_eq)
  finally show ?case .
qed

lemma wsum_shift: "wsum f (n + m) = wsum f n + 2 ^ (32 * n) * wsum (\<lambda>i. f (i + n)) m"
  by (induction m) (simp_all add: distrib_left power_add add.commute mult.assoc)

lemma mul_store_value:
  assumes "length r = 16" "length (m_aiMyInt (mpl_h c)) = 8" "length (m_aiMyInt (mpl_l c)) = 8"
  shows "mpl_abs (mul_store r c) = wsum ((!) r) 16"
    "length (m_aiMyInt (mpl_h (mul_store r c))) = 8" "length (m_aiMyInt (mpl_l (mul_store r c))) = 8"
    "m_iLengthInInts (mpl_h (mul_store r c)) \<le> 8" "m_iLengthInInts (mpl_l (mul_store r c)) \<le> 8"
    "m_iLengthInInts (mpl_h (mul_store r c)) = 0 \<or> m_iLengthInInts (mpl_l (mul_store r c)) = 8"
proof -
  define t where "t = top_word r 16"
  have t: "t \<le> 16" "wsum ((!) r) t = wsum ((!) r) 16"
    by (simp_all add: t_def top_word_le wsum_top_word)
  have split: "wsum ((!) r) t = wsum ((!) r) 8 + 2 ^ 256 * wsum (\<lambda>i. r ! (i + 8)) (t - 8)" if "8 < t"
    using wsum_shift [of "(!) r" 8 "t - 8"] that by simp
  have l: "wsum ((!) (foldl (\<lambda>w i. w[i := f i]) w [0..<n])) n = wsum f n" if "n \<le> length w" for f w n
    using that by (intro wsum_cong) (simp add: store_words)
  show "mpl_abs (mul_store r c) = wsum ((!) r) 16"
    using t split assms
    by (cases "8 < t") (simp_all add: mul_store_def Let_def t_def [symmetric] mpl_abs_def mpi_abs_def l)
  show "length (m_aiMyInt (mpl_h (mul_store r c))) = 8" "length (m_aiMyInt (mpl_l (mul_store r c))) = 8"
    "m_iLengthInInts (mpl_h (mul_store r c)) \<le> 8" "m_iLengthInInts (mpl_l (mul_store r c)) \<le> 8"
    "m_iLengthInInts (mpl_h (mul_store r c)) = 0 \<or> m_iLengthInInts (mpl_l (mul_store r c)) = 8"
    using t assms by (auto simp: mul_store_def Let_def t_def [symmetric] store_words)
qed

lemma mpi_multiply_value:
  assumes "mpi_shape a" "mpi_shape b" "length (m_aiMyInt (mpl_h c)) = 8" "length (m_aiMyInt (mpl_l c)) = 8"
  shows "\<exists>p. CMpi_Multiply a b c = Ret p \<and> mpi_shape (mpl_h p) \<and> mpi_shape (mpl_l p)
    \<and> m_iMySign (mpl_h p) = m_iMySign a * m_iMySign b \<and> m_iMySign (mpl_l p) = m_iMySign a * m_iMySign b
    \<and> (m_iLengthInInts (mpl_h p) = 0 \<or> m_iLengthInInts (mpl_l p) = 8) \<and> mpl_abs p = mpi_abs a * mpi_abs b"
proof -
  obtain r where r: "for_each (\<lambda>r k. for_each (mul_word a b k) [0..<k + 1] r) [0..<m_iLengthInInts a + m_iLengthInInts b] (replicate 16 0) = Ret r"
    "length r = 16" "wsum ((!) r) 16 = mpi_abs a * mpi_abs b"
    using mul_columns [OF assms(1,2)] by blast
  note store = mul_store_value [OF r(2) assms(3,4)]
  have signs: "(if m_iMySign a = m_iMySign b then POSITIVE else NEGTIVE) = m_iMySign a * m_iMySign b"
    using assms(1,2) by (auto simp: mpi_shape_def)
  define s where "s = m_iMySign a * m_iMySign b"
  define p where "p = (mul_store r c)\<lparr>mpl_h := (mpl_h (mul_store r c))\<lparr>m_iMySign := s, m_iCarry := 0\<rparr>,
    mpl_l := (mpl_l (mul_store r c))\<lparr>m_iMySign := s, m_iCarry := 0\<rparr>\<rparr>"
  have s: "s \<in> {POSITIVE, NEGTIVE}" using assms(1,2) by (auto simp: s_def mpi_shape_def)
  have "mpl_abs p = mpi_abs a * mpi_abs b"
    using store(1) r(3) by (simp add: p_def mpl_abs_def mpi_abs_def)
  moreover have "mpi_shape (mpl_h p)" "mpi_shape (mpl_l p)" "m_iMySign (mpl_h p) = s" "m_iMySign (mpl_l p) = s"
    "m_iLengthInInts (mpl_h p) = 0 \<or> m_iLengthInInts (mpl_l p) = 8"
    using store s by (simp_all add: p_def mpi_shape_def)
  moreover have "CMpi_Multiply a b c = Ret p"
    using r(1) by (simp add: CMpi_Multiply_def Let_def signs p_def s_def)
  ultimately show ?thesis by (auto simp: s_def)
qed


section \<open>Properties\<close>

text \<open>
  C29: the product of two numbers of either sign is the product of the integers, in two numbers of
  256 bits with the same sign; the carries stay inside the sixteen words.
\<close>

theorem mpi_multiply:
  assumes "mpi_shape a" "mpi_shape b" "length (m_aiMyInt (mpl_h c)) = 8" "length (m_aiMyInt (mpl_l c)) = 8"
  shows "\<exists>p. CMpi_Multiply a b c = Ret p \<and> mpi_shape (mpl_h p) \<and> mpi_shape (mpl_l p)
    \<and> m_iMySign (mpl_h p) = m_iMySign (mpl_l p) \<and> m_iMySign (mpl_l p) * int (mpl_abs p) = mpi_int a * mpi_int b"
  using mpi_multiply_value [OF assms] by (auto simp: mpi_int_def)

theorem mpi_multiply_witness:
  "\<exists>p. CMpi_Multiply (mpi_small 1 0xffffffff) (mpi_small (- 1) 0xffffffff) \<lparr>mpl_h = mpi_blank, mpl_l = mpi_blank\<rparr> = Ret p
     \<and> m_iMySign (mpl_l p) * int (mpl_abs p) = - (0xffffffff * 0xffffffff)"
  using mpi_multiply [of "mpi_small 1 0xffffffff" "mpi_small (- 1) 0xffffffff" "\<lparr>mpl_h = mpi_blank, mpl_l = mpi_blank\<rparr>"]
  by (auto simp: mpi_small_value)

end
