(* ===== verification/Mpi_Type.thy ===== *)
theory Mpi_Type
  imports Mpi_Bytes Mpi_Multiply
begin

text \<open>
  The representation of \<open>Mpi\<close> as a type: every operation gives a number with eight words, a
  length of at most eight and one of the two signs (\<open>mpi_shape\<close>), and where the operands have no
  leading zero words (\<open>mpi_ok\<close>) those that copy, negate or trim keep it so.
\<close>

lemma top_word_bound: "top_word w k \<le> k" "top_word w k \<noteq> 0 \<Longrightarrow> w ! (top_word w k - 1) \<noteq> 0"
  by (induction k) auto

lemma regularize_ok: "mpi_shape n \<Longrightarrow> mpi_ok (CMpi_Regularize n)"
  using top_word_bound [of "m_aiMyInt n" "m_iLengthInInts n"]
  by (auto simp: CMpi_Regularize_def mpi_shape_def mpi_regular_def)

lemma assign_d_ok: "length (m_aiMyInt n) = 8 \<Longrightarrow> mpi_ok (CMpi_Assign_d n w)"
  by (simp add: CMpi_Assign_d_def mpi_shape_def mpi_regular_def)

lemma change_sign_ok: "mpi_ok n \<Longrightarrow> mpi_ok (CMpi_ChangeSign n)"
  by (auto simp: CMpi_ChangeSign_def mpi_shape_def mpi_regular_def)

lemma length_foldl_step:
  "(\<And>s i. length (fst (f s i)) = length (fst s)) \<Longrightarrow> length (fst (foldl f s xs)) = length (fst s)"
  by (induction xs arbitrary: s) simp_all

lemma multiply_d_shape: "mpi_shape n \<Longrightarrow> mpi_shape (CMpi_Multiply_d n w)"
proof -
  assume n: "mpi_shape n"
  define f where "f = (\<lambda>(v :: 32 word list, c :: 32 word) i. let direg = ucast (v ! i) * ucast w + ucast c :: 64 word
    in (v[i := ucast direg], ucast (drop_bit 32 direg) :: 32 word))"
  obtain v c where vc: "foldl f (m_aiMyInt n, 0) [0..<m_iLengthInInts n] = (v, c)" by fastforce
  have "length (fst (foldl f (m_aiMyInt n, 0) [0..<m_iLengthInInts n])) = length (m_aiMyInt n)"
    by (subst length_foldl_step) (auto simp: f_def Let_def)
  then have "length v = 8" using n by (simp add: vc mpi_shape_def)
  then show ?thesis using n vc
    by (auto simp: CMpi_Multiply_d_def mpi_shape_def Let_def f_def [unfolded Let_def, symmetric])
qed

text \<open>
  C30: the operations on the numbers of \<^verbatim>\<open>mpi.c\<close> keep their representation: eight words, at most
  eight of which count, a sign; assignment, negation and trimming give numbers without leading zero
  words, and the halves of a product are numbers again.
\<close>

theorem mpi_representation_kept:
  assumes "mpi_ok a" "mpi_ok b" "length (m_aiMyInt g1) = 8" "length (m_aiMyInt g2) = 8"
    and "length bs \<le> 32" "length (m_aiMyInt (mpl_h c)) = 8" "length (m_aiMyInt (mpl_l c)) = 8"
  shows "mpi_ok (CMpi_Assign a g1) \<and> mpi_ok (CMpi_Assign_d g1 w) \<and> mpi_ok (CMpi_Negate a g1) \<and> mpi_ok (CMpi_ChangeSign a)
    \<and> mpi_shape (CMpi_Add g1 g2 a b) \<and> mpi_shape (CMpi_Substract g1 g2 a b) \<and> mpi_shape (CMpi_Multiply_d a w)
    \<and> mpi_ok (CMpi_Regularize (CMpi_Add g1 g2 a b)) \<and> mpi_ok (CMpi_Regularize (CMpi_Substract g1 g2 a b))
    \<and> mpi_shape (snd (CMpi_Import g1 bs))
    \<and> (\<exists>p. CMpi_Multiply a b c = Ret p \<and> mpi_shape (mpl_h p) \<and> mpi_shape (mpl_l p))"
proof -
  have "mpi_shape (CMpi_Add g1 g2 a b)" "mpi_shape (CMpi_Substract g1 g2 a b)"
    using mpi_add_value [OF assms(1,2,4)] mpi_sub_value [OF assms(1-4)] by simp_all
  moreover have "mpi_shape (CMpi_Multiply_d a w)" using multiply_d_shape assms(1) by blast
  moreover have "mpi_ok (CMpi_Assign a g1)" "mpi_ok (CMpi_Negate a g1)"
    using assign_value [of a g1] negate_value [of a g1] assms(1,3) by simp_all
  moreover have "mpi_shape (snd (CMpi_Import g1 bs))" using import_value [of bs g1] assms(3,5) by blast
  moreover have "\<exists>p. CMpi_Multiply a b c = Ret p \<and> mpi_shape (mpl_h p) \<and> mpi_shape (mpl_l p)"
    using mpi_multiply_value [of a b c] assms by blast
  ultimately show ?thesis
    using regularize_ok assign_d_ok [OF assms(3)] change_sign_ok [OF assms(1)] by blast
qed

theorem mpi_representation_kept_witness:
  "mpi_ok (CMpi_Regularize (CMpi_Substract mpi_blank mpi_blank (mpi_small 1 5) (mpi_small (- 1) 7)))
   \<and> mpi_shape (CMpi_Multiply_d (mpi_small 1 5) 9) \<and> mpi_shape (snd (CMpi_Import mpi_blank [1, 2]))"
  using mpi_representation_kept [of "mpi_small 1 5" "mpi_small (- 1) 7" mpi_blank mpi_blank "[1, 2]" "\<lparr>mpl_h = mpi_blank, mpl_l = mpi_blank\<rparr>" 9]
  by (simp add: mpi_small_value)

end
