(* ===== verification/Mpi_Long.thy ===== *)
theory Mpi_Long
  imports Mpi "HOL-Library.While_Combinator"
begin

text \<open>
  The long numbers of \<^verbatim>\<open>agreement/mpi.c\<close>, two numbers of 256 bits: addition and subtraction,
  shifts by words and bits, squaring, and the reduction modulo the prime of the SM2 curve. The
  uninitialised local variables are the values \<open>g i\<close>: \<open>g 0\<close> and \<open>g 1\<close> those of
  \<^verbatim>\<open>CMpi_Add\<close> and \<^verbatim>\<open>CMpi_Substract\<close>, the others those of the routines below.
\<close>

abbreviation mpi_add :: "(nat \<Rightarrow> cmpi) \<Rightarrow> cmpi \<Rightarrow> cmpi \<Rightarrow> cmpi" where
  "mpi_add g \<equiv> CMpi_Add (g 1) (g 0)"

abbreviation mpi_sub :: "(nat \<Rightarrow> cmpi) \<Rightarrow> cmpi \<Rightarrow> cmpi \<Rightarrow> cmpi" where
  "mpi_sub g \<equiv> CMpi_Substract (g 1) (g 0)"

section \<open>Addition and subtraction\<close>

text \<open>What \<^verbatim>\<open>CMpl_Add\<close> and \<^verbatim>\<open>CMpl_Addi\<close> do after the additions of the parts.\<close>

definition mpl_carry :: "(nat \<Rightarrow> cmpi) \<Rightarrow> cmpi \<Rightarrow> cmpi \<Rightarrow> cmpi \<times> cmpi" where
  "mpl_carry g h l =
     (let h = (if CMpi_EqualsTo_d h 0 then h\<lparr>m_iMySign := m_iMySign l\<rparr> else h)
      in if m_iMySign l = m_iMySign h then
           if m_iCarry l \<noteq> 0 then
             let u = (CMpi_Assign_d (g 2) (m_iCarry l))\<lparr>m_iMySign := m_iMySign l\<rparr>
             in (mpi_add g h u, l\<lparr>m_iCarry := 0\<rparr>)
           else (h, l)
         else
           let u = (g 2)\<lparr>m_aiMyInt := replicate MPI_LENGTH 0xffffffff, m_iLengthInInts := MPI_LENGTH,
                         m_iMySign := m_iMySign h\<rparr>;
               l = mpi_add g l u;
               u = u\<lparr>m_iLengthInInts := 1, m_aiMyInt := (m_aiMyInt u)[1 := 0, 0 := 1], m_iMySign := m_iMySign h\<rparr>;
               l = mpi_add g l u
           in (mpi_sub g h u, l))"

definition mpl_length :: "cmpi \<times> cmpi \<Rightarrow> cmpi \<times> cmpi" where
  "mpl_length = (\<lambda>(h, l).
     (h, if m_iLengthInInts l < MPI_LENGTH \<and> \<not> CMpi_EqualsTo_d h 0 then l\<lparr>m_iLengthInInts := MPI_LENGTH\<rparr> else l))"

definition CMpl_Add :: "(nat \<Rightarrow> cmpi) \<Rightarrow> cmpl \<Rightarrow> cmpl \<Rightarrow> cmpl" where
  "CMpl_Add g a b =
     (let l = mpi_add g (mpl_l a) (mpl_l b);
          h = mpi_add g (mpl_h a) (mpl_h b);
          (h, l) = mpl_length (mpl_carry g h l)
      in a\<lparr>mpl_h := h, mpl_l := l\<rparr>)"

definition CMpl_Addi :: "(nat \<Rightarrow> cmpi) \<Rightarrow> cmpl \<Rightarrow> cmpi \<Rightarrow> cmpl" where
  "CMpl_Addi g a b =
     (let l = mpi_add g (mpl_l a) b;
          (h, l) = mpl_length (mpl_carry g (mpl_h a) l)
      in a\<lparr>mpl_h := h, mpl_l := l\<rparr>)"

definition CMpl_Substract :: "(nat \<Rightarrow> cmpi) \<Rightarrow> cmpl \<Rightarrow> cmpl \<Rightarrow> cmpl" where
  "CMpl_Substract g a b =
     (let s = (if m_iMySign (mpl_l b) = POSITIVE then NEGTIVE else POSITIVE)
      in CMpl_Add g a \<lparr>mpl_h = (CMpi_Assign (mpl_h b) (g 3))\<lparr>m_iMySign := s\<rparr>,
                       mpl_l = (CMpi_Assign (mpl_l b) (g 4))\<lparr>m_iMySign := s\<rparr>\<rparr>)"

definition CMpl_Substracti :: "(nat \<Rightarrow> cmpi) \<Rightarrow> cmpl \<Rightarrow> cmpi \<Rightarrow> cmpl" where
  "CMpl_Substracti g a b =
     CMpl_Addi g a ((CMpi_Assign b (g 3))\<lparr>m_iMySign := (if m_iMySign b = POSITIVE then NEGTIVE else POSITIVE)\<rparr>)"

section \<open>Shifts by words\<close>

text \<open>The word at an index of a long number, counted from the lower half; below the number it is zero.\<close>

definition shl_source :: "32 word list \<Rightarrow> 32 word list \<Rightarrow> int \<Rightarrow> 32 word" where
  "shl_source h l p = (if p \<ge> 0 then h ! nat p else if p + 8 \<ge> 0 then l ! nat (8 + p) else 0)"

definition mpl_shl :: "cmpl \<Rightarrow> nat \<Rightarrow> cmpl" where
  "mpl_shl a n =
     (let k = m_iLengthInInts (mpl_h a) + m_iLengthInInts (mpl_l a);
          h = m_aiMyInt (mpl_h a); l = m_aiMyInt (mpl_l a)
      in if k = 0 then a
         else if k = 1 \<and> l ! 0 = 0 then a
         else let k = min (k + n) (MPI_LENGTH * 2);
                  h = foldl (\<lambda>h i. h[i := shl_source h l (int i - int n)]) h (rev [0..<k - MPI_LENGTH]);
                  j = min k MPI_LENGTH;
                  l = foldl (\<lambda>l i. l[i := (if int i - int n \<ge> 0 then l ! (i - n) else 0)]) l (rev [0..<j])
              in a\<lparr>mpl_h := (mpl_h a)\<lparr>m_aiMyInt := h, m_iLengthInInts := k - MPI_LENGTH\<rparr>,
                   mpl_l := (mpl_l a)\<lparr>m_aiMyInt := l, m_iLengthInInts := j\<rparr>\<rparr>)"

text \<open>The loops of the right shift; the flag tells that the code returns.\<close>

function shr_low :: "cmpl \<Rightarrow> nat \<Rightarrow> nat \<Rightarrow> cmpl \<times> bool" where
  "shr_low a n i =
     (let l = mpl_l a; w = m_aiMyInt l;
          put = (\<lambda>x. a\<lparr>mpl_l := l\<lparr>m_aiMyInt := w[i := x]\<rparr>\<rparr>);
          stop = a\<lparr>mpl_l := l\<lparr>m_aiMyInt := w[i := 0], m_iLengthInInts := i\<rparr>,
                   mpl_h := (mpl_h a)\<lparr>m_iLengthInInts := 0\<rparr>\<rparr>
      in if i < m_iLengthInInts l then
           if i + n < m_iLengthInInts l then shr_low (put (w ! (i + n))) n (i + 1)
           else if m_iLengthInInts l = MPI_LENGTH then
             if i + n - MPI_LENGTH < m_iLengthInInts (mpl_h a)
             then shr_low (put (m_aiMyInt (mpl_h a) ! (i + n - MPI_LENGTH))) n (i + 1)
             else (stop, True)
           else (stop, True)
         else (a, False))"
  by pat_completeness auto
termination by (relation "measure (\<lambda>(a, n, i). m_iLengthInInts (mpl_l a) - i)") auto

function shr_high :: "cmpl \<Rightarrow> nat \<Rightarrow> nat \<Rightarrow> cmpl" where
  "shr_high a n i =
     (let h = mpl_h a; w = m_aiMyInt h
      in if i < m_iLengthInInts h then
           if i + n < m_iLengthInInts h
           then shr_high (a\<lparr>mpl_h := h\<lparr>m_aiMyInt := w[i := w ! (n + i)]\<rparr>\<rparr>) n (i + 1)
           else a\<lparr>mpl_h := h\<lparr>m_aiMyInt := w[i := 0], m_iLengthInInts := i\<rparr>\<rparr>
         else a)"
  by pat_completeness auto
termination by (relation "measure (\<lambda>(a, n, i). m_iLengthInInts (mpl_h a) - i)") auto

declare shr_low.simps [simp del] shr_high.simps [simp del]

definition mpl_shr :: "cmpl \<Rightarrow> nat \<Rightarrow> cmpl" where
  "mpl_shr a n = (let (a, returned) = shr_low a n 0 in if returned then a else shr_high a n 0)"

definition CMpl_WordShiftLeft :: "cmpl \<Rightarrow> int \<Rightarrow> cmpl" where
  "CMpl_WordShiftLeft a n = (if n < 0 then mpl_shr a (nat (- n)) else mpl_shl a (nat n))"

definition CMpl_WordShiftRight :: "cmpl \<Rightarrow> int \<Rightarrow> cmpl" where
  "CMpl_WordShiftRight a n = (if n < 0 then mpl_shl a (nat (- n)) else mpl_shr a (nat n))"

definition CMpi_WordShiftLeft :: "(nat \<Rightarrow> cmpi) \<Rightarrow> cmpi \<Rightarrow> int \<Rightarrow> cmpi" where
  "CMpi_WordShiftLeft g a n =
     (let temp = \<lparr>mpl_h = CMpi_Assign_d (g 5) 0, mpl_l = CMpi_Assign a (g 6)\<rparr>
      in (CMpi_Truncate (CMpl_WordShiftLeft temp n) a)\<lparr>m_iCarry := 0\<rparr>)"

definition CMpi_WordShiftRight :: "(nat \<Rightarrow> cmpi) \<Rightarrow> cmpi \<Rightarrow> int \<Rightarrow> cmpi" where
  "CMpi_WordShiftRight g a n =
     (let temp = \<lparr>mpl_h = CMpi_Assign_d (g 5) 0, mpl_l = CMpi_Assign a (g 6)\<rparr>
      in (CMpi_Truncate (CMpl_WordShiftRight temp n) a)\<lparr>m_iCarry := 0\<rparr>)"

section \<open>Shifts by bits\<close>

text \<open>
  A shift by \<open>0 < j < 32\<close> bits inside an array of which the first \<open>k\<close> words count: down the
  words to the left, up the words to the right.
\<close>

definition shl_words :: "nat \<Rightarrow> nat \<Rightarrow> 32 word list \<Rightarrow> 32 word list" where
  "shl_words j k w =
     (let w = foldl (\<lambda>w i. w[i := push_bit j (w ! i) + drop_bit (32 - j) (w ! (i - 1))]) w (rev [1..<k])
      in w[0 := push_bit j (w ! 0)])"

definition shr_words :: "nat \<Rightarrow> nat \<Rightarrow> 32 word list \<Rightarrow> 32 word list" where
  "shr_words j k w =
     foldl (\<lambda>w i. w[i := drop_bit j (w ! i) + push_bit (32 - j) (w ! (i + 1))]) w [0..<k - 1]"

definition CMpi_BitShiftLeft :: "(nat \<Rightarrow> cmpi) \<Rightarrow> cmpi \<Rightarrow> nat \<Rightarrow> cmpi outcome" where
  "CMpi_BitShiftLeft g a iShiftBits =
     (let j = iShiftBits div 32;
          a = (if j \<noteq> 0 then CMpi_WordShiftLeft g a (int j) else a);
          j = iShiftBits mod 32;
          k = m_iLengthInInts a; w = m_aiMyInt a
      in if j = 0 then Ret a
         else if k < MPI_LENGTH then
           if k = 0 then Fault
           else let w = w[k := drop_bit (32 - j) (w ! (k - 1))]
                in Ret (a\<lparr>m_aiMyInt := shl_words j k w, m_iLengthInInts := (if w ! k \<noteq> 0 then k + 1 else k)\<rparr>)
         else Ret (a\<lparr>m_iCarry := drop_bit (32 - j) (w ! (MPI_LENGTH - 1)), m_aiMyInt := shl_words j k w\<rparr>))"

definition CMpi_BitShiftRight :: "(nat \<Rightarrow> cmpi) \<Rightarrow> cmpi \<Rightarrow> nat \<Rightarrow> cmpi outcome" where
  "CMpi_BitShiftRight g a iShiftBits =
     (let j = iShiftBits div 32;
          a = (if j \<noteq> 0 then CMpi_WordShiftRight g a (int j) else a);
          j = iShiftBits mod 32;
          k = m_iLengthInInts a
      in if j = 0 then Ret a
         else if k = 0 then Fault
         else let w = shr_words j k (m_aiMyInt a);
                  w = w[k - 1 := drop_bit j (w ! (k - 1))]
              in Ret (a\<lparr>m_aiMyInt := w, m_iLengthInInts := (if w ! (k - 1) = 0 then k - 1 else k)\<rparr>))"

definition CMpl_BitShiftLeft :: "cmpl \<Rightarrow> nat \<Rightarrow> cmpl outcome" where
  "CMpl_BitShiftLeft n iShiftBits =
     (let j = iShiftBits div 32;
          n = (if j \<noteq> 0 then CMpl_WordShiftLeft n (int j) else n);
          j = iShiftBits mod 32;
          h = mpl_h n; l = mpl_l n;
          k = m_iLengthInInts h; w = m_aiMyInt h; v = m_aiMyInt l;
          carried = drop_bit (32 - j) (v ! (MPI_LENGTH - 1))
      in if j = 0 then Ret n
         else
           let h = (if k > 0 then
                      let w = (if k < MPI_LENGTH then w[k := drop_bit (32 - j) (w ! (k - 1))] else w);
                          len = (if k < MPI_LENGTH \<and> w ! k \<noteq> 0 then k + 1 else k);
                          w = shl_words j k w
                      in h\<lparr>m_aiMyInt := w[0 := w ! 0 + carried], m_iLengthInInts := len\<rparr>
                    else if m_iLengthInInts l = MPI_LENGTH then
                      h\<lparr>m_aiMyInt := w[0 := carried], m_iLengthInInts := (if carried \<noteq> 0 then 1 else k)\<rparr>
                    else h);
               k = m_iLengthInInts l
           in if k < MPI_LENGTH then
                if k = 0 then Fault
                else let v = v[k := drop_bit (32 - j) (v ! (k - 1))]
                     in Ret (n\<lparr>mpl_h := h, mpl_l := l\<lparr>m_aiMyInt := shl_words j k v,
                                 m_iLengthInInts := (if v ! k \<noteq> 0 then k + 1 else k)\<rparr>\<rparr>)
              else Ret (n\<lparr>mpl_h := h, mpl_l := l\<lparr>m_aiMyInt := shl_words j k v\<rparr>\<rparr>))"

definition CMpl_BitShiftRight :: "cmpl \<Rightarrow> nat \<Rightarrow> cmpl outcome" where
  "CMpl_BitShiftRight n iShiftBits =
     (let j = iShiftBits div 32;
          n = (if j \<noteq> 0 then CMpl_WordShiftRight n (int j) else n);
          j = iShiftBits mod 32;
          h = mpl_h n; l = mpl_l n; k = m_iLengthInInts l
      in if j = 0 then Ret n
         else if k = 0 then Fault
         else
           let v = shr_words j k (m_aiMyInt l);
               v = v[k - 1 := drop_bit j (v ! (k - 1))];
               l = (if k < MPI_LENGTH
                    then l\<lparr>m_aiMyInt := v, m_iLengthInInts := (if v ! (k - 1) = 0 then k - 1 else k)\<rparr>
                    else if m_iLengthInInts h > 0
                    then l\<lparr>m_aiMyInt := v[k - 1 := v ! (k - 1) + push_bit (32 - j) (m_aiMyInt h ! 0)]\<rparr>
                    else l\<lparr>m_aiMyInt := v\<rparr>);
               k = m_iLengthInInts h;
               h = (if k > 0 then
                      let w = shr_words j k (m_aiMyInt h);
                          w = w[k - 1 := drop_bit j (w ! (k - 1))]
                      in h\<lparr>m_aiMyInt := w, m_iLengthInInts := (if w ! (k - 1) = 0 then k - 1 else k)\<rparr>
                    else h)
           in Ret (n\<lparr>mpl_h := h, mpl_l := l\<rparr>))"

section \<open>Squares\<close>

text \<open>
  One product \<open>x * y\<close> of a column added to the three words \<open>R0\<close>, \<open>R1\<close>, \<open>R2\<close> of its sum, twice
  when it stands for the two products \<open>x * y\<close> and \<open>y * x\<close>.
\<close>

type_synonym square_acc = "32 word \<times> 32 word \<times> 32 word"

fun square_add :: "bool \<Rightarrow> 32 word \<Rightarrow> 32 word \<Rightarrow> square_acc \<Rightarrow> square_acc" where
  "square_add twice x y (r0, r1, r2) =
     (let uv = ucast x * ucast y :: 64 word;
          (uv, r2) = (if twice then (push_bit 1 uv, if 0x8000000000000000 AND uv \<noteq> 0 then r2 + 1 else r2)
                      else (uv, r2));
          s = ucast r0 + ucast (ucast uv :: 32 word) :: 64 word;
          r0 = ucast s;
          s = drop_bit 32 s + ucast r1 + drop_bit 32 uv;
          r1 = ucast s;
          s = drop_bit 32 s
      in (r0, r1, r2 + ucast s))"

definition square_column :: "cmpi \<Rightarrow> nat \<Rightarrow> square_acc \<Rightarrow> square_acc" where
  "square_column n k acc =
     (let imax = min (k div 2) (m_iLengthInInts n - 1)
      in foldl (\<lambda>acc i. square_add (i < k - i) (m_aiMyInt n ! i) (m_aiMyInt n ! (k - i)) acc) acc
           (takeWhile (\<lambda>i. k - i < m_iLengthInInts n) (rev [0..<imax + 1])))"

fun square_step :: "cmpi \<Rightarrow> 32 word list \<times> square_acc \<Rightarrow> nat \<Rightarrow> 32 word list \<times> square_acc" where
  "square_step n (c, acc) k =
     (case square_column n k acc of (r0, r1, r2) \<Rightarrow> (c[k := r0], (r1, r2, 0)))"

text \<open>For a number without words the code writes before the array.\<close>

definition CMpi_FastSquare :: "cmpi \<Rightarrow> cmpl \<Rightarrow> cmpl outcome" where
  "CMpi_FastSquare n n2 =
     (let len = m_iLengthInInts n * 2
      in if len = 0 then Fault
         else let (c, acc) = foldl (square_step n) (replicate (MPI_LENGTH * 2) 0, (0, 0, 0)) [0..<len - 1];
                  c = c[len - 1 := fst acc];
                  l = CMpi_Assign_d (mpl_l n2) 0;
                  h = CMpi_Assign_d (mpl_h n2) 0;
                  (h, l) =
                    (if len > MPI_LENGTH
                     then (h\<lparr>m_iLengthInInts := len - MPI_LENGTH,
                             m_aiMyInt := foldl (\<lambda>w i. w[i := c ! (i + MPI_LENGTH)]) (m_aiMyInt h) [0..<len - MPI_LENGTH]\<rparr>,
                           l\<lparr>m_iLengthInInts := MPI_LENGTH\<rparr>)
                     else (h\<lparr>m_iLengthInInts := 0\<rparr>, l\<lparr>m_iLengthInInts := len\<rparr>));
                  l = l\<lparr>m_aiMyInt := foldl (\<lambda>w i. w[i := c ! i]) (m_aiMyInt l) [0..<m_iLengthInInts l]\<rparr>
              in Ret (n2\<lparr>mpl_h := h, mpl_l := l\<rparr>))"

section \<open>The reduction modulo the prime of the curve\<close>

text \<open>
  \<^verbatim>\<open>CMpl_FastReduction\<close>: a word \<open>x\<close> of the upper half is replaced by
  \<open>x * (2 ^ 224 + 2 ^ 96 - 2 ^ 64 + 1)\<close> in the right place, until it is zero.
\<close>

definition fast_term :: "(nat \<Rightarrow> cmpi) \<Rightarrow> 32 word \<Rightarrow> cmpl" where
  "fast_term g x =
     (let l = CMpi_Assign_d (g 8) 0
      in \<lparr>mpl_h = CMpi_Assign_d (g 7) 0,
          mpl_l = l\<lparr>m_aiMyInt := (m_aiMyInt l)[0 := x, 7 := x, 1 := 0, 2 := 0, 4 := 0, 5 := 0, 6 := 0,
                      2 := 0 - x, 3 := x - 1],
                    m_iLengthInInts := 8\<rparr>\<rparr>)"

definition fast_round :: "(nat \<Rightarrow> cmpi) \<Rightarrow> nat \<Rightarrow> cmpl \<Rightarrow> cmpl" where
  "fast_round g i n =
     (let tempH = CMpl_WordShiftLeft (fast_term g (m_aiMyInt (mpl_h n) ! i)) (int i);
          n = n\<lparr>mpl_h := (mpl_h n)\<lparr>m_aiMyInt := (m_aiMyInt (mpl_h n))[i := 0]\<rparr>\<rparr>
      in CMpl_Add g n tempH)"

definition fast_word :: "(nat \<Rightarrow> cmpi) \<Rightarrow> nat \<Rightarrow> cmpl \<Rightarrow> cmpl option" where
  "fast_word g i = while_option (\<lambda>n. m_aiMyInt (mpl_h n) ! i \<noteq> 0) (fast_round g i)"

definition CMpl_FastReduction :: "(nat \<Rightarrow> cmpi) \<Rightarrow> cmpl \<Rightarrow> cmpi \<Rightarrow> cmpl option" where
  "CMpl_FastReduction g n m =
     (let tflag = m_iMySign (mpl_l n);
          n = n\<lparr>mpl_h := (mpl_h n)\<lparr>m_iMySign := POSITIVE\<rparr>, mpl_l := (mpl_l n)\<lparr>m_iMySign := POSITIVE\<rparr>\<rparr>
      in map_option
           (\<lambda>n. let h = (mpl_h n)\<lparr>m_iLengthInInts := 0, m_iMySign := tflag\<rparr>;
                    l = mpl_l n;
                    l = (if CMpi_ComparesTo l m = 1 then mpi_sub g l m else l);
                    l = (if CMpi_ComparesTo l m = 0 then CMpi_Assign_d l 0 else l\<lparr>m_iMySign := tflag\<rparr>)
                in n\<lparr>mpl_h := h, mpl_l := l\<rparr>)
           (foldl (\<lambda>r i. Option.bind r (fast_word g i)) (Some n) (rev [0..<m_iLengthInInts (mpl_h n)])))"

end
