(* ===== verification/Mpi_Mod.thy ===== *)
theory Mpi_Mod
  imports Mpi_Long
begin

text \<open>
  The general reduction of \<^verbatim>\<open>agreement/mpi.c\<close>, a long division whose trial quotients are too
  small and are corrected by further subtractions, the reduction \<^verbatim>\<open>CMpl_Mod\<close>, and the
  inverse of \<^verbatim>\<open>CMpi_BinaryInverse2\<close>. A loop that does not end is the value \<open>None\<close>.
\<close>

section \<open>Loops that may leave the arrays or not end\<close>

type_synonym 'a run = "'a outcome option"

fun run_bind :: "'a run \<Rightarrow> ('a \<Rightarrow> 'b run) \<Rightarrow> 'b run" where
  "run_bind (Some (Ret s)) f = f s"
| "run_bind (Some Fault) f = Some Fault"
| "run_bind (Some (Fail c)) f = Some (Fail c)"
| "run_bind None f = None"

definition while_run :: "('s \<Rightarrow> bool) \<Rightarrow> ('s \<Rightarrow> 's run) \<Rightarrow> 's \<Rightarrow> 's run" where
  "while_run b c s =
     Option.bind (while_option (\<lambda>r. case r of Some (Ret s) \<Rightarrow> b s | _ \<Rightarrow> False) (\<lambda>r. run_bind r c) (Some (Ret s))) id"

section \<open>The long division\<close>

text \<open>The variables that change in the loops: the dividend, and the two local numbers.\<close>

record reduction =
  red_n :: cmpl
  red_temp :: cmpl
  red_tdiv :: cmpl

definition red_trial :: "32 word \<Rightarrow> 32 word \<Rightarrow> 32 word \<Rightarrow> 32 word" where
  "red_trial hi lo ui =
     (let t64 = push_bit 32 (ucast hi) + ucast lo :: 64 word
      in if ui \<noteq> 0 then ucast (t64 div ucast ui) else ucast (drop_bit 32 t64))"

text \<open>Both loops subtract the multiple \<open>uj\<close> of the divisor, moved by \<open>j\<close> words.\<close>

definition red_subtract :: "(nat \<Rightarrow> cmpi) \<Rightarrow> cmpi \<Rightarrow> 32 word \<Rightarrow> int \<Rightarrow> reduction \<Rightarrow> reduction" where
  "red_subtract g odiv uj j s =
     (let l = CMpi_Multiply_d (CMpi_Assign odiv (mpl_l (red_temp s))) uj;
          h = CMpi_Assign_d (mpl_h (red_temp s)) 0;
          h = (if m_iCarry l \<noteq> 0 then h\<lparr>m_iLengthInInts := 1, m_aiMyInt := (m_aiMyInt h)[0 := m_iCarry l]\<rparr>
               else h\<lparr>m_iLengthInInts := 0\<rparr>);
          temp = CMpl_WordShiftLeft \<lparr>mpl_h = h, mpl_l = l\<rparr> j;
          tdiv = CMpl_WordShiftLeft \<lparr>mpl_h = CMpi_Assign_d (mpl_h (red_tdiv s)) 0,
                                     mpl_l = CMpi_Assign odiv (mpl_l (red_tdiv s))\<rparr> j
      in \<lparr>red_n = CMpl_Substract g (red_n s) temp, red_temp = temp, red_tdiv = tdiv\<rparr>)"

definition red_correct :: "(nat \<Rightarrow> cmpi) \<Rightarrow> (reduction \<Rightarrow> bool) \<Rightarrow> reduction \<Rightarrow> reduction option" where
  "red_correct g again = while_option again (\<lambda>s. s\<lparr>red_n := CMpl_Substract g (red_n s) (red_tdiv s)\<rparr>)"

definition red_high :: "(nat \<Rightarrow> cmpi) \<Rightarrow> cmpi \<Rightarrow> 32 word \<Rightarrow> int \<Rightarrow> reduction \<Rightarrow> nat \<Rightarrow> reduction option" where
  "red_high g odiv ui k s i =
     (let w = m_aiMyInt (mpl_h (red_n s));
          uj = red_trial (if i + 1 \<ge> MPI_LENGTH then 0 else w ! (i + 1)) (w ! i) ui
      in red_correct g (\<lambda>s. \<not> CMpi_LargerThan_abs (mpl_h (red_tdiv s)) (mpl_h (red_n s)))
           (red_subtract g odiv uj (int i + k) s))"

definition red_low :: "(nat \<Rightarrow> cmpi) \<Rightarrow> cmpi \<Rightarrow> 32 word \<Rightarrow> reduction \<Rightarrow> nat \<Rightarrow> reduction option" where
  "red_low g odiv ui s i =
     (let h = mpl_h (red_n s); w = m_aiMyInt (mpl_l (red_n s));
          uj = red_trial (if i = MPI_LENGTH - 1 then (if m_iLengthInInts h = 0 then 0 else m_aiMyInt h ! 0) else w ! (i + 1))
                 (w ! i) ui
      in red_correct g (\<lambda>s. \<not> CMpi_LargerThan_abs (mpl_l (red_tdiv s)) (mpl_l (red_n s))
             \<or> m_aiMyInt (mpl_h (red_n s)) ! 0 \<noteq> 0 \<and> m_iLengthInInts (mpl_h (red_n s)) \<noteq> 0)
           (red_subtract g odiv uj (int i - (int (m_iLengthInInts odiv) - 1)) s))"

text \<open>\<^verbatim>\<open>for (i = from; i >= to; i--)\<close> with a body that may not end.\<close>

definition red_loop :: "(reduction \<Rightarrow> nat \<Rightarrow> reduction option) \<Rightarrow> nat list \<Rightarrow> reduction \<Rightarrow> reduction option" where
  "red_loop f is s = foldl (\<lambda>r i. Option.bind r (\<lambda>s. f s i)) (Some s) is"

text \<open>
  The last loop divides by the first word of the modulus plus one, which is zero for the word
  \<open>0xffffffff\<close>.
\<close>

definition red_rest :: "(nat \<Rightarrow> cmpi) \<Rightarrow> cmpi \<Rightarrow> reduction \<Rightarrow> reduction run" where
  "red_rest g mt =
     while_run (\<lambda>s. \<not> CMpi_LargerThan_abs mt (mpl_l (red_n s)))
       (\<lambda>s. let l = mpl_l (red_n s);
                top = m_aiMyInt mt ! (m_iLengthInInts mt - 1) + 1
            in if m_iLengthInInts l = 0 \<or> top = 0 then Some Fault
               else let uj = m_aiMyInt l ! (m_iLengthInInts l - 1) div top;
                        uj = (if uj = 0 then 1 else uj);
                        t = CMpi_Multiply_d (CMpi_Assign mt (mpl_l (red_temp s))) uj
                    in Some (Ret (s\<lparr>red_n := (red_n s)\<lparr>mpl_l := mpi_sub g l t\<rparr>,
                                    red_temp := (red_temp s)\<lparr>mpl_l := t\<rparr>\<rparr>)))"

definition mpl_signs :: "int \<Rightarrow> cmpl \<Rightarrow> cmpl" where
  "mpl_signs s n = n\<lparr>mpl_h := (mpl_h n)\<lparr>m_iMySign := s\<rparr>, mpl_l := (mpl_l n)\<lparr>m_iMySign := s\<rparr>\<rparr>"

text \<open>The word behind those that count is set to zero.\<close>

definition mpi_clear_next :: "cmpi \<Rightarrow> cmpi" where
  "mpi_clear_next n =
     (if m_iLengthInInts n < MPI_LENGTH then n\<lparr>m_aiMyInt := (m_aiMyInt n)[m_iLengthInInts n := 0]\<rparr> else n)"

text \<open>The division by the normalised divisor \<open>odiv\<close>.\<close>

definition red_divide :: "(nat \<Rightarrow> cmpi) \<Rightarrow> cmpi \<Rightarrow> cmpi \<Rightarrow> cmpl \<Rightarrow> cmpl run" where
  "red_divide g mt odiv n =
     (let n = n\<lparr>mpl_h := mpi_clear_next (mpl_h n)\<rparr>;
          len = m_iLengthInInts odiv;
          ui = m_aiMyInt odiv ! (len - 1) + 1;
          s = \<lparr>red_n = n, red_temp = \<lparr>mpl_h = g 9, mpl_l = g 10\<rparr>, red_tdiv = \<lparr>mpl_h = g 11, mpl_l = g 12\<rparr>\<rparr>
      in case red_loop (red_high g odiv ui (int MPI_LENGTH - int len + 1)) (rev [0..<m_iLengthInInts (mpl_h n)]) s of
           None \<Rightarrow> None
         | Some s \<Rightarrow>
             (let n = (red_n s)\<lparr>mpl_l := mpi_clear_next (mpl_l (red_n s))\<rparr>
              in case red_loop (red_low g odiv ui) (rev [len - 1..<m_iLengthInInts (mpl_l n)]) (s\<lparr>red_n := n\<rparr>) of
                   None \<Rightarrow> None
                 | Some s \<Rightarrow> run_bind (red_rest g mt s) (\<lambda>s. Some (Ret (red_n s)))))"

definition sm2_modulus_words :: "32 word list" where
  "sm2_modulus_words = [0xffffffff, 0xffffffff, 0, 0xffffffff, 0xffffffff, 0xffffffff, 0xffffffff, 0xfffffffe]"

text \<open>For the modulus zero the signs are not given back.\<close>

definition CMpl_Reduction :: "(nat \<Rightarrow> cmpi) \<Rightarrow> cmpl \<Rightarrow> cmpi \<Rightarrow> cmpl run" where
  "CMpl_Reduction g n m =
     (if m_aiMyInt m = sm2_modulus_words \<and> m_iLengthInInts m = MPI_LENGTH then map_option Ret (CMpl_FastReduction g n m)
      else
        let mt = CMpi_Assign m (g 13);
            mflag = m_iMySign (mpl_l n);
            n = mpl_signs POSITIVE n;
            mt = CMpi_Regularize mt
        in if CMpi_EqualsTo_d mt 0 then Some (Ret n)
           else
             let mt = mt\<lparr>m_iMySign := POSITIVE\<rparr>;
                 odiv = (CMpi_Assign mt (g 14))\<lparr>m_iMySign := POSITIVE\<rparr>;
                 flag = left_bit (m_aiMyInt odiv ! (m_iLengthInInts odiv - 1)) 0 32
             in run_bind (Some (CMpi_BitShiftLeft g odiv flag))
                  (\<lambda>odiv. let len = int (m_iLengthInInts (mpl_l n)) + int (m_iLengthInInts (mpl_h n))
                              - int (m_iLengthInInts odiv) + 1
                          in if len \<le> 0 then Some (Ret (mpl_signs mflag n))
                             else run_bind (red_divide g mt odiv n) (\<lambda>n. Some (Ret (mpl_signs mflag n)))))"

definition CMpl_Mod :: "(nat \<Rightarrow> cmpi) \<Rightarrow> cmpl \<Rightarrow> cmpi \<Rightarrow> cmpl run" where
  "CMpl_Mod g a m = CMpl_Reduction g a m"

section \<open>The inverse\<close>

text \<open>\<^verbatim>\<open>while (!(u.m_aiMyInt[0] & 0x01))\<close>: halve \<open>u\<close>, and \<open>x\<close> modulo the modulus.\<close>

definition inv_halve :: "(nat \<Rightarrow> cmpi) \<Rightarrow> cmpl \<Rightarrow> cmpi \<times> cmpl \<Rightarrow> (cmpi \<times> cmpl) run" where
  "inv_halve g md =
     while_run (\<lambda>(u, x). m_aiMyInt u ! 0 AND 1 = 0)
       (\<lambda>(u, x). Some (obind (CMpi_BitShiftRight g u 1)
          (\<lambda>u. obind (CMpl_BitShiftRight (if m_aiMyInt (mpl_l x) ! 0 AND 1 = 0 then x else CMpl_Add g x md) 1)
             (\<lambda>x. Ret (u, x)))))"

definition inv_round :: "(nat \<Rightarrow> cmpi) \<Rightarrow> cmpl \<Rightarrow> cmpi \<times> cmpi \<times> cmpl \<times> cmpl \<Rightarrow> (cmpi \<times> cmpi \<times> cmpl \<times> cmpl) run" where
  "inv_round g md = (\<lambda>(u, v, x1, x2).
     run_bind (inv_halve g md (u, x1))
       (\<lambda>(u, x1). run_bind (inv_halve g md (v, x2))
          (\<lambda>(v, x2). Some (Ret
             (if CMpi_ComparesTo u v = -1 then (u, mpi_sub g v u, x1, CMpl_Substract g x2 x1)
              else (mpi_sub g u v, v, CMpl_Substract g x1 x2, x2))))))"

text \<open>The result with the modulus, whose length the code corrects.\<close>

definition CMpi_BinaryInverse2 :: "(nat \<Rightarrow> cmpi) \<Rightarrow> cmpi \<Rightarrow> cmpi \<Rightarrow> cmpi \<Rightarrow> (cmpi \<times> cmpi) run" where
  "CMpi_BinaryInverse2 g m x xi =
     (let u = CMpi_Assign x (g 15);
          v = CMpi_Assign m (g 16);
          x1 = \<lparr>mpl_h = CMpi_Assign_d (g 17) 0, mpl_l = CMpi_Assign_d (g 18) 1\<rparr>;
          x2 = \<lparr>mpl_h = CMpi_Assign_d (g 19) 0, mpl_l = CMpi_Assign_d (g 20) 0\<rparr>;
          m = CMpi_Regularize m;
          md = \<lparr>mpl_h = CMpi_Assign_d (g 21) 0, mpl_l = CMpi_Assign m (g 22)\<rparr>
      in run_bind (while_run (\<lambda>(u, v, x1, x2). \<not> CMpi_EqualsTo_d u 1 \<and> \<not> CMpi_EqualsTo_d v 1) (inv_round g md) (u, v, x1, x2))
           (\<lambda>(u, v, x1, x2). run_bind (CMpl_Mod g (if CMpi_EqualsTo_d u 1 then x1 else x2) m)
              (\<lambda>x. let x = (if CMpi_IsNegative (mpl_l x) then CMpl_Add g x md else x)
                   in Some (Ret (m, CMpi_Assign (mpl_l x) xi)))))"

end
