(* ===== verification/Mpi_Reduce.thy ===== *)
theory Mpi_Reduce
  imports Mpi_Multiply Mpi_Long
begin

text \<open>
  The reduction modulo the prime of the SM2 curve: every word of the upper half is folded into
  the lower one, which keeps the residue, and the rest is less than twice the prime.
\<close>

section \<open>Addition of long numbers that are not negative\<close>

definition mpl_shape :: "cmpl \<Rightarrow> bool" where
  "mpl_shape n \<longleftrightarrow> mpi_shape (mpl_h n) \<and> mpi_shape (mpl_l n)"

definition mpl_pos :: "cmpl \<Rightarrow> bool" where
  "mpl_pos n \<longleftrightarrow> mpl_shape n \<and> m_iMySign (mpl_h n) = POSITIVE \<and> m_iMySign (mpl_l n) = POSITIVE"

lemma add_words_length:
  assumes "mpi_shape a" "mpi_shape b"
  shows "max (m_iLengthInInts a) (m_iLengthInInts b) \<le> m_iLengthInInts (add_words a b)
    \<and> (m_iCarry (add_words a b) \<noteq> m_iCarry a \<longrightarrow> m_iLengthInInts (add_words a b) = 8)"
  using assms by (auto simp: add_words_def Let_def split: prod.splits)

lemma add_pos:
  assumes "mpi_shape a" "mpi_shape b" "m_iMySign a = POSITIVE" "m_iMySign b = POSITIVE"
  shows "mpi_shape (CMpi_Add g1 g2 a b) \<and> m_iMySign (CMpi_Add g1 g2 a b) = POSITIVE
    \<and> mpi_abs (CMpi_Add g1 g2 a b) + unat (m_iCarry (CMpi_Add g1 g2 a b)) * 2 ^ 256 = mpi_abs a + mpi_abs b
    \<and> max (m_iLengthInInts a) (m_iLengthInInts b) \<le> m_iLengthInInts (CMpi_Add g1 g2 a b)
    \<and> (m_iCarry (CMpi_Add g1 g2 a b) \<noteq> 0 \<longrightarrow> m_iLengthInInts (CMpi_Add g1 g2 a b) = 8)"
proof -
  define a' where "a' = a\<lparr>m_iCarry := 0\<rparr>"
  have a': "mpi_shape a'" "m_iCarry a' = 0" "m_iMySign a' = POSITIVE" "mpi_abs a' = mpi_abs a"
    "m_iLengthInInts a' = m_iLengthInInts a"
    using assms by (simp_all add: a'_def sign_change)
  have "CMpi_Add g1 g2 a b = add_words a' b"
    using assms by (subst CMpi_Add.simps) (simp add: a'_def Let_def)
  then show ?thesis
    using add_words_value [of a' b] add_words_length [of a' b] a' assms by simp
qed

text \<open>The carry of the lower part added to the upper one, common to \<^verbatim>\<open>CMpl_Add\<close> and \<^verbatim>\<open>CMpl_Addi\<close>.\<close>

lemma mpl_carry_pos:
  assumes h: "mpi_shape h" "m_iMySign h = POSITIVE" and l: "mpi_shape l" "m_iMySign l = POSITIVE" "m_iLengthInInts l = 8"
    and g: "length (m_aiMyInt (g 2)) = 8" and high: "mpi_abs h + unat (m_iCarry l) < 2 ^ 256"
  shows "\<exists>k l'. mpl_length (mpl_carry g h l) = (k, l') \<and> mpi_shape k \<and> m_iMySign k = POSITIVE
    \<and> m_iLengthInInts h \<le> m_iLengthInInts k \<and> mpi_abs k = mpi_abs h + unat (m_iCarry l)
    \<and> mpi_shape l' \<and> m_iMySign l' = POSITIVE \<and> m_iLengthInInts l' = 8 \<and> mpi_abs l' = mpi_abs l"
proof -
  define u where "u = (CMpi_Assign_d (g 2) (m_iCarry l))\<lparr>m_iMySign := POSITIVE\<rparr>"
  have u: "mpi_shape u" "m_iMySign u = POSITIVE" "mpi_abs u = unat (m_iCarry l)"
    using g by (simp_all add: u_def CMpi_Assign_d_def mpi_shape_def mpi_abs_def)
  define k where "k = (if m_iCarry l \<noteq> 0 then mpi_add g h u else h)"
  have k: "mpi_shape k" "m_iMySign k = POSITIVE" "m_iLengthInInts h \<le> m_iLengthInInts k"
    "mpi_abs k = mpi_abs h + unat (m_iCarry l)"
  proof -
    have *: "mpi_shape (mpi_add g h u)" "m_iMySign (mpi_add g h u) = POSITIVE" "m_iLengthInInts h \<le> m_iLengthInInts (mpi_add g h u)"
      "mpi_abs (mpi_add g h u) + unat (m_iCarry (mpi_add g h u)) * 2 ^ 256 = mpi_abs h + unat (m_iCarry l)"
      using add_pos [of h u "g 1" "g 0"] h u by simp_all
    then have "unat (m_iCarry (mpi_add g h u)) * 2 ^ 256 < 1 * 2 ^ 256" using high by linarith
    then have "unat (m_iCarry (mpi_add g h u)) = 0" unfolding mult_less_cancel2 by simp
    with * h show "mpi_shape k" "m_iMySign k = POSITIVE" "m_iLengthInInts h \<le> m_iLengthInInts k"
      "mpi_abs k = mpi_abs h + unat (m_iCarry l)" by (simp_all add: k_def)
  qed
  have same: "(if CMpi_EqualsTo_d h 0 then h\<lparr>m_iMySign := m_iMySign l\<rparr> else h) = h"
    using h(2) l(2) by (cases h) simp
  have "mpl_length (mpl_carry g h l) = (k, if m_iCarry l \<noteq> 0 then l\<lparr>m_iCarry := 0\<rparr> else l)"
    unfolding mpl_carry_def Let_def same using h l by (simp add: mpl_length_def k_def u_def)
  then show ?thesis using k l by (simp add: sign_change)
qed

lemma mpl_add_pos:
  assumes a: "mpl_pos a" and b: "mpl_pos b" and len: "m_iLengthInInts (mpl_l a) = 8"
    and g: "length (m_aiMyInt (g 2)) = 8" and bound: "mpl_abs a + mpl_abs b < 2 ^ 512"
  shows "mpl_pos (CMpl_Add g a b) \<and> mpl_abs (CMpl_Add g a b) = mpl_abs a + mpl_abs b
    \<and> m_iLengthInInts (mpl_l (CMpl_Add g a b)) = 8
    \<and> m_iLengthInInts (mpl_h a) \<le> m_iLengthInInts (mpl_h (CMpl_Add g a b))"
proof -
  define l where "l = mpi_add g (mpl_l a) (mpl_l b)"
  define h where "h = mpi_add g (mpl_h a) (mpl_h b)"
  have l: "mpi_shape l" "m_iMySign l = POSITIVE" "m_iLengthInInts l = 8"
    "mpi_abs l + unat (m_iCarry l) * 2 ^ 256 = mpi_abs (mpl_l a) + mpi_abs (mpl_l b)"
    using add_pos [of "mpl_l a" "mpl_l b" "g 1" "g 0"] a b len
    by (auto simp: l_def mpl_pos_def mpl_shape_def mpi_shape_def)
  have h: "mpi_shape h" "m_iMySign h = POSITIVE" "m_iLengthInInts (mpl_h a) \<le> m_iLengthInInts h"
    "mpi_abs h + unat (m_iCarry h) * 2 ^ 256 = mpi_abs (mpl_h a) + mpi_abs (mpl_h b)"
    using add_pos [of "mpl_h a" "mpl_h b" "g 1" "g 0"] a b
    by (auto simp: h_def mpl_pos_def mpl_shape_def)
  have total: "mpl_abs a + mpl_abs b = mpi_abs l + 2 ^ 256 * (mpi_abs h + unat (m_iCarry h) * 2 ^ 256 + unat (m_iCarry l))"
    using l(4) h(4) by (simp add: mpl_abs_def)
  then have high: "mpi_abs h + unat (m_iCarry h) * 2 ^ 256 + unat (m_iCarry l) < 2 ^ 256"
    using bound by simp
  then have "unat (m_iCarry h) = 0" by simp
  obtain k l' where k: "mpl_length (mpl_carry g h l) = (k, l')" "mpi_shape k" "m_iMySign k = POSITIVE"
    "m_iLengthInInts h \<le> m_iLengthInInts k" "mpi_abs k = mpi_abs h + unat (m_iCarry l)"
    "mpi_shape l'" "m_iMySign l' = POSITIVE" "m_iLengthInInts l' = 8" "mpi_abs l' = mpi_abs l"
    using mpl_carry_pos [of h l g] h(1,2) l(1-3) g high by auto
  have "CMpl_Add g a b = a\<lparr>mpl_h := k, mpl_l := l'\<rparr>"
    unfolding CMpl_Add_def Let_def l_def [symmetric] h_def [symmetric] k(1) by simp
  then show ?thesis using k h(3) total \<open>unat (m_iCarry h) = 0\<close>
    by (simp add: mpl_pos_def mpl_shape_def mpl_abs_def algebra_simps)
qed

lemma mpl_addi_pos:
  assumes a: "mpl_pos a" and b: "mpi_shape b" "m_iMySign b = POSITIVE" "m_iLengthInInts b = 8"
    and g: "length (m_aiMyInt (g 2)) = 8" and bound: "mpl_abs a + mpi_abs b < 2 ^ 512"
  shows "mpl_pos (CMpl_Addi g a b) \<and> mpl_abs (CMpl_Addi g a b) = mpl_abs a + mpi_abs b
    \<and> m_iLengthInInts (mpl_l (CMpl_Addi g a b)) = 8"
proof -
  define l where "l = mpi_add g (mpl_l a) b"
  have l: "mpi_shape l" "m_iMySign l = POSITIVE" "m_iLengthInInts l = 8"
    "mpi_abs l + unat (m_iCarry l) * 2 ^ 256 = mpi_abs (mpl_l a) + mpi_abs b"
    using add_pos [of "mpl_l a" b "g 1" "g 0"] a b by (auto simp: l_def mpl_pos_def mpl_shape_def mpi_shape_def)
  have h: "mpi_shape (mpl_h a)" "m_iMySign (mpl_h a) = POSITIVE" using a by (simp_all add: mpl_pos_def mpl_shape_def)
  have total: "mpl_abs a + mpi_abs b = mpi_abs l + 2 ^ 256 * (mpi_abs (mpl_h a) + unat (m_iCarry l))"
    using l(4) by (simp add: mpl_abs_def)
  then have "mpi_abs (mpl_h a) + unat (m_iCarry l) < 2 ^ 256" using bound by simp
  then obtain k l' where k: "mpl_length (mpl_carry g (mpl_h a) l) = (k, l')" "mpi_shape k" "m_iMySign k = POSITIVE"
    "mpi_abs k = mpi_abs (mpl_h a) + unat (m_iCarry l)"
    "mpi_shape l'" "m_iMySign l' = POSITIVE" "m_iLengthInInts l' = 8" "mpi_abs l' = mpi_abs l"
    using mpl_carry_pos [of "mpl_h a" l g] h l(1-3) g by auto
  have "CMpl_Addi g a b = a\<lparr>mpl_h := k, mpl_l := l'\<rparr>"
    unfolding CMpl_Addi_def Let_def l_def [symmetric] k(1) by simp
  then show ?thesis using k total by (simp add: mpl_pos_def mpl_shape_def mpl_abs_def)
qed

section \<open>The term that replaces a word\<close>

lemma shift_in_place:
  assumes "j \<le> length w" "\<And>v i. i < j \<Longrightarrow> (\<And>m. m \<le> i \<Longrightarrow> v ! m = w ! m) \<Longrightarrow> f v i = u i"
  shows "foldl (\<lambda>w i. w[i := f w i]) w (rev [0..<j]) = map (\<lambda>k. if k < j then u k else w ! k) [0..<length w]"
  using assms
proof (induction j arbitrary: w)
  case 0
  then show ?case by (simp add: map_nth)
next
  case (Suc j)
  have "f w j = u j" by (rule Suc.prems(2)) simp_all
  then have "foldl (\<lambda>w i. w[i := f w i]) w (rev [0..<Suc j]) = foldl (\<lambda>w i. w[i := f w i]) (w[j := u j]) (rev [0..<j])"
    by simp
  also have "\<dots> = map (\<lambda>k. if k < j then u k else w[j := u j] ! k) [0..<length (w[j := u j])]"
  proof (rule Suc.IH)
    fix v i
    assume "i < j" "\<And>m. m \<le> i \<Longrightarrow> v ! m = w[j := u j] ! m"
    then show "f v i = u i" by (intro Suc.prems(2)) simp_all
  qed (use Suc.prems(1) in simp)
  finally show ?case using Suc.prems(1) by (auto simp: nth_list_update less_Suc_eq)
qed

lemma mpl_shl_value:
  assumes "mpl_pos a" "m_iLengthInInts (mpl_h a) = 0" "m_iLengthInInts (mpl_l a) = 8" "n < 8"
  shows "mpl_pos (mpl_shl a n) \<and> mpl_abs (mpl_shl a n) = mpl_abs a * 2 ^ (32 * n)"
proof -
  define h l where "h = m_aiMyInt (mpl_h a)" and "l = m_aiMyInt (mpl_l a)"
  have len: "length h = 8" "length l = 8" using assms(1) by (simp_all add: h_def l_def mpl_pos_def mpl_shape_def mpi_shape_def)
  define h' where "h' = map (\<lambda>k. if k < n then l ! (8 + k - n) else h ! k) [0..<8]"
  define l' where "l' = map (\<lambda>k. if k < 8 then if n \<le> k then l ! (k - n) else 0 else l ! k) [0..<8]"
  have source: "shl_source v l (int i - int n) = l ! (8 + i - n)" if "i < n" for v i
  proof -
    have "nat (8 + (int i - int n)) = 8 + i - n" using that assms(4) by arith
    then show ?thesis using that assms(4) by (simp add: shl_source_def)
  qed
  have "foldl (\<lambda>h i. h[i := shl_source h l (int i - int n)]) h (rev [0..<n])
      = map (\<lambda>k. if k < n then l ! (8 + k - n) else h ! k) [0..<length h]"
    using assms(4) len by (intro shift_in_place source) simp_all
  then have "foldl (\<lambda>h i. h[i := shl_source h l (int i - int n)]) h (rev [0..<n]) = h'"
    by (simp only: h'_def len)
  moreover have "foldl (\<lambda>l i. l[i := (if int i - int n \<ge> 0 then l ! (i - n) else 0)]) l (rev [0..<8]) = l'"
    using len unfolding l'_def len(2) [symmetric] by (intro shift_in_place) auto
  ultimately have res: "mpl_shl a n = a\<lparr>mpl_h := (mpl_h a)\<lparr>m_aiMyInt := h', m_iLengthInInts := n\<rparr>,
      mpl_l := (mpl_l a)\<lparr>m_aiMyInt := l', m_iLengthInInts := 8\<rparr>\<rparr>"
    using assms(2-4) by (simp add: mpl_shl_def Let_def h_def l_def)
  have "mpl_abs (mpl_shl a n) = wsum ((!) l') 8 + 2 ^ 256 * wsum ((!) h') n"
    by (simp add: res mpl_abs_def mpi_abs_def)
  also have "wsum ((!) l') 8 = 2 ^ (32 * n) * wsum ((!) l) (8 - n)"
  proof -
    have "wsum ((!) l') (n + (8 - n)) = wsum ((!) l') n + 2 ^ (32 * n) * wsum (\<lambda>i. l' ! (i + n)) (8 - n)"
      by (rule wsum_shift)
    moreover have "wsum ((!) l') n = 0" using assms(4) by (simp add: wsum_eq_zero l'_def)
    moreover have "wsum (\<lambda>i. l' ! (i + n)) (8 - n) = wsum ((!) l) (8 - n)"
      by (intro wsum_cong) (simp add: l'_def less_diff_conv)
    ultimately show ?thesis using assms(4) by simp
  qed
  also have "wsum ((!) h') n = wsum (\<lambda>i. l ! (i + (8 - n))) n"
    using assms(4) by (intro wsum_cong) (simp add: h'_def algebra_simps)
  also have "2 ^ (32 * n) * wsum ((!) l) (8 - n) + 2 ^ 256 * wsum (\<lambda>i. l ! (i + (8 - n))) n = wsum ((!) l) 8 * 2 ^ (32 * n)"
  proof -
    have "(2 :: nat) ^ 256 = 2 ^ (32 * n) * 2 ^ (32 * (8 - n))"
      using assms(4) by (simp flip: power_add add_mult_distrib2)
    moreover have "wsum ((!) l) 8 = wsum ((!) l) (8 - n) + 2 ^ (32 * (8 - n)) * wsum (\<lambda>i. l ! (i + (8 - n))) n"
      using wsum_shift [of "(!) l" "8 - n" n] assms(4) by simp
    ultimately show ?thesis by (simp add: algebra_simps)
  qed
  also have "wsum ((!) l) 8 = mpl_abs a" using assms(2,3) by (simp add: mpl_abs_def mpi_abs_def l_def)
  finally show ?thesis using assms(1,4) len
    by (simp add: res mpl_pos_def mpl_shape_def mpi_shape_def h'_def l'_def)
qed

definition sm2_p :: nat where
  "sm2_p = 2 ^ 256 - 2 ^ 224 - 2 ^ 96 + 2 ^ 64 - 1"

text \<open>The residue of \<open>2 ^ 256\<close>.\<close>

definition sm2_fold :: nat where
  "sm2_fold = 2 ^ 224 + 2 ^ 96 - 2 ^ 64 + 1"

lemma sm2_fold: "sm2_p + sm2_fold = 2 ^ 256" "sm2_p > 0" "2 ^ 255 < sm2_p"
  by (simp_all add: sm2_p_def sm2_fold_def)

lemma wsum_8:
  "wsum f 8 = unat (f 0) + unat (f 1) * 2 ^ 32 + unat (f 2) * 2 ^ 64 + unat (f 3) * 2 ^ 96
     + unat (f 4) * 2 ^ 128 + unat (f 5) * 2 ^ 160 + unat (f 6) * 2 ^ 192 + unat (f 7) * 2 ^ 224"
  by (simp add: wsum_def lessThan_nat_numeral lessThan_Suc)

lemma fast_term_value:
  assumes "x \<noteq> 0" "length (m_aiMyInt (g 7)) = 8" "length (m_aiMyInt (g 8)) = 8"
  shows "mpl_pos (fast_term g x) \<and> m_iLengthInInts (mpl_h (fast_term g x)) = 0
    \<and> m_iLengthInInts (mpl_l (fast_term g x)) = 8 \<and> mpl_abs (fast_term g x) = unat x * sm2_fold"
proof -
  have pos: "unat x \<noteq> 0" using assms(1) by (simp add: unat_eq_zero)
  then have neg: "unat (- x) + unat x = 2 ^ 32"
    using unat_plus_if' [of x "- x"] by (simp split: if_splits)
  have dec: "unat (x - 1) + 1 = unat x"
    using pos by (simp add: unat_minus_one assms(1))
  have "mpl_abs (fast_term g x) = unat x + unat (- x) * 2 ^ 64 + unat (x - 1) * 2 ^ 96 + unat x * 2 ^ 224"
    using assms by (simp add: fast_term_def Let_def mpl_abs_def mpi_abs_def wsum_8 CMpi_Assign_d_def)
  with neg dec have "mpl_abs (fast_term g x) = unat x * sm2_fold" by (simp add: sm2_fold_def)
  then show ?thesis using assms
    by (simp add: fast_term_def Let_def CMpi_Assign_d_def mpl_pos_def mpl_shape_def mpi_shape_def)
qed

section \<open>One word, and all of them\<close>

definition mpi_uninit :: "(nat \<Rightarrow> cmpi) \<Rightarrow> bool" where
  "mpi_uninit g \<longleftrightarrow> (\<forall>i. length (m_aiMyInt (g i)) = 8)"

definition fast_ok :: "nat \<Rightarrow> cmpl \<Rightarrow> bool" where
  "fast_ok i n \<longleftrightarrow> mpl_pos n \<and> m_iLengthInInts (mpl_l n) = 8 \<and> i \<le> m_iLengthInInts (mpl_h n)"

lemma mpl_abs_bound:
  assumes "mpi_shape (mpl_l n)" "mpi_abs (mpl_h n) < 2 ^ (32 * i)"
  shows "mpl_abs n < 2 ^ (256 + 32 * i)"
proof -
  have "2 ^ 256 * (mpi_abs (mpl_h n) + 1) \<le> 2 ^ 256 * 2 ^ (32 * i)"
    using assms(2) by (intro mult_le_mono2) simp
  then show ?thesis using mpi_abs_less [OF assms(1)] by (simp add: mpl_abs_def power_add)
qed

lemma mpl_abs_less: "mpl_pos n \<Longrightarrow> mpl_abs n < 2 ^ 512"
  using mpl_abs_bound [of n 8] mpi_abs_less [of "mpl_h n"] by (simp add: mpl_pos_def mpl_shape_def)

lemma fast_round_value:
  assumes n: "fast_ok (i + 1) n" and g: "mpi_uninit g" and x: "m_aiMyInt (mpl_h n) ! i \<noteq> 0"
  shows "fast_ok (i + 1) (fast_round g i n)"
    "mpl_abs (fast_round g i n) + unat (m_aiMyInt (mpl_h n) ! i) * 2 ^ (32 * i) * sm2_p = mpl_abs n"
proof -
  define w where "w = m_aiMyInt (mpl_h n)"
  define u where "u = n\<lparr>mpl_h := (mpl_h n)\<lparr>m_aiMyInt := w[i := 0]\<rparr>\<rparr>"
  define s where "s = mpl_shl (fast_term g (w ! i)) i"
  have i: "i < m_iLengthInInts (mpl_h n)" "m_iLengthInInts (mpl_h n) \<le> 8" "length w = 8"
    using n by (simp_all add: fast_ok_def mpl_pos_def mpl_shape_def mpi_shape_def w_def)
  have round: "fast_round g i n = CMpl_Add g u s"
    by (simp add: fast_round_def Let_def CMpl_WordShiftLeft_def u_def s_def w_def)
  have s: "mpl_pos s" "mpl_abs s = unat (w ! i) * sm2_fold * 2 ^ (32 * i)"
    using fast_term_value [of "w ! i" g] mpl_shl_value [of "fast_term g (w ! i)" i] g x i
    by (simp_all add: s_def w_def mpi_uninit_def)
  have u: "mpl_pos u" "m_iLengthInInts (mpl_l u) = 8" "m_iLengthInInts (mpl_h u) = m_iLengthInInts (mpl_h n)"
    using n by (simp_all add: u_def w_def fast_ok_def mpl_pos_def mpl_shape_def mpi_shape_def)
  have "wsum ((!) (w[i := 0])) (m_iLengthInInts (mpl_h n)) + unat (w ! i) * 2 ^ (32 * i) = mpi_abs (mpl_h n)"
    using wsum_update [of i "m_iLengthInInts (mpl_h n)" w 0] i by (simp add: mpi_abs_def w_def)
  then have sum: "mpl_abs u + 2 ^ 256 * (unat (w ! i) * 2 ^ (32 * i)) = mpl_abs n"
    by (simp add: mpl_abs_def mpi_abs_def u_def w_def flip: add_mult_distrib2)
  have split: "2 ^ 256 * (unat (w ! i) * 2 ^ (32 * i)) = mpl_abs s + unat (w ! i) * 2 ^ (32 * i) * sm2_p"
    unfolding s(2) sm2_fold(1) [symmetric] by (simp add: algebra_simps)
  have "mpl_abs u + mpl_abs s \<le> mpl_abs n" using sum split by linarith
  then have "mpl_abs u + mpl_abs s < 2 ^ 512"
    using n mpl_abs_less [of n] by (simp add: fast_ok_def)
  then have add: "mpl_pos (CMpl_Add g u s)" "mpl_abs (CMpl_Add g u s) = mpl_abs u + mpl_abs s"
    "m_iLengthInInts (mpl_l (CMpl_Add g u s)) = 8" "m_iLengthInInts (mpl_h u) \<le> m_iLengthInInts (mpl_h (CMpl_Add g u s))"
    using mpl_add_pos [of u s g] u s(1) g by (simp_all add: mpi_uninit_def)
  show "fast_ok (i + 1) (fast_round g i n)" using add u(3) i(1) by (simp add: fast_ok_def round)
  show "mpl_abs (fast_round g i n) + unat (m_aiMyInt (mpl_h n) ! i) * 2 ^ (32 * i) * sm2_p = mpl_abs n"
    unfolding round add(2) w_def [symmetric] using sum split by linarith
qed

lemma fast_word_value:
  assumes n: "fast_ok (i + 1) n" and g: "mpi_uninit g" and bound: "mpl_abs n < 2 ^ (256 + 32 * (i + 1))"
  shows "\<exists>t. fast_word g i n = Some t \<and> fast_ok i t \<and> mpl_abs t mod sm2_p = mpl_abs n mod sm2_p
    \<and> mpl_abs t < 2 ^ (256 + 32 * i)"
proof -
  define P where "P t \<longleftrightarrow> fast_ok (i + 1) t \<and> mpl_abs t mod sm2_p = mpl_abs n mod sm2_p
    \<and> mpl_abs t < 2 ^ (256 + 32 * (i + 1))" for t
  have step: "P (fast_round g i t)" "mpl_abs (fast_round g i t) < mpl_abs t"
    if "P t" "m_aiMyInt (mpl_h t) ! i \<noteq> 0" for t
  proof -
    have r: "fast_ok (i + 1) (fast_round g i t)"
      "mpl_abs (fast_round g i t) + unat (m_aiMyInt (mpl_h t) ! i) * 2 ^ (32 * i) * sm2_p = mpl_abs t"
      using fast_round_value [of i t g] that g by (simp_all add: P_def)
    have "0 < unat (m_aiMyInt (mpl_h t) ! i) * 2 ^ (32 * i) * sm2_p"
      using that(2) sm2_fold(2) by (simp add: unat_gt_0)
    with r(2) show less: "mpl_abs (fast_round g i t) < mpl_abs t" by linarith
    have "mpl_abs (fast_round g i t) mod sm2_p = mpl_abs t mod sm2_p"
      unfolding r(2) [symmetric] by simp
    with that r(1) less show "P (fast_round g i t)" by (auto simp: P_def)
  qed
  have init: "P n" using assms by (simp add: P_def)
  obtain t where t: "fast_word g i n = Some t"
    using measure_while_option_Some [of P "\<lambda>n. m_aiMyInt (mpl_h n) ! i \<noteq> 0" "fast_round g i" mpl_abs n] step init
    by (auto simp: fast_word_def)
  have Pt: "P t"
    using while_option_rule [of P "\<lambda>n. m_aiMyInt (mpl_h n) ! i \<noteq> 0" "fast_round g i" n t] t step init
    by (auto simp: fast_word_def)
  have zero: "m_aiMyInt (mpl_h t) ! i = 0"
    using while_option_stop [OF t [unfolded fast_word_def]] by simp
  have less: "mpi_abs (mpl_h t) < 2 ^ (32 * i)"
  proof -
    define f j where "f = (!) (m_aiMyInt (mpl_h t))" and "j = m_iLengthInInts (mpl_h t) - i"
    have ij: "m_iLengthInInts (mpl_h t) = i + j" "j \<noteq> 0" using Pt by (simp_all add: P_def fast_ok_def j_def)
    have "2 ^ 256 * wsum f (i + j) < 2 ^ 256 * 2 ^ (32 * (i + 1))"
      using Pt ij by (simp add: P_def mpl_abs_def mpi_abs_def f_def power_add)
    then have "wsum f (i + j) < 2 ^ (32 * (i + 1))" by simp
    have "2 ^ (32 * i) * wsum (\<lambda>k. f (k + i)) j \<le> wsum f (i + j)" by (simp add: wsum_shift)
    also have "\<dots> < 2 ^ (32 * i) * 2 ^ 32" using \<open>wsum f (i + j) < 2 ^ (32 * (i + 1))\<close> by (simp add: power_add)
    finally have "wsum (\<lambda>k. f (k + i)) j < 2 ^ 32" unfolding mult_less_cancel1 by blast
    moreover have "wsum (\<lambda>k. f (k + i)) (1 + (j - 1)) = 2 ^ 32 * wsum (\<lambda>k. f (k + 1 + i)) (j - 1)"
      using wsum_shift [of "\<lambda>k. f (k + i)" 1 "j - 1"] zero by (simp add: f_def)
    ultimately have "wsum (\<lambda>k. f (k + i)) j = 0" using ij(2) by simp
    then show ?thesis using wsum_shift [of f i j] wsum_less [of f i] ij by (simp add: mpi_abs_def f_def)
  qed
  have "mpl_abs t < 2 ^ (256 + 32 * i)"
    using Pt less by (intro mpl_abs_bound) (simp_all add: P_def fast_ok_def mpl_pos_def mpl_shape_def)
  then show ?thesis using t Pt by (auto simp: P_def fast_ok_def)
qed

lemma fast_words_value:
  assumes "fast_ok j n" "mpi_uninit g" "mpl_abs n < 2 ^ (256 + 32 * j)"
  shows "\<exists>t. foldl (\<lambda>r i. Option.bind r (fast_word g i)) (Some n) (rev [0..<j]) = Some t \<and> mpl_pos t
    \<and> mpl_abs t mod sm2_p = mpl_abs n mod sm2_p \<and> mpl_abs t < 2 ^ 256"
  using assms
proof (induction j arbitrary: n)
  case 0
  then show ?case by (simp add: fast_ok_def)
next
  case (Suc j)
  then obtain t where t: "fast_word g j n = Some t" "fast_ok j t" "mpl_abs t mod sm2_p = mpl_abs n mod sm2_p"
    "mpl_abs t < 2 ^ (256 + 32 * j)"
    using fast_word_value [of j n g] by auto
  then show ?case using Suc.IH [OF t(2) Suc.prems(2) t(4)] by simp
qed

lemma large_regular: "mpi_shape n \<Longrightarrow> 2 ^ 224 \<le> mpi_abs n \<Longrightarrow> mpi_regular n"
proof (rule ccontr)
  assume n: "mpi_shape n" "2 ^ 224 \<le> mpi_abs n" and "\<not> mpi_regular n"
  then obtain k where k: "m_iLengthInInts n = Suc k" "m_aiMyInt n ! k = 0" "k \<le> 7"
    by (cases "m_iLengthInInts n") (auto simp: mpi_regular_def mpi_shape_def)
  then have "mpi_abs n = wsum ((!) (m_aiMyInt n)) k" by (simp add: mpi_abs_def)
  also have "\<dots> \<le> wsum ((!) (m_aiMyInt n)) 7" using k(3) by (rule wsum_mono)
  also have "\<dots> < 2 ^ 224" using wsum_less [of "(!) (m_aiMyInt n)" 7] by simp
  finally show False using n(2) by simp
qed

lemma sub_pos:
  assumes "mpi_ok a" "mpi_ok b" "m_iMySign a = POSITIVE" "m_iMySign b = POSITIVE" "mpi_abs b < mpi_abs a"
  shows "mpi_shape (CMpi_Substract g1 g2 a b)" "m_iMySign (CMpi_Substract g1 g2 a b) = POSITIVE"
    "mpi_abs (CMpi_Substract g1 g2 a b) = mpi_abs a - mpi_abs b"
proof -
  have sub: "CMpi_Substract g1 g2 a b = sub_words (a\<lparr>m_iCarry := 0\<rparr>) b"
    using assms(3,4) by (subst CMpi_Substract.simps) (simp add: Let_def)
  have v: "mpi_shape (CMpi_Substract g1 g2 a b)"
    "mpi_int (CMpi_Substract g1 g2 a b) = int (mpi_abs a) - int (mpi_abs b)"
    using sub_words_value [of "a\<lparr>m_iCarry := 0\<rparr>" b] assms unfolding sub by (simp_all add: sign_change mpi_int_def)
  then show "mpi_shape (CMpi_Substract g1 g2 a b)" "m_iMySign (CMpi_Substract g1 g2 a b) = POSITIVE"
    "mpi_abs (CMpi_Substract g1 g2 a b) = mpi_abs a - mpi_abs b"
    using assms(5) by (auto simp: mpi_int_def mpi_shape_def)
qed

text \<open>All words of the upper half.\<close>

lemma fast_all_words:
  assumes u: "mpl_pos u" "m_iLengthInInts (mpl_h u) = 0 \<or> m_iLengthInInts (mpl_l u) = 8" and g: "mpi_uninit g"
  shows "\<exists>t. foldl (\<lambda>r i. Option.bind r (fast_word g i)) (Some u) (rev [0..<m_iLengthInInts (mpl_h u)]) = Some t
    \<and> mpl_pos t \<and> mpi_abs (mpl_l t) mod sm2_p = mpl_abs u mod sm2_p"
proof -
  define j where "j = m_iLengthInInts (mpl_h u)"
  obtain t where t: "foldl (\<lambda>r i. Option.bind r (fast_word g i)) (Some u) (rev [0..<j]) = Some t" "mpl_pos t"
    "mpl_abs t mod sm2_p = mpl_abs u mod sm2_p" "mpl_abs t < 2 ^ 256"
  proof (cases "j = 0")
    case True
    then show ?thesis using that [of u] u mpi_abs_less [of "mpl_l u"]
      by (simp add: mpl_abs_def mpi_abs_def j_def mpl_pos_def mpl_shape_def)
  next
    case False
    then have "fast_ok j u" using u by (simp add: fast_ok_def j_def)
    moreover have "mpl_abs u < 2 ^ (256 + 32 * j)"
      using u(1) wsum_less [of "(!) (m_aiMyInt (mpl_h u))" j]
      by (intro mpl_abs_bound) (simp_all add: mpl_pos_def mpl_shape_def mpi_abs_def j_def)
    ultimately show ?thesis using fast_words_value [of j u g] g that by auto
  qed
  have "2 ^ 256 * mpi_abs (mpl_h t) < 2 ^ 256 * 1" using t(4) unfolding mpl_abs_def by linarith
  then have "mpi_abs (mpl_h t) < 1" unfolding mult_less_cancel1 by blast
  then have "mpl_abs t = mpi_abs (mpl_l t)" by (simp add: mpl_abs_def)
  with t show ?thesis by (auto simp: j_def)
qed

text \<open>What is left is less than twice the prime.\<close>

lemma fast_subtract:
  assumes l: "mpi_shape l" "m_iMySign l = POSITIVE" and m: "mpi_shape m" "m_iMySign m = POSITIVE" "mpi_abs m = sm2_p"
    and k: "k = (if CMpi_ComparesTo l m = 1 then mpi_sub g l m else l)"
  shows "mpi_shape k" "m_iMySign k = POSITIVE" "mpi_abs k mod sm2_p = mpi_abs l mod sm2_p"
    "CMpi_ComparesTo k m = (if mpi_abs k = sm2_p then 0 else - 1)" "mpi_abs k \<le> sm2_p"
proof -
  have compares: "CMpi_ComparesTo x m = sgn (int (mpi_abs x) - int sm2_p)" if "mpi_shape x" "m_iMySign x = POSITIVE" for x
    using compares_value [of x m] that m by simp
  have "mpi_shape k \<and> m_iMySign k = POSITIVE \<and> mpi_abs k \<le> sm2_p \<and> mpi_abs k mod sm2_p = mpi_abs l mod sm2_p"
  proof (cases "mpi_abs l > sm2_p")
    case True
    then have reg: "mpi_regular l" "mpi_regular m"
      using l(1) m sm2_fold(3) by (auto intro!: large_regular)
    have eq: "k = mpi_sub g l m" using True compares [of l] l by (simp add: k)
    then have "mpi_abs k = mpi_abs l - sm2_p" using sub_pos(3) [of l m] reg l m True by simp
    moreover have "mpi_abs l - sm2_p \<le> sm2_p" using mpi_abs_less [OF l(1)] sm2_fold(3) by simp
    ultimately show ?thesis
      using True sub_pos [of l m "g 1" "g 0"] reg l m by (simp add: eq le_mod_geq)
  next
    case False
    then have "k = l" using compares [of l] l by (auto simp: k sgn_if)
    with False l show ?thesis by simp
  qed
  then show "mpi_shape k" "m_iMySign k = POSITIVE" "mpi_abs k mod sm2_p = mpi_abs l mod sm2_p"
    "CMpi_ComparesTo k m = (if mpi_abs k = sm2_p then 0 else - 1)" "mpi_abs k \<le> sm2_p"
    using compares [of k] by (auto simp: sgn_if)
qed

lemma fast_reduction_value:
  assumes n: "mpl_shape n" "m_iLengthInInts (mpl_h n) = 0 \<or> m_iLengthInInts (mpl_l n) = 8"
    and m: "mpi_shape m" "m_iMySign m = POSITIVE" "mpi_abs m = sm2_p" and g: "mpi_uninit g"
  shows "\<exists>r. CMpl_FastReduction g n m = Some r \<and> mpl_shape r \<and> m_iLengthInInts (mpl_h r) = 0
    \<and> mpi_abs (mpl_l r) = mpl_abs n mod sm2_p
    \<and> (m_iMySign (mpl_l r) = m_iMySign (mpl_l n) \<or> mpi_abs (mpl_l r) = 0 \<and> m_iMySign (mpl_l r) = POSITIVE)"
proof -
  define u where "u = n\<lparr>mpl_h := (mpl_h n)\<lparr>m_iMySign := POSITIVE\<rparr>, mpl_l := (mpl_l n)\<lparr>m_iMySign := POSITIVE\<rparr>\<rparr>"
  have u: "mpl_pos u" "mpl_abs u = mpl_abs n" "m_iLengthInInts (mpl_h u) = 0 \<or> m_iLengthInInts (mpl_l u) = 8"
    using n by (auto simp: u_def mpl_pos_def mpl_shape_def mpi_shape_def mpl_abs_def sign_change)
  obtain t where t: "foldl (\<lambda>r i. Option.bind r (fast_word g i)) (Some u) (rev [0..<m_iLengthInInts (mpl_h u)]) = Some t"
    "mpl_pos t" "mpi_abs (mpl_l t) mod sm2_p = mpl_abs n mod sm2_p"
    using fast_all_words [OF u(1,3) g] u(2) by auto
  define k where "k = (if CMpi_ComparesTo (mpl_l t) m = 1 then mpi_sub g (mpl_l t) m else mpl_l t)"
  have k: "mpi_shape k" "m_iMySign k = POSITIVE" "mpi_abs k mod sm2_p = mpl_abs n mod sm2_p"
    "CMpi_ComparesTo k m = (if mpi_abs k = sm2_p then 0 else - 1)" "mpi_abs k \<le> sm2_p"
    using fast_subtract [OF _ _ m k_def] t(2,3) by (simp_all add: mpl_pos_def mpl_shape_def)
  define s where "s = m_iMySign (mpl_l n)"
  define r where "r = t\<lparr>mpl_h := (mpl_h t)\<lparr>m_iLengthInInts := 0, m_iMySign := s\<rparr>,
      mpl_l := (if mpi_abs k = sm2_p then CMpi_Assign_d k 0 else k\<lparr>m_iMySign := s\<rparr>)\<rparr>"
  have "CMpl_FastReduction g n m = Some r"
    using t(1) k(4) unfolding CMpl_FastReduction_def Let_def u_def [symmetric]
    by (simp add: r_def s_def flip: k_def)
  moreover have "mpl_shape r" "m_iLengthInInts (mpl_h r) = 0"
    using t(2) k(1) n(1) by (auto simp: r_def s_def mpl_pos_def mpl_shape_def mpi_shape_def CMpi_Assign_d_def)
  moreover have "mpi_abs (mpl_l r) = mpl_abs n mod sm2_p 
      \<and> (m_iMySign (mpl_l r) = s \<or> mpi_abs (mpl_l r) = 0 \<and> m_iMySign (mpl_l r) = POSITIVE)"
    using k(3,5) by (cases "mpi_abs k = sm2_p") (simp_all add: r_def CMpi_Assign_d_def mpi_abs_def)
  ultimately show ?thesis by (auto simp: s_def)
qed

end
