(* ===== verification/Mpi_Square.thy ===== *)
theory Mpi_Square
  imports Mpi_Multiply Mpi_Long
begin

text \<open>
  \<^verbatim>\<open>CMpi_FastSquare\<close>: the columns of the square, in which a product of two different
  words is added once and doubled.
\<close>

section \<open>One product added to a column\<close>

fun acc_val :: "square_acc \<Rightarrow> nat" where
  "acc_val (r0, r1, r2) = unat r0 + unat r1 * 2 ^ 32 + unat r2 * 2 ^ 64"

lemma unat_ucast_64_32: "unat (ucast (s :: 64 word) :: 32 word) = unat s mod 2 ^ 32"
  by (simp add: unsigned_ucast_eq take_bit_eq_mod)

lemma unat_drop_32: "unat (drop_bit 32 (s :: 64 word)) = unat s div 2 ^ 32"
  by (simp add: drop_bit_eq_div unat_div)

lemma unat_word64_bound: "unat (w :: 64 word) < 2 ^ 64"
  using unsigned_less [of w, where 'a = nat] by simp

lemma top_bit_set: "0x8000000000000000 AND (w :: 64 word) \<noteq> 0 \<longleftrightarrow> unat w \<ge> 2 ^ 63"
proof -
  have "0x8000000000000000 AND w \<noteq> 0 \<longleftrightarrow> bit w 63"
    by (simp add: and_exp_eq_0_iff_not_bit [of w 63, simplified] and.commute)
  also have "\<dots> \<longleftrightarrow> bit (unat w) 63" by (simp add: bit_unsigned_iff)
  also have "\<dots> \<longleftrightarrow> odd (unat w div 2 ^ 63)" by (simp add: bit_iff_odd)
  also have "\<dots> \<longleftrightarrow> unat w \<ge> 2 ^ 63"
  proof -
    have "unat w div 2 ^ 63 < 2" using unat_word64_bound [of w] by (simp add: div_less_iff_less_mult)
    then have "odd (unat w div 2 ^ 63) \<longleftrightarrow> unat w div 2 ^ 63 \<ge> 1" by (auto simp: less_2_cases_iff)
    then show ?thesis by (simp add: less_eq_div_iff_mult_less_eq)
  qed
  finally show ?thesis .
qed

text \<open>The product doubled in 64 bits, with the bit that is lost.\<close>

lemma double_word:
  "unat (push_bit 1 (w :: 64 word)) + (if 0x8000000000000000 AND w \<noteq> 0 then 2 ^ 64 else 0) = 2 * unat w"
proof -
  have "unat (push_bit 1 w) = (2 * unat w) mod 2 ^ 64"
    by (simp add: push_bit_eq_mult unat_word_ariths mult.commute)
  then show ?thesis
    using unat_word64_bound [of w] unfolding top_bit_set by (cases "unat w < 2 ^ 63") (simp_all add: le_mod_geq)
qed

lemma square_sum:
  assumes "acc_val (r0, r1, r2) + p < 2 ^ 96" "unat (uv :: 64 word) + b * 2 ^ 64 = p" "unat (r :: 32 word) = unat r2 + b"
  shows "acc_val (let s = ucast r0 + ucast (ucast uv :: 32 word) :: 64 word;
          r0 = ucast s;
          s = drop_bit 32 s + ucast r1 + drop_bit 32 uv;
          r1 = ucast s;
          s = drop_bit 32 s
      in (r0, r1, r + ucast s)) = acc_val (r0, r1, r2) + p"
proof -
  define s where "s = ucast r0 + (ucast (ucast uv :: 32 word) :: 64 word)"
  define t where "t = drop_bit 32 s + ucast r1 + drop_bit 32 uv"
  have s: "unat s = unat r0 + unat uv mod 2 ^ 32"
    using unat_word_bound [of r0] by (simp add: s_def unat_word_ariths unat_ucast_64_32)
  have s33: "unat s < 2 ^ 33" using unat_word_bound [of r0] s by simp
  have uv: "unat uv div 2 ^ 32 < 2 ^ 32" using unat_word64_bound [of uv] by (simp add: div_less_iff_less_mult)
  have t: "unat t = unat s div 2 ^ 32 + unat r1 + unat uv div 2 ^ 32"
    using unat_word_bound [of r1] uv s33 by (simp add: t_def unat_word_ariths unat_drop_32)
  define uv0 uv1 s0 s1 t0 t1 where "uv0 = unat uv mod 2 ^ 32" and "uv1 = unat uv div 2 ^ 32" and
    "s0 = unat s mod 2 ^ 32" and "s1 = unat s div 2 ^ 32" and "t0 = unat t mod 2 ^ 32" and "t1 = unat t div 2 ^ 32"
  have "unat uv = uv0 + 2 ^ 32 * uv1" "unat s = s0 + 2 ^ 32 * s1" "unat t = t0 + 2 ^ 32 * t1"
    by (simp_all add: uv0_def uv1_def s0_def s1_def t0_def t1_def)
  moreover have "unat s = unat r0 + uv0" "unat t = s1 + unat r1 + uv1"
    using s t by (simp_all add: uv0_def uv1_def s1_def)
  ultimately have "s0 + t0 * 2 ^ 32 + (unat r + t1) * 2 ^ 64 = acc_val (r0, r1, r2) + p"
    using assms(2,3) by simp
  then have total: "unat s mod 2 ^ 32 + unat t mod 2 ^ 32 * 2 ^ 32 + (unat r + unat t div 2 ^ 32) * 2 ^ 64
      = acc_val (r0, r1, r2) + p"
    unfolding s0_def t0_def t1_def .
  then have "(unat r + unat t div 2 ^ 32) * 2 ^ 64 < 2 ^ 32 * 2 ^ 64" using assms(1) by simp
  then have "unat r + unat t div 2 ^ 32 < 2 ^ 32" unfolding mult_less_cancel2 by blast
  then have "unat (r + ucast (drop_bit 32 t)) = unat r + unat t div 2 ^ 32"
    by (simp add: unat_word_ariths unat_ucast_64_32 unat_drop_32)
  then show ?thesis using total
    by (simp only: Let_def s_def [symmetric] t_def [symmetric] acc_val.simps unat_ucast_64_32)
qed

lemma square_add_value:
  assumes "acc_val acc + (if twice then 2 else 1) * (unat x * unat y) < 2 ^ 96"
  shows "acc_val (square_add twice x y acc) = acc_val acc + (if twice then 2 else 1) * (unat x * unat y)"
proof -
  obtain r0 r1 r2 where acc: "acc = (r0, r1, r2)" by (cases acc)
  define uv where "uv = ucast x * (ucast y :: 64 word)"
  have "unat x * unat y \<le> (2 ^ 32 - 1) * (2 ^ 32 - 1)"
    using unat_word_bound [of x] unat_word_bound [of y] by (intro mult_le_mono) simp_all
  then have uv: "unat uv = unat x * unat y" by (simp add: uv_def unat_word_ariths)
  show ?thesis
  proof (cases twice)
    case False
    then show ?thesis using square_sum [of r0 r1 r2 "unat x * unat y" uv 0 r2] assms uv
      by (simp add: acc uv_def [symmetric])
  next
    case True
    define b where "b = (if 0x8000000000000000 AND uv \<noteq> 0 then 1 else 0 :: nat)"
    have d: "unat (push_bit 1 uv) + b * 2 ^ 64 = 2 * (unat x * unat y)"
      using double_word [of uv] by (simp add: b_def uv split: if_splits)
    have "(unat r2 + b) * 2 ^ 64 < 2 ^ 32 * 2 ^ 64"
      using assms True d by (simp add: acc)
    then have "unat r2 + b < 2 ^ 32" unfolding mult_less_cancel2 by blast
    then have "unat (if 0x8000000000000000 AND uv \<noteq> 0 then r2 + 1 else r2) = unat r2 + b"
      by (cases "0x8000000000000000 AND uv \<noteq> 0") (simp_all add: b_def unat_word_ariths)
    then show ?thesis
      using square_sum [of r0 r1 r2 "2 * (unat x * unat y)" "push_bit 1 uv" b] assms d True
      by (simp add: acc uv_def [symmetric])
  qed
qed

section \<open>A column\<close>

abbreviation mpi_nat :: "cmpi \<Rightarrow> nat \<Rightarrow> nat" where
  "mpi_nat n i \<equiv> unat (mpi_word n i)"

definition column_sum :: "cmpi \<Rightarrow> nat \<Rightarrow> nat" where
  "column_sum n k = (\<Sum>i\<le>k. mpi_nat n i * mpi_nat n (k - i))"

lemma symmetric_sum:
  fixes h :: "nat \<Rightarrow> nat"
  assumes "\<And>i. i \<le> k \<Longrightarrow> h (k - i) = h i"
  shows "(\<Sum>i<k div 2 + 1. (if i < k - i then 2 else 1) * h i) = (\<Sum>i\<le>k. h i)"
proof -
  define A B C where "A = {i. i < k - i}" and "B = {i. i \<le> k \<and> i = k - i}" and "C = {i. i \<le> k \<and> k - i < i}"
  have fin: "finite A" "finite B" "finite C" by (auto simp: A_def B_def C_def intro: finite_subset [of _ "{..k}"])
  have "(\<Sum>i\<in>C. h i) = (\<Sum>i\<in>A. h i)"
    by (rule sum.reindex_bij_witness [of _ "\<lambda>i. k - i" "\<lambda>i. k - i"]) (auto simp: A_def C_def assms)
  moreover have "{..k} = A \<union> B \<union> C" "{..<k div 2 + 1} = A \<union> B" by (auto simp: A_def B_def C_def)
  moreover have "A \<inter> B = {}" "(A \<union> B) \<inter> C = {}" by (auto simp: A_def B_def C_def)
  moreover have "(\<Sum>i\<in>A. (if i < k - i then 2 else 1) * h i) = 2 * (\<Sum>i\<in>A. h i)"
    by (simp add: A_def sum_distrib_left)
  moreover have "(\<Sum>i\<in>B. (if i < k - i then 2 else 1) * h i) = (\<Sum>i\<in>B. h i)"
    by (intro sum.cong) (auto simp: B_def)
  ultimately show ?thesis using fin by (simp add: sum.union_disjoint)
qed

lemma column_list:
  assumes "m \<le> m_iLengthInInts n"
  shows "sum_list (map (\<lambda>i. (if i < k - i then 2 else 1) * (unat (m_aiMyInt n ! i) * unat (m_aiMyInt n ! (k - i))))
      (takeWhile (\<lambda>i. k - i < m_iLengthInInts n) (rev [0..<m])))
    = (\<Sum>i<m. (if i < k - i then 2 else 1) * (mpi_nat n i * mpi_nat n (k - i)))"
  using assms
proof (induction m)
  case (Suc m)
  show ?case
  proof (cases "k - m < m_iLengthInInts n")
    case True
    then show ?thesis using Suc by (simp add: mpi_word_def)
  next
    case False
    have "mpi_word n (k - i) = 0" if "i < Suc m" for i
    proof -
      have "\<not> k - i < m_iLengthInInts n" using that False by arith
      then show ?thesis unfolding mpi_word_def by simp
    qed
    then show ?thesis using False by simp
  qed
qed simp

lemma square_column_value:
  assumes "m_iLengthInInts n > 0" "acc_val acc + column_sum n k < 2 ^ 96"
  shows "acc_val (square_column n k acc) = acc_val acc + column_sum n k"
proof -
  let ?w = "m_aiMyInt n" and ?m = "min (k div 2) (m_iLengthInInts n - 1) + 1"
  let ?t = "\<lambda>i. (if i < k - i then 2 else 1) * (unat (?w ! i) * unat (?w ! (k - i)))"
  let ?is = "takeWhile (\<lambda>i. k - i < m_iLengthInInts n) (rev [0..<?m])"
  have "sum_list (map ?t ?is) = (\<Sum>i<?m. (if i < k - i then 2 else 1) * (mpi_nat n i * mpi_nat n (k - i)))"
    using assms(1) by (intro column_list) simp
  also have "\<dots> = (\<Sum>i<k div 2 + 1. (if i < k - i then 2 else 1) * (mpi_nat n i * mpi_nat n (k - i)))"
    by (intro sum.mono_neutral_left) (auto simp: mpi_word_def)
  also have "\<dots> = column_sum n k"
    unfolding column_sum_def by (rule symmetric_sum) (simp add: mult.commute)
  finally have total: "sum_list (map ?t ?is) = column_sum n k" .
  have fold: "acc_val acc + sum_list (map ?t js) < 2 ^ 96 \<Longrightarrow>
      acc_val (foldl (\<lambda>acc i. square_add (i < k - i) (?w ! i) (?w ! (k - i)) acc) acc js) = acc_val acc + sum_list (map ?t js)" for js
  proof (induction js arbitrary: acc)
    case (Cons i js)
    have "acc_val (square_add (i < k - i) (?w ! i) (?w ! (k - i)) acc) = acc_val acc + ?t i"
      using Cons.prems by (intro square_add_value) simp
    then show ?case using Cons by simp
  qed simp
  show ?thesis using fold [of ?is] assms(2) total unfolding square_column_def Let_def by metis
qed

section \<open>The square\<close>

lemma column_sum_bound: "column_sum n k \<le> (k + 1) * (2 ^ 32 - 1) ^ 2"
proof -
  have "mpi_nat n i * mpi_nat n (k - i) \<le> (2 ^ 32 - 1) ^ 2" for i
    using unat_word_bound [of "mpi_word n i"] unat_word_bound [of "mpi_word n (k - i)"]
    unfolding power2_eq_square by (intro mult_le_mono) simp_all
  then have "column_sum n k \<le> (\<Sum>i\<le>k. (2 ^ 32 - 1) ^ 2)" unfolding column_sum_def by (intro sum_mono)
  then show ?thesis by simp
qed

lemma square_steps:
  assumes n: "m_iLengthInInts n > 0" and k: "k < 16"
  shows "\<exists>c r0 r1. foldl (square_step n) (replicate 16 0, 0, 0, 0) [0..<k] = (c, r0, r1, 0) \<and> length c = 16
    \<and> wsum ((!) c) k + acc_val (r0, r1, 0) * 2 ^ (32 * k) = (\<Sum>j<k. column_sum n j * 2 ^ (32 * j))"
  using k
proof (induction k)
  case (Suc k)
  then obtain c r0 r1 where IH: "foldl (square_step n) (replicate 16 0, 0, 0, 0) [0..<k] = (c, r0, r1, 0)" "length c = 16"
    "wsum ((!) c) k + acc_val (r0, r1, 0) * 2 ^ (32 * k) = (\<Sum>j<k. column_sum n j * 2 ^ (32 * j))" by auto
  obtain s0 s1 s2 where s: "square_column n k (r0, r1, 0) = (s0, s1, s2)" by (cases "square_column n k (r0, r1, 0)")
  have "column_sum n k \<le> 16 * (2 ^ 32 - 1) ^ 2"
    using column_sum_bound [of n k] Suc.prems by (elim le_trans) (simp add: mult_le_mono1)
  moreover have "acc_val (r0, r1, 0) < 2 ^ 64" using unat_word_bound [of r0] unat_word_bound [of r1] by simp
  ultimately have val: "acc_val (s0, s1, s2) = acc_val (r0, r1, 0) + column_sum n k"
    using square_column_value [OF n, of "(r0, r1, 0)" k] s by simp
  define P :: nat where "P = 2 ^ (32 * k)"
  have P: "2 ^ (32 * Suc k) = 2 ^ 32 * P" by (simp add: P_def power_add)
  have "wsum ((!) (c[k := s0])) k = wsum ((!) c) k" by (rule wsum_cong) simp
  then have "wsum ((!) (c[k := s0])) (Suc k) + acc_val (s1, s2, 0) * 2 ^ (32 * Suc k)
      = wsum ((!) c) k + acc_val (s0, s1, s2) * P"
    using IH(2) Suc.prems unfolding P by (simp add: P_def [symmetric] distrib_right)
  also have "\<dots> = (wsum ((!) c) k + acc_val (r0, r1, 0) * P) + column_sum n k * P"
    unfolding val distrib_right by simp
  also have "\<dots> = (\<Sum>j<Suc k. column_sum n j * 2 ^ (32 * j))"
    using IH(3) by (simp add: P_def)
  finally have "wsum ((!) (c[k := s0])) (Suc k) + acc_val (s1, s2, 0) * 2 ^ (32 * Suc k)
      = (\<Sum>j<Suc k. column_sum n j * 2 ^ (32 * j))" .
  then show ?case using IH s by simp
qed simp

lemma square_total:
  "(\<Sum>k<m_iLengthInInts n * 2 - 1. column_sum n k * 2 ^ (32 * k)) = mpi_abs n ^ 2"
proof (cases "m_iLengthInInts n")
  case 0
  then show ?thesis by (simp add: mpi_abs_def)
next
  case (Suc l)
  let ?k = "m_iLengthInInts n * 2 - 1"
  have column: "sum_list (map (mul_term n n k) [0..<k + 1]) = column_sum n k * 2 ^ (32 * k)" for k
    by (simp add: interv_sum_list_conv_sum_set_nat mul_term_def column_sum_def sum_distrib_right
        atLeastLessThanSuc_atLeastAtMost atMost_atLeast0 del: upt_Suc)
  have "Suc ?k = m_iLengthInInts n + m_iLengthInInts n" using Suc by simp
  then have "mpi_abs n ^ 2 = (\<Sum>k<Suc ?k. column_sum n k * 2 ^ (32 * k))"
    using mul_total [of n n] unfolding column
    by (simp add: power2_eq_square interv_sum_list_conv_sum_set_nat atLeast0LessThan del: upt_Suc sum.lessThan_Suc)
  moreover have "column_sum n ?k = 0" by (auto simp: column_sum_def mpi_word_def Suc)
  ultimately show ?thesis by simp
qed

lemma fast_square_value:
  assumes n: "mpi_shape n" "m_iLengthInInts n > 0"
    and n2: "length (m_aiMyInt (mpl_h n2)) = 8" "length (m_aiMyInt (mpl_l n2)) = 8"
  shows "\<exists>r. CMpi_FastSquare n n2 = Ret r \<and> mpi_shape (mpl_h r) \<and> mpi_shape (mpl_l r)
    \<and> m_iMySign (mpl_h r) = POSITIVE \<and> m_iMySign (mpl_l r) = POSITIVE
    \<and> (m_iLengthInInts (mpl_h r) = 0 \<or> m_iLengthInInts (mpl_l r) = 8) \<and> mpl_abs r = mpi_abs n ^ 2"
proof -
  define len where "len = m_iLengthInInts n * 2"
  have len: "0 < len" "len \<le> 16" "len - 1 < 16" using n by (auto simp: len_def mpi_shape_def)
  obtain c r0 r1 where c: "foldl (square_step n) (replicate 16 0, 0, 0, 0) [0..<len - 1] = (c, r0, r1, 0)" "length c = 16"
    "wsum ((!) c) (len - 1) + acc_val (r0, r1, 0) * 2 ^ (32 * (len - 1)) = mpi_abs n ^ 2"
    using square_steps [OF n(2) len(3)] square_total [of n] by (auto simp: len_def)
  define d where "d = c[len - 1 := r0]"
  have d: "wsum ((!) d) len = mpi_abs n ^ 2" "length d = 16"
  proof -
    have "mpi_abs n ^ 2 < (2 ^ (32 * m_iLengthInInts n)) ^ 2"
      using wsum_less [of "(!) (m_aiMyInt n)" "m_iLengthInInts n"]
      by (intro power_strict_mono) (simp_all add: mpi_abs_def)
    also have "\<dots> = 2 ^ (32 * (len - 1) + 32)"
    proof -
      have "32 * m_iLengthInInts n * 2 = 32 * (len - 1) + 32" using len(1) by (simp add: len_def)
      then show ?thesis by (simp only: power_mult [symmetric])
    qed
    finally have "mpi_abs n ^ 2 < 2 ^ 32 * 2 ^ (32 * (len - 1))" by (simp only: power_add mult.commute)
    moreover have "acc_val (r0, r1, 0) * 2 ^ (32 * (len - 1)) \<le> mpi_abs n ^ 2"
      unfolding c(3) [symmetric] by (rule le_add2)
    ultimately have "acc_val (r0, r1, 0) * 2 ^ (32 * (len - 1)) < 2 ^ 32 * 2 ^ (32 * (len - 1))" by (rule le_less_trans [rotated])
    then have "acc_val (r0, r1, 0) < 2 ^ 32" unfolding mult_less_cancel2 by blast
    then have "acc_val (r0, r1, 0) = unat r0" by simp
    moreover have "wsum ((!) d) (len - 1) = wsum ((!) c) (len - 1)" by (rule wsum_cong) (simp add: d_def)
    ultimately show "wsum ((!) d) len = mpi_abs n ^ 2"
      using c len by (cases len) (simp_all add: d_def)
  qed (simp add: d_def c)
  define l where "l = min len 8"
  define r where "r = n2\<lparr>
      mpl_h := (CMpi_Assign_d (mpl_h n2) 0)\<lparr>m_iLengthInInts := len - 8,
        m_aiMyInt := foldl (\<lambda>w i. w[i := d ! (i + 8)]) (m_aiMyInt (CMpi_Assign_d (mpl_h n2) 0)) [0..<len - 8]\<rparr>,
      mpl_l := (CMpi_Assign_d (mpl_l n2) 0)\<lparr>m_iLengthInInts := l,
        m_aiMyInt := foldl (\<lambda>w i. w[i := d ! i]) (m_aiMyInt (CMpi_Assign_d (mpl_l n2) 0)) [0..<l]\<rparr>\<rparr>"
  have "CMpi_FastSquare n n2 = Ret r"
    using len c(1) unfolding CMpi_FastSquare_def len_def [symmetric] Let_def
    by (simp add: r_def d_def l_def)
  moreover have "mpl_abs r = mpi_abs n ^ 2"
  proof -
    have "mpi_abs (mpl_l r) = wsum ((!) d) l" unfolding mpi_abs_def
      using n2(2) by (auto simp: r_def l_def store_words CMpi_Assign_d_def intro!: wsum_cong)
    moreover have "mpi_abs (mpl_h r) = wsum (\<lambda>i. d ! (i + 8)) (len - 8)" unfolding mpi_abs_def
      using n2(1) len by (auto simp: r_def store_words CMpi_Assign_d_def intro!: wsum_cong)
    moreover have "wsum ((!) d) len = wsum ((!) d) l + 2 ^ 256 * wsum (\<lambda>i. d ! (i + 8)) (len - 8)"
      using wsum_shift [of "(!) d" 8 "len - 8"] by (cases "len \<le> 8") (simp_all add: l_def)
    ultimately show ?thesis using d(1) by (simp add: mpl_abs_def)
  qed
  moreover have "mpi_shape (mpl_h r)" "mpi_shape (mpl_l r)"
    using n2 len by (auto simp: r_def mpi_shape_def store_words CMpi_Assign_d_def l_def)
  moreover have "m_iMySign (mpl_h r) = POSITIVE" "m_iMySign (mpl_l r) = POSITIVE"
    "m_iLengthInInts (mpl_h r) = 0 \<or> m_iLengthInInts (mpl_l r) = 8"
    by (auto simp: r_def CMpi_Assign_d_def l_def)
  ultimately show ?thesis by blast
qed

end
