(* ===== verification/Sm2_Check.thy ===== *)
theory Sm2_Check
  imports Mpi_Bytes Mpi_Mod Mpi_Reduce Mpi_Square
begin

text \<open>
  The checks of keys in \<^verbatim>\<open>agreement/sm2.c\<close> over the numbers of \<open>Mpi\<close>: a private key is in
  the range of the order of the group, a public key is a point of the curve. They rest on the
  reduction modulo the prime of the curve, the square and the product.
\<close>

section \<open>The curve\<close>

definition g_p :: cmpi where
  "g_p = \<lparr>m_aiMyInt = sm2_modulus_words, m_iCarry = 0, m_iMySign = POSITIVE, m_iLengthInInts = 8\<rparr>"

definition g_a :: cmpi where
  "g_a = \<lparr>m_aiMyInt = [0xfffffffc, 0xffffffff, 0, 0xffffffff, 0xffffffff, 0xffffffff, 0xffffffff, 0xfffffffe],
          m_iCarry = 0, m_iMySign = POSITIVE, m_iLengthInInts = 8\<rparr>"

definition g_b :: cmpi where
  "g_b = \<lparr>m_aiMyInt = [0x4d940e93, 0xddbcbd41, 0x15ab8f92, 0xf39789f5, 0xcf6509a7, 0x4d5a9e4b, 0x9d9f5e34, 0x28e9fa9e],
          m_iCarry = 0, m_iMySign = POSITIVE, m_iLengthInInts = 8\<rparr>"

definition g_n :: cmpi where
  "g_n = \<lparr>m_aiMyInt = [0x39d54123, 0x53bbf409, 0x21c6052b, 0x7203df6b, 0xffffffff, 0xffffffff, 0xffffffff, 0xfffffffe],
          m_iCarry = 0, m_iMySign = POSITIVE, m_iLengthInInts = 8\<rparr>"

section \<open>The checks\<close>

text \<open>\<open>left\<close> and \<open>right\<close> are the uninitialised variables \<open>g 30\<close> to \<open>g 33\<close>.\<close>

definition sm2_check_point :: "(nat \<Rightarrow> cmpi) \<Rightarrow> cmpi \<Rightarrow> cmpi \<Rightarrow> bool run" where
  "sm2_check_point g x y =
     (if CMpi_IsNegative x \<or> CMpi_IsNegative y \<or> \<not> CMpi_LargerThan_abs g_p x \<or> \<not> CMpi_LargerThan_abs g_p y
      then Some (Ret False)
      else
        run_bind (Some (CMpi_FastSquare x \<lparr>mpl_h = g 30, mpl_l = g 31\<rparr>)) (\<lambda>left.
        run_bind (CMpl_Mod g (CMpl_Addi g left g_a) g_p) (\<lambda>left.
        run_bind (Some (CMpi_Multiply (mpl_l left) x left)) (\<lambda>left.
        run_bind (CMpl_Mod g (CMpl_Addi g left g_b) g_p) (\<lambda>left.
        run_bind (Some (CMpi_FastSquare y \<lparr>mpl_h = g 32, mpl_l = g 33\<rparr>)) (\<lambda>right.
        run_bind (CMpl_Mod g right g_p) (\<lambda>right.
        Some (Ret (CMpi_EqualsTo (mpl_l right) (mpl_l left))))))))))"

definition sm2_check_prikey :: "(nat \<Rightarrow> cmpi) \<Rightarrow> byte list \<Rightarrow> int" where
  "sm2_check_prikey g prikey =
     (let d = snd (CMpi_Import (g 34) (take (fst (CMpi_GetLengthInBytes g_p)) prikey))
      in if CMpi_EqualsTo_d d 0 \<or> \<not> CMpi_LargerThan_abs g_n d then -1 else 0)"

definition sm2_check_pubkey :: "(nat \<Rightarrow> cmpi) \<Rightarrow> byte list \<Rightarrow> int run" where
  "sm2_check_pubkey g pubkey =
     (let len = fst (CMpi_GetLengthInBytes g_p);
          x = snd (CMpi_Import (g 34) (take len pubkey));
          y = snd (CMpi_Import (g 35) (take len (drop 32 pubkey)))
      in run_bind (sm2_check_point g x y) (\<lambda>ok. Some (Ret (if ok then 0 else -1))))"

section \<open>Their values\<close>

definition sm2_n :: nat where
  "sm2_n = 0xfffffffeffffffffffffffffffffffff7203df6b21c6052b53bbf40939d54123"

definition sm2_a :: nat where
  "sm2_a = 0xfffffffeffffffffffffffffffffffffffffffff00000000fffffffffffffffc"

definition sm2_b :: nat where
  "sm2_b = 0x28e9fa9e9d9f5e344d5a9e4bcf6509a7f39789f515ab8f92ddbcbd414d940e93"

lemma curve_numbers:
  "mpi_shape g_p" "m_iMySign g_p = POSITIVE" "mpi_abs g_p = sm2_p" "m_iLengthInInts g_p = 8"
  "mpi_shape g_a" "m_iMySign g_a = POSITIVE" "mpi_abs g_a = sm2_a" "m_iLengthInInts g_a = 8"
  "mpi_shape g_b" "m_iMySign g_b = POSITIVE" "mpi_abs g_b = sm2_b" "m_iLengthInInts g_b = 8"
  "mpi_shape g_n" "mpi_abs g_n = sm2_n"
  by (simp_all add: g_p_def g_a_def g_b_def g_n_def sm2_modulus_words_def mpi_shape_def mpi_abs_def wsum_8
      sm2_p_def sm2_a_def sm2_b_def sm2_n_def)

text \<open>A long number as the operations leave it.\<close>

definition mpl_ready :: "cmpl \<Rightarrow> bool" where
  "mpl_ready n \<longleftrightarrow> mpl_pos n \<and> (m_iLengthInInts (mpl_h n) = 0 \<or> m_iLengthInInts (mpl_l n) = 8)"

lemma mod_p_value:
  assumes "mpl_ready n" "mpi_uninit g"
  shows "\<exists>r. CMpl_Mod g n g_p = Some (Ret r) \<and> mpl_shape r \<and> mpi_abs (mpl_l r) = mpl_abs n mod sm2_p
    \<and> m_iMySign (mpl_l r) = POSITIVE"
proof -
  have "CMpl_Mod g n g_p = map_option Ret (CMpl_FastReduction g n g_p)"
    by (simp add: CMpl_Mod_def CMpl_Reduction_def g_p_def)
  then show ?thesis
    using fast_reduction_value [of n g_p g] assms curve_numbers(1-3)
    by (auto simp: mpl_ready_def mpl_pos_def)
qed

lemma sm2_p_square: "sm2_a < sm2_p" "sm2_b < sm2_p" "(sm2_p - 1) * (sm2_p - 1) + sm2_p < 2 ^ 512"
  by (simp_all add: sm2_p_def sm2_a_def sm2_b_def)

lemma product_bound: "x < sm2_p \<Longrightarrow> y < sm2_p \<Longrightarrow> z < sm2_p \<Longrightarrow> x * y + z < 2 ^ 512"
proof -
  assume "x < sm2_p" "y < sm2_p" "z < sm2_p"
  then have "x * y + z \<le> (sm2_p - 1) * (sm2_p - 1) + sm2_p" by (intro add_mono mult_le_mono) simp_all
  then show ?thesis using sm2_p_square(3) by (rule le_less_trans)
qed

definition on_curve :: "nat \<Rightarrow> nat \<Rightarrow> bool" where
  "on_curve x y \<longleftrightarrow> y ^ 2 mod sm2_p = (x ^ 3 + sm2_a * x + sm2_b) mod sm2_p"

lemma check_point_value:
  assumes x: "mpi_shape x" "m_iLengthInInts x > 0" "m_iMySign x = POSITIVE"
    and y: "mpi_shape y" "m_iLengthInInts y > 0" "m_iMySign y = POSITIVE" and g: "mpi_uninit g"
  shows "sm2_check_point g x y
     = Some (Ret (mpi_abs x < sm2_p \<and> mpi_abs y < sm2_p \<and> on_curve (mpi_abs x) (mpi_abs y)))"
proof (cases "mpi_abs x < sm2_p \<and> mpi_abs y < sm2_p")
  case False
  then show ?thesis using curve_numbers(3)
    by (auto simp: sm2_check_point_def larger_abs_iff CMpi_IsNegative_def x y)
next
  case True
  let ?X = "mpi_abs x" and ?Y = "mpi_abs y"
  have uninit: "length (m_aiMyInt (g i)) = 8" for i using g by (simp add: mpi_uninit_def)
  obtain l1 where l1: "CMpi_FastSquare x \<lparr>mpl_h = g 30, mpl_l = g 31\<rparr> = Ret l1" "mpl_pos l1" "mpl_abs l1 = ?X ^ 2"
    using fast_square_value [OF x(1,2), of "\<lparr>mpl_h = g 30, mpl_l = g 31\<rparr>"] uninit
    by (auto simp: mpl_pos_def mpl_shape_def)
  have l2: "mpl_ready (CMpl_Addi g l1 g_a)" "mpl_abs (CMpl_Addi g l1 g_a) = ?X ^ 2 + sm2_a"
    using mpl_addi_pos [OF l1(2) curve_numbers(5,6,8) uninit] product_bound [of ?X ?X sm2_a] True sm2_p_square l1(3)
      curve_numbers(7)
    by (simp_all add: mpl_ready_def power2_eq_square)
  obtain l3 where l3: "CMpl_Mod g (CMpl_Addi g l1 g_a) g_p = Some (Ret l3)" "mpl_shape l3"
    "mpi_abs (mpl_l l3) = (?X ^ 2 + sm2_a) mod sm2_p" "m_iMySign (mpl_l l3) = POSITIVE"
    using mod_p_value [OF l2(1) g] l2(2) by auto
  obtain l4 where l4: "CMpi_Multiply (mpl_l l3) x l3 = Ret l4" "mpl_pos l4"
    "mpl_abs l4 = (?X ^ 2 + sm2_a) mod sm2_p * ?X"
    using mpi_multiply_value [of "mpl_l l3" x l3] l3 x
    by (auto simp: mpl_pos_def mpl_shape_def mpi_shape_def)
  have l5: "mpl_ready (CMpl_Addi g l4 g_b)" "mpl_abs (CMpl_Addi g l4 g_b) = (?X ^ 2 + sm2_a) mod sm2_p * ?X + sm2_b"
    using mpl_addi_pos [OF l4(2) curve_numbers(9,10,12) uninit] product_bound [of "(?X ^ 2 + sm2_a) mod sm2_p" ?X sm2_b]
      True sm2_p_square l4(3) curve_numbers(11) sm2_fold(2)
    by (simp_all add: mpl_ready_def)
  obtain l6 where l6: "CMpl_Mod g (CMpl_Addi g l4 g_b) g_p = Some (Ret l6)" "mpi_abs (mpl_l l6) = mpl_abs (CMpl_Addi g l4 g_b) mod sm2_p"
    using mod_p_value [OF l5(1) g] by auto
  obtain r1 where r1: "CMpi_FastSquare y \<lparr>mpl_h = g 32, mpl_l = g 33\<rparr> = Ret r1" "mpl_ready r1" "mpl_abs r1 = ?Y ^ 2"
    using fast_square_value [OF y(1,2), of "\<lparr>mpl_h = g 32, mpl_l = g 33\<rparr>"] uninit
    by (auto simp: mpl_ready_def mpl_pos_def mpl_shape_def)
  obtain r2 where r2: "CMpl_Mod g r1 g_p = Some (Ret r2)" "mpi_abs (mpl_l r2) = ?Y ^ 2 mod sm2_p"
    using mod_p_value [OF r1(2) g] r1(3) by auto
  have "mpi_abs (mpl_l l6) = ((?X ^ 2 + sm2_a) * ?X + sm2_b) mod sm2_p"
    unfolding l6(2) l5(2) by (metis mod_add_left_eq mod_mult_left_eq)
  also have "(?X ^ 2 + sm2_a) * ?X + sm2_b = ?X ^ 3 + sm2_a * ?X + sm2_b"
    by (simp add: algebra_simps power2_eq_square power3_eq_cube)
  finally show ?thesis using True l1(1) l3(1) l4(1) l6(1) r1(1) r2 x y curve_numbers(3)
    by (simp add: sm2_check_point_def larger_abs_iff CMpi_IsNegative_def equals_iff on_curve_def)
qed

lemma equals_zero_iff: "CMpi_EqualsTo_d d 0 \<longleftrightarrow> mpi_abs d = 0"
proof (cases "m_iLengthInInts d")
  case (Suc k)
  have all: "(\<forall>i < Suc k. P i) \<longleftrightarrow> P 0 \<and> (\<forall>i. 1 \<le> i \<and> i < Suc k \<longrightarrow> P i)" for P :: "nat \<Rightarrow> bool"
    by (metis One_nat_def Suc_leI not_gr_zero zero_less_Suc)
  have "CMpi_EqualsTo_d d 0 \<longleftrightarrow> (\<forall>i < Suc k. m_aiMyInt d ! i = 0)"
    unfolding all using Suc by (auto simp: CMpi_EqualsTo_d_def list_ex_iff simp del: upt_Suc)
  then show ?thesis using Suc by (simp add: mpi_abs_def wsum_eq_zero del: wsum_simps)
qed (simp add: CMpi_EqualsTo_d_def mpi_abs_def)

lemma length_of_p: "fst (CMpi_GetLengthInBytes g_p) = 32"
  by code_simp

section \<open>Properties\<close>

text \<open>
  C19: the reduction modulo the prime of the curve always ends and gives the residue, whatever the
  uninitialised variables hold.
\<close>

theorem sm2_field_reduction:
  assumes "mpl_shape n" "m_iLengthInInts (mpl_h n) = 0 \<or> m_iLengthInInts (mpl_l n) = 8" "mpi_uninit g"
  shows "\<exists>r. CMpl_Mod g n g_p = Some (Ret r) \<and> mpl_shape r \<and> m_iLengthInInts (mpl_h r) = 0
    \<and> mpi_abs (mpl_l r) = mpl_abs n mod sm2_p"
proof -
  have "CMpl_Mod g n g_p = map_option Ret (CMpl_FastReduction g n g_p)"
    by (simp add: CMpl_Mod_def CMpl_Reduction_def g_p_def)
  then show ?thesis using fast_reduction_value [of n g_p g] assms curve_numbers(1-3) by auto
qed

definition mpi_garbage :: "nat \<Rightarrow> cmpi" where
  "mpi_garbage i = mpi_blank\<lparr>m_iCarry := of_nat i\<rparr>"

lemma mpi_garbage_uninit: "mpi_uninit mpi_garbage"
  by (simp add: mpi_uninit_def mpi_garbage_def mpi_blank_def)

theorem sm2_field_reduction_witness:
  "\<exists>r. CMpl_Mod mpi_garbage \<lparr>mpl_h = mpi_small 1 5, mpl_l = g_a\<rparr> g_p = Some (Ret r)
     \<and> mpi_abs (mpl_l r) = (sm2_a + 2 ^ 256 * 5) mod sm2_p"
  using sm2_field_reduction [of "\<lparr>mpl_h = mpi_small 1 5, mpl_l = g_a\<rparr>" mpi_garbage]
    curve_numbers mpi_garbage_uninit
  by (auto simp: mpl_shape_def mpl_abs_def mpi_small_value)

text \<open>
  C20: a public key of 64 bytes is accepted exactly when its coordinates are reduced and the point
  lies on the curve \<open>y ^ 2 = x ^ 3 + a x + b\<close>; the check always returns.
\<close>

theorem sm2_pubkey_accepted_iff:
  assumes "length key = 64" "mpi_uninit g"
  shows "sm2_check_pubkey g key = Some (Ret
    (let x = be_val (take 32 key); y = be_val (drop 32 key)
     in if x < sm2_p \<and> y < sm2_p \<and> on_curve x y then 0 else - 1))"
proof -
  have abs: "mpi_abs n = v" if "mpi_int n = int v" "m_iMySign n = POSITIVE" for n v
    using that by (simp add: mpi_int_def)
  have uninit: "length (m_aiMyInt (g i)) = 8" for i using assms(2) by (simp add: mpi_uninit_def)
  define x y where "x = snd (CMpi_Import (g 34) (take 32 key))" and "y = snd (CMpi_Import (g 35) (drop 32 key))"
  have "mpi_shape x" "m_iLengthInInts x > 0" "m_iMySign x = POSITIVE" "mpi_abs x = be_val (take 32 key)"
    using import_value [of "take 32 key" "g 34"] assms(1) uninit abs by (auto simp: x_def)
  moreover have "mpi_shape y" "m_iLengthInInts y > 0" "m_iMySign y = POSITIVE" "mpi_abs y = be_val (drop 32 key)"
    using import_value [of "drop 32 key" "g 35"] assms(1) uninit abs by (auto simp: y_def)
  ultimately show ?thesis
    using check_point_value [of x y g] assms
    by (simp add: sm2_check_pubkey_def length_of_p Let_def x_def y_def)
qed

theorem sm2_pubkey_accepted_iff_witness:
  "sm2_check_pubkey mpi_garbage (replicate 64 0) = Some (Ret (- 1))"
proof -
  have "\<not> on_curve 0 0" by (simp add: on_curve_def sm2_b_def sm2_p_def)
  then show ?thesis
    using sm2_pubkey_accepted_iff [of "replicate 64 0" mpi_garbage] mpi_garbage_uninit be_val_zeros by simp
qed

text \<open>
  A private key of 32 bytes is accepted exactly from one up to the order of the group less one.
\<close>

theorem sm2_prikey_accepted_iff:
  assumes "length key = 32" "mpi_uninit g"
  shows "sm2_check_prikey g key = (if 1 \<le> be_val key \<and> be_val key < sm2_n then 0 else - 1)"
proof -
  define d where "d = snd (CMpi_Import (g 34) key)"
  have "mpi_abs d = be_val key" "mpi_shape d"
    using import_value [of key "g 34"] assms by (auto simp: d_def mpi_uninit_def mpi_int_def)
  then show ?thesis using assms(1) curve_numbers
    by (auto simp: sm2_check_prikey_def length_of_p Let_def d_def equals_zero_iff larger_abs_iff)
qed

theorem sm2_prikey_accepted_iff_witness:
  "sm2_check_prikey mpi_garbage (replicate 31 0 @ [7]) = 0 \<and> sm2_check_prikey mpi_garbage (replicate 32 0) = - 1"
  using sm2_prikey_accepted_iff [of "replicate 31 0 @ [7]" mpi_garbage] sm2_prikey_accepted_iff [of "replicate 32 0" mpi_garbage]
    mpi_garbage_uninit
  by (simp add: be_val_zeros sm2_n_def)

end
