(* ===== verification/Sm2.thy ===== *)
theory Sm2
  imports Sm3 Sm2_Check
begin

text \<open>
  Signatures, encryption and key agreement of \<^verbatim>\<open>agreement/sm2.c\<close>. The big numbers of the
  MIRACL library are natural numbers, with its documented operations; its elliptic curve, the
  inverse of \<^verbatim>\<open>xgcd\<close> and its AES cipher are the record \<open>miracl\<close>, a parameter. The random
  numbers are the list of what \<^verbatim>\<open>bigrand\<close> returns, one after the other; a routine that has not
  returned when the list is used up is \<open>None\<close>. \<open>u i\<close> is what an array of the stack holds before
  it is written, \<open>mem i\<close> says whether the \<open>i\<close>-th allocation of a call succeeds.
\<close>

section \<open>The library\<close>

record 'p miracl =
  epoint_set :: "nat \<Rightarrow> nat \<Rightarrow> 'p option"
  epoint_get :: "'p \<Rightarrow> nat \<times> nat"
  ecurve_mult :: "nat \<Rightarrow> 'p \<Rightarrow> 'p"
  ecurve_add :: "'p \<Rightarrow> 'p \<Rightarrow> 'p"
  epoint_init :: 'p
  xgcd :: "nat \<Rightarrow> nat \<Rightarrow> nat"
  aes_encrypt :: "byte list \<Rightarrow> byte list \<Rightarrow> byte list"
  aes_decrypt :: "byte list \<Rightarrow> byte list \<Rightarrow> byte list"

definition ecurve_mult2 :: "'p miracl \<Rightarrow> nat \<Rightarrow> 'p \<Rightarrow> nat \<Rightarrow> 'p \<Rightarrow> 'p" where
  "ecurve_mult2 E s g a w = ecurve_add E (ecurve_mult E s g) (ecurve_mult E a w)"

definition point_at_infinity :: "'p miracl \<Rightarrow> 'p \<Rightarrow> bool" where
  "point_at_infinity E p \<longleftrightarrow> p = epoint_init E"

text \<open>A point that is not checked stays at infinity when its coordinates are not on the curve.\<close>

definition epoint_new :: "'p miracl \<Rightarrow> nat \<Rightarrow> nat \<Rightarrow> 'p" where
  "epoint_new E x y = (case epoint_set E x y of None \<Rightarrow> epoint_init E | Some p \<Rightarrow> p)"

definition be_bytes :: "nat \<Rightarrow> nat \<Rightarrow> byte list" where
  "be_bytes k x = map (\<lambda>i. of_nat (x div 256 ^ i)) (rev [0..<k])"

text \<open>
  \<^verbatim>\<open>big_to_bytes(32, x, p, TRUE)\<close> writes nothing for zero; for a number that does not fit the
  library reports an error, which the code does not look at: \<open>Fault\<close>.
\<close>

definition big_to_bytes :: "nat \<Rightarrow> byte list \<Rightarrow> byte list outcome" where
  "big_to_bytes x old = (if x = 0 then Ret old else if x < 2 ^ 256 then Ret (be_bytes 32 x) else Fault)"

definition big_len :: "nat \<Rightarrow> int" where
  "big_len x = (if x = 0 then 0 else 32)"

section \<open>Parameters\<close>

definition sm2_gx :: nat where
  "sm2_gx = 0x32c4ae2c1f1981195f9904466a39c9948fe30bbff2660be1715a4589334c74c7"

definition sm2_gy :: nat where
  "sm2_gy = 0xbc3736a2f4f6779c59bdcee36b692153d0a9877cc62a474002df32e52139f0a0"

definition sm2_g :: "'p miracl \<Rightarrow> 'p" where
  "sm2_g E = epoint_new E sm2_gx sm2_gy"

definition sm2_par_dig :: "byte list" where
  "sm2_par_dig =
    [0xff, 0xff, 0xff, 0xfe, 0xff, 0xff, 0xff, 0xff, 0xff, 0xff, 0xff, 0xff, 0xff, 0xff, 0xff, 0xff,
     0xff, 0xff, 0xff, 0xff, 0x00, 0x00, 0x00, 0x00, 0xff, 0xff, 0xff, 0xff, 0xff, 0xff, 0xff, 0xfc,
     0x28, 0xe9, 0xfa, 0x9e, 0x9d, 0x9f, 0x5e, 0x34, 0x4d, 0x5a, 0x9e, 0x4b, 0xcf, 0x65, 0x09, 0xa7,
     0xf3, 0x97, 0x89, 0xf5, 0x15, 0xab, 0x8f, 0x92, 0xdd, 0xbc, 0xbd, 0x41, 0x4d, 0x94, 0x0e, 0x93,
     0x32, 0xc4, 0xae, 0x2c, 0x1f, 0x19, 0x81, 0x19, 0x5f, 0x99, 0x04, 0x46, 0x6a, 0x39, 0xc9, 0x94,
     0x8f, 0xe3, 0x0b, 0xbf, 0xf2, 0x66, 0x0b, 0xe1, 0x71, 0x5a, 0x45, 0x89, 0x33, 0x4c, 0x74, 0xc7,
     0xbc, 0x37, 0x36, 0xa2, 0xf4, 0xf6, 0x77, 0x9c, 0x59, 0xbd, 0xce, 0xe3, 0x6b, 0x69, 0x21, 0x53,
     0xd0, 0xa9, 0x87, 0x7c, 0xc6, 0x2a, 0x47, 0x40, 0x02, 0xdf, 0x32, 0xe5, 0x21, 0x39, 0xf0, 0xa0]"

definition enkey :: "byte list" where
  "enkey = [0xb1, 0x6b, 0xa0, 0xda, 0x27, 0xc5, 0x24, 0x9a, 0xf6, 0x1d, 0x6e, 0x6e, 0x12, 0xd1, 0x59, 0xa5, 0xb6, 0x74, 0x64, 0x34, 0xeb, 0xd6, 0x1b, 0x62, 0xea, 0xeb, 0xc3, 0xcc, 0x31, 0x5e, 0x42, 0x1d]"

section \<open>Hashes and key derivation\<close>

text \<open>What both hashes of the identity begin with: its length in bits, the identity, the curve.\<close>

definition id_prefix :: "byte list \<Rightarrow> byte list" where
  "id_prefix userid =
     (let bits = length userid * 8 in [of_nat (bits div 256), of_nat bits] @ userid @ sm2_par_dig)"

definition right_aligned :: "byte list \<Rightarrow> byte list" where
  "right_aligned x = replicate (32 - length x) 0 @ x"

definition sm3_e :: "(nat \<Rightarrow> bool) \<Rightarrow> byte list \<Rightarrow> byte list \<Rightarrow> byte list \<Rightarrow> byte list \<Rightarrow> byte list option" where
  "sm3_e mem userid xa ya msg =
     (if length xa > 32 \<or> length ya > 32 then None
      else if \<not> mem 0 then None
      else let e = sm3 (id_prefix userid @ right_aligned xa @ right_aligned ya)
           in if \<not> mem 1 then None else Some (sm3 (e @ msg)))"

text \<open>
  \<^verbatim>\<open>sm3_z\<close> copies 32 bytes of each coordinate whatever its length is, which a shorter one does
  not have.
\<close>

definition sm3_z :: "bool \<Rightarrow> byte list \<Rightarrow> byte list \<Rightarrow> byte list \<Rightarrow> byte list outcome" where
  "sm3_z mem userid xa ya =
     (if length xa > 32 \<or> length ya > 32 then Fail (-1)
      else if \<not> mem then Fail (-1)
      else obind (rd_block xa 0 32) (\<lambda>x. obind (rd_block ya 0 32) (\<lambda>y. Ret (sm3 (id_prefix userid @ x @ y)))))"

definition counter_bytes :: "nat \<Rightarrow> byte list" where
  "counter_bytes i =
     (let ct = of_nat i :: 32 word
      in [ucast (drop_bit 24 ct), ucast (drop_bit 16 ct), ucast (drop_bit 8 ct), ucast ct])"

text \<open>The loop of \<^verbatim>\<open>kdf\<close> and \<^verbatim>\<open>kdf_key\<close>: whole digests, then a part of one.\<close>

definition kdf_stream :: "byte list \<Rightarrow> nat \<Rightarrow> byte list" where
  "kdf_stream z klen =
     (let m = klen div 32; n = klen mod 32
      in concat (map (\<lambda>i. sm3 (z @ counter_bytes (i + 1))) [0..<m])
         @ (if n \<noteq> 0 then take n (sm3 (z @ counter_bytes (m + 1))) else []))"

definition kdf :: "byte list \<Rightarrow> byte list \<Rightarrow> nat \<Rightarrow> bool \<times> byte list" where
  "kdf zl zr klen = (let kbuf = kdf_stream (zl @ zr) klen in (list_ex (\<lambda>b. b \<noteq> 0) kbuf, kbuf))"

definition kdf_key :: "bool \<Rightarrow> byte list \<Rightarrow> nat \<Rightarrow> byte list \<Rightarrow> byte list" where
  "kdf_key mem z klen kbuf = (if mem then kdf_stream z klen else kbuf)"

text \<open>Blocks of 16 bytes, with a fixed key.\<close>

fun each_block :: "(byte list \<Rightarrow> byte list) \<Rightarrow> byte list \<Rightarrow> nat \<Rightarrow> byte list outcome" where
  "each_block f r 0 = Ret r"
| "each_block f r (Suc k) =
     (if length r < 16 then Fault else obind (each_block f (drop 16 r) k) (\<lambda>s. Ret (f (take 16 r) @ s)))"

definition enrand :: "'p miracl \<Rightarrow> byte list \<Rightarrow> nat \<Rightarrow> byte list outcome" where
  "enrand E r rlen = each_block (aes_encrypt E (take 16 enkey)) r ((rlen + 15) div 16)"

definition derand :: "'p miracl \<Rightarrow> byte list \<Rightarrow> nat \<Rightarrow> byte list outcome" where
  "derand E r rlen = each_block (aes_decrypt E (take 16 enkey)) r ((rlen + 15) div 16)"

section \<open>Keys\<close>

text \<open>\<^verbatim>\<open>sm2_keygen\<close> takes the first random number, zero or not: lengths and bytes of the key.\<close>

definition sm2_keygen :: "'p miracl \<Rightarrow> nat \<Rightarrow> byte list \<Rightarrow> byte list \<Rightarrow> byte list
  \<Rightarrow> (byte list \<times> byte list \<times> byte list \<times> int list) outcome" where
  "sm2_keygen E key1 wx wy privkey =
     (let (x, y) = epoint_get E (ecurve_mult E key1 (sm2_g E))
      in obind (big_to_bytes x wx) (\<lambda>wx. obind (big_to_bytes y wy) (\<lambda>wy. obind (big_to_bytes key1 privkey) (\<lambda>privkey.
           Ret (wx, wy, privkey, [big_len x, big_len y, big_len key1])))))"

section \<open>Signatures\<close>

datatype 'a round = Again | Done 'a

text \<open>
  One round of \<^verbatim>\<open>sm2_sign\<close> for the random number \<open>k\<close>; the point \<open>g\<close> is what the rounds before
  have left there.
\<close>

definition sign_round :: "'p miracl \<Rightarrow> nat \<Rightarrow> nat \<Rightarrow> 'p \<Rightarrow> nat \<Rightarrow> (nat \<times> nat) round" where
  "sign_round E e key1 g k =
     (let r = (e + fst (epoint_get E (ecurve_mult E k g))) mod sm2_n
      in if r = 0 then Again
         else if r + k = sm2_n then Again
         else let b = xgcd E (key1 + 1) sm2_n;
                  a = (r * key1) mod sm2_n;
                  a = (if k \<ge> a then k - a else sm2_n - a + k);
                  s = (a * b) mod sm2_n
              in if s = 0 then Again else Done (r, s))"

fun sign_loop :: "'p miracl \<Rightarrow> nat \<Rightarrow> nat \<Rightarrow> 'p \<Rightarrow> nat list \<Rightarrow> (nat \<times> nat) option" where
  "sign_loop E e key1 g [] = None"
| "sign_loop E e key1 g (k # ks) =
     (if k = 0 then sign_loop E e key1 g ks
      else case sign_round E e key1 g k of
             Done rs \<Rightarrow> Some rs
           | Again \<Rightarrow> sign_loop E e key1 (ecurve_mult E k g) ks)"

definition sm2_sign :: "'p miracl \<Rightarrow> byte list \<Rightarrow> byte list \<Rightarrow> nat list \<Rightarrow> (byte list \<times> byte list) option" where
  "sm2_sign E hash privkey ks =
     map_option (\<lambda>(r, s). (be_bytes 32 r, be_bytes 32 s)) (sign_loop E (be_val hash) (be_val privkey) (sm2_g E) ks)"

definition sm2_verify :: "'p miracl \<Rightarrow> byte list \<Rightarrow> byte list \<Rightarrow> byte list \<Rightarrow> byte list \<Rightarrow> byte list \<Rightarrow> int" where
  "sm2_verify E hash cr cs wx wy =
     (case epoint_set E (be_val wx) (be_val wy) of
        None \<Rightarrow> 0
      | Some w \<Rightarrow>
          (let e = be_val hash; r = be_val cr; s = be_val cs
           in if r \<ge> sm2_n \<or> r = 0 then 0
              else if s \<ge> sm2_n \<or> s = 0 then 0
              else let a = (s + r) mod sm2_n
                   in if a = 0 then 0
                      else let v = (fst (epoint_get E (ecurve_mult2 E s (sm2_g E) a w)) + e) mod sm2_n
                           in if v = r then 1 else 0))"

section \<open>Encryption\<close>

text \<open>
  The state of the rounds of \<^verbatim>\<open>sm2_encrypt\<close>: the points, the buffers \<^verbatim>\<open>zl\<close> and \<^verbatim>\<open>zr\<close>, and
  the output in three parts, the first two of 32 bytes.
\<close>

record 'p enc =
  enc_g :: 'p
  enc_w :: 'p
  enc_zl :: "byte list"
  enc_zr :: "byte list"
  enc_c1 :: "byte list"
  enc_c2 :: "byte list"
  enc_rest :: "byte list"

text \<open>The result of the code, with the output. The key stream is made in the output.\<close>

definition enc_round :: "'p miracl \<Rightarrow> byte list \<Rightarrow> 'p enc \<Rightarrow> nat \<Rightarrow> ((int \<times> byte list) round \<times> 'p enc) outcome" where
  "enc_round E msg st k =
     (let g = ecurve_mult E k (enc_g st); (c1, c2) = epoint_get E g
      in obind (big_to_bytes c1 (enc_c1 st)) (\<lambda>b1. obind (big_to_bytes c2 (enc_c2 st)) (\<lambda>b2.
           if point_at_infinity E (enc_w st) then Ret (Done (-1, b1 @ b2 @ enc_rest st), st)
           else let w = ecurve_mult E k (enc_w st); (x2, y2) = epoint_get E w
                in obind (big_to_bytes x2 (enc_zl st)) (\<lambda>zl. obind (big_to_bytes y2 (enc_zr st)) (\<lambda>zr.
                     let (ok, key) = kdf zl zr (length msg);
                         tail = drop (32 + length msg) (enc_rest st);
                         st = \<lparr>enc_g = g, enc_w = w, enc_zl = zl, enc_zr = zr, enc_c1 = b1, enc_c2 = b2,
                               enc_rest = take 32 (enc_rest st) @ key @ tail\<rparr>
                     in if \<not> ok then Ret (Again, st)
                        else Ret (Done (int (length msg) + 64 + 32,
                                    b1 @ b2 @ sm3 (zl @ msg @ zr) @ map2 (XOR) key msg @ tail), st))))))"

fun enc_loop :: "'p miracl \<Rightarrow> byte list \<Rightarrow> 'p enc \<Rightarrow> nat list \<Rightarrow> (int \<times> byte list) run" where
  "enc_loop E msg st [] = None"
| "enc_loop E msg st (k # ks) =
     (if k = 0 then enc_loop E msg st ks
      else case enc_round E msg st k of
             Fault \<Rightarrow> Some Fault
           | Fail c \<Rightarrow> Some (Fail c)
           | Ret (Done r, st) \<Rightarrow> Some (Ret r)
           | Ret (Again, st) \<Rightarrow> enc_loop E msg st ks)"

definition sm2_encrypt :: "'p miracl \<Rightarrow> (nat \<Rightarrow> byte list) \<Rightarrow> bool \<Rightarrow> byte list \<Rightarrow> byte list \<Rightarrow> byte list \<Rightarrow> byte list
  \<Rightarrow> nat list \<Rightarrow> (int \<times> byte list) run" where
  "sm2_encrypt E u mem msg wx wy outmsg ks =
     (if \<not> mem then Some (Ret (-1, outmsg))
      else enc_loop E msg
             \<lparr>enc_g = sm2_g E, enc_w = epoint_new E (be_val wx) (be_val wy), enc_zl = u 0, enc_zr = u 1,
              enc_c1 = take 32 outmsg, enc_c2 = take 32 (drop 32 outmsg), enc_rest = drop 64 outmsg\<rparr> ks)"

definition sm2_decrypt :: "'p miracl \<Rightarrow> (nat \<Rightarrow> byte list) \<Rightarrow> bool \<Rightarrow> byte list \<Rightarrow> byte list \<Rightarrow> byte list
  \<Rightarrow> (int \<times> byte list) outcome" where
  "sm2_decrypt E u mem msg privkey outmsg =
     (if length msg < 96 then Ret (0, outmsg)
      else if \<not> mem then Ret (0, outmsg)
      else let msglen = length msg - 96
           in case epoint_set E (be_val (take 32 msg)) (be_val (take 32 (drop 32 msg))) of
                None \<Rightarrow> Ret (-1, outmsg)
              | Some g \<Rightarrow>
                  if point_at_infinity E g then Ret (-1, outmsg)
                  else let (x2, y2) = epoint_get E (ecurve_mult E (be_val privkey) g)
                       in obind (big_to_bytes x2 (u 0)) (\<lambda>zl. obind (big_to_bytes y2 (u 1)) (\<lambda>zr.
                            let (ok, key) = kdf zl zr msglen
                            in if \<not> ok then Ret (-1, key @ drop msglen outmsg)
                               else let out = map2 (XOR) key (drop 96 msg);
                                        c3 = sm3 (zl @ out @ zr)
                                    in Ret (if c3 \<noteq> take 32 (drop 64 msg) then -1 else int msglen,
                                            out @ drop msglen outmsg))))"

section \<open>Key agreement\<close>

text \<open>The lower half of a coordinate with its first bit set.\<close>

definition agree_half :: "byte list \<Rightarrow> nat" where
  "agree_half kx = (let buf = take 16 (drop 16 kx) in be_val ((hd buf OR 0x80) # tl buf))"

text \<open>A hash of the identity that fails leaves the buffer as it was.\<close>

definition agree_z :: "bool \<Rightarrow> byte list \<Rightarrow> byte list \<Rightarrow> byte list \<Rightarrow> byte list \<Rightarrow> byte list outcome" where
  "agree_z mem userid xa ya old = (case sm3_z mem userid xa ya of Fail c \<Rightarrow> Ret old | r \<Rightarrow> r)"

definition agree_tag :: "byte \<Rightarrow> byte list \<Rightarrow> byte list \<Rightarrow> byte list" where
  "agree_tag b yu hash = sm3 ([b] @ yu @ hash)"

text \<open>
  The common point of both parties: the key, the coordinate \<^verbatim>\<open>yu\<close> and the hash that goes into
  the confirmations, over the temporary points \<open>ra\<close> and \<open>rb\<close>. \<open>None\<close> is the return value 0.
\<close>

definition agree_finish :: "'p miracl \<Rightarrow> (nat \<Rightarrow> byte list) \<Rightarrow> bool \<Rightarrow> 'p \<Rightarrow> byte list \<Rightarrow> byte list \<Rightarrow> byte list \<Rightarrow> byte list
  \<Rightarrow> nat \<Rightarrow> byte list \<Rightarrow> (byte list \<times> byte list \<times> byte list \<times> byte list) option outcome" where
  "agree_finish E u mem g za zb ra rb keylen keybuf =
     (if point_at_infinity E g then Ret None
      else let (x, y) = epoint_get E g
           in obind (big_to_bytes x (u 6)) (\<lambda>xu. obind (big_to_bytes y (u 7)) (\<lambda>yu.
                Ret (Some (kdf_key mem (xu @ yu @ za @ zb) keylen keybuf, xu, yu, sm3 (xu @ za @ zb @ ra @ rb))))))"

definition agree_point :: "'p miracl \<Rightarrow> nat \<Rightarrow> byte list \<Rightarrow> 'p \<Rightarrow> 'p \<Rightarrow> 'p" where
  "agree_point E t kx g w = ecurve_mult E t (ecurve_add E w (ecurve_mult E (agree_half kx) g))"

text \<open>
  One side: its temporary point \<open>(kx1, ky1)\<close> with the private keys \<open>d\<close> and \<open>k\<close>, the temporary
  point \<open>(kx2, ky2)\<close> and the public key \<open>(x, y)\<close> of the other; \<open>first\<close> says that its
  temporary point comes first in the hash.
\<close>

definition agree_side :: "'p miracl \<Rightarrow> (nat \<Rightarrow> byte list) \<Rightarrow> bool \<Rightarrow> bool \<Rightarrow> byte list \<Rightarrow> byte list \<Rightarrow> nat \<Rightarrow> nat \<Rightarrow> nat \<Rightarrow> nat outcome
  \<Rightarrow> nat \<Rightarrow> nat \<Rightarrow> nat \<Rightarrow> nat \<Rightarrow> nat \<Rightarrow> byte list \<Rightarrow> (byte list \<times> byte list \<times> byte list \<times> byte list) option outcome" where
  "agree_side E u mem first za zb x1 y1 d k x2 y2 x y keylen keybuf =
     (case epoint_set E x1 y1 of
        None \<Rightarrow> Ret None
      | Some _ \<Rightarrow>
          obind (big_to_bytes x1 (u 2)) (\<lambda>kx1. obind (big_to_bytes y1 (u 3)) (\<lambda>ky1. obind k (\<lambda>k.
            let t = (agree_half kx1 * k + d) mod sm2_n
            in case epoint_set E x2 y2 of
                 None \<Rightarrow> Ret None
               | Some g \<Rightarrow>
                   obind (big_to_bytes x2 (u 4)) (\<lambda>kx2. obind (big_to_bytes y2 (u 5)) (\<lambda>ky2.
                     case epoint_set E x y of
                       None \<Rightarrow> Ret None
                     | Some w \<Rightarrow> agree_finish E u mem (agree_point E t kx2 g w) za zb
                         (if first then kx1 @ ky1 else kx2 @ ky2) (if first then kx2 @ ky2 else kx1 @ ky1) keylen keybuf))))))"

text \<open>
  The result: the return value, the key, and the confirmations where their pointers are not NULL
  (\<open>want\<close>). The list \<open>u\<close> of one call starts with \<^verbatim>\<open>za\<close> and \<^verbatim>\<open>zb\<close>.
\<close>

definition agree_result :: "byte list \<Rightarrow> bool \<times> bool \<Rightarrow> byte \<times> byte \<Rightarrow> (byte list \<times> byte list \<times> byte list \<times> byte list) option
  \<Rightarrow> int \<times> byte list \<times> byte list option \<times> byte list option" where
  "agree_result keybuf want tags r =
     (case r of None \<Rightarrow> (0, keybuf, None, None)
      | Some (key, xu, yu, hash) \<Rightarrow>
          (1, key, if fst want then Some (agree_tag (fst tags) yu hash) else None,
           if snd want then Some (agree_tag (snd tags) yu hash) else None))"

definition sm2_keyagreement_a where
  "sm2_keyagreement_a E u mem kxa kya xa ya private_a xb yb ida idb kxb kyb private_a_tmp keylen keybuf want =
     obind (agree_z (mem (0::nat)) ida xa ya (u 0)) (\<lambda>za. obind (agree_z (mem 1) idb xb yb (u 1)) (\<lambda>zb.
       obind (agree_side E u (mem 2) True za zb (be_val kxa) (be_val kya) (be_val private_a) (Ret (be_val private_a_tmp))
                (be_val kxb) (be_val kyb) (be_val xb) (be_val yb) keylen keybuf)
         (\<lambda>r. Ret (agree_result keybuf want (0x02, 0x03) r))))"

definition sm2_keyagreement_b where
  "sm2_keyagreement_b E u mem kxb kyb xb yb private_b xa ya idb ida kxa kya private_b_tmp keylen keybuf want =
     obind (agree_z (mem (0::nat)) ida xa ya (u 0)) (\<lambda>za. obind (agree_z (mem 1) idb xb yb (u 1)) (\<lambda>zb.
       obind (agree_side E u (mem 2) False za zb (be_val kxb) (be_val kyb) (be_val private_b) (Ret (be_val private_b_tmp))
                (be_val kxa) (be_val kya) (be_val xa) (be_val ya) keylen keybuf)
         (\<lambda>r. Ret (agree_result keybuf want (0x03, 0x02) r))))"

text \<open>\<^verbatim>\<open>do bigrand(n, k); while (k->len == 0);\<close>\<close>

fun draw :: "nat list \<Rightarrow> nat option" where
  "draw [] = None"
| "draw (k # ks) = (if k = 0 then draw ks else Some k)"

text \<open>The first message of A: its temporary point, and the private key of it encrypted.\<close>

definition sm2_keyagreement_a1_3 :: "'p miracl \<Rightarrow> byte list \<Rightarrow> byte list \<Rightarrow> byte list \<Rightarrow> nat list
  \<Rightarrow> (byte list \<times> byte list \<times> byte list) run" where
  "sm2_keyagreement_a1_3 E kx1 ky1 ra ks =
     map_option
       (\<lambda>k. let (x1, y1) = epoint_get E (ecurve_mult E k (sm2_g E))
            in obind (big_to_bytes x1 kx1) (\<lambda>kx1. obind (big_to_bytes y1 ky1) (\<lambda>ky1. obind (big_to_bytes k ra) (\<lambda>ra.
                 obind (enrand E ra 32) (\<lambda>ra. Ret (kx1, ky1, ra))))))
       (draw ks)"

text \<open>The end of A, which decrypts the private key in a buffer of 256 bytes.\<close>

definition agree_saved_key :: "'p miracl \<Rightarrow> byte list \<Rightarrow> byte list \<Rightarrow> nat outcome" where
  "agree_saved_key E buf ra =
     (if length ra > length buf then Fault
      else obind (derand E (ra @ drop (length ra) buf) (length ra)) (\<lambda>buf. Ret (be_val (take (length ra) buf))))"

definition sm2_keyagreement_a4_10 where
  "sm2_keyagreement_a4_10 E u mem kx1 ky1 pax pay private_a pbx pby ida idb kx2 ky2 ra kalen kabuf want =
     obind (agree_z (mem (0::nat)) ida pax pay (u 0)) (\<lambda>za. obind (agree_z (mem 1) idb pbx pby (u 1)) (\<lambda>zb.
       obind (agree_side E u (mem 2) True za zb (be_val kx1) (be_val ky1) (be_val private_a) (agree_saved_key E (u 8) ra)
                (be_val kx2) (be_val ky2) (be_val pbx) (be_val pby) kalen kabuf)
         (\<lambda>r. Ret (agree_result kabuf want (0x02, 0x03) r))))"

text \<open>
  B in one call: its temporary point, the key, the confirmation, and the common coordinates
  encrypted for later. The last three are optional.
\<close>

definition b1_9_finish :: "'p miracl \<Rightarrow> byte list \<Rightarrow> bool \<times> bool \<times> bool \<Rightarrow> byte list \<times> byte list
  \<Rightarrow> (byte list \<times> byte list \<times> byte list \<times> byte list) option
  \<Rightarrow> (int \<times> byte list \<times> (byte list \<times> byte list) \<times> byte list option \<times> byte list option \<times> byte list option) outcome" where
  "b1_9_finish E kbbuf want k2 r =
     (case r of None \<Rightarrow> Ret (0, kbbuf, k2, None, None, None)
      | Some (key, xv, yv, hash) \<Rightarrow>
          obind (if fst (snd want) then obind (enrand E xv 32) (\<lambda>x. Ret (Some x)) else Ret None) (\<lambda>x.
          obind (if snd (snd want) then obind (enrand E yv 32) (\<lambda>y. Ret (Some y)) else Ret None) (\<lambda>y.
          Ret (1, key, k2, if fst want then Some (agree_tag 0x02 yv hash) else None, x, y))))"

definition sm2_keyagreement_b1_9 where
  "sm2_keyagreement_b1_9 E u mem kx1 ky1 pax pay private_b pbx pby ida idb kblen kbbuf want ks =
     run_bind (Some (agree_z (mem (0::nat)) ida pax pay (u 0))) (\<lambda>za.
     run_bind (Some (agree_z (mem 1) idb pbx pby (u 1))) (\<lambda>zb.
     case draw ks of
       None \<Rightarrow> None
     | Some k \<Rightarrow>
         (let (x2, y2) = epoint_get E (ecurve_mult E k (sm2_g E))
          in Some (obind (big_to_bytes x2 (u 4)) (\<lambda>kx2. obind (big_to_bytes y2 (u 5)) (\<lambda>ky2.
               let t = (agree_half kx2 * k + be_val private_b) mod sm2_n
               in case epoint_set E (be_val kx1) (be_val ky1) of
                    None \<Rightarrow> b1_9_finish E kbbuf want (kx2, ky2) None
                  | Some g \<Rightarrow>
                      obind (big_to_bytes (be_val kx1) (u 2)) (\<lambda>bx1. obind (big_to_bytes (be_val ky1) (u 3)) (\<lambda>by1.
                      obind (big_to_bytes (be_val pax) (u 9)) (\<lambda>_. obind (big_to_bytes (be_val pay) (u 10)) (\<lambda>_.
                        case epoint_set E (be_val pax) (be_val pay) of
                          None \<Rightarrow> b1_9_finish E kbbuf want (kx2, ky2) None
                        | Some w \<Rightarrow>
                            obind (agree_finish E u (mem 2) (agree_point E t bx1 g w) za zb (bx1 @ by1) (kx2 @ ky2) kblen kbbuf)
                              (b1_9_finish E kbbuf want (kx2, ky2))))))))))))"

end
