(* ===== verification/Sm2_Curve.thy ===== *)
theory Sm2_Curve
  imports Sm2
begin

text \<open>
  What the routines of \<open>Sm2\<close> rely on: the laws of the library's curve, stated as its documentation
  does, numbers and their bytes, and a small group with these laws.
\<close>

section \<open>The laws of the curve\<close>

text \<open>
  The documented behaviour of the library on the multiples of the base point \<open>sm2_g E\<close>, which
  has the order \<open>sm2_n\<close>.
\<close>

definition curve_laws :: "'p miracl \<Rightarrow> bool" where
  "curve_laws E \<longleftrightarrow>
     ecurve_mult E 1 (sm2_g E) = sm2_g E
     \<and> epoint_get E (epoint_init E) = (0, 0)
     \<and> (\<forall>k j. ecurve_mult E k (ecurve_mult E j (sm2_g E)) = ecurve_mult E (k * j) (sm2_g E))
     \<and> (\<forall>k j. ecurve_add E (ecurve_mult E k (sm2_g E)) (ecurve_mult E j (sm2_g E)) = ecurve_mult E (k + j) (sm2_g E))
     \<and> (\<forall>k. ecurve_mult E (k mod sm2_n) (sm2_g E) = ecurve_mult E k (sm2_g E))
     \<and> (\<forall>k. ecurve_mult E k (sm2_g E) = epoint_init E \<longleftrightarrow> sm2_n dvd k)
     \<and> (\<forall>k x y. \<not> sm2_n dvd k \<longrightarrow> epoint_get E (ecurve_mult E k (sm2_g E)) = (x, y) \<longrightarrow>
          x < 2 ^ 256 \<and> 0 < y \<and> y < 2 ^ 256 \<and> epoint_set E x y = Some (ecurve_mult E k (sm2_g E)))
     \<and> (\<forall>b. coprime b sm2_n \<longrightarrow> (b * xgcd E b sm2_n) mod sm2_n = 1)"

lemma curve_lawsD:
  assumes "curve_laws E"
  shows "ecurve_mult E (Suc 0) (sm2_g E) = sm2_g E" "epoint_get E (epoint_init E) = (0, 0)"
    "ecurve_mult E k (ecurve_mult E j (sm2_g E)) = ecurve_mult E (k * j) (sm2_g E)"
    "ecurve_add E (ecurve_mult E k (sm2_g E)) (ecurve_mult E j (sm2_g E)) = ecurve_mult E (k + j) (sm2_g E)"
    "ecurve_mult E k (sm2_g E) = epoint_init E \<longleftrightarrow> sm2_n dvd k"
  using assms by (simp_all add: curve_laws_def)

lemma curve_mod: "curve_laws E \<Longrightarrow> k mod sm2_n = j mod sm2_n \<Longrightarrow> ecurve_mult E k (sm2_g E) = ecurve_mult E j (sm2_g E)"
  by (metis curve_laws_def)

lemma curve_point:
  assumes "curve_laws E" "\<not> sm2_n dvd k" "epoint_get E (ecurve_mult E k (sm2_g E)) = (x, y)"
  shows "x < 2 ^ 256" "0 < y" "y < 2 ^ 256" "epoint_set E x y = Some (ecurve_mult E k (sm2_g E))"
  using assms by (simp_all add: curve_laws_def)

lemma curve_inverse: "curve_laws E \<Longrightarrow> coprime b sm2_n \<Longrightarrow> (b * xgcd E b sm2_n) mod sm2_n = 1"
  by (simp add: curve_laws_def)

lemma sm2_n_bounds: "1 < sm2_n" "sm2_n < 2 ^ 256"
  by (simp_all add: sm2_n_def)

section \<open>Bytes of numbers\<close>

lemma length_be_bytes [simp]: "length (be_bytes k x) = k"
  by (simp add: be_bytes_def)

lemma be_bytes_Suc: "be_bytes (Suc k) x = of_nat (x div 256 ^ k) # be_bytes k x"
  by (simp add: be_bytes_def)

lemma drop_be_bytes: "drop j (be_bytes (j + k) x) = be_bytes k x"
  by (induction j) (simp_all add: be_bytes_Suc)

lemma be_val_be_bytes: "be_val (be_bytes k x) = x mod 256 ^ k"
proof (induction k)
  case (Suc k)
  have "be_val (be_bytes (Suc k) x) = (x div 256 ^ k mod 256) * 256 ^ k + x mod 256 ^ k"
    using Suc by (simp add: be_bytes_Suc be_val_Cons unat_of_nat)
  also have "\<dots> = x mod 256 ^ Suc k"
    by (simp add: mod_mult2_eq mult.commute [of 256] mult.commute [of _ "256 ^ k"])
  finally show ?case .
qed (simp add: be_bytes_def)

lemma be_val_32: "x < 2 ^ 256 \<Longrightarrow> be_val (be_bytes 32 x) = x"
  by (simp add: be_val_be_bytes)

lemma length_sm3 [simp]: "length (sm3 m) = 32"
proof -
  have "length (sm3_cf h b) = 8" for h b by (simp add: sm3_cf_def Let_def split: prod.split)
  then have "length (sm3_last_blocks h r a b) = 8" for h r a b by (simp add: sm3_last_blocks_def Let_def)
  then show ?thesis by (simp add: sm3_def sm3_output_def Let_def length_concat put_be32_def comp_def sum_list_triv)
qed

lemma length_kdf_stream [simp]: "length (kdf_stream z n) = n"
  by (simp add: kdf_stream_def Let_def length_concat comp_def sum_list_triv mod_eq_0_iff_dvd)

text \<open>A multiple of the base point whose coordinates \<^verbatim>\<open>big_to_bytes\<close> writes.\<close>

definition plain_point :: "'p miracl \<Rightarrow> nat \<Rightarrow> bool" where
  "plain_point E c \<longleftrightarrow> fst (epoint_get E (ecurve_mult E c (sm2_g E))) \<noteq> 0"

lemma plain_point_bytes:
  assumes E: "curve_laws E" and c: "plain_point E c" and xy: "epoint_get E (ecurve_mult E c (sm2_g E)) = (x, y)"
  shows "\<not> sm2_n dvd c" "big_to_bytes x old = Ret (be_bytes 32 x)" "big_to_bytes y old = Ret (be_bytes 32 y)"
    "be_val (be_bytes 32 x) = x" "be_val (be_bytes 32 y) = y" "epoint_set E x y = Some (ecurve_mult E c (sm2_g E))"
proof -
  show n: "\<not> sm2_n dvd c"
  proof
    assume "sm2_n dvd c"
    then have "ecurve_mult E c (sm2_g E) = epoint_init E" by (simp add: curve_lawsD [OF E])
    then show False using c curve_lawsD(2) [OF E] by (simp add: plain_point_def)
  qed
  have "x \<noteq> 0" using c xy by (simp add: plain_point_def)
  then show "big_to_bytes x old = Ret (be_bytes 32 x)" "big_to_bytes y old = Ret (be_bytes 32 y)"
    "be_val (be_bytes 32 x) = x" "be_val (be_bytes 32 y) = y" "epoint_set E x y = Some (ecurve_mult E c (sm2_g E))"
    using curve_point [OF E n xy] by (simp_all add: big_to_bytes_def be_val_32)
qed

section \<open>The parameters\<close>

lemma sm2_base_on_curve: "on_curve sm2_gx sm2_gy"
proof -
  define k1 k2 k3 :: nat where k: "k1 = 0xa116b2470470281688338f6f173f494a067af0c727b6d2c22237beea95cad0f" "k2 = 0x309070389c5ae90c196d993aeb69d8fdd9cc54e7b063058d98db1ffd2054582e"
    "k3 = 0x8a61242867d98cd05da2fd4714105ca1e29e7dc53f0635c8e1e672b6ef685de5"
  define r :: nat where "r = 0xf4e2cca0bcfd67fba8531eebff519e4cb3d47f9fe8c5eff5151f4c497ec99fbc"
  define q :: nat where "q = 0xfbf2eddd128cdef06491287e877da3674fbb9591ce6200a6b09d6e1d38d4c1e5"
  have 1: "sm2_gx * sm2_gx + sm2_a = k1 * sm2_p + r"
    by (simp add: sm2_gx_def sm2_a_def sm2_p_def r_def k)
  have 2: "r * sm2_gx + sm2_b = k2 * sm2_p + q"
    by (simp add: sm2_gx_def sm2_b_def sm2_p_def r_def q_def k)
  have 3: "sm2_gy * sm2_gy = k3 * sm2_p + q"
    by (simp add: sm2_gy_def sm2_p_def q_def k)
  have "sm2_gx ^ 3 + sm2_a * sm2_gx + sm2_b = (sm2_gx * sm2_gx + sm2_a) * sm2_gx + sm2_b"
    by (simp add: algebra_simps power3_eq_cube)
  also have "\<dots> = (k1 * sm2_gx) * sm2_p + (r * sm2_gx + sm2_b)" unfolding 1 by (simp add: algebra_simps)
  also have "\<dots> = (k1 * sm2_gx + k2) * sm2_p + q" unfolding 2 by (simp add: algebra_simps)
  finally show ?thesis using 3 by (simp add: on_curve_def power2_eq_square)
qed

text \<open>
  The parameters that the file holds as words, as texts and as bytes are the same numbers, and
  the base point lies on the curve.
\<close>

theorem sm2_parameters_agree:
  "sm2_par_dig = be_bytes 32 (mpi_abs g_a) @ be_bytes 32 (mpi_abs g_b) @ be_bytes 32 sm2_gx @ be_bytes 32 sm2_gy
   \<and> mpi_abs g_p = 2 ^ 256 - 2 ^ 224 - 2 ^ 96 + 2 ^ 64 - 1 \<and> mpi_abs g_a = mpi_abs g_p - 3
   \<and> mpi_abs g_n = sm2_n \<and> sm2_n < mpi_abs g_p
   \<and> sm2_gy ^ 2 mod mpi_abs g_p = (sm2_gx ^ 3 + mpi_abs g_a * sm2_gx + mpi_abs g_b) mod mpi_abs g_p"
proof -
  have split: "be_val (be_bytes 32 sm2_a @ be_bytes 32 sm2_b @ be_bytes 32 sm2_gx @ be_bytes 32 sm2_gy)
    = ((sm2_a * 2 ^ 256 + sm2_b) * 2 ^ 256 + sm2_gx) * 2 ^ 256 + sm2_gy"
  proof -
    have less: "sm2_a < 2 ^ 256" "sm2_b < 2 ^ 256" "sm2_gx < 2 ^ 256" "sm2_gy < 2 ^ 256"
      by (simp_all add: sm2_a_def sm2_b_def sm2_gx_def sm2_gy_def)
    have "(256 :: nat) ^ 32 = 2 ^ 256" by simp
    then show ?thesis
      unfolding append_assoc [symmetric] be_val_append length_be_bytes be_val_32 [OF less(1)] be_val_32 [OF less(2)]
        be_val_32 [OF less(3)] be_val_32 [OF less(4)] by (simp only:)
  qed
  have "be_val sm2_par_dig = ((sm2_a * 2 ^ 256 + sm2_b) * 2 ^ 256 + sm2_gx) * 2 ^ 256 + sm2_gy"
    by (simp add: sm2_par_dig_def be_val_def sm2_a_def sm2_b_def sm2_gx_def sm2_gy_def)
  then have "sm2_par_dig = be_bytes 32 sm2_a @ be_bytes 32 sm2_b @ be_bytes 32 sm2_gx @ be_bytes 32 sm2_gy"
    unfolding split [symmetric] by (rule be_val_inject [rotated]) (simp add: sm2_par_dig_def)
  moreover have "sm2_p = 2 ^ 256 - 2 ^ 224 - 2 ^ 96 + 2 ^ 64 - 1" "sm2_a = sm2_p - 3" "sm2_n < sm2_p"
    by (simp_all add: sm2_p_def sm2_a_def sm2_n_def)
  moreover have "sm2_gy ^ 2 mod sm2_p = (sm2_gx ^ 3 + sm2_a * sm2_gx + sm2_b) mod sm2_p"
    using sm2_base_on_curve by (simp only: on_curve_def)
  ultimately show ?thesis by (simp only: curve_numbers)
qed

section \<open>A group with these laws\<close>

text \<open>
  The residues modulo \<open>sm2_n\<close> with made-up coordinates, to show that the hypotheses of the
  properties can hold.
\<close>

definition toy_curve :: "nat miracl" where
  "toy_curve =
     \<lparr>epoint_set = (\<lambda>x y. let k = (x + sm2_n + 1 - sm2_gx) mod sm2_n
                        in if y = sm2_gy \<and> x < sm2_n \<and> k \<noteq> 0 then Some k else None),
      epoint_get = (\<lambda>k. if k = 0 then (0, 0) else ((k + sm2_gx - 1) mod sm2_n, sm2_gy)),
      ecurve_mult = (\<lambda>k p. (k * p) mod sm2_n),
      ecurve_add = (\<lambda>p q. (p + q) mod sm2_n),
      epoint_init = 0,
      xgcd = (\<lambda>b m. nat (fst (bezw b m) mod int m)),
      aes_encrypt = (\<lambda>key b. map (\<lambda>x. x + 1) b),
      aes_decrypt = (\<lambda>key b. map (\<lambda>x. x - 1) b)\<rparr>"

lemma sm2_base: "0 < sm2_gx" "sm2_gx < sm2_n" "0 < sm2_gy" "sm2_gy < 2 ^ 256"
  by (simp_all add: sm2_gx_def sm2_gy_def sm2_n_def)

lemma toy_base: "sm2_g toy_curve = 1"
proof -
  have "(sm2_gx + sm2_n + 1 - sm2_gx) mod sm2_n = 1" using sm2_n_bounds by (simp add: mod_Suc)
  then show ?thesis using sm2_base by (simp add: sm2_g_def epoint_new_def toy_curve_def Let_def)
qed

lemma toy_simps:
  "ecurve_mult toy_curve k p = (k * p) mod sm2_n" "ecurve_add toy_curve p q = (p + q) mod sm2_n"
  "epoint_init toy_curve = 0" "epoint_get toy_curve p = (if p = 0 then (0, 0) else ((p + sm2_gx - 1) mod sm2_n, sm2_gy))"
  by (simp_all add: toy_curve_def)

lemma toy_xgcd: "coprime b sm2_n \<Longrightarrow> (b * xgcd toy_curve b sm2_n) mod sm2_n = 1"
proof -
  assume "coprime b sm2_n"
  define f g where "f = fst (bezw b sm2_n)" and "g = snd (bezw b sm2_n)"
  have n: "0 < sm2_n" "1 < sm2_n" using sm2_n_bounds by simp_all
  have "f * int b + g * int sm2_n = 1"
    using bezw_aux [of b sm2_n] \<open>coprime b sm2_n\<close> by (simp add: f_def g_def)
  then have "f * int b = 1 - g * int sm2_n" by simp
  then have "int b * f mod int sm2_n = (1 - g * int sm2_n) mod int sm2_n" by (simp add: mult.commute)
  also have "\<dots> = 1" using n by (simp add: mod_diff_right_eq [symmetric])
  finally have "int b * (f mod int sm2_n) mod int sm2_n = 1" by (simp add: mod_mult_right_eq)
  then have "int ((b * nat (f mod int sm2_n)) mod sm2_n) = 1"
    using n by (simp add: zmod_int)
  then show ?thesis by (simp add: toy_curve_def f_def)
qed

lemma toy_curve_laws: "curve_laws toy_curve"
proof -
  have point: "x < 2 ^ 256 \<and> 0 < y \<and> y < 2 ^ 256 \<and> epoint_set toy_curve x y = Some (k mod sm2_n)"
    if "\<not> sm2_n dvd k" "epoint_get toy_curve (k mod sm2_n) = (x, y)" for k x y
  proof -
    define m where "m = k mod sm2_n"
    have m: "0 < m" "m < sm2_n" using that(1) sm2_n_bounds by (simp_all add: m_def dvd_eq_mod_eq_0)
    have xy: "x = (m + sm2_gx - 1) mod sm2_n" "y = sm2_gy" using that(2) m by (simp_all add: toy_curve_def m_def)
    have x: "x < sm2_n" using m by (simp add: xy)
    have "(x + sm2_n + 1 - sm2_gx) mod sm2_n = m"
    proof (cases "m + sm2_gx - 1 < sm2_n")
      case True
      then have "x + sm2_n + 1 - sm2_gx = m + sm2_n" using xy(1) sm2_base m by simp
      then show ?thesis using m by simp
    next
      case False
      then have "x = m + sm2_gx - 1 - sm2_n" using xy(1) sm2_base m by (simp add: le_mod_geq)
      then have "x + sm2_n + 1 - sm2_gx = m" using False sm2_base by simp
      then show ?thesis using m by simp
    qed
    then have "epoint_set toy_curve x y = Some m"
      using x xy(2) m by (simp add: toy_curve_def Let_def)
    then show ?thesis using less_trans [OF x sm2_n_bounds(2)] xy(2) sm2_base by (simp add: m_def)
  qed
  have "1 * 1 mod sm2_n = 1" using sm2_n_bounds by simp
  moreover have "epoint_get toy_curve 0 = (0, 0)" by (simp add: toy_simps)
  moreover have "k * (j * 1 mod sm2_n) mod sm2_n = k * j * 1 mod sm2_n" for k j by (simp add: mod_mult_right_eq)
  moreover have "(k * 1 mod sm2_n + j * 1 mod sm2_n) mod sm2_n = (k + j) * 1 mod sm2_n" for k j by (simp add: mod_add_eq)
  moreover have "k mod sm2_n * 1 mod sm2_n = k * 1 mod sm2_n" for k by simp
  moreover have "k * 1 mod sm2_n = 0 \<longleftrightarrow> sm2_n dvd k" for k by (simp add: dvd_eq_mod_eq_0)
  moreover have "x < 2 ^ 256 \<and> 0 < y \<and> y < 2 ^ 256 \<and> epoint_set toy_curve x y = Some (k * 1 mod sm2_n)"
    if "\<not> sm2_n dvd k" "epoint_get toy_curve (k * 1 mod sm2_n) = (x, y)" for k x y
    using point [of k x y] that by simp
  ultimately show ?thesis unfolding curve_laws_def toy_base toy_simps(1-3) using toy_xgcd by blast
qed

lemma toy_public:
  "0 < d \<Longrightarrow> d < sm2_n \<Longrightarrow> epoint_get toy_curve (ecurve_mult toy_curve d (sm2_g toy_curve)) = ((d + sm2_gx - 1) mod sm2_n, sm2_gy)"
  unfolding toy_base by (simp add: toy_curve_def)

lemma toy_points:
  "plain_point toy_curve 3" "plain_point toy_curve 6" "\<not> sm2_n dvd 2"
  "epoint_get toy_curve (ecurve_mult toy_curve 2 (sm2_g toy_curve)) = (sm2_gx + 1, sm2_gy)"
  "be_val (be_bytes 32 2) = 2" "be_val (be_bytes 32 (sm2_gx + 1)) = sm2_gx + 1" "be_val (be_bytes 32 sm2_gy) = sm2_gy"
proof -
  show "plain_point toy_curve 3" "plain_point toy_curve 6" "\<not> sm2_n dvd 2"
    "epoint_get toy_curve (ecurve_mult toy_curve 2 (sm2_g toy_curve)) = (sm2_gx + 1, sm2_gy)"
    by (simp_all add: plain_point_def toy_base toy_simps sm2_gx_def sm2_n_def)
  have "sm2_gx + 1 < 2 ^ 256" using sm2_base sm2_n_bounds by linarith
  then show "be_val (be_bytes 32 (sm2_gx + 1)) = sm2_gx + 1" by (rule be_val_32)
  show "be_val (be_bytes 32 2) = 2" "be_val (be_bytes 32 sm2_gy) = sm2_gy"
    using sm2_base(4) by (simp_all add: be_val_32)
qed

end
