(* ===== verification/Sm2_Sign.thy ===== *)
theory Sm2_Sign
  imports Sm2_Curve
begin

text \<open>
  A signature of \<^verbatim>\<open>sm2_sign\<close> verifies when its first round gives one, and does not when a
  round has to be repeated, because the base point is overwritten.
\<close>

section \<open>Signatures\<close>

lemma sign_congruence:
  fixes n :: nat
  assumes inv: "((d + 1) * b) mod n = 1" and a: "(a + (r * d) mod n) mod n = k mod n" and s: "s = (a * b) mod n"
  shows "(s + (s + r) mod n * d) mod n = k mod n"
proof -
  have "(s + (s + r) mod n * d) mod n = (s * (d + 1) + r * d) mod n"
    by (metis (no_types) add.assoc add_mult_distrib add_mult_distrib2 mod_add_right_eq mod_mult_left_eq mult.commute mult.right_neutral add.commute)
  also have "(s * (d + 1)) mod n = (a * ((d + 1) * b mod n)) mod n"
    unfolding s by (metis mod_mult_left_eq mod_mult_right_eq mult.assoc mult.commute)
  then have "(s * (d + 1)) mod n = a mod n" using inv by simp
  then have "(s * (d + 1) + r * d) mod n = (a + (r * d) mod n) mod n" by (metis mod_add_eq mod_mod_trivial)
  finally show ?thesis using a by simp
qed

text \<open>A round over the point \<open>c G\<close> that the rounds before have left.\<close>

lemma round_verifies_iff:
  assumes E: "curve_laws E" and d: "coprime (d + 1) sm2_n" "\<not> sm2_n dvd d"
    and k: "0 < k" "k < sm2_n" and round: "sign_round E (be_val hash) d (ecurve_mult E c (sm2_g E)) k = Done (r, s)"
    and pub: "epoint_get E (ecurve_mult E d (sm2_g E)) = (be_val wx, be_val wy)"
  shows "sm2_verify E hash (be_bytes 32 r) (be_bytes 32 s) wx wy
    = (if (fst (epoint_get E (ecurve_mult E k (sm2_g E))) + be_val hash) mod sm2_n
        = (fst (epoint_get E (ecurve_mult E (k * c) (sm2_g E))) + be_val hash) mod sm2_n then 1 else 0)"
proof -
  define b where "b = xgcd E (d + 1) sm2_n"
  define a0 where "a0 = (r * d) mod sm2_n"
  define a where "a = (if k \<ge> a0 then k - a0 else sm2_n - a0 + k)"
  have n: "0 < sm2_n" using sm2_n_bounds by simp
  have r: "r = (be_val hash + fst (epoint_get E (ecurve_mult E (k * c) (sm2_g E)))) mod sm2_n" "r \<noteq> 0" "r + k \<noteq> sm2_n"
    "s = (a * b) mod sm2_n" "s \<noteq> 0"
    using round by (auto simp: sign_round_def Let_def curve_lawsD [OF E] a_def a0_def b_def split: if_splits)
  then have lt: "r < sm2_n" "s < sm2_n" using n by simp_all
  have "a0 < sm2_n" using n by (simp add: a0_def)
  then have "(a + a0) mod sm2_n = k mod sm2_n" by (simp add: a_def)
  then have k_eq: "(s + (s + r) mod sm2_n * d) mod sm2_n = k mod sm2_n"
    using curve_inverse [OF E d(1)] r(4) by (intro sign_congruence [of d b]) (simp_all add: b_def a0_def)
  have t: "(s + r) mod sm2_n \<noteq> 0"
  proof
    assume 0: "(s + r) mod sm2_n = 0"
    then have "s = k" using k_eq lt k by simp
    then show False using 0 r(2,3) lt k by (auto simp: mod_if split: if_splits)
  qed
  have w: "epoint_set E (be_val wx) (be_val wy) = Some (ecurve_mult E d (sm2_g E))"
    using curve_point [OF E d(2) pub] by simp
  have "ecurve_mult2 E s (sm2_g E) ((s + r) mod sm2_n) (ecurve_mult E d (sm2_g E))
      = ecurve_mult E (s + (s + r) mod sm2_n * d) (sm2_g E)"
    by (simp add: ecurve_mult2_def curve_lawsD [OF E])
  also have "\<dots> = ecurve_mult E k (sm2_g E)" using k_eq by (rule curve_mod [OF E])
  finally have point: "ecurve_mult2 E s (sm2_g E) ((s + r) mod sm2_n) (ecurve_mult E d (sm2_g E)) = ecurve_mult E k (sm2_g E)" .
  have bytes: "be_val (be_bytes 32 r) = r" "be_val (be_bytes 32 s) = s"
    using lt sm2_n_bounds by (simp_all add: be_val_32)
  have "(fst (epoint_get E (ecurve_mult E (k * c) (sm2_g E))) + be_val hash) mod sm2_n = r"
    using r(1) by (simp add: add.commute)
  then show ?thesis
    using lt r(2,5) t unfolding sm2_verify_def w bytes by (simp add: Let_def point)
qed

text \<open>When a round has to be repeated.\<close>

lemma sign_round_again_iff:
  assumes E: "curve_laws E" and d: "coprime (d + 1) sm2_n" and k: "k < sm2_n"
  shows "sign_round E e d g k = Again \<longleftrightarrow>
    (let r = (e + fst (epoint_get E (ecurve_mult E k g))) mod sm2_n in r = 0 \<or> r + k = sm2_n \<or> (r * d) mod sm2_n = k)"
proof -
  define r where "r = (e + fst (epoint_get E (ecurve_mult E k g))) mod sm2_n"
  define a0 where "a0 = (r * d) mod sm2_n"
  define a where "a = (if k \<ge> a0 then k - a0 else sm2_n - a0 + k)"
  define b where "b = xgcd E (d + 1) sm2_n"
  have a0: "a0 < sm2_n" using sm2_n_bounds by (simp add: a0_def)
  have a: "a < sm2_n" "a = 0 \<longleftrightarrow> a0 = k" using a0 k by (auto simp: a_def)
  have "(a * b) mod sm2_n = 0 \<longleftrightarrow> a = 0"
  proof
    assume "(a * b) mod sm2_n = 0"
    moreover have "coprime b sm2_n"
      using curve_inverse [OF E d] sm2_n_bounds unfolding b_def
      by (metis coprime_mod_left_iff coprime_mult_left_iff coprime_1_left not_less0)
    ultimately have "sm2_n dvd a" by (simp add: dvd_eq_mod_eq_0 [symmetric] coprime_commute coprime_dvd_mult_left_iff)
    then show "a = 0" using a(1) by (auto dest: nat_dvd_not_less)
  qed simp
  moreover have "sign_round E e d g k
    = (if r = 0 then Again else if r + k = sm2_n then Again
       else if (a * b) mod sm2_n = 0 then Again else Done (r, (a * b) mod sm2_n))"
    unfolding sign_round_def Let_def a_def a0_def r_def b_def by (rule refl)
  ultimately have "sign_round E e d g k = Again \<longleftrightarrow> r = 0 \<or> r + k = sm2_n \<or> a0 = k"
    using a(2) by auto
  then show ?thesis by (simp add: r_def a0_def Let_def)
qed

section \<open>Properties of signatures\<close>

text \<open>
  C16: a signature that the first random number gives verifies under the public key of the signer.
\<close>

theorem sm2_signature_verifies:
  assumes "curve_laws E" "coprime (be_val key + 1) sm2_n" "\<not> sm2_n dvd be_val key" "0 < k" "k < sm2_n"
    and "sign_round E (be_val hash) (be_val key) (sm2_g E) k \<noteq> Again"
    and "epoint_get E (ecurve_mult E (be_val key) (sm2_g E)) = (be_val wx, be_val wy)"
  shows "\<exists>cr cs. sm2_sign E hash key (k # ks) = Some (cr, cs) \<and> length cr = 32 \<and> length cs = 32
    \<and> sm2_verify E hash cr cs wx wy = 1"
proof -
  obtain r s where rs: "sign_round E (be_val hash) (be_val key) (sm2_g E) k = Done (r, s)"
    using assms(6) by (cases "sign_round E (be_val hash) (be_val key) (sm2_g E) k") auto
  have g: "ecurve_mult E (Suc 0) (sm2_g E) = sm2_g E" by (rule curve_lawsD [OF assms(1)])
  have "sm2_verify E hash (be_bytes 32 r) (be_bytes 32 s) wx wy = 1"
    using round_verifies_iff [OF assms(1-5) _ assms(7), of hash "Suc 0" r s] rs g by simp
  then show ?thesis using rs assms(4) by (simp add: sm2_sign_def)
qed

theorem sm2_signature_verifies_witness:
  "\<exists>cr cs. sm2_sign toy_curve [5] (be_bytes 32 1) [3] = Some (cr, cs)
     \<and> sm2_verify toy_curve [5] cr cs (be_bytes 32 sm2_gx) (be_bytes 32 sm2_gy) = 1"
proof -
  have v: "be_val (be_bytes 32 1) = 1" "be_val (be_bytes 32 sm2_gx) = sm2_gx" "be_val (be_bytes 32 sm2_gy) = sm2_gy"
    using sm2_base sm2_n_bounds by (simp_all add: be_val_32)
  have "coprime 2 sm2_n" by (simp add: sm2_n_def)
  then have co: "coprime (1 + 1) sm2_n" by (simp add: one_add_one del: One_nat_def)
  have "\<not> sm2_n dvd 1" "3 < sm2_n" by (simp_all add: sm2_n_def)
  moreover have "sign_round toy_curve (be_val [5]) 1 (sm2_g toy_curve) 3 \<noteq> Again"
    using sign_round_again_iff [OF toy_curve_laws co, of 3] 
    by (simp add: toy_base toy_simps be_val_Cons sm2_gx_def sm2_n_def)
  ultimately show ?thesis
    using sm2_signature_verifies [OF toy_curve_laws, of "be_bytes 32 1" 3 "[5]" "be_bytes 32 sm2_gx" "be_bytes 32 sm2_gy" "[]"]
      toy_public [of 1] sm2_base sm2_n_bounds
      co
    unfolding v by auto
qed

text \<open>
  C35: when the first random number does not give a signature, the point \<^verbatim>\<open>g\<close> stays multiplied
  by it: the signature of the second round verifies only if two different points happen to have the
  same abscissa modulo the order.
\<close>

theorem sm2_retry_signature:
  assumes "curve_laws E" "coprime (be_val key + 1) sm2_n" "\<not> sm2_n dvd be_val key"
    and "0 < k1" "0 < k2" "k2 < sm2_n"
    and "sign_round E (be_val hash) (be_val key) (sm2_g E) k1 = Again"
    and "sign_round E (be_val hash) (be_val key) (ecurve_mult E k1 (sm2_g E)) k2 \<noteq> Again"
    and "epoint_get E (ecurve_mult E (be_val key) (sm2_g E)) = (be_val wx, be_val wy)"
  shows "\<exists>cr cs. sm2_sign E hash key (k1 # k2 # ks) = Some (cr, cs)
    \<and> sm2_verify E hash cr cs wx wy
      = (if (fst (epoint_get E (ecurve_mult E k2 (sm2_g E))) + be_val hash) mod sm2_n
          = (fst (epoint_get E (ecurve_mult E (k2 * k1) (sm2_g E))) + be_val hash) mod sm2_n then 1 else 0)"
proof -
  obtain r s where rs: "sign_round E (be_val hash) (be_val key) (ecurve_mult E k1 (sm2_g E)) k2 = Done (r, s)"
    using assms(8) by (cases "sign_round E (be_val hash) (be_val key) (ecurve_mult E k1 (sm2_g E)) k2") auto
  have "sm2_sign E hash key (k1 # k2 # ks) = Some (be_bytes 32 r, be_bytes 32 s)"
    using assms(4,5,7) rs by (simp add: sm2_sign_def)
  then show ?thesis using round_verifies_iff [OF assms(1-3) assms(5,6) rs assms(9)] by blast
qed

theorem sm2_retry_signature_witness:
  "\<exists>cr cs. sm2_sign toy_curve (be_bytes 32 (sm2_n - sm2_gx - 2)) (be_bytes 32 1) [3, 2] = Some (cr, cs)
     \<and> sm2_verify toy_curve (be_bytes 32 (sm2_n - sm2_gx - 2)) cr cs (be_bytes 32 sm2_gx) (be_bytes 32 sm2_gy) = 0"
proof -
  let ?e = "sm2_n - sm2_gx - 2"
  have v: "be_val (be_bytes 32 1) = 1" "be_val (be_bytes 32 sm2_gx) = sm2_gx" "be_val (be_bytes 32 sm2_gy) = sm2_gy"
    "be_val (be_bytes 32 ?e) = ?e"
    using sm2_base sm2_n_bounds by (simp_all add: be_val_32)
  have "coprime 2 sm2_n" by (simp add: sm2_n_def)
  then have co: "coprime (1 + 1) sm2_n" by (simp add: one_add_one del: One_nat_def)
  have "\<not> sm2_n dvd 1" "3 < sm2_n" by (simp_all add: sm2_n_def)
  moreover have "sign_round toy_curve ?e 1 (sm2_g toy_curve) 3 = Again"
    using sign_round_again_iff [OF toy_curve_laws co, of 3]
    by (simp add: toy_base toy_simps sm2_gx_def sm2_n_def)
  moreover have "sign_round toy_curve ?e 1 (ecurve_mult toy_curve 3 (sm2_g toy_curve)) 2 \<noteq> Again"
    using sign_round_again_iff [OF toy_curve_laws co, of 2]
    by (simp add: toy_base toy_simps sm2_gx_def sm2_n_def)
  moreover have "(fst (epoint_get toy_curve (ecurve_mult toy_curve 2 (sm2_g toy_curve))) + ?e) mod sm2_n
      \<noteq> (fst (epoint_get toy_curve (ecurve_mult toy_curve (2 * 3) (sm2_g toy_curve))) + ?e) mod sm2_n"
    by (simp add: toy_base toy_simps sm2_gx_def sm2_n_def)
  ultimately show ?thesis
    using sm2_retry_signature [OF toy_curve_laws, of "be_bytes 32 1" 3 2 "be_bytes 32 ?e" "be_bytes 32 sm2_gx" "be_bytes 32 sm2_gy" "[]"]
      toy_public [of 1] sm2_base sm2_n_bounds co
    unfolding v by auto
qed

end
