(* ===== verification/Sm2_Crypt.thy ===== *)
theory Sm2_Crypt
  imports Sm2_Curve
begin

text \<open>
  The rounds of \<^verbatim>\<open>sm2_encrypt\<close> over the multiples of the base point, and the decryption of
  what they give.
\<close>

section \<open>Encryption\<close>

lemma xor_twice: "length key = length m \<Longrightarrow> map2 (XOR) key (map2 (XOR) key m) = (m :: byte list)"
  by (rule nth_equalityI) simp_all

text \<open>The factors of the base point in the rounds that are run, one for each draw that is not zero.\<close>

fun nonces :: "nat \<Rightarrow> nat list \<Rightarrow> nat list" where
  "nonces c [] = []"
| "nonces c (k # ks) = (if k = 0 then nonces c ks else (k * c) # nonces (k * c) ks)"

text \<open>The key of a round over the common point \<open>c G\<close> is not all zeros.\<close>

definition key_stream :: "'p miracl \<Rightarrow> nat \<Rightarrow> nat \<Rightarrow> byte list" where
  "key_stream E c n = (case epoint_get E (ecurve_mult E c (sm2_g E)) of (x, y) \<Rightarrow> kdf_stream (be_bytes 32 x @ be_bytes 32 y) n)"

definition key_usable :: "'p miracl \<Rightarrow> nat \<Rightarrow> nat \<Rightarrow> bool" where
  "key_usable E c n \<longleftrightarrow> list_ex (\<lambda>b. b \<noteq> 0) (key_stream E c n)"

text \<open>The state after the rounds whose product is \<open>c\<close>.\<close>

definition enc_at :: "'p miracl \<Rightarrow> nat \<Rightarrow> nat \<Rightarrow> nat \<Rightarrow> 'p enc \<Rightarrow> bool" where
  "enc_at E d n c st \<longleftrightarrow> enc_g st = ecurve_mult E c (sm2_g E) \<and> enc_w st = ecurve_mult E (c * d) (sm2_g E)
    \<and> \<not> sm2_n dvd c * d \<and> 32 + n \<le> length (enc_rest st)"

definition ciphertext_of :: "'p miracl \<Rightarrow> nat \<Rightarrow> nat \<Rightarrow> byte list \<Rightarrow> byte list" where
  "ciphertext_of E d c msg =
     (case epoint_get E (ecurve_mult E c (sm2_g E)) of (c1, c2) \<Rightarrow>
      case epoint_get E (ecurve_mult E (c * d) (sm2_g E)) of (x, y) \<Rightarrow>
        be_bytes 32 c1 @ be_bytes 32 c2 @ sm3 (be_bytes 32 x @ msg @ be_bytes 32 y)
        @ map2 (XOR) (key_stream E (c * d) (length msg)) msg)"

lemma enc_round_value:
  assumes E: "curve_laws E" and st: "enc_at E d (length msg) c st"
    and pts: "plain_point E (k * c)" "plain_point E (k * c * d)"
  shows "\<exists>st'. enc_at E d (length msg) (k * c) st'
    \<and> drop (32 + length msg) (enc_rest st') = drop (32 + length msg) (enc_rest st)
    \<and> enc_round E msg st k = Ret (if key_usable E (k * c * d) (length msg)
         then Done (int (length msg) + 96, ciphertext_of E d (k * c) msg @ drop (32 + length msg) (enc_rest st))
         else Again, st')"
proof -
  obtain c1 c2 where g: "epoint_get E (ecurve_mult E (k * c) (sm2_g E)) = (c1, c2)" by fastforce
  obtain x y where w: "epoint_get E (ecurve_mult E (k * c * d) (sm2_g E)) = (x, y)" by fastforce
  have fin: "\<not> point_at_infinity E (enc_w st)"
    using st by (simp add: enc_at_def point_at_infinity_def curve_lawsD [OF E])
  have mult: "ecurve_mult E k (enc_g st) = ecurve_mult E (k * c) (sm2_g E)"
    "ecurve_mult E k (enc_w st) = ecurve_mult E (k * c * d) (sm2_g E)"
    using st by (simp_all add: enc_at_def curve_lawsD [OF E] mult.assoc)
  note bytes = plain_point_bytes [OF E pts(1) g] plain_point_bytes [OF E pts(2) w]
  define key where "key = kdf_stream (be_bytes 32 x @ be_bytes 32 y) (length msg)"
  define tail where "tail = drop (32 + length msg) (enc_rest st)"
  define st' where "st' = \<lparr>enc_g = ecurve_mult E (k * c) (sm2_g E), enc_w = ecurve_mult E (k * c * d) (sm2_g E),
    enc_zl = be_bytes 32 x, enc_zr = be_bytes 32 y, enc_c1 = be_bytes 32 c1, enc_c2 = be_bytes 32 c2,
    enc_rest = take 32 (enc_rest st) @ key @ tail\<rparr>"
  have "enc_at E d (length msg) (k * c) st'" "drop (32 + length msg) (enc_rest st') = tail"
    using st bytes(1,7) by (simp_all add: enc_at_def st'_def key_def tail_def)
  moreover have "enc_round E msg st k = Ret (if list_ex (\<lambda>b. b \<noteq> 0) key
       then Done (int (length msg) + 64 + 32, be_bytes 32 c1 @ be_bytes 32 c2
         @ sm3 (be_bytes 32 x @ msg @ be_bytes 32 y) @ map2 (XOR) key msg @ tail)
       else Again, st')"
    unfolding enc_round_def Let_def mult g w
    by (simp add: bytes fin kdf_def Let_def st'_def key_def tail_def)
  moreover have "key_stream E (k * c * d) (length msg) = key" by (simp add: key_stream_def w key_def)
  ultimately show ?thesis
    by (intro exI [of _ st']) (simp add: ciphertext_of_def g w key_usable_def tail_def)
qed

text \<open>The first usable key of the draws, or none.\<close>

lemma enc_loop_value:
  assumes E: "curve_laws E"
  shows "enc_at E d (length msg) c st \<Longrightarrow> \<forall>m \<in> set (nonces c ks). plain_point E m \<and> plain_point E (m * d)
    \<Longrightarrow> enc_loop E msg st ks = map_option
      (\<lambda>m. Ret (int (length msg) + 96, ciphertext_of E d m msg @ drop (32 + length msg) (enc_rest st)))
      (List.find (\<lambda>m. key_usable E (m * d) (length msg)) (nonces c ks))"
proof (induction ks arbitrary: c st)
  case (Cons k ks)
  show ?case
  proof (cases "k = 0")
    case False
    obtain st' where "enc_at E d (length msg) (k * c) st'"
      "drop (32 + length msg) (enc_rest st') = drop (32 + length msg) (enc_rest st)"
      "enc_round E msg st k = Ret (if key_usable E (k * c * d) (length msg)
         then Done (int (length msg) + 96, ciphertext_of E d (k * c) msg @ drop (32 + length msg) (enc_rest st))
         else Again, st')"
      using enc_round_value [OF E Cons.prems(1), of k] Cons.prems(2) False by auto
    then show ?thesis using Cons.IH [of "k * c" st'] Cons.prems(2) False by simp
  qed (use Cons in simp)
qed simp

lemma decrypt_value:
  assumes E: "curve_laws E" and pts: "plain_point E c" "plain_point E (c * d)" and d: "be_val key = d"
    and usable: "key_usable E (c * d) (length msg)"
  shows "sm2_decrypt E u True (ciphertext_of E d c msg) key buf = Ret (int (length msg), msg @ drop (length msg) buf)"
proof -
  obtain c1 c2 where g: "epoint_get E (ecurve_mult E c (sm2_g E)) = (c1, c2)" by fastforce
  obtain x y where w: "epoint_get E (ecurve_mult E (c * d) (sm2_g E)) = (x, y)" by fastforce
  note bytes = plain_point_bytes [OF E pts(1) g] plain_point_bytes [OF E pts(2) w]
  define k where "k = kdf_stream (be_bytes 32 x @ be_bytes 32 y) (length msg)"
  have c: "ciphertext_of E d c msg = be_bytes 32 c1 @ be_bytes 32 c2
      @ sm3 (be_bytes 32 x @ msg @ be_bytes 32 y) @ map2 (XOR) k msg"
    by (simp add: ciphertext_of_def g w key_stream_def k_def)
  have "list_ex (\<lambda>b. b \<noteq> 0) k" using usable by (simp add: key_usable_def key_stream_def w k_def)
  moreover have "\<not> point_at_infinity E (ecurve_mult E c (sm2_g E))"
    using bytes(1) by (simp add: point_at_infinity_def curve_lawsD [OF E])
  moreover have "ecurve_mult E d (ecurve_mult E c (sm2_g E)) = ecurve_mult E (c * d) (sm2_g E)"
    by (simp add: curve_lawsD [OF E] mult.commute)
  moreover have "length k = length msg" by (simp add: k_def)
  ultimately show ?thesis unfolding c
    by (simp add: sm2_decrypt_def Let_def d bytes w kdf_def k_def [symmetric] xor_twice)
qed

lemma length_key_stream [simp]: "length (key_stream E c n) = n"
  by (simp add: key_stream_def split: prod.split)

lemma encrypt_value:
  assumes E: "curve_laws E" and d: "\<not> sm2_n dvd be_val key" and len: "96 + length msg \<le> length outmsg"
    and pub: "epoint_get E (ecurve_mult E (be_val key) (sm2_g E)) = (be_val wx, be_val wy)"
    and pts: "\<forall>m \<in> set (nonces 1 ks). plain_point E m \<and> plain_point E (m * be_val key)"
  shows "sm2_encrypt E u True msg wx wy outmsg ks = map_option
    (\<lambda>m. Ret (int (length msg) + 96, ciphertext_of E (be_val key) m msg @ drop (96 + length msg) outmsg))
    (List.find (\<lambda>m. key_usable E (m * be_val key) (length msg)) (nonces 1 ks))"
proof -
  define st where "st = \<lparr>enc_g = sm2_g E, enc_w = ecurve_mult E (be_val key) (sm2_g E), enc_zl = u 0, enc_zr = u 1,
    enc_c1 = take 32 outmsg, enc_c2 = take 32 (drop 32 outmsg), enc_rest = drop 64 outmsg\<rparr>"
  have "epoint_set E (be_val wx) (be_val wy) = Some (ecurve_mult E (be_val key) (sm2_g E))"
    using curve_point [OF E d pub] by simp
  then have enc: "sm2_encrypt E u True msg wx wy outmsg ks = enc_loop E msg st ks"
    by (simp add: sm2_encrypt_def epoint_new_def st_def)
  have "enc_at E (be_val key) (length msg) 1 st"
    using d len curve_lawsD(1) [OF E] by (simp add: enc_at_def st_def)
  moreover have "drop (32 + length msg) (enc_rest st) = drop (96 + length msg) outmsg"
    by (simp add: st_def add.commute)
  ultimately show ?thesis using enc_loop_value [OF E _ pts, of msg st] by (simp add: enc)
qed

section \<open>Properties of encryption\<close>

text \<open>
  C17: encryption takes the first random number whose key is not all zeros and gives 96 bytes more
  than the message, which decryption with the private key turns back into it. When there is no such
  number it goes on drawing.
\<close>

theorem sm2_encrypt_roundtrip:
  assumes "curve_laws E" "\<not> sm2_n dvd be_val key" "96 + length msg \<le> length outmsg"
    and "epoint_get E (ecurve_mult E (be_val key) (sm2_g E)) = (be_val wx, be_val wy)"
    and "\<forall>m \<in> set (nonces 1 ks). plain_point E m \<and> plain_point E (m * be_val key)"
  shows "if \<exists>m \<in> set (nonces 1 ks). key_usable E (m * be_val key) (length msg)
    then \<exists>out. sm2_encrypt E u True msg wx wy outmsg ks = Some (Ret (int (length msg) + 96, out))
      \<and> sm2_decrypt E v True (take (96 + length msg) out) key buf = Ret (int (length msg), msg @ drop (length msg) buf)
    else sm2_encrypt E u True msg wx wy outmsg ks = None"
proof (cases "List.find (\<lambda>m. key_usable E (m * be_val key) (length msg)) (nonces 1 ks)")
  case None
  then show ?thesis using encrypt_value [OF assms] by (simp add: find_None_iff)
next
  case (Some m)
  then have m: "m \<in> set (nonces 1 ks)" "key_usable E (m * be_val key) (length msg)" by (auto simp: find_Some_iff)
  let ?out = "ciphertext_of E (be_val key) m msg @ drop (96 + length msg) outmsg"
  have "length (ciphertext_of E (be_val key) m msg) = 96 + length msg"
    by (simp add: ciphertext_of_def split: prod.split)
  then have "take (96 + length msg) ?out = ciphertext_of E (be_val key) m msg" by simp
  moreover have "sm2_encrypt E u True msg wx wy outmsg ks = Some (Ret (int (length msg) + 96, ?out))"
    using encrypt_value [OF assms] Some by simp
  ultimately show ?thesis
    using decrypt_value [OF assms(1) _ _ refl m(2), of v buf] assms(5) m by auto
qed

theorem sm2_encrypt_roundtrip_witness:
  "if key_usable toy_curve 6 (length [7 :: byte])
   then \<exists>out. sm2_encrypt toy_curve (\<lambda>i. []) True [7] (be_bytes 32 (sm2_gx + 1)) (be_bytes 32 sm2_gy) (replicate 97 0) [0, 3]
        = Some (Ret (int (length [7 :: byte]) + 96, out))
     \<and> sm2_decrypt toy_curve (\<lambda>i. []) True (take (96 + length [7 :: byte]) out) (be_bytes 32 2) [9, 9] = Ret (int (length [7 :: byte]), [7] @ drop (length [7 :: byte]) [9, 9])
   else sm2_encrypt toy_curve (\<lambda>i. []) True [7] (be_bytes 32 (sm2_gx + 1)) (be_bytes 32 sm2_gy) (replicate 97 0) [0, 3] = None"
  using sm2_encrypt_roundtrip [OF toy_curve_laws, of "be_bytes 32 2" "[7]" "replicate 97 0" "be_bytes 32 (sm2_gx + 1)" "be_bytes 32 sm2_gy" "[0, 3]" "\<lambda>i. []" "\<lambda>i. []" "[9, 9]"]
    toy_points
  unfolding toy_points by simp

text \<open>
  C36: the encryption of an empty message under a public key never returns, whatever the random
  numbers: its key is empty, and an empty key counts as all zeros.
\<close>

theorem sm2_encrypt_empty_never_returns:
  assumes "curve_laws E" "\<not> sm2_n dvd be_val key" "96 \<le> length outmsg"
    and "epoint_get E (ecurve_mult E (be_val key) (sm2_g E)) = (be_val wx, be_val wy)"
    and "\<forall>m \<in> set (nonces 1 ks). plain_point E m \<and> plain_point E (m * be_val key)"
  shows "sm2_encrypt E u True [] wx wy outmsg ks = None"
proof -
  have "key_stream E m 0 = []" for m by (metis length_key_stream length_0_conv)
  then have "\<not> key_usable E m (length [])" for m by (simp add: key_usable_def)
  then show ?thesis using encrypt_value [OF assms(1,2) _ assms(4,5), of "[]"] assms(3) by (simp add: find_None_iff)
qed

theorem sm2_encrypt_empty_never_returns_witness:
  "sm2_encrypt toy_curve (\<lambda>i. []) True [] (be_bytes 32 (sm2_gx + 1)) (be_bytes 32 sm2_gy) (replicate 96 0) [0, 3] = None"
  using sm2_encrypt_empty_never_returns [OF toy_curve_laws, of "be_bytes 32 2" "replicate 96 0" "be_bytes 32 (sm2_gx + 1)" "be_bytes 32 sm2_gy" "[0, 3]" "\<lambda>i. []"]
    toy_points
  unfolding toy_points by simp

end
