(* ===== verification/Sm2_Agree.thy ===== *)
theory Sm2_Agree
  imports Sm2_Curve
begin

unbundle bit_operations_syntax

text \<open>
  Both sides of a key agreement of \<open>Sm2\<close> compute the same point: the key and the
  confirmations agree, for the routines with the private keys at hand and for the three messages
  that keep them encrypted in between.
\<close>

section \<open>The common point\<close>

lemma unat_or_128: "unat ((b :: byte) OR 0x80) = unat b mod 128 + 128"
proof -
  have "\<forall>x \<in> set [0..<256]. unat ((of_nat x :: byte) OR 0x80) = x mod 128 + 128" by code_simp
  moreover have "unat b \<in> set [0..<256]" using unat_byte_bound [of b] by simp
  ultimately have "unat ((of_nat (unat b) :: byte) OR 0x80) = unat b mod 128 + 128" by blast
  then show ?thesis by simp
qed

text \<open>The half coordinate of the standard: \<open>2 ^ 127\<close> and the lower 127 bits.\<close>

lemma agree_half_value: "agree_half (be_bytes 32 x) = x mod 2 ^ 127 + 2 ^ 127"
proof -
  have "take 16 (drop 16 (be_bytes 32 x)) = of_nat (x div 256 ^ 15) # be_bytes 15 x"
    using drop_be_bytes [of 16 16 x] be_bytes_Suc [of 15 x] by simp
  then have "agree_half (be_bytes 32 x) = (x div 256 ^ 15 mod 256 mod 128 + 128) * 256 ^ 15 + x mod 256 ^ 15"
    by (simp add: agree_half_def be_val_Cons be_val_be_bytes unat_or_128 unat_of_nat del: power_Suc)
  also have "\<dots> = x mod (256 ^ 15 * 128) + 2 ^ 127"
    using mod_mult2_eq [of x "256 ^ 15" 128] by (simp add: mod_mod_cancel mult.commute)
  finally show ?thesis by simp
qed

definition agree_factor :: "nat \<Rightarrow> nat \<Rightarrow> nat \<Rightarrow> nat" where
  "agree_factor x k d = agree_half (be_bytes 32 x) * k + d"

definition agreed :: "'p miracl \<Rightarrow> nat \<Rightarrow> byte list \<Rightarrow> byte list \<Rightarrow> byte list \<Rightarrow> nat \<Rightarrow> byte list \<times> byte list \<times> byte list \<times> byte list" where
  "agreed E c za zb r keylen =
     (case epoint_get E (ecurve_mult E c (sm2_g E)) of (x, y) \<Rightarrow>
      let xu = be_bytes 32 x; yu = be_bytes 32 y
      in (kdf_stream (xu @ yu @ za @ zb) keylen, xu, yu, sm3 (xu @ za @ zb @ r)))"

lemma agree_point_value:
  assumes E: "curve_laws E"
  shows "agree_point E ((agree_half (be_bytes 32 x1) * k1 + d1) mod sm2_n) (be_bytes 32 x2)
      (ecurve_mult E k2 (sm2_g E)) (ecurve_mult E d2 (sm2_g E))
    = ecurve_mult E (agree_factor x1 k1 d1 * agree_factor x2 k2 d2) (sm2_g E)"
proof -
  have "agree_point E t (be_bytes 32 x2) (ecurve_mult E k2 (sm2_g E)) (ecurve_mult E d2 (sm2_g E))
      = ecurve_mult E (t * agree_factor x2 k2 d2) (sm2_g E)" for t
    by (simp add: agree_point_def curve_lawsD [OF E] agree_factor_def add.commute)
  then show ?thesis
    by (simp add: agree_factor_def) (rule curve_mod [OF E], simp add: mod_mult_left_eq)
qed

lemma agree_finish_value:
  assumes E: "curve_laws E" and c: "plain_point E c"
  shows "agree_finish E u True (ecurve_mult E c (sm2_g E)) za zb ra rb keylen keybuf
    = Ret (Some (agreed E c za zb (ra @ rb) keylen))"
proof -
  obtain x y where xy: "epoint_get E (ecurve_mult E c (sm2_g E)) = (x, y)" by fastforce
  show ?thesis using plain_point_bytes [OF E c xy]
    by (simp add: agree_finish_def point_at_infinity_def curve_lawsD [OF E] xy agreed_def kdf_key_def Let_def)
qed

lemma agree_side_value:
  assumes E: "curve_laws E" and k: "plain_point E k1" "plain_point E k2" and d: "\<not> sm2_n dvd d2"
    and r1: "epoint_get E (ecurve_mult E k1 (sm2_g E)) = (x1, y1)"
    and r2: "epoint_get E (ecurve_mult E k2 (sm2_g E)) = (x2, y2)"
    and p2: "epoint_get E (ecurve_mult E d2 (sm2_g E)) = (x, y)"
    and c: "plain_point E (agree_factor x1 k1 d1 * agree_factor x2 k2 d2)"
  shows "agree_side E u True first za zb x1 y1 d1 (Ret k1) x2 y2 x y keylen keybuf
    = Ret (Some (agreed E (agree_factor x1 k1 d1 * agree_factor x2 k2 d2) za zb
        (if first then be_bytes 32 x1 @ be_bytes 32 y1 @ be_bytes 32 x2 @ be_bytes 32 y2
         else be_bytes 32 x2 @ be_bytes 32 y2 @ be_bytes 32 x1 @ be_bytes 32 y1) keylen))"
  unfolding agree_side_def using agree_finish_value [OF E c, of u]
  by (simp add: plain_point_bytes [OF E k(1) r1] plain_point_bytes [OF E k(2) r2] curve_point [OF E d p2]
      agree_point_value [OF E] Let_def)

text \<open>The hash of an identity with its public key, which both sides compute.\<close>

definition id_hash :: "byte list \<Rightarrow> byte list \<Rightarrow> byte list \<Rightarrow> byte list" where
  "id_hash userid x y = sm3 (id_prefix userid @ x @ y)"

lemma agree_z_value: "length x = 32 \<Longrightarrow> length y = 32 \<Longrightarrow> agree_z True userid x y old = Ret (id_hash userid x y)"
  by (simp add: agree_z_def sm3_z_def rd_block_def id_hash_def)

section \<open>Both sides\<close>

text \<open>
  The keys of both parties: long-term keys \<open>da\<close> and \<open>db\<close>, temporary keys \<open>ka\<close> and
  \<open>kb\<close>, with the coordinates of their points.
\<close>

definition agree_keys :: "'p miracl \<Rightarrow> nat \<Rightarrow> nat \<Rightarrow> nat \<Rightarrow> nat \<Rightarrow> nat \<times> nat \<Rightarrow> nat \<times> nat \<Rightarrow> nat \<times> nat \<Rightarrow> nat \<times> nat \<Rightarrow> bool" where
  "agree_keys E da db ka kb pa pb ra rb \<longleftrightarrow>
     epoint_get E (ecurve_mult E da (sm2_g E)) = pa \<and> epoint_get E (ecurve_mult E db (sm2_g E)) = pb
     \<and> epoint_get E (ecurve_mult E ka (sm2_g E)) = ra \<and> epoint_get E (ecurve_mult E kb (sm2_g E)) = rb
     \<and> \<not> sm2_n dvd da \<and> \<not> sm2_n dvd db \<and> plain_point E ka \<and> plain_point E kb
     \<and> plain_point E (agree_factor (fst ra) ka da * agree_factor (fst rb) kb db)"

definition agreed_key :: "'p miracl \<Rightarrow> nat \<Rightarrow> nat \<Rightarrow> nat \<Rightarrow> nat \<Rightarrow> nat \<times> nat \<Rightarrow> nat \<times> nat \<Rightarrow> byte list \<Rightarrow> byte list \<Rightarrow> nat
  \<Rightarrow> byte list \<times> byte list \<times> byte list \<times> byte list" where
  "agreed_key E da db ka kb ra rb za zb keylen =
     agreed E (agree_factor (fst ra) ka da * agree_factor (fst rb) kb db) za zb
       (be_bytes 32 (fst ra) @ be_bytes 32 (snd ra) @ be_bytes 32 (fst rb) @ be_bytes 32 (snd rb)) keylen"

lemma side_a:
  assumes E: "curve_laws E" and keys: "agree_keys E da db ka kb pa pb ra rb"
  shows "agree_side E u True True za zb (fst ra) (snd ra) da (Ret ka) (fst rb) (snd rb) (fst pb) (snd pb) keylen keybuf
    = Ret (Some (agreed_key E da db ka kb ra rb za zb keylen))"
  using keys agree_side_value [OF E, of ka kb db "fst ra" "snd ra" "fst rb" "snd rb" "fst pb" "snd pb" da]
  by (simp add: agree_keys_def agreed_key_def)

lemma side_b:
  assumes E: "curve_laws E" and keys: "agree_keys E da db ka kb pa pb ra rb"
  shows "agree_side E u True False za zb (fst rb) (snd rb) db (Ret kb) (fst ra) (snd ra) (fst pa) (snd pa) keylen keybuf
    = Ret (Some (agreed_key E da db ka kb ra rb za zb keylen))"
  using keys agree_side_value [OF E, of kb ka da "fst rb" "snd rb" "fst ra" "snd ra" "fst pa" "snd pa" db]
  by (simp add: agree_keys_def agreed_key_def mult.commute)

text \<open>
  Two parties that run the key agreement, each with its own private keys and the public points
  of the other, succeed with the same key of the length asked for, and each confirmation that one
  side sends is the one that the other expects.
\<close>

theorem sm2_agreement:
  assumes "curve_laws E" "agree_keys E (be_val da) (be_val db) (be_val ka) (be_val kb)
      (be_val xa, be_val ya) (be_val xb, be_val yb) (be_val kxa, be_val kya) (be_val kxb, be_val kyb)"
    and "length xa = 32" "length ya = 32" "length xb = 32" "length yb = 32"
  shows "\<exists>key s2 s3. length key = keylen
    \<and> sm2_keyagreement_a E u (\<lambda>i. True) kxa kya xa ya da xb yb ida idb kxb kyb ka keylen bufa (True, True)
      = Ret (1, key, Some s2, Some s3)
    \<and> sm2_keyagreement_b E v (\<lambda>i. True) kxb kyb xb yb db xa ya idb ida kxa kya kb keylen bufb (True, True)
      = Ret (1, key, Some s3, Some s2)"
proof -
  let ?za = "id_hash ida xa ya" and ?zb = "id_hash idb xb yb"
  obtain key xu yu hash where k: "agreed_key E (be_val da) (be_val db) (be_val ka) (be_val kb)
      (be_val kxa, be_val kya) (be_val kxb, be_val kyb) ?za ?zb keylen = (key, xu, yu, hash)"
    by (metis prod_cases4)
  have "length key = keylen" using k by (auto simp: agreed_key_def agreed_def Let_def split: prod.splits)
  then show ?thesis
    using side_a [OF assms(1,2), of u ?za ?zb keylen bufa] side_b [OF assms(1,2), of v ?za ?zb keylen bufb] k
    by (intro exI [of _ key] exI [of _ "agree_tag 2 yu hash"] exI [of _ "agree_tag 3 yu hash"])
      (simp add: sm2_keyagreement_a_def sm2_keyagreement_b_def agree_z_value assms agree_result_def)
qed

lemma toy_vals:
  "be_val (be_bytes 32 2) = 2" "be_val (be_bytes 32 3) = 3" "be_val (be_bytes 32 5) = 5" "be_val (be_bytes 32 7) = 7"
    "be_val (be_bytes 32 (sm2_gx + 1)) = sm2_gx + 1" "be_val (be_bytes 32 (sm2_gx + 2)) = sm2_gx + 2"
    "be_val (be_bytes 32 (sm2_gx + 4)) = sm2_gx + 4" "be_val (be_bytes 32 (sm2_gx + 6)) = sm2_gx + 6"
    "be_val (be_bytes 32 sm2_gy) = sm2_gy"
  by (rule be_val_32, simp add: sm2_gx_def sm2_gy_def)+

lemma toy_keys:
  "agree_keys toy_curve 2 3 5 7 (sm2_gx + 1, sm2_gy) (sm2_gx + 2, sm2_gy) (sm2_gx + 4, sm2_gy) (sm2_gx + 6, sm2_gy)"
  unfolding agree_keys_def toy_base toy_simps plain_point_def agree_factor_def agree_half_value
  by (simp add: sm2_gx_def sm2_n_def)

theorem sm2_agreement_witness:
  "\<exists>key s2 s3. length key = 48
    \<and> sm2_keyagreement_a toy_curve (\<lambda>i. []) (\<lambda>i. True) (be_bytes 32 (sm2_gx + 4)) (be_bytes 32 sm2_gy) (be_bytes 32 (sm2_gx + 1))
        (be_bytes 32 sm2_gy) (be_bytes 32 2) (be_bytes 32 (sm2_gx + 2)) (be_bytes 32 sm2_gy) [1] [2] (be_bytes 32 (sm2_gx + 6))
        (be_bytes 32 sm2_gy) (be_bytes 32 5) 48 [] (True, True) = Ret (1, key, Some s2, Some s3)
    \<and> sm2_keyagreement_b toy_curve (\<lambda>i. []) (\<lambda>i. True) (be_bytes 32 (sm2_gx + 6)) (be_bytes 32 sm2_gy) (be_bytes 32 (sm2_gx + 2))
        (be_bytes 32 sm2_gy) (be_bytes 32 3) (be_bytes 32 (sm2_gx + 1)) (be_bytes 32 sm2_gy) [2] [1] (be_bytes 32 (sm2_gx + 4))
        (be_bytes 32 sm2_gy) (be_bytes 32 7) 48 [] (True, True) = Ret (1, key, Some s3, Some s2)"
proof -
  show ?thesis by (intro sm2_agreement [OF toy_curve_laws]) (use toy_keys in \<open>unfold toy_vals, simp_all\<close>)
qed

section \<open>Three messages\<close>

text \<open>What the code relies on of the cipher that keeps numbers between two calls.\<close>

definition aes_laws :: "'p miracl \<Rightarrow> bool" where
  "aes_laws E \<longleftrightarrow> (\<forall>b. length b = 16 \<longrightarrow> length (aes_encrypt E (take 16 enkey) b) = 16
     \<and> aes_decrypt E (take 16 enkey) (aes_encrypt E (take 16 enkey) b) = b)"

lemma two_blocks:
  "length r \<ge> 32 \<Longrightarrow> each_block f r (Suc (Suc 0)) = Ret (f (take 16 r) @ f (take 16 (drop 16 r)) @ drop 32 r)"
  by (simp add: drop_drop add.commute)

lemma enrand_value:
  assumes "length r = 32"
  shows "enrand E r 32 = Ret (aes_encrypt E (take 16 enkey) (take 16 r) @ aes_encrypt E (take 16 enkey) (drop 16 r))"
  using two_blocks [of r "aes_encrypt E (take 16 enkey)"] assms by (simp add: enrand_def numeral_2_eq_2)

lemma saved_key_value:
  assumes E: "aes_laws E" and r: "length r = 32" and buf: "32 \<le> length buf" and enc: "enrand E r 32 = Ret ra"
  shows "agree_saved_key E buf ra = Ret (be_val r)"
proof -
  let ?e = "aes_encrypt E (take 16 enkey)" and ?d = "aes_decrypt E (take 16 enkey)"
  have ra: "ra = ?e (take 16 r) @ ?e (drop 16 r)" using enc r by (simp add: enrand_value)
  have len: "length (?e b) = 16" and inv: "?d (?e b) = b" if "length b = 16" for b
    using E that by (simp_all add: aes_laws_def)
  have "length ra = 32" using r by (simp add: ra len)
  moreover have "derand E (ra @ drop 32 buf) 32 = Ret (r @ drop 32 buf)"
    using two_blocks [of "ra @ drop 32 buf" ?d] r
    by (simp add: derand_def numeral_2_eq_2 ra len inv)
  ultimately show ?thesis using buf r by (simp add: agree_saved_key_def)
qed

lemma big_to_bytes_fits: "x < 2 ^ 256 \<Longrightarrow> \<exists>b. big_to_bytes x old = Ret b"
  by (simp add: big_to_bytes_def)

lemma draw_nonzero: "draw ks = Some k \<Longrightarrow> 0 < k"
  by (induction ks) (auto split: if_splits)

text \<open>The first message: the temporary point, and its private key as the last message finds it.\<close>

lemma first_message:
  assumes E: "curve_laws E" "aes_laws E" and k: "draw ks = Some ka" "ka < 2 ^ 256" "plain_point E ka"
    and ra: "epoint_get E (ecurve_mult E ka (sm2_g E)) = (x, y)"
  shows "\<exists>saved. sm2_keyagreement_a1_3 E b0 b1 b2 ks = Some (Ret (be_bytes 32 x, be_bytes 32 y, saved))
    \<and> (\<forall>buf. 32 \<le> length buf \<longrightarrow> agree_saved_key E buf saved = Ret ka)"
proof -
  obtain saved where saved: "enrand E (be_bytes 32 ka) 32 = Ret saved" by (simp add: enrand_value)
  have "agree_saved_key E buf saved = Ret ka" if "32 \<le> length buf" for buf
    using saved_key_value [OF E(2) _ that saved] k(2) by (simp add: be_val_32)
  moreover have "big_to_bytes ka b2 = Ret (be_bytes 32 ka)" using draw_nonzero [OF k(1)] k(2) by (simp add: big_to_bytes_def)
  ultimately show ?thesis
    by (simp add: sm2_keyagreement_a1_3_def k ra plain_point_bytes [OF E(1) k(3) ra] saved)
qed

lemma second_message:
  assumes E: "curve_laws E" and keys: "agree_keys E da (be_val db) ka kb (be_val xa, be_val ya) pb (x1, y1) (x2, y2)"
    and k: "draw js = Some kb" and len: "length xa = 32" "length ya = 32" "length xb = 32" "length yb = 32"
    and agreed: "agreed_key E da (be_val db) ka kb (x1, y1) (x2, y2) (id_hash ida xa ya) (id_hash idb xb yb) keylen = (key, xu, yu, hash)"
  shows "sm2_keyagreement_b1_9 E u (\<lambda>i. True) (be_bytes 32 x1) (be_bytes 32 y1) xa ya db xb yb ida idb keylen buf (True, False, False) js
    = Some (Ret (1, key, (be_bytes 32 x2, be_bytes 32 y2), Some (agree_tag 2 yu hash), None, None))"
proof -
  let ?c = "agree_factor x2 kb (be_val db) * agree_factor x1 ka da"
  from keys have ra: "epoint_get E (ecurve_mult E ka (sm2_g E)) = (x1, y1)" and rb: "epoint_get E (ecurve_mult E kb (sm2_g E)) = (x2, y2)"
    and pa: "epoint_get E (ecurve_mult E da (sm2_g E)) = (be_val xa, be_val ya)"
    and pts: "plain_point E ka" "plain_point E kb" "\<not> sm2_n dvd da" and c: "plain_point E ?c"
    by (simp_all add: agree_keys_def mult.commute)
  note a = plain_point_bytes [OF E pts(1) ra] and b = plain_point_bytes [OF E pts(2) rb] and p = curve_point [OF E pts(3) pa]
  obtain o1 o2 where o: "big_to_bytes (be_val xa) (u 9) = Ret o1" "big_to_bytes (be_val ya) (u 10) = Ret o2"
    using big_to_bytes_fits p(1,3) by blast
  have "agreed E ?c (id_hash ida xa ya) (id_hash idb xb yb)
      ((be_bytes 32 x1 @ be_bytes 32 y1) @ be_bytes 32 x2 @ be_bytes 32 y2) keylen = (key, xu, yu, hash)"
    using agreed by (simp add: agreed_key_def mult.commute)
  then have "agree_finish E u True (ecurve_mult E ?c (sm2_g E)) (id_hash ida xa ya) (id_hash idb xb yb)
      (be_bytes 32 x1 @ be_bytes 32 y1) (be_bytes 32 x2 @ be_bytes 32 y2) keylen buf = Ret (Some (key, xu, yu, hash))"
    using agree_finish_value [OF E c] by simp
  then show ?thesis
    by (simp add: sm2_keyagreement_b1_9_def agree_z_value len k rb a b p(4) o agree_point_value [OF E] b1_9_finish_def Let_def)
qed

text \<open>
  C18: the key agreement in three messages, each side drawing its temporary key: both sides get the
  same key, and the confirmation of B is the one that A computes for it, with the temporary private
  key of A kept encrypted between its two calls.
\<close>

theorem sm2_agreement_in_messages:
  assumes "curve_laws E" "aes_laws E" "draw ks = Some ka" "draw js = Some kb" "ka < 2 ^ 256"
    and "agree_keys E (be_val da) (be_val db) ka kb (be_val xa, be_val ya) (be_val xb, be_val yb) (x1, y1) (x2, y2)"
    and "length xa = 32" "length ya = 32" "length xb = 32" "length yb = 32" "length (u 8) = 256"
  shows "\<exists>kx1 ky1 saved key kx2 ky2 sb s2. length key = keylen
    \<and> sm2_keyagreement_a1_3 E b0 b1 b2 ks = Some (Ret (kx1, ky1, saved))
    \<and> sm2_keyagreement_b1_9 E v (\<lambda>i. True) kx1 ky1 xa ya db xb yb ida idb keylen bufb (True, False, False) js
      = Some (Ret (1, key, (kx2, ky2), Some sb, None, None))
    \<and> sm2_keyagreement_a4_10 E u (\<lambda>i. True) kx1 ky1 xa ya da xb yb ida idb kx2 ky2 saved keylen bufa (True, True)
      = Ret (1, key, Some sb, Some s2)"
proof -
  let ?za = "id_hash ida xa ya" and ?zb = "id_hash idb xb yb"
  obtain key xu yu hash where k: "agreed_key E (be_val da) (be_val db) ka kb (x1, y1) (x2, y2) ?za ?zb keylen = (key, xu, yu, hash)"
    by (metis prod_cases4)
  have "length key = keylen" using k by (auto simp: agreed_key_def agreed_def Let_def split: prod.splits)
  have r: "epoint_get E (ecurve_mult E ka (sm2_g E)) = (x1, y1)" "epoint_get E (ecurve_mult E kb (sm2_g E)) = (x2, y2)"
    and pts: "plain_point E ka" "plain_point E kb" using assms(6) by (simp_all add: agree_keys_def)
  note b = plain_point_bytes(4,5) [OF assms(1) pts(1) r(1)] plain_point_bytes(4,5) [OF assms(1) pts(2) r(2)]
  obtain saved where saved: "sm2_keyagreement_a1_3 E b0 b1 b2 ks = Some (Ret (be_bytes 32 x1, be_bytes 32 y1, saved))"
    "agree_saved_key E (u 8) saved = Ret ka"
    using first_message [OF assms(1,2,3,5) pts(1) r(1), of b0 b1 b2] assms(11) by auto
  have "sm2_keyagreement_a4_10 E u (\<lambda>i. True) (be_bytes 32 x1) (be_bytes 32 y1) xa ya da xb yb ida idb
      (be_bytes 32 x2) (be_bytes 32 y2) saved keylen bufa (True, True)
    = Ret (1, key, Some (agree_tag 2 yu hash), Some (agree_tag 3 yu hash))"
    using side_a [OF assms(1,6), of u ?za ?zb keylen bufa] k
    by (simp add: sm2_keyagreement_a4_10_def agree_z_value assms(7-10) b saved(2) agree_result_def)
  then show ?thesis
    using saved(1) second_message [OF assms(1,6,4,7-10) k] \<open>length key = keylen\<close> by blast
qed

lemma toy_aes: "aes_laws toy_curve"
  by (simp add: aes_laws_def toy_curve_def comp_def)

theorem sm2_agreement_in_messages_witness:
  "\<exists>kx1 ky1 saved key kx2 ky2 sb s2. length key = 48
    \<and> sm2_keyagreement_a1_3 toy_curve [] [] [] [0, 5] = Some (Ret (kx1, ky1, saved))
    \<and> sm2_keyagreement_b1_9 toy_curve (\<lambda>i. []) (\<lambda>i. True) kx1 ky1 (be_bytes 32 (sm2_gx + 1)) (be_bytes 32 sm2_gy) (be_bytes 32 3)
        (be_bytes 32 (sm2_gx + 2)) (be_bytes 32 sm2_gy) [1] [2] 48 [] (True, False, False) [7]
      = Some (Ret (1, key, (kx2, ky2), Some sb, None, None))
    \<and> sm2_keyagreement_a4_10 toy_curve (\<lambda>i. replicate 256 0) (\<lambda>i. True) kx1 ky1 (be_bytes 32 (sm2_gx + 1)) (be_bytes 32 sm2_gy) (be_bytes 32 2)
        (be_bytes 32 (sm2_gx + 2)) (be_bytes 32 sm2_gy) [1] [2] kx2 ky2 saved 48 [] (True, True)
      = Ret (1, key, Some sb, Some s2)"
  by (intro sm2_agreement_in_messages [OF toy_curve_laws toy_aes, of _ 5 _ 7])
    (use toy_keys in \<open>unfold toy_vals, simp_all\<close>)

end
