(* ===== verification/Rsaref_Sm3.thy ===== *)
theory Rsaref_Sm3
  imports Sm3
begin

text \<open>
  \<^verbatim>\<open>SocketRandom/src/algo/sm3.c\<close>: a second program for SM3, with the structure of the RSAREF
  hash functions: the count in bits in two words, and a padding that goes through the update. Its
  compression is compared with the standard, its digests with those of \<open>Sm3\<close>. An input is
  shorter than \<open>2 ^ 32 - 64\<close> bytes, so that the index of its loop does not wrap.
\<close>

unbundle bit_operations_syntax

section \<open>Compression\<close>

text \<open>
  The shifts by zero and by 32 and more, which C does not define, take the count modulo 32 as the
  machine does.
\<close>

definition Cyclic_LEFT :: "32 word \<Rightarrow> nat \<Rightarrow> 32 word" where
  "Cyclic_LEFT x n = push_bit (n mod 32) x OR drop_bit (nat ((32 - int n) mod 32)) x"

definition SM3_T :: "32 word list" where
  "SM3_T = replicate 16 0x79cc4519 @ replicate 48 0x7a879d8a"

definition FF1 :: "32 word \<Rightarrow> 32 word \<Rightarrow> 32 word \<Rightarrow> 32 word" where
  "FF1 x y z = x XOR y XOR z"

definition FF2 :: "32 word \<Rightarrow> 32 word \<Rightarrow> 32 word \<Rightarrow> 32 word" where
  "FF2 x y z = (x AND y) OR (x AND z) OR (y AND z)"

definition GG1 :: "32 word \<Rightarrow> 32 word \<Rightarrow> 32 word \<Rightarrow> 32 word" where
  "GG1 x y z = x XOR y XOR z"

definition GG2 :: "32 word \<Rightarrow> 32 word \<Rightarrow> 32 word \<Rightarrow> 32 word" where
  "GG2 x y z = (x AND y) OR (NOT x AND z)"

definition P0 :: "32 word \<Rightarrow> 32 word" where
  "P0 x = x XOR Cyclic_LEFT x 9 XOR Cyclic_LEFT x 17"

definition P1 :: "32 word \<Rightarrow> 32 word" where
  "P1 x = x XOR Cyclic_LEFT x 15 XOR Cyclic_LEFT x 23"

definition Encode :: "32 word list \<Rightarrow> nat \<Rightarrow> byte list" where
  "Encode inp len =
     concat (map (\<lambda>i. [ucast (drop_bit 24 (inp ! i)), ucast (drop_bit 16 (inp ! i)), ucast (drop_bit 8 (inp ! i)), ucast (inp ! i)])
       [0..<len div 4])"

definition Decode :: "byte list \<Rightarrow> nat \<Rightarrow> 32 word list" where
  "Decode inp len =
     map (\<lambda>i. ucast (inp ! (4 * i + 3)) OR push_bit 8 (ucast (inp ! (4 * i + 2)))
         OR push_bit 16 (ucast (inp ! (4 * i + 1))) OR push_bit 24 (ucast (inp ! (4 * i)))) [0..<len div 4]"

definition extend_word :: "32 word list \<Rightarrow> nat \<Rightarrow> 32 word list" where
  "extend_word W0 i =
     (let W = W0 ! (i - 16) XOR W0 ! (i - 9) XOR Cyclic_LEFT (W0 ! (i - 3)) 15;
          W = P1 W
      in W0 @ [W XOR Cyclic_LEFT (W0 ! (i - 13)) 7 XOR W0 ! (i - 6)])"

definition MessageExtend :: "32 word list \<Rightarrow> 32 word list \<times> 32 word list" where
  "MessageExtend buffer =
     (let W0 = foldl extend_word (take 16 buffer) [16..<68]
      in (W0, map (\<lambda>j. W0 ! j XOR W0 ! (j + 4)) [0..<64]))"

definition transform_round :: "32 word list \<times> 32 word list \<Rightarrow> sm3_regs \<Rightarrow> nat \<Rightarrow> sm3_regs" where
  "transform_round = (\<lambda>(W0, W1) (A, B, C, D, E, F, G, H) i.
     let SS = Cyclic_LEFT A 12 + E + Cyclic_LEFT (SM3_T ! i) i;
         SS1 = Cyclic_LEFT SS 7;
         SS2 = SS1 XOR Cyclic_LEFT A 12;
         (TT1, TT2) =
           (if i \<le> 15 then (FF1 A B C + D + SS2 + W1 ! i, GG1 E F G + H + SS1 + W0 ! i)
            else (FF2 A B C + D + SS2 + W1 ! i, GG2 E F G + H + SS1 + W0 ! i))
     in (TT1, A, Cyclic_LEFT B 9, C, P0 TT2, E, Cyclic_LEFT F 19, G))"

definition SM3Transform :: "32 word list \<Rightarrow> byte list \<Rightarrow> 32 word list" where
  "SM3Transform st buffer =
     (let W = MessageExtend (Decode buffer 64);
          (A, B, C, D, E, F, G, H) = foldl (transform_round W) (sm3_regs_of st) [0..<64]
      in [st ! 0 XOR A, st ! 1 XOR B, st ! 2 XOR C, st ! 3 XOR D,
          st ! 4 XOR E, st ! 5 XOR F, st ! 6 XOR G, st ! 7 XOR H])"

section \<open>The streaming interface\<close>

record SM3_CTX =
  sm3_state :: "32 word list"
  sm3_count :: "32 word list"
  sm3_buffer :: "byte list"

definition PADDING :: "byte list" where
  "PADDING = 0x80 # replicate 63 0"

definition SM3Init :: "SM3_CTX \<Rightarrow> SM3_CTX" where
  "SM3Init context =
     context\<lparr>sm3_count := [0, 0],
             sm3_state := [0x7380166f, 0x4914b2b9, 0x172442d7, 0xda8a0600,
                           0xa96f30bc, 0x163138aa, 0xe38dee4d, 0xb0fb0e4e]\<rparr>"

text \<open>\<^verbatim>\<open>for (i = partLen; i + 63 < inputLen; i += 64)\<close>: the state, and the index behind the loop.\<close>

function transform_blocks :: "32 word list \<Rightarrow> byte list \<Rightarrow> nat \<Rightarrow> 32 word list \<times> nat" where
  "transform_blocks st inp i =
     (if i + 63 < length inp then transform_blocks (SM3Transform st (take 64 (drop i inp))) inp (i + 64) else (st, i))"
  by pat_completeness auto
termination by (relation "measure (\<lambda>(st, inp, i). length inp - i)") auto

declare transform_blocks.simps [simp del]

definition count_index :: "SM3_CTX \<Rightarrow> nat" where
  "count_index context = unat (drop_bit 3 (sm3_count context ! 1) AND 0x3F)"

definition SM3Update :: "SM3_CTX \<Rightarrow> byte list \<Rightarrow> SM3_CTX" where
  "SM3Update context inp =
     (let index = count_index context;
          inputLen = of_nat (length inp) :: 32 word;
          c0 = sm3_count context ! 0; c1 = sm3_count context ! 1 + push_bit 3 inputLen;
          c0 = (if c1 < push_bit 3 inputLen then c0 + 1 else c0);
          c0 = c0 + drop_bit 29 inputLen;
          context = context\<lparr>sm3_count := [c0, c1]\<rparr>;
          partLen = 64 - index
      in if length inp \<ge> partLen then
           let buffer = write_at (sm3_buffer context) index (take partLen inp);
               (st, i) = transform_blocks (SM3Transform (sm3_state context) buffer) inp partLen
           in context\<lparr>sm3_state := st, sm3_buffer := write_at buffer 0 (drop i inp)\<rparr>
         else context\<lparr>sm3_buffer := write_at (sm3_buffer context) index inp\<rparr>)"

definition SM3Final :: "SM3_CTX \<Rightarrow> byte list \<times> SM3_CTX" where
  "SM3Final context =
     (let bits = Encode (sm3_count context) 8;
          index = count_index context;
          padLen = (if index < 56 then 56 - index else 120 - index);
          context = SM3Update context (take padLen PADDING);
          context = SM3Update context bits
      in (Encode (sm3_state context) 32,
          \<lparr>sm3_state = replicate 8 0, sm3_count = [0, 0], sm3_buffer = replicate 64 0\<rparr>))"

text \<open>
  The lengths are of the type \<^verbatim>\<open>int\<close>: the word with its top bit set is negative. A length
  beyond the input is a \<open>Fault\<close>; pointers are not NULL. On success the code falls off the end
  without a return value; the model gives the digest.
\<close>

definition SM3_Hash_NOID :: "SM3_CTX \<Rightarrow> byte list \<Rightarrow> 32 word \<Rightarrow> byte list outcome" where
  "SM3_Hash_NOID context inputData inputDataLen =
     (if sint inputDataLen < 1 then Fail 2
      else if length inputData < unat inputDataLen then Fault
      else Ret (fst (SM3Final (SM3Update (SM3Init context) (take (unat inputDataLen) inputData)))))"

section \<open>Compression against the standard\<close>

lemma Cyclic_LEFT_rotl: "Cyclic_LEFT x n = word_rotl n x"
proof (cases "n mod 32 = 0")
  case True
  then have "int n mod 32 = 0" by presburger
  then have "(32 - int n) mod 32 = 0" using mod_add_self1 [of 32 "- int n"] by (simp add: zmod_zminus1_eq_if)
  then show ?thesis using True rotl_shifts [of n x] by (simp add: Cyclic_LEFT_def)
next
  case False
  have "(32 - k) mod 32 = 32 - k mod 32" if "k mod 32 \<noteq> 0" for k :: int
    using that mod_add_self1 [of 32 "- k"] by (simp add: zmod_zminus1_eq_if)
  moreover have m: "int n mod 32 = int (n mod 32)" by (simp only: zmod_int of_nat_numeral)
  moreover from m False have "int n mod 32 \<noteq> 0" by linarith
  ultimately have "(32 - int n) mod 32 = 32 - int (n mod 32)" by metis
  then have "nat ((32 - int n) mod 32) = 32 - n mod 32" by linarith
  then show ?thesis by (simp add: Cyclic_LEFT_def rotl_shifts)
qed

lemma T_std: "i < 64 \<Longrightarrow> SM3_T ! i = std_T i"
  by (simp add: SM3_T_def std_T_def nth_append)

lemma extend_std:
  "foldl extend_word (map (std_W M) [0..<16]) [16..<16 + k] = map (std_W M) [0..<16 + k]"
proof (induction k)
  case (Suc k)
  have "[0..<16 + Suc k] = [0..<16 + k] @ [16 + k]" "[16..<16 + Suc k] = [16..<16 + k] @ [16 + k]"
    by (simp_all only: add_Suc_right upt_Suc_append le_add1 zero_le)
  then show ?case
    using Suc by (simp add: extend_word_def Let_def std_W.simps [of M "16 + k"] std_P1_def P1_def
        Cyclic_LEFT_rotl del: upt_Suc)
qed simp

lemma or_reversed: "d OR (c OR (b OR a)) = a OR (b OR (c OR d))" for a b c d :: "32 word"
  by (rule bit_word_eqI) (auto simp: bit_or_iff)

lemma message_std: "MessageExtend (Decode M 64) = (map (std_W M) [0..<68], map (std_W' M) [0..<64])"
proof -
  have "ucast (M ! (4 * i + 3)) OR push_bit 8 (ucast (M ! (4 * i + 2))) OR push_bit 16 (ucast (M ! (4 * i + 1)))
      OR push_bit 24 (ucast (M ! (4 * i))) = std_W M i" if "i < 16" for i
    unfolding std_W.simps [of M i] get_be32_def if_P [OF that] or.assoc by (rule or_reversed)
  then have "Decode M 64 = map (std_W M) [0..<16]"
    unfolding Decode_def by (intro map_cong) (simp_all del: upt_Suc)
  moreover have "foldl extend_word (map (std_W M) [0..<16]) [16..<68] = map (std_W M) [0..<68]"
    using extend_std [of M 52] by simp
  ultimately show ?thesis by (simp add: MessageExtend_def Let_def std_W'_def del: upt_Suc)
qed

lemma transform_round_std:
  assumes "i < 64"
  shows "transform_round (MessageExtend (Decode M 64)) r i = std_round M r i"
proof -
  obtain A B C D E F G H where r: "r = (A, B, C, D, E, F, G, H)" by (cases r) auto
  have w: "map (std_W M) [0..<68] ! i = std_W M i" "map (std_W' M) [0..<64] ! i = std_W' M i"
    using assms by (simp_all del: upt_Suc)
  have c: "(i \<le> 15) = (i < 16)" by auto
  show ?thesis
    unfolding r message_std transform_round_def std_round_def Let_def prod.case w T_std [OF assms] Cyclic_LEFT_rotl
      std_FF_def std_GG_def std_P0_def P0_def FF1_def FF2_def GG1_def GG2_def c
    by (cases "i < 16") (simp_all only: if_True if_False prod.case)
qed

lemma SM3Transform_std: "length h = 8 \<Longrightarrow> SM3Transform h M = std_compress h M"
proof -
  assume len: "length h = 8"
  have loop: "foldl (transform_round (MessageExtend (Decode M 64))) r [0..<64] = foldl (std_round M) r [0..<64]" for r
    by (rule foldl_agree, rule transform_round_std, simp only: set_upt atLeastLessThan_iff)
  obtain a b c d e f g i where h: "h = [a, b, c, d, e, f, g, i]"
    using len by (rule length8E)
  show ?thesis
    unfolding SM3Transform_def std_compress_def Let_def loop
    by (simp only: h numeral_nth8 list.map zip_Cons_Cons zip_Nil split: prod.split) simp
qed

section \<open>The context and the message it has received\<close>

text \<open>The number of bits in the two words of the context, the high word first.\<close>

definition bit_count :: "nat \<Rightarrow> 32 word list" where
  "bit_count n = [of_nat (8 * n div 2 ^ 32), of_nat (8 * n)]"

lemma bit_count_nth: "bit_count n ! 0 = of_nat (8 * n div 2 ^ 32)" "bit_count n ! 1 = of_nat (8 * n)"
  by (simp_all add: bit_count_def)

definition rsaref_rep :: "SM3_CTX \<Rightarrow> byte list \<Rightarrow> bool" where
  "rsaref_rep c m \<longleftrightarrow> sm3_state c = absorb std_compress sm3_iv m \<and> sm3_count c = bit_count (length m)
     \<and> length (sm3_buffer c) = 64 \<and> take (length m mod 64) (sm3_buffer c) = tail64 m"

lemma push3_of_nat: "push_bit 3 (of_nat n) = (of_nat (8 * n) :: 32 word)"
  by (simp add: push_bit_eq_mult)

lemma count_index_rep: "sm3_count c = bit_count n \<Longrightarrow> count_index c = n mod 64"
proof -
  assume c: "sm3_count c = bit_count n"
  have "drop_bit 3 (push_bit 3 (of_nat n)) AND 0x3F = of_nat n AND (0x3F :: 32 word)"
  proof (rule bit_word_eqI)
    fix i assume "i < LENGTH(32)"
    have m: "(0x3F :: 32 word) = mask 6" by (simp add: mask_eq_exp_minus_1)
    show "bit (drop_bit 3 (push_bit 3 (of_nat n)) AND 0x3F :: 32 word) i = bit (of_nat n AND (0x3F :: 32 word)) i"
      unfolding m by (auto simp: bit_simps)
  qed
  then have "count_index c = unat (of_nat n AND (0x3F :: 32 word))"
    by (simp only: count_index_def c bit_count_nth push3_of_nat)
  then show ?thesis by (simp add: unat_and_63)
qed

lemma bit_count_add:
  fixes m :: nat
  assumes "n < 2 ^ 32"
  defines "l \<equiv> of_nat n :: 32 word"
  defines "c1 \<equiv> of_nat (8 * m) + push_bit 3 l"
  shows "[(if c1 < push_bit 3 l then of_nat (8 * m div 2 ^ 32) + 1 else of_nat (8 * m div 2 ^ 32)) + drop_bit 29 l, c1]
    = bit_count (m + n)"
proof -
  define q s where "q = 8 * n div 2 ^ 32" and "s = 8 * n mod 2 ^ 32"
  have n: "8 * n = 2 ^ 32 * q + s" unfolding q_def s_def by (rule mult_div_mod_eq [symmetric])
  have s: "s < 2 ^ 32" unfolding s_def by (rule mod_less_divisor) simp
  have "push_bit 3 l = of_nat s"
    unfolding l_def push3_of_nat by (simp only: word_of_nat_eq_iff take_bit_eq_mod s_def) simp
  moreover have "drop_bit 29 l = of_nat q"
  proof -
    have q: "q = drop_bit 29 n" "q < 2 ^ 32" using assms(1) by (simp_all add: q_def drop_bit_eq_div)
    have "unat (drop_bit 29 l) = drop_bit 29 (unat l)" by (simp add: unat_drop_bit_eq)
    also have "\<dots> = unat (of_nat q :: 32 word)"
      using q(2) assms(1) unfolding l_def by (simp add: q(1) unsigned_of_nat take_bit_nat_eq_self)
    finally show ?thesis by (simp only: word_unat_eq_iff)
  qed
  moreover have "8 * (m + n) = 8 * m + s + 2 ^ 32 * q" using n by (simp add: distrib_left)
  then have "of_nat (8 * (m + n)) = (of_nat (8 * m) + of_nat s :: 32 word)"
    by (simp only: word_of_nat_eq_iff take_bit_eq_mod of_nat_add [symmetric]) simp
  moreover have "8 * (m + n) div 2 ^ 32 = q + (8 * m + s) div 2 ^ 32"
    unfolding \<open>8 * (m + n) = 8 * m + s + 2 ^ 32 * q\<close> by (subst div_mult_self2) simp_all
  ultimately show ?thesis
    unfolding c1_def bit_count_def using count_carry [OF s, of "8 * m"] by auto
qed

lemma length_absorb_std: "length (absorb std_compress sm3_iv m) = 8"
  by (rule length_absorb) (simp_all add: length_std_compress)

lemma transform_blocks_absorb:
  "length st = 8 \<Longrightarrow> i \<le> length inp \<Longrightarrow>
   fst (transform_blocks st inp i) = absorb std_compress st (drop i inp)
   \<and> drop (snd (transform_blocks st inp i)) inp = tail64 (drop i inp)"
proof (induction st inp i rule: transform_blocks.induct)
  case (1 st inp i)
  show ?case
  proof (cases "i + 63 < length inp")
    case True
    let ?b = "take 64 (drop i inp)"
    have split: "drop i inp = ?b @ drop (i + 64) inp"
      by (metis append_take_drop_id drop_drop add.commute)
    have len: "length ?b = 64" using True by simp
    have "absorb std_compress st (drop i inp) = absorb std_compress (std_compress st ?b) (drop (i + 64) inp)"
      "tail64 (drop i inp) = tail64 (drop (i + 64) inp)"
      by (subst split, rule absorb_block [OF len] tail64_block [OF len])+
    with 1 True show ?thesis
      by (simp add: transform_blocks.simps [of st inp i] SM3Transform_std length_std_compress)
  next
    case False
    with 1(2,3) show ?thesis
      by (simp add: transform_blocks.simps [of st inp i] absorb_short tail64_short)
  qed
qed

lemma rsaref_rep_init: "length (sm3_buffer c) = 64 \<Longrightarrow> rsaref_rep (SM3Init c) []"
  by (simp add: rsaref_rep_def SM3Init_def absorb_short tail64_short bit_count_def sm3_iv_def)

lemma rsaref_rep_update:
  assumes rep: "rsaref_rep c m" and short: "length d < 2 ^ 32"
  shows "rsaref_rep (SM3Update c d) (m @ d)"
proof -
  define t where "t = tail64 m"
  define c1 where "c1 = c\<lparr>sm3_count := bit_count (length (m @ d))\<rparr>"
  have c: "length (sm3_buffer c) = 64" "take (length t) (sm3_buffer c) = t" "count_index c = length t"
      "sm3_state c = absorb std_compress sm3_iv m" "sm3_count c = bit_count (length m)"
    using rep by (simp_all add: rsaref_rep_def t_def length_tail64 count_index_rep)
  have t: "length t < 64" by (simp add: t_def)
  have tl: "(length m + length d) mod 64 = length (tail64 (t @ d))"
    by (simp add: length_tail64 t_def mod_simps)
  have upd: "SM3Update c d = (if length d \<ge> 64 - length t then
           let buffer = write_at (sm3_buffer c) (length t) (take (64 - length t) d);
               (st, i) = transform_blocks (SM3Transform (sm3_state c) buffer) d (64 - length t)
           in c1\<lparr>sm3_state := st, sm3_buffer := write_at buffer 0 (drop i d)\<rparr>
         else c1\<lparr>sm3_buffer := write_at (sm3_buffer c) (length t) d\<rparr>)"
    unfolding SM3Update_def Let_def c(3,5) bit_count_nth bit_count_add [OF short, of "length m"] c1_def length_append
    by simp
  show ?thesis
  proof (cases "64 \<le> length t + length d")
    case False
    then have "\<not> 64 - length t \<le> length d" by simp
    with False t c show ?thesis
      using absorb_held(1) [of t d std_compress "sm3_state c"] absorb_held(2) [of t d]
      by (simp add: rsaref_rep_def upd c1_def Let_def tl absorb_append [of _ _ m d]
          tail64_append [of m d] take_write_at_more flip: t_def)
  next
    case True
    have buf: "write_at (sm3_buffer c) (length t) (take (64 - length t) d) = t @ take (64 - length t) d"
      using c True t by (simp add: write_at_def)
    have le: "64 - length t \<le> length d" using True by simp
    have "length (sm3_state c) = 8" by (simp only: c(4) length_absorb_std)
    note tr = SM3Transform_std [OF this] length_std_compress [OF this]
    obtain st i where si: "transform_blocks (std_compress (sm3_state c) (t @ take (64 - length t) d)) d (64 - length t)
        = (st, i)" by force
    note tb = transform_blocks_absorb [OF tr(2) le, of "t @ take (64 - length t) d", unfolded si fst_conv snd_conv]
    note f = absorb_filled(1) [OF t True, of std_compress "sm3_state c"] absorb_filled(2) [OF t True]
    have "SM3Update c d = c1\<lparr>sm3_state := st, sm3_buffer := write_at (t @ take (64 - length t) d) 0 (drop i d)\<rparr>"
      using le by (simp add: upd buf tr(1) si)
    then show ?thesis
      using True t c le f tb
      by (simp add: rsaref_rep_def c1_def tl absorb_append [of _ _ m d] tail64_append [of m d]
          take_write_at_more t_def [symmetric])
  qed
qed

lemma Encode_count: "Encode (bit_count n) 8 = enc_be64 n"
  by (simp add: Encode_def bit_count_def enc_be64_def put_be32_def upt_conv_Cons)

lemma Encode_state: "length h = 8 \<Longrightarrow> Encode h 32 = sm3_output h"
  by (elim length8E) (simp add: Encode_def sm3_output_def put_be32_def upt_conv_Cons)

lemma take_PADDING: "0 < k \<Longrightarrow> k \<le> 64 \<Longrightarrow> take k PADDING = [0x80] @ replicate (k - 1) 0"
  by (cases k) (simp_all add: PADDING_def)

lemma rsaref_final_rep:
  assumes rep: "rsaref_rep c m"
  shows "fst (SM3Final c) = std_sm3 m"
proof -
  define r where "r = length m mod 64"
  define padLen where "padLen = (if r < 56 then 56 - r else 120 - r)"
  have r: "r < 64" by (simp add: r_def)
  have c: "sm3_count c = bit_count (length m)" "count_index c = r"
    using rep by (simp_all add: rsaref_rep_def count_index_rep r_def)
  have p: "0 < padLen" "padLen \<le> 64" "padLen - 1 = (119 - r) mod 64"
    using r by (auto simp: padLen_def pad_zeros)
  have "rsaref_rep (SM3Update (SM3Update c (take padLen PADDING)) (enc_be64 (length m)))
      ((m @ take padLen PADDING) @ enc_be64 (length m))"
    using rep p(2) by (intro rsaref_rep_update) (simp_all add: min.coboundedI1)
  then have st: "sm3_state (SM3Update (SM3Update c (take padLen PADDING)) (enc_be64 (length m)))
      = absorb std_compress sm3_iv (pad64 enc_be64 m)"
    unfolding take_PADDING [OF p(1,2)] p(3) r_def by (simp add: rsaref_rep_def pad64_def)
  show ?thesis
    unfolding SM3Final_def Let_def c Encode_count padLen_def [symmetric] st fst_conv
    by (simp add: Encode_state length_absorb_std std_sm3_def md_digest_def)
qed

lemma length_sm3_output: "length h = 8 \<Longrightarrow> length (sm3_output h) = 32"
  by (elim length8E) (simp add: sm3_output_def)

lemma length_std_sm3: "length (std_sm3 m) = 32"
  unfolding std_sm3_def md_digest_def by (intro length_sm3_output length_absorb_std)

definition SM3_blank :: SM3_CTX where
  "SM3_blank = \<lparr>sm3_state = replicate 8 0, sm3_count = [0, 0], sm3_buffer = replicate 64 0\<rparr>"

interpretation rsaref: streaming_hash std_sm3 "SM3Init SM3_blank" SM3Update
  "\<lambda>c. fst (SM3Final c)" rsaref_rep "2 ^ 32 - 64"
  by unfold_locales (simp_all add: rsaref_rep_init SM3_blank_def rsaref_rep_update rsaref_final_rep)

lemma sint_length:
  assumes "n < 2 ^ 32"
  shows "sint (of_nat n :: 32 word) < 1 \<longleftrightarrow> n = 0 \<or> 2 ^ 31 \<le> n" "unat (of_nat n :: 32 word) = n"
proof -
  show "unat (of_nat n :: 32 word) = n" using assms by (simp add: unat_of_nat)
  have "sint (of_nat n :: 32 word) = int n - 2 ^ 32 * of_bool (bit (int n) 31)"
    using assms by (simp add: signed_of_nat signed_take_bit_eq_take_bit_minus take_bit_int_eq_self)
  moreover have "bit (int n) 31 \<longleftrightarrow> 2 ^ 31 \<le> n"
  proof (cases "2 ^ 31 \<le> n")
    case True
    then have "n div 2 ^ 31 = 1" using assms by (simp add: div_nat_eqI)
    then have "int n div 2 ^ 31 = 1" using zdiv_int [of n "2 ^ 31"] by simp
    with True show ?thesis by (simp add: bit_iff_odd)
  next
    case False
    then show ?thesis by (simp add: bit_iff_odd)
  qed
  ultimately show "sint (of_nat n :: 32 word) < 1 \<longleftrightarrow> n = 0 \<or> 2 ^ 31 \<le> n"
    using assms by auto
qed

lemma SM3_Hash_NOID_std:
  assumes "length (sm3_buffer c) = 64" "length m < 2 ^ 32"
  shows "SM3_Hash_NOID c m (of_nat (length m)) = (if m = [] \<or> 2 ^ 31 \<le> length m then Fail 2 else Ret (std_sm3 m))"
proof (cases "m = [] \<or> 2 ^ 31 \<le> length m")
  case True
  then show ?thesis by (simp add: SM3_Hash_NOID_def sint_length [OF assms(2)])
next
  case False
  then have "length m < 2 ^ 32 - 64" by simp
  then have "fst (SM3Final (SM3Update (SM3Init c) m)) = std_sm3 m"
    using rsaref.rep_fold [OF rsaref_rep_init [OF assms(1)], of "[m]"] by (simp add: rsaref.final_rep)
  with False show ?thesis by (auto simp: SM3_Hash_NOID_def sint_length [OF assms(2)])
qed

section \<open>Properties\<close>

text \<open>
  However a message is cut into pieces for \<^verbatim>\<open>SM3Update\<close>, with the padding and the
  count itself going through it, \<^verbatim>\<open>SM3Final\<close> gives the SM3 of the standard of the whole
  message: the digest of the other program for SM3.
\<close>

theorem rsaref_sm3_streaming:
  assumes "length (sm3_buffer c) = 64" "list_all (\<lambda>d. length d < 2 ^ 32 - 64) ds"
  shows "fst (SM3Final (foldl SM3Update (SM3Init c) ds)) = std_sm3 (concat ds)"
  using rsaref.rep_fold [OF rsaref_rep_init [OF assms(1)], of ds] assms(2)
  by (simp add: rsaref.final_rep list_all_iff)

theorem rsaref_sm3_streaming_witness:
  "fst (SM3Final (foldl SM3Update (SM3Init SM3_blank) [str ''a'', [], str ''bc''])) = std_sm3 (str ''abc'')"
  using rsaref_sm3_streaming [of SM3_blank "[str ''a'', [], str ''bc'']"] by (simp add: SM3_blank_def)

end
