(* ===== verification/Rsaref_Id.thy ===== *)
theory Rsaref_Id
  imports Rsaref_Sm3 Sm2
begin

text \<open>
  \<^verbatim>\<open>SocketRandom/src/algo/sm3.c\<close>: the hash of a message under a public key and the default
  identity, which \<^verbatim>\<open>agreement/sm2.c\<close> computes with another SM3 and its own copy of the constants.
\<close>

text \<open>
  The hash of a public key with the default identity. The array \<^verbatim>\<open>Indata\<close> has 300 bytes:
  a longer \<^verbatim>\<open>XY\<close> would overflow it (\<open>Fault\<close>), which its caller excludes.
\<close>

definition pID :: "byte list" where
  "pID = str ''1234567812345678''"

definition curve_ga :: "byte list" where
  "curve_ga = [0xFF, 0xFF, 0xFF, 0xFE, 0xFF, 0xFF, 0xFF, 0xFF, 0xFF, 0xFF, 0xFF, 0xFF, 0xFF, 0xFF, 0xFF, 0xFF,
     0xFF, 0xFF, 0xFF, 0xFF, 0x00, 0x00, 0x00, 0x00, 0xFF, 0xFF, 0xFF, 0xFF, 0xFF, 0xFF, 0xFF, 0xFC]"

definition curve_gb :: "byte list" where
  "curve_gb = [0x28, 0xE9, 0xFA, 0x9E, 0x9D, 0x9F, 0x5E, 0x34, 0x4D, 0x5A, 0x9E, 0x4B, 0xCF, 0x65, 0x09, 0xA7,
     0xF3, 0x97, 0x89, 0xF5, 0x15, 0xAB, 0x8F, 0x92, 0xDD, 0xBC, 0xBD, 0x41, 0x4D, 0x94, 0x0E, 0x93]"

definition curve_gx :: "byte list" where
  "curve_gx = [0x32, 0xC4, 0xAE, 0x2C, 0x1F, 0x19, 0x81, 0x19, 0x5F, 0x99, 0x04, 0x46, 0x6A, 0x39, 0xC9, 0x94,
     0x8F, 0xE3, 0x0B, 0xBF, 0xF2, 0x66, 0x0B, 0xE1, 0x71, 0x5A, 0x45, 0x89, 0x33, 0x4C, 0x74, 0xC7]"

definition curve_gy :: "byte list" where
  "curve_gy = [0xBC, 0x37, 0x36, 0xA2, 0xF4, 0xF6, 0x77, 0x9C, 0x59, 0xBD, 0xCE, 0xE3, 0x6B, 0x69, 0x21, 0x53,
     0xD0, 0xA9, 0x87, 0x7C, 0xC6, 0x2A, 0x47, 0x40, 0x02, 0xDF, 0x32, 0xE5, 0x21, 0x39, 0xF0, 0xA0]"

definition ECF_SCH :: "SM3_CTX \<Rightarrow> byte list \<Rightarrow> byte list outcome" where
  "ECF_SCH context XY =
     (let nIDLen = 16 :: nat;
          len = [of_nat (nIDLen * 8 div 2 ^ 8), of_nat nIDLen * 8];
          Indata = len @ pID @ curve_ga @ curve_gb @ curve_gx @ curve_gy @ XY
      in if length Indata > 300 then Fault else SM3_Hash_NOID context Indata (of_nat (length Indata)))"

text \<open>\<^verbatim>\<open>c1\<close> and \<^verbatim>\<open>c2\<close> are what the two contexts on the stack hold.\<close>

definition SM3_Hash_ID ::
  "SM3_CTX \<Rightarrow> SM3_CTX \<Rightarrow> byte list \<Rightarrow> 32 word \<Rightarrow> byte list \<Rightarrow> 32 word \<Rightarrow> byte list outcome"
where
  "SM3_Hash_ID c1 c2 XY XYLen inputData inputDataLen =
     (if XYLen \<noteq> 64 then Fail 1
      else if sint inputDataLen < 1 then Fail 2
      else if length XY < 64 \<or> length inputData < unat inputDataLen then Fault
      else obind (ECF_SCH c1 (take 64 XY)) (\<lambda>digest.
        let IDData = write_at (replicate 100 0) 0 digest;
            context = SM3Init c2;
            context = SM3Update context (take 32 IDData);
            context = SM3Update context (take (unat inputDataLen) inputData)
        in Ret (fst (SM3Final context))))"

section \<open>Properties\<close>

lemma ECF_SCH_std:
  assumes "length XY = 64" "length (sm3_buffer c) = 64"
  shows "ECF_SCH c XY = Ret (std_sm3 (id_prefix pID @ XY))"
proof -
  have len: "length curve_ga = 32" "length curve_gb = 32" "length curve_gx = 32" "length curve_gy = 32" "length pID = 16"
    by (simp_all add: curve_ga_def curve_gb_def curve_gx_def curve_gy_def pID_def)
  have par: "curve_ga @ curve_gb @ curve_gx @ curve_gy = sm2_par_dig"
    by (simp add: curve_ga_def curve_gb_def curve_gx_def curve_gy_def sm2_par_dig_def)
  have eq: "[of_nat (16 * 8 div 2 ^ 8), of_nat 16 * 8] @ pID @ curve_ga @ curve_gb @ curve_gx @ curve_gy @ XY
      = id_prefix pID @ XY"
    by (simp add: id_prefix_def len flip: par)
  have l: "length (id_prefix pID @ XY) = 210"
    using assms(1) by (simp add: id_prefix_def len flip: par)
  have "SM3_Hash_NOID c (id_prefix pID @ XY) (of_nat (length (id_prefix pID @ XY))) = Ret (std_sm3 (id_prefix pID @ XY))"
    using SM3_Hash_NOID_std [OF assms(2), of "id_prefix pID @ XY"] l by fastforce
  note this [unfolded l]
  then show ?thesis
    unfolding ECF_SCH_def Let_def eq l by simp
qed



end
