(* ===== verification/Srand.thy ===== *)
theory Srand
  imports Rsaref_Sm3
begin

text \<open>
  \<^verbatim>\<open>SocketRandom/src/sm3_srand.c\<close> and \<^verbatim>\<open>porting.c\<close>: the random generator on top of
  SM3, a global state that is seeded from a pool and gives at most 32 bytes a call. The clock, the
  result of \<^verbatim>\<open>malloc\<close> and what fresh memory holds are inputs of each call. A nonce that is
  NULL is the empty one: both are refused alike.
\<close>

unbundle bit_operations_syntax

section \<open>What a call finds outside the program\<close>

text \<open>\<^verbatim>\<open>gettimeofday\<close>: the seconds and the microseconds.\<close>

type_synonym timeval = "64 word \<times> 64 word"

text \<open>
  The clock as it is read for the pool, behind a seeding, and at the start of
  \<^verbatim>\<open>srand_sm3_generate\<close>; whether memory is given to the seeding and to the generation; what the
  context on the stack and the block of the generation hold.
\<close>

record srand_env =
  tv_entropy :: timeval
  tv_seed :: timeval
  tv_now :: timeval
  mem_seed :: bool
  mem_data :: bool
  stack_ctx :: SM3_CTX
  stale :: "nat \<Rightarrow> byte"

definition get_time :: "timeval \<Rightarrow> 64 word" where
  "get_time tv = fst tv * 1000000 + snd tv"

definition get_entropy :: "timeval \<Rightarrow> 32 word" where
  "get_entropy tv = ucast (snd tv)"

section \<open>The state and the pool\<close>

record srand_sm3_t =
  srand_V :: "byte list"
  srand_C :: "byte list"
  reseedLastTime :: "64 word"
  outCnt :: "32 word"
  outMaxTimes :: "32 word"
  outMaxInterval :: "64 word"
  srand_pool :: "32 word list"

abbreviation "SRAND_SM3_ERR_OK \<equiv> 0 :: int"
abbreviation "SRAND_SM3_ERR_PARAM \<equiv> 1 :: int"
abbreviation "SRAND_SM3_ERR_MALLOC \<equiv> 2 :: int"

definition twist_table :: "32 word list" where
  "twist_table = [0x00, 0xAF6B3073, 0xD9700E70, 0xDD7E22B6, 0x4636AE04, 0xB5C51761, 0x9F6E2C9F, 0xD302552D]"

definition pool_step :: "32 word \<Rightarrow> 32 word list \<Rightarrow> nat \<Rightarrow> 32 word list" where
  "pool_step g data j =
     (let temp = g XOR data ! j;
          temp = temp XOR data ! ((j + 1) mod 128);
          temp = temp XOR data ! ((j + 25) mod 128);
          temp = temp XOR data ! ((j + 51) mod 128);
          temp = temp XOR data ! ((j + 76) mod 128);
          temp = temp XOR data ! ((j + 103) mod 128);
          temp = drop_bit 3 temp XOR twist_table ! unat (temp AND 7)
      in data[j := temp])"

definition calc_pool :: "timeval \<Rightarrow> 32 word list \<Rightarrow> 32 word list" where
  "calc_pool tv buff = foldl (pool_step (get_entropy tv)) buff [0..<128]"

definition calc_df :: "SM3_CTX \<Rightarrow> byte list \<Rightarrow> byte list \<Rightarrow> int \<times> byte list" where
  "calc_df ctx data out =
     (if data = [] then (SRAND_SM3_ERR_PARAM, out)
      else (0, write_at out 0 (fst (SM3Final (SM3Update (SM3Init ctx) data)))))"

text \<open>The pool as a little-endian machine keeps it, for \<^verbatim>\<open>memcpy\<close>.\<close>

definition pool_bytes :: "32 word list \<Rightarrow> byte list" where
  "pool_bytes pool = concat (map store_le32 pool)"

section \<open>The operations\<close>

definition srand_zero :: srand_sm3_t where
  "srand_zero = \<lparr>srand_V = replicate 512 0, srand_C = replicate 512 0, reseedLastTime = 0, outCnt = 0,
     outMaxTimes = 0, outMaxInterval = 0, srand_pool = replicate 128 0\<rparr>"

definition srand_sm3_init :: "srand_env \<Rightarrow> byte list \<Rightarrow> srand_sm3_t \<Rightarrow> int \<times> srand_sm3_t" where
  "srand_sm3_init env pnonce s =
     (if pnonce = [] then (SRAND_SM3_ERR_PARAM, s)
      else if length pnonce > 512 then (SRAND_SM3_ERR_PARAM, s)
      else if \<not> mem_seed env then (SRAND_SM3_ERR_MALLOC, s)
      else
        let s = srand_zero;
            s = s\<lparr>srand_pool := calc_pool (tv_entropy env) (srand_pool s)\<rparr>;
            data = pool_bytes (srand_pool s) @ pnonce;
            s = s\<lparr>srand_V := snd (calc_df (stack_ctx env) data (srand_V s))\<rparr>
        in (SRAND_SM3_ERR_OK,
            s\<lparr>reseedLastTime := get_time (tv_seed env), outCnt := 1, outMaxTimes := 1024, outMaxInterval := 60\<rparr>))"

definition srand_sm3_reseed :: "srand_env \<Rightarrow> srand_sm3_t \<Rightarrow> int \<times> srand_sm3_t" where
  "srand_sm3_reseed env s =
     (if \<not> mem_seed env then (SRAND_SM3_ERR_MALLOC, s)
      else
        let s = s\<lparr>srand_pool := calc_pool (tv_entropy env) (srand_pool s)\<rparr>;
            data = [0x01] @ str ''1593577811'' @ pool_bytes (srand_pool s);
            s = s\<lparr>srand_V := snd (calc_df (stack_ctx env) data (srand_V s))\<rparr>
        in (SRAND_SM3_ERR_OK, s\<lparr>reseedLastTime := get_time (tv_seed env), outCnt := 1\<rparr>))"

text \<open>\<^verbatim>\<open>reseedFlag\<close>\<close>

definition reseed_due :: "srand_env \<Rightarrow> srand_sm3_t \<Rightarrow> bool" where
  "reseed_due env s \<longleftrightarrow> outCnt s \<ge> outMaxTimes s
     \<or> (get_time (tv_now env) - reseedLastTime s) div 1000000 \<ge> outMaxInterval s"

text \<open>
  The block that is hashed: the bytes 10 to 32 are never written. The result of the seeding is
  not looked at.
\<close>

definition generate_data :: "srand_env \<Rightarrow> byte list \<Rightarrow> byte list" where
  "generate_data env V = [0x02] @ str ''147258369'' @ map (stale env) [10..<33] @ V"

definition srand_sm3_generate ::
  "srand_env \<Rightarrow> nat \<Rightarrow> byte list option \<Rightarrow> srand_sm3_t \<Rightarrow> int \<times> byte list option \<times> srand_sm3_t"
where
  "srand_sm3_generate env len out s =
     (case out of None \<Rightarrow> (SRAND_SM3_ERR_PARAM, out, s)
      | Some buf \<Rightarrow>
        if len > 32 then (SRAND_SM3_ERR_PARAM, out, s)
        else
          let s = (if reseed_due env s then snd (srand_sm3_reseed env s) else s)
          in if \<not> mem_data env then (SRAND_SM3_ERR_MALLOC, out, s)
             else
               let hash = snd (calc_df (stack_ctx env) (generate_data env (srand_V s)) (replicate 32 0));
                   s = s\<lparr>srand_V := write_at (srand_V s) 0 (take 32 hash)\<rparr>
               in (SRAND_SM3_ERR_OK, Some (write_at buf 0 (take len hash)), s\<lparr>outCnt := outCnt s + 1\<rparr>))"

text \<open>Any sequence of calls, by the state it leaves.\<close>

datatype srand_call =
    Init srand_env "byte list"
  | Reseed srand_env
  | Generate srand_env nat "byte list option"

fun call_env :: "srand_call \<Rightarrow> srand_env" where
  "call_env (Init env _) = env"
| "call_env (Reseed env) = env"
| "call_env (Generate env _ _) = env"

fun srand_exec :: "srand_sm3_t \<Rightarrow> srand_call \<Rightarrow> srand_sm3_t" where
  "srand_exec s (Init env pnonce) = snd (srand_sm3_init env pnonce s)"
| "srand_exec s (Reseed env) = snd (srand_sm3_reseed env s)"
| "srand_exec s (Generate env len out) = snd (snd (srand_sm3_generate env len out s))"

section \<open>The invariant\<close>

definition env_ok :: "srand_env \<Rightarrow> bool" where
  "env_ok env \<longleftrightarrow> length (sm3_buffer (stack_ctx env)) = 64"

text \<open>Only the first 32 bytes of the 512 that are kept secret are ever anything but zero.\<close>

definition srand_ok :: "srand_sm3_t \<Rightarrow> bool" where
  "srand_ok s \<longleftrightarrow> length (srand_V s) = 512 \<and> drop 32 (srand_V s) = replicate 480 0 \<and> length (srand_pool s) = 128"

definition seeded :: "srand_sm3_t \<Rightarrow> bool" where
  "seeded s \<longleftrightarrow> srand_ok s \<and> outMaxTimes s = 1024 \<and> outMaxInterval s = 60"

lemma srand_ok_V: "srand_ok s \<Longrightarrow> length h = 32 \<Longrightarrow> write_at (srand_V s) 0 h = h @ replicate 480 0"
  by (simp add: srand_ok_def write_at_def)

lemma length_calc_pool: "length (calc_pool tv buff) = length buff"
proof -
  have "length (foldl (pool_step g) xs js) = length xs" for g xs js
    by (induction js arbitrary: xs) (simp_all add: pool_step_def Let_def)
  then show ?thesis by (simp add: calc_pool_def)
qed

lemma length_pool_bytes: "length (pool_bytes pool) = 4 * length pool"
  by (induction pool) (simp_all add: pool_bytes_def store_le32_def)

lemma calc_df_std:
  assumes "env_ok env" "data \<noteq> []" "length data < 2 ^ 32 - 64"
  shows "calc_df (stack_ctx env) data out = (0, write_at out 0 (std_sm3 data))"
  using assms rsaref.rep_fold [OF rsaref_rep_init, of "stack_ctx env" "[data]"]
  by (simp add: calc_df_def env_ok_def rsaref.final_rep)

lemma seed_data_short: "length pool = 128 \<Longrightarrow> length x \<le> 512 \<Longrightarrow> length (pool_bytes pool @ x) < 2 ^ 32 - 64"
  by (simp add: length_pool_bytes)

lemma init_seeded:
  assumes "env_ok env" "mem_seed env" "pnonce \<noteq> []" "length pnonce \<le> 512"
  shows "fst (srand_sm3_init env pnonce s) = SRAND_SM3_ERR_OK" "seeded (snd (srand_sm3_init env pnonce s))"
proof -
  define pool where "pool = calc_pool (tv_entropy env) (replicate 128 0)"
  have pool: "length pool = 128" by (simp add: pool_def length_calc_pool)
  have data: "pool_bytes pool @ pnonce \<noteq> []" using assms(3) by simp
  note df = calc_df_std [OF assms(1) data seed_data_short [OF pool assms(4)]]
  show "fst (srand_sm3_init env pnonce s) = SRAND_SM3_ERR_OK" "seeded (snd (srand_sm3_init env pnonce s))"
    using assms(2-4) pool
    by (simp_all add: srand_sm3_init_def Let_def srand_zero_def pool_def [symmetric] df seeded_def srand_ok_def
        write_at_def length_std_sm3)
qed

lemma reseed_ok:
  assumes "srand_ok s" "env_ok env" "mem_seed env"
  shows "srand_ok (snd (srand_sm3_reseed env s))" "outCnt (snd (srand_sm3_reseed env s)) = 1"
    "outMaxTimes (snd (srand_sm3_reseed env s)) = outMaxTimes s"
    "outMaxInterval (snd (srand_sm3_reseed env s)) = outMaxInterval s"
    "reseedLastTime (snd (srand_sm3_reseed env s)) = get_time (tv_seed env)"
proof -
  define pool where "pool = calc_pool (tv_entropy env) (srand_pool s)"
  have pool: "length pool = 128" using assms(1) by (simp add: pool_def length_calc_pool srand_ok_def)
  have "length ([0x01] @ str ''1593577811'' @ pool_bytes pool) < 2 ^ 32 - 64"
    by (simp add: length_pool_bytes pool)
  note df = calc_df_std [OF assms(2) _ this]
  show "srand_ok (snd (srand_sm3_reseed env s))" "outCnt (snd (srand_sm3_reseed env s)) = 1"
    "outMaxTimes (snd (srand_sm3_reseed env s)) = outMaxTimes s"
    "outMaxInterval (snd (srand_sm3_reseed env s)) = outMaxInterval s"
    "reseedLastTime (snd (srand_sm3_reseed env s)) = get_time (tv_seed env)"
    using assms(1,3) pool df
    by (simp_all add: srand_sm3_reseed_def Let_def pool_def [symmetric] srand_ok_def write_at_def length_std_sm3)
qed

lemma reseed_failed: "\<not> mem_seed env \<Longrightarrow> snd (srand_sm3_reseed env s) = s"
  by (simp add: srand_sm3_reseed_def)

lemma reseed_seeded: "seeded s \<Longrightarrow> env_ok env \<Longrightarrow> seeded (snd (srand_sm3_reseed env s))"
  using reseed_ok [of s env] by (cases "mem_seed env") (simp_all add: seeded_def reseed_failed)

text \<open>The state in which the bytes are made, and what they are made of.\<close>

definition generate_from :: "srand_env \<Rightarrow> srand_sm3_t \<Rightarrow> srand_sm3_t" where
  "generate_from env s = (if reseed_due env s then snd (srand_sm3_reseed env s) else s)"

lemma length_generate_data: "length (generate_data env V) = 33 + length V"
  by (simp add: generate_data_def)

lemma generate_ok:
  assumes "srand_ok (generate_from env s)" "env_ok env" "mem_data env" "len \<le> 32"
  defines "s1 \<equiv> generate_from env s"
  defines "h \<equiv> std_sm3 (generate_data env (srand_V s1))"
  shows "srand_sm3_generate env len (Some buf) s
    = (SRAND_SM3_ERR_OK, Some (write_at buf 0 (take len h)),
       s1\<lparr>srand_V := h @ replicate 480 0, outCnt := outCnt s1 + 1\<rparr>)"
proof -
  have "generate_data env (srand_V s1) \<noteq> []" "length (generate_data env (srand_V s1)) < 2 ^ 32 - 64"
    using assms(1) by (simp_all add: s1_def generate_data_def srand_ok_def)
  note df = calc_df_std [OF assms(2) this]
  have h: "length h = 32" by (simp add: h_def length_std_sm3)
  then have "snd (calc_df (stack_ctx env) (generate_data env (srand_V s1)) (replicate 32 0)) = h"
    by (simp add: df write_at_def h_def)
  then show ?thesis
    using assms(3,4) h srand_ok_V [OF assms(1) h]
    by (simp add: srand_sm3_generate_def generate_from_def [symmetric] s1_def [symmetric] Let_def)
qed

lemma from_seeded: "seeded s \<Longrightarrow> env_ok env \<Longrightarrow> seeded (generate_from env s)"
  using reseed_seeded by (simp add: generate_from_def)

lemma from_fresh:
  assumes "seeded s" "env_ok env" "mem_seed env \<or> \<not> reseed_due env s"
  shows "unat (outCnt (generate_from env s)) \<le> 1023"
    "reseedLastTime (generate_from env s) = get_time (tv_seed env)
     \<or> (get_time (tv_now env) - reseedLastTime (generate_from env s)) div 1000000 < 60"
proof -
  have "unat (outCnt s) \<le> 1023" if "\<not> reseed_due env s"
  proof -
    have "outCnt s < 1024" using that assms(1) by (simp add: reseed_due_def seeded_def not_le)
    then show ?thesis by (simp add: word_less_nat_alt)
  qed
  then show "unat (outCnt (generate_from env s)) \<le> 1023"
    using assms reseed_ok(2) [of s env] by (auto simp: generate_from_def seeded_def)
  show "reseedLastTime (generate_from env s) = get_time (tv_seed env)
     \<or> (get_time (tv_now env) - reseedLastTime (generate_from env s)) div 1000000 < 60"
    using assms reseed_ok(5) [of s env] by (auto simp: generate_from_def seeded_def reseed_due_def not_le)
qed

lemma from_stale: "\<not> mem_seed env \<Longrightarrow> generate_from env s = s"
  by (simp add: generate_from_def reseed_failed)

lemma output_seeded: "seeded s \<Longrightarrow> length h = 32 \<Longrightarrow> seeded (s\<lparr>srand_V := h @ replicate 480 0, outCnt := n\<rparr>)"
  by (simp add: seeded_def srand_ok_def)

lemma generate_seeded:
  assumes "seeded s" "env_ok env"
  shows "seeded (snd (snd (srand_sm3_generate env len out s)))"
proof -
  note f = from_seeded [OF assms]
  have ok: "srand_ok (generate_from env s)" using f by (simp add: seeded_def)
  consider buf where "out = Some buf" "len \<le> 32" "mem_data env"
    | buf where "out = Some buf" "len \<le> 32" "\<not> mem_data env" | "out = None \<or> 32 < len"
    by (cases out; cases "mem_data env"; cases "len \<le> 32") (auto simp: not_le)
  then show ?thesis
  proof cases
    case 1
    then show ?thesis
      using output_seeded [OF f length_std_sm3] by (simp add: generate_ok [OF ok assms(2)])
  next
    case 2
    then show ?thesis using f by (simp add: srand_sm3_generate_def generate_from_def [symmetric])
  next
    case 3
    then show ?thesis using assms(1) by (auto simp: srand_sm3_generate_def split: option.split)
  qed
qed

lemma exec_seeded: "seeded s \<Longrightarrow> env_ok (call_env c) \<Longrightarrow> seeded (srand_exec s c)"
proof (cases c)
  case (Init env pnonce)
  moreover assume "seeded s" "env_ok (call_env c)"
  ultimately show ?thesis
    using init_seeded(2) [of env pnonce s]
    by (cases "pnonce = [] \<or> length pnonce > 512 \<or> \<not> mem_seed env") (auto simp: srand_sm3_init_def)
qed (simp_all add: reseed_seeded generate_seeded)

lemma history_seeded:
  "seeded s \<Longrightarrow> list_all (\<lambda>c. env_ok (call_env c)) cs \<Longrightarrow> seeded (foldl srand_exec s cs)"
  by (induction cs arbitrary: s) (simp_all add: exec_seeded)

section \<open>Properties\<close>

text \<open>
  C25: after an initialisation, whatever calls follow and whichever of them get memory, a call of
  \<^verbatim>\<open>srand_sm3_generate\<close> that gets its own block succeeds, gives the first bytes of the new
  state and keeps the limits, the size of the pool and the zeros above the first 32 bytes of the
  state. When no seeding is due, or the seeding gets its memory, the bytes come from a seeding of
  this call or of less than sixty seconds before it, and the count of outputs is between 1 and 1024.
  A seeding that is due but gets no memory is passed over in silence: the bytes come from the old
  one, and the count goes on.
\<close>

theorem srand_output_fresh:
  assumes "env_ok env0" "mem_seed env0" "pnonce \<noteq> []" "length pnonce \<le> 512"
    and "list_all (\<lambda>c. env_ok (call_env c)) cs"
    and "s = foldl srand_exec (snd (srand_sm3_init env0 pnonce s0)) cs"
    and "env_ok env" "mem_data env" "len \<le> 32" "len \<le> length buf"
  shows "\<exists>out s'. srand_sm3_generate env len (Some buf) s = (SRAND_SM3_ERR_OK, Some out, s')
    \<and> length out = length buf \<and> drop len out = drop len buf \<and> take len out = take len (srand_V s')
    \<and> seeded s'
    \<and> (if reseed_due env s \<and> \<not> mem_seed env
       then outCnt s' = outCnt s + 1 \<and> reseedLastTime s' = reseedLastTime s
       else 1 \<le> unat (outCnt s') \<and> unat (outCnt s') \<le> 1024
         \<and> (reseedLastTime s' = get_time (tv_seed env)
           \<or> (get_time (tv_now env) - reseedLastTime s') div 1000000 < 60))"
proof -
  define s1 where "s1 = generate_from env s"
  define h where "h = std_sm3 (generate_data env (srand_V s1))"
  have s: "seeded s"
    unfolding assms(6) by (rule history_seeded [OF init_seeded(2) [OF assms(1-4)] assms(5)])
  note f = from_seeded [OF s assms(7)]
  have ok: "srand_ok (generate_from env s)" using f by (simp add: seeded_def)
  have h: "length h = 32" by (simp add: h_def length_std_sm3)
  have gen: "srand_sm3_generate env len (Some buf) s = (SRAND_SM3_ERR_OK, Some (take len h @ drop len buf),
      s1\<lparr>srand_V := h @ replicate 480 0, outCnt := outCnt s1 + 1\<rparr>)"
    using generate_ok [OF ok assms(7-9), of buf] h assms(9) by (simp add: write_at_def s1_def h_def)
  have count: "if reseed_due env s \<and> \<not> mem_seed env then outCnt s1 + 1 = outCnt s + 1 \<and> reseedLastTime s1 = reseedLastTime s
    else 1 \<le> unat (outCnt s1 + 1) \<and> unat (outCnt s1 + 1) \<le> 1024
      \<and> (reseedLastTime s1 = get_time (tv_seed env) \<or> (get_time (tv_now env) - reseedLastTime s1) div 1000000 < 60)"
  proof (cases "reseed_due env s \<and> \<not> mem_seed env")
    case True
    then show ?thesis by (simp add: s1_def from_stale)
  next
    case False
    then have m: "mem_seed env \<or> \<not> reseed_due env s" by blast
    note fresh = from_fresh [OF s assms(7) m, folded s1_def]
    have "unat (outCnt s1 + 1) = unat (outCnt s1) + 1" using fresh(1) by (simp add: unat_word_ariths)
    with fresh show ?thesis unfolding if_not_P [OF False] by simp
  qed
  have "seeded (s1\<lparr>srand_V := h @ replicate 480 0, outCnt := outCnt s1 + 1\<rparr>)"
    using output_seeded [OF f h] by (simp add: s1_def)
  with count show ?thesis unfolding gen using h assms(9,10) by (simp split: if_splits)
qed

text \<open>
  C26: after an output of 32 bytes the state of the generator is this output, followed by zeros.
  The bytes of the next call, when that one does not seed anew, are a function of the output and of
  the 23 bytes of uninitialised memory in the block of that call: nothing else of the state enters
  them.
\<close>

theorem srand_output_is_state:
  assumes "srand_ok (generate_from env s)" "env_ok env" "mem_data env" "length buf = 32"
    and "\<not> reseed_due env' (snd (snd (srand_sm3_generate env 32 (Some buf) s)))"
    and "env_ok env'" "mem_data env'" "len \<le> 32" "length buf' = len"
  shows "\<exists>out s'. srand_sm3_generate env 32 (Some buf) s = (SRAND_SM3_ERR_OK, Some out, s')
    \<and> srand_V s' = out @ replicate 480 0
    \<and> fst (snd (srand_sm3_generate env' len (Some buf') s'))
        = Some (take len (std_sm3 (generate_data env' (out @ replicate 480 0))))"
proof -
  define s1 where "s1 = generate_from env s"
  define h where "h = std_sm3 (generate_data env (srand_V s1))"
  define s' where "s' = s1\<lparr>srand_V := h @ replicate 480 0, outCnt := outCnt s1 + 1\<rparr>"
  have h: "length h = 32" by (simp add: h_def length_std_sm3)
  have first: "srand_sm3_generate env 32 (Some buf) s = (SRAND_SM3_ERR_OK, Some h, s')"
    using generate_ok [OF assms(1-3), of 32 buf] assms(4) h
    by (simp add: s1_def [symmetric] h_def [symmetric] s'_def write_at_def)
  have from': "generate_from env' s' = s'" "srand_V s' = h @ replicate 480 0"
    using assms(5) by (simp_all add: first generate_from_def s'_def)
  have "srand_ok s'" using assms(1) h by (simp add: s'_def s1_def srand_ok_def)
  then have "fst (snd (srand_sm3_generate env' len (Some buf') s'))
      = Some (take len (std_sm3 (generate_data env' (h @ replicate 480 0))))"
    using generate_ok [of env' s' len buf'] assms(6-9) by (simp add: from' write_at_def length_std_sm3)
  then show ?thesis using first from'(2) by simp
qed

definition demo_env :: srand_env where
  "demo_env = \<lparr>tv_entropy = (0, 123456), tv_seed = (7, 0), tv_now = (8, 500000), mem_seed = True, mem_data = True,
     stack_ctx = SM3_blank, stale = (\<lambda>_. 0)\<rparr>"

definition demo_srand :: srand_sm3_t where
  "demo_srand = srand_zero\<lparr>outCnt := 1, outMaxTimes := 1024, outMaxInterval := 60\<rparr>"

lemma demo_env_ok: "env_ok demo_env" "mem_seed demo_env" "mem_data demo_env"
  by (simp_all add: env_ok_def demo_env_def SM3_blank_def)

lemma init_V:
  assumes "env_ok env" "mem_seed env" "pnonce \<noteq> []" "length pnonce \<le> 512"
  shows "srand_V (snd (srand_sm3_init env pnonce s))
    = std_sm3 (pool_bytes (calc_pool (tv_entropy env) (replicate 128 0)) @ pnonce) @ replicate 480 0"
proof -
  define pool where "pool = calc_pool (tv_entropy env) (replicate 128 0)"
  have pool: "length pool = 128" by (simp add: pool_def length_calc_pool)
  have data: "pool_bytes pool @ pnonce \<noteq> []" using assms(3) by simp
  note df = calc_df_std [OF assms(1) data seed_data_short [OF pool assms(4)]]
  show ?thesis
    using assms(2-4) by (simp add: srand_sm3_init_def Let_def srand_zero_def pool_def [symmetric] df write_at_def length_std_sm3)
qed

text \<open>
  C27: all that a seeding takes from outside is the microsecond of the clock: for each nonce the
  initialisation leaves the generator in one of at most a million states.
\<close>

theorem srand_few_seeds:
  fixes pnonce :: "byte list" and s :: srand_sm3_t
  shows "let seeds = {srand_V (snd (srand_sm3_init env pnonce s)) | env.
     env_ok env \<and> mem_seed env \<and> snd (tv_entropy env) < 1000000}
   in finite seeds \<and> card seeds \<le> 1000000"
proof -
  define seeds where "seeds = {srand_V (snd (srand_sm3_init env pnonce s)) | env.
     env_ok env \<and> mem_seed env \<and> snd (tv_entropy env) < 1000000}"
  define f where "f n = srand_V (snd (srand_sm3_init (demo_env\<lparr>tv_entropy := (0, of_nat n)\<rparr>) pnonce s))" for n
  have "seeds \<subseteq> f ` {..<1000000}"
  proof
    fix v assume "v \<in> seeds"
    then obtain env where v: "v = srand_V (snd (srand_sm3_init env pnonce s))"
      and env: "env_ok env" "mem_seed env" "snd (tv_entropy env) < 1000000"
      by (auto simp: seeds_def)
    let ?e = "demo_env\<lparr>tv_entropy := (0, of_nat (unat (snd (tv_entropy env))))\<rparr>"
    have e: "env_ok ?e" "mem_seed ?e" by (simp_all add: env_ok_def demo_env_def SM3_blank_def)
    have "get_entropy (tv_entropy ?e) = get_entropy (tv_entropy env)" by (simp add: get_entropy_def)
    then have "calc_pool (tv_entropy ?e) = calc_pool (tv_entropy env)" by (simp add: calc_pool_def fun_eq_iff)
    then have "srand_V (snd (srand_sm3_init ?e pnonce s)) = v"
      using init_V [OF e, of pnonce s] init_V [OF env(1,2), of pnonce s]
      by (cases "pnonce = [] \<or> 512 < length pnonce") (auto simp: v srand_sm3_init_def)
    moreover have "unat (snd (tv_entropy env)) < 1000000" using env(3) by (simp add: word_less_nat_alt)
    ultimately show "v \<in> f ` {..<1000000}" by (force simp: f_def)
  qed
  then have "finite seeds \<and> card seeds \<le> 1000000"
    using finite_subset surj_card_le [of "{..<1000000}" seeds f] by auto
  then show ?thesis by (simp only: seeds_def Let_def)
qed

theorem srand_output_fresh_witness:
  "\<exists>out s'. srand_sm3_generate demo_env 16 (Some (replicate 20 0))
      (foldl srand_exec (snd (srand_sm3_init demo_env [1, 2, 3] srand_zero))
        [Generate demo_env 32 None, Reseed (demo_env\<lparr>mem_seed := False\<rparr>)])
      = (SRAND_SM3_ERR_OK, Some out, s') \<and> length out = 20 \<and> seeded s' \<and> unat (outCnt s') \<le> 1024"
proof -
  have "env_ok (demo_env\<lparr>mem_seed := False\<rparr>)" by (simp add: env_ok_def demo_env_def SM3_blank_def)
  then show ?thesis
    using srand_output_fresh [of demo_env "[1, 2, 3]" "[Generate demo_env 32 None, Reseed (demo_env\<lparr>mem_seed := False\<rparr>)]"
        _ srand_zero demo_env 16 "replicate 20 0", OF _ _ _ _ _ refl] demo_env_ok
    by fastforce
qed

theorem srand_output_is_state_witness:
  "\<exists>out s'. srand_sm3_generate demo_env 32 (Some (replicate 32 0)) demo_srand = (SRAND_SM3_ERR_OK, Some out, s')
    \<and> fst (snd (srand_sm3_generate demo_env 2 (Some [0, 0]) s'))
        = Some (take 2 (std_sm3 (generate_data demo_env (out @ replicate 480 0))))"
proof -
  have due: "\<not> reseed_due demo_env s" if "reseedLastTime s = 0" "outMaxTimes s = 1024" "outMaxInterval s = 60"
      "outCnt s < 1024" for s
    using that by (simp add: reseed_due_def demo_env_def get_time_def)
  have from_self: "generate_from demo_env demo_srand = demo_srand"
    using due [of demo_srand] by (simp add: generate_from_def demo_srand_def srand_zero_def)
  have ok: "srand_ok (generate_from demo_env demo_srand)"
    by (simp add: from_self) (simp add: srand_ok_def demo_srand_def srand_zero_def)
  have "\<not> reseed_due demo_env (snd (snd (srand_sm3_generate demo_env 32 (Some (replicate 32 0)) demo_srand)))"
    using generate_ok [OF ok demo_env_ok(1,3), of 32 "replicate 32 0"]
    by (intro due) (simp_all add: from_self, simp_all add: demo_srand_def srand_zero_def)
  from srand_output_is_state [OF ok demo_env_ok(1,3) _ this demo_env_ok(1,3), of 2 "[0, 0]"] show ?thesis
    by auto
qed

end
