(* ===== verification/Spec2Isabelle.thy ===== *)
theory Spec2Isabelle
  imports Core_String Core_Sha256 Sm3 Sm4 Mqtt_Topic Core_Auth Mqtt_Network Http_Token Http_Discipline Md5 Mpi_Type Sm2_Sign Sm2_Crypt Sm2_Agree Rsaref_Id Srand
begin

text \<open>
  A verification library for the C programs of this repository under \<^verbatim>\<open>src/Demo\<close>: the core of
  the link SDK (\<^verbatim>\<open>CLinkSDKQuickStarDemo/core\<close>), the hash functions and ciphers of
  \<^verbatim>\<open>agreement\<close>, \<^verbatim>\<open>MD5\<close>, and the random generator of \<^verbatim>\<open>SocketRandom\<close>. File names below
  are relative to these directories.

  \<^bold>\<open>The program and its parts.\<close> The link SDK connects a device with a cloud platform. A user
  of it creates a handle, sets options, and calls the interface of the MQTT client
  (\<^verbatim>\<open>aiot_mqtt_api.c\<close>) or the HTTP client (\<^verbatim>\<open>aiot_http_api.c\<close> over
  \<^verbatim>\<open>utils/core_http.c\<close>), possibly from several threads; what was received comes back through
  handlers. Both clients sign their credentials with \<^verbatim>\<open>utils/core_auth.c\<close>, which uses
  \<^verbatim>\<open>utils/core_sha256.c\<close>, build and take apart texts with \<^verbatim>\<open>utils/core_string.c\<close>, log
  through \<^verbatim>\<open>utils/core_log.c\<close>, and reach the operating system only through the table of
  functions \<^verbatim>\<open>aiot_sysdep_portfile_t\<close>.

  \<^bold>\<open>The state.\<close> Theory \<open>Sysdep\<close> models that table as a record of oracles, asked with a
  counter that grows with every question, so no two answers are tied to each other: the theorems
  hold for every clock, allocator, network and random source. The world also holds the trace of
  what the program does outside (bytes written, handlers called, log lines), the mutexes held,
  whether they were ever taken against the order of their ranks, the number of allocations, and
  a flag for a read or write outside a buffer. \<open>mqtt\<close> (theory \<open>Mqtt_Handle\<close>) and
  \<open>http\<close> (theory \<open>Core_Http\<close>) extend the world by the fields of the C handles. A routine is
  a function of the state monad; the order of its calls is the order of the code. Pure routines
  return an \<open>outcome\<close> (theory \<open>Prelude\<close>): a value, a status code, or \<open>Fault\<close> for an
  access outside the buffers. Integers that wrap are words of their width.

  \<^bold>\<open>The theories.\<close>
  \<^item> \<open>Prelude\<close>, \<open>State_Codes\<close>, \<open>Sysdep\<close>: bytes, outcomes, weakest preconditions
    (\<open>wp\<close>) and invariance (\<open>keeps\<close>) of monadic routines, the codes of
    \<^verbatim>\<open>aiot_state_api.h\<close>, the world.
  \<^item> \<open>Core_Number\<close>, \<open>Core_String\<close>: \<^verbatim>\<open>utils/core_string.c\<close>. Printers and parsers are
    inverse and stay in their buffers, \<open>core_sprintf\<close> allocates what it writes, the JSON search
    finds the first key, the calendar is the Gregorian one.
  \<^item> \<open>MD_Hash\<close>, \<open>Core_Sha256\<close>, \<open>Sm3\<close>, \<open>Md5\<close>, \<open>Rsaref_Sm3\<close>: the hash functions. The locale
    \<open>streaming_hash\<close> is their common contract (the pieces in which a message comes do not matter)
    and is interpreted for the four programs; each compression function is compared with the
    definition of its standard. \<open>Fips_Constants\<close> defines the constants of SHA-256 by the roots of the
    first primes, as real numbers, and proves the values of the tables.
  \<^item> \<open>Rsaref_Id\<close>, \<open>Srand\<close>: \<^verbatim>\<open>SocketRandom\<close>. The hash with an identity is the one of the
    signatures, for messages of the lengths both programs take; the random generator seeds itself in
    time while it gets memory, and how little it takes to predict it.
  \<^item> \<open>Sm4_Sbox\<close>, \<open>Sm4\<close>: \<^verbatim>\<open>agreement/sm4.c\<close>, the cipher against the standard, whose substitution
    is the inverse in a field of 256 elements between two affine maps, and the modes.
  \<^item> \<open>Mpi\<close>, \<open>Mpi_Value\<close>, \<open>Mpi_Multiply\<close>, \<open>Mpi_Bytes\<close>, \<open>Mpi_Type\<close>: \<^verbatim>\<open>agreement/mpi.c\<close>, the
    signed numbers of eight words against the integers. \<open>Mpi_Long\<close>, \<open>Mpi_Mod\<close>: numbers of sixteen
    words, both reductions, the inverse. \<open>Mpi_Square\<close>, \<open>Mpi_Reduce\<close>: the fast square is the square,
    and the fast reduction ends with the residue modulo the prime of the curve.
  \<^item> \<open>Sm2_Check\<close>, \<open>Sm2\<close>: \<^verbatim>\<open>agreement/sm2.c\<close>. The checks of keys rest on \<open>Mpi\<close>: a public key is
    accepted exactly when it is a point of the curve. \<open>Sm2_Curve\<close> states what the rest relies on of
    the library of big numbers (\<open>curve_laws\<close>, \<open>aes_laws\<close>, over the record \<open>miracl\<close>) and gives a
    group with these laws; \<open>Sm2_Sign\<close>, \<open>Sm2_Crypt\<close>, \<open>Sm2_Agree\<close>: signatures verify, ciphertexts
    decrypt, both sides of a key agreement get the same key, and where the code fails.
  \<^item> \<open>Core_Log\<close>, \<open>Core_Auth\<close>: log lines, credentials, global state and diagnostics.
  \<^item> \<open>Mqtt_Topic\<close>, \<open>Mqtt_Codec\<close>: filters against the levels of the MQTT standard, the
    variable-length integers and the properties of MQTT 5.0.
  \<^item> \<open>Mqtt_Handle\<close>, \<open>Mqtt_Connect\<close>, \<open>Mqtt_Receive\<close>, \<open>Mqtt_Api\<close>: the MQTT client, in
    the order of \<^verbatim>\<open>aiot_mqtt_api.c\<close>: lists, packets and connection, received packets, interface.
  \<^item> \<open>Mqtt_Lists\<close>, \<open>Mqtt_Calls\<close>, \<open>Mqtt_Discipline\<close>, \<open>Mqtt_Safety\<close>, \<open>Mqtt_Reach\<close>: the
    lists as finite sets (locale \<open>handle_list\<close>), the calls of the interface as data, one walk over
    all routines (\<open>disc\<close>) for the order of the mutexes, the well-formed lists, the count of
    running calls and the automaton of events, and what follows for the states that calls can
    reach from \<open>aiot_mqtt_init\<close>.
  \<^item> \<open>Mqtt_Wire\<close>, \<open>Mqtt_Outbox\<close>, \<open>Mqtt_Network\<close>: packets are framed, stay inside their
    buffers and arrive as they were sent (version 3.1.1); publishes are kept and repeated, an
    acknowledgement takes them off; the remaining length from the network; the back-off of
    reconnections.
  \<^item> \<open>Core_Http\<close>, \<open>Aiot_Http\<close>: the HTTP client. \<open>Http_Response\<close>, \<open>Http_Header\<close>,
    \<open>Http_Exchange\<close>, \<open>Http_Token\<close>: an answer of the server reaches the user whole, and the
    token of an authentication is stored. \<open>Http_Discipline\<close>: mutexes and counts.

  \<^bold>\<open>Fuel and bounds.\<close> Loops over buffers are structural or have a measure. Loops that wait for
  the network or the clock take fuel and answer \<open>None\<close> without it: the wait of the destructors
  (\<open>deinit_returns\<close> and \<open>core_deinit_returns_iff\<close> say when enough fuel exists), the reader of
  a header and the loop around the HTTP receive (\<open>http_response_delivered\<close> holds for every
  fuel above the length of the answer). Lengths of buffers are natural numbers below the
  range of their C type, stated as a hypothesis where it matters.

  \<^bold>\<open>Not modelled.\<close> The TLS and socket glue of \<^verbatim>\<open>sysdep/core_adapter.c\<close> and the port files,
  which only call mbedtls and the operating system, stand behind the oracles of the port. The
  linked lists of \<^verbatim>\<open>utils/core_list.h\<close> are lists. NULL checks of handles have no counterpart,
  for the handle is the state. Threads are not interleaved: every call of the interface runs as
  a whole, and the discipline of the mutexes is what the model says about concurrency. The
  arithmetic of the elliptic curve in the vendored library MIRACL is a parameter of \<open>Sm2\<close>, and the
  second variant of \<^verbatim>\<open>sm2.c\<close> for \<^verbatim>\<open>MR_STATIC\<close>, which repeats the same functions, is not compiled.
  The socket programs and the other small demos, and the other vendored libraries (mbedtls, nghttp2) are left out.
\<close>

end
